(* ===== verification/Prelude.thy ===== *)
theory Prelude
  imports Main "HOL-Library.Word" "HOL-Library.Char_ord" "HOL-Library.List_Lexorder"
begin

text \<open>
  Shared vocabulary of the development.

  \<^item> \<open>outcome\<close> is the result of a Rust function: \<open>Ok\<close>, \<open>Err\<close>, or \<open>Panic\<close> when the
    code runs into \<open>panic!\<close>, \<open>expect\<close>, \<open>unwrap\<close> or \<open>assert!\<close>. A Rust \<open>Option\<close> whose
    computation can panic is an outcome with the error type \<open>unit\<close>.
    \<open>and_then\<close> is Rust's \<open>Result::and_then\<close>, which is also what the \<open>?\<close> operator does.
  \<^item> Machine integers are words; the \<open>checked_\<close> operations are those of Rust's integer types.
  \<^item> A \<open>BTreeMap\<close> is an association list with strictly increasing keys; a \<open>HashMap\<close> is a
    partial function.
  \<^item> Big-endian byte strings, as \<open>to_be_bytes\<close> and \<open>from_be_bytes\<close> produce and read them.
\<close>

named_theorems outcome_simps
named_theorems checked_simps

type_synonym u8 = "8 word"
type_synonym u16 = "16 word"
type_synonym u32 = "32 word"
type_synonym u64 = "64 word"
type_synonym u128 = "128 word"
type_synonym i128 = "128 word"

section \<open>Outcomes\<close>

datatype ('a, 'e) outcome = Ok 'a | Err 'e | Panic

definition and_then :: "('a, 'e) outcome \<Rightarrow> ('a \<Rightarrow> ('b, 'e) outcome) \<Rightarrow> ('b, 'e) outcome" where
  "and_then r f = (case r of Ok x \<Rightarrow> f x | Err e \<Rightarrow> Err e | Panic \<Rightarrow> Panic)"

definition map_ok :: "('a \<Rightarrow> 'b) \<Rightarrow> ('a, 'e) outcome \<Rightarrow> ('b, 'e) outcome" where
  "map_ok f r = (case r of Ok x \<Rightarrow> Ok (f x) | Err e \<Rightarrow> Err e | Panic \<Rightarrow> Panic)"

definition map_err :: "('e \<Rightarrow> 'f) \<Rightarrow> ('a, 'e) outcome \<Rightarrow> ('a, 'f) outcome" where
  "map_err f r = (case r of Ok x \<Rightarrow> Ok x | Err e \<Rightarrow> Err (f e) | Panic \<Rightarrow> Panic)"

definition ok_or :: "'e \<Rightarrow> 'a option \<Rightarrow> ('a, 'e) outcome" where
  "ok_or e o' = (case o' of Some x \<Rightarrow> Ok x | None \<Rightarrow> Err e)"

definition expect :: "('a, 'e) outcome \<Rightarrow> ('a, 'f) outcome" where
  "expect r = (case r of Ok x \<Rightarrow> Ok x | _ \<Rightarrow> Panic)"

definition unwrap_opt :: "'a option \<Rightarrow> ('a, 'e) outcome" where
  "unwrap_opt o' = (case o' of Some x \<Rightarrow> Ok x | None \<Rightarrow> Panic)"

lemma and_then_simps [simp]:
  "and_then (Ok x) f = f x"
  "and_then (Err e) f = Err e"
  "and_then Panic f = Panic"
  by (simp_all add: and_then_def)

lemma map_ok_simps [simp]:
  "map_ok g (Ok x) = Ok (g x)"
  "map_ok g (Err e) = Err e"
  "map_ok g Panic = Panic"
  by (simp_all add: map_ok_def)

lemma map_err_simps [simp]:
  "map_err g (Ok x) = Ok x"
  "map_err g (Err e) = Err (g e)"
  "map_err g Panic = Panic"
  by (simp_all add: map_err_def)

lemma ok_or_simps [simp]:
  "ok_or e (Some x) = Ok x"
  "ok_or e None = Err e"
  by (simp_all add: ok_or_def)

lemma expect_simps [simp]:
  "expect (Ok x) = Ok x"
  "expect (Err e) = Panic"
  "expect Panic = Panic"
  by (simp_all add: expect_def)

lemma unwrap_opt_simps [simp]:
  "unwrap_opt (Some x) = Ok x"
  "unwrap_opt None = Panic"
  by (simp_all add: unwrap_opt_def)

lemma and_then_eq_Ok [outcome_simps]:
  "and_then r f = Ok y \<longleftrightarrow> (\<exists>x. r = Ok x \<and> f x = Ok y)"
  by (cases r) auto

lemma and_then_eq_Panic [outcome_simps]:
  "and_then r f = Panic \<longleftrightarrow> r = Panic \<or> (\<exists>x. r = Ok x \<and> f x = Panic)"
  by (cases r) auto

lemma map_ok_eq_Ok [outcome_simps]: "map_ok g r = Ok y \<longleftrightarrow> (\<exists>x. r = Ok x \<and> y = g x)"
  by (cases r) auto

lemma map_ok_eq_Panic [outcome_simps]: "map_ok g r = Panic \<longleftrightarrow> r = Panic"
  by (cases r) auto

lemma map_err_eq_Ok [outcome_simps]: "map_err g r = Ok y \<longleftrightarrow> r = Ok y"
  by (cases r) auto

lemma map_err_eq_Panic [outcome_simps]: "map_err g r = Panic \<longleftrightarrow> r = Panic"
  by (cases r) auto

lemma ok_or_eq_Ok [outcome_simps]: "ok_or e m = Ok y \<longleftrightarrow> m = Some y"
  by (cases m) auto

lemma ok_or_not_Panic [simp]: "ok_or e m \<noteq> Panic"
  by (cases m) auto

lemma expect_eq_Ok [outcome_simps]: "expect r = Ok y \<longleftrightarrow> r = Ok y"
  by (cases r) auto

lemma expect_not_Err [simp]: "expect r \<noteq> Err e"
  by (cases r) auto

lemma unwrap_opt_eq_Ok [outcome_simps]: "unwrap_opt m = Ok y \<longleftrightarrow> m = Some y"
  by (cases m) auto

lemma and_then_cong [fundef_cong]:
  "r = r' \<Longrightarrow> (\<And>x. r' = Ok x \<Longrightarrow> f x = g x) \<Longrightarrow> and_then r f = and_then r' g"
  by (cases r') auto

text \<open>The \<open>collect\<close> of an iterator of results: the first failure wins.\<close>

fun collect :: "('a \<Rightarrow> ('b, 'e) outcome) \<Rightarrow> 'a list \<Rightarrow> ('b list, 'e) outcome" where
  "collect f [] = Ok []"
| "collect f (x # xs) = and_then (f x) (\<lambda>y. and_then (collect f xs) (\<lambda>ys. Ok (y # ys)))"

lemma collect_cong [fundef_cong]:
  "xs = ys \<Longrightarrow> (\<And>x. x \<in> set ys \<Longrightarrow> f x = g x) \<Longrightarrow> collect f xs = collect g ys"
  by (induction ys arbitrary: xs) auto

lemma collect_Ok_length: "collect f xs = Ok ys \<Longrightarrow> length ys = length xs"
  by (induction xs arbitrary: ys) (auto simp: outcome_simps)

lemma collect_Ok_set:
  "collect f xs = Ok ys \<Longrightarrow> y \<in> set ys \<Longrightarrow> \<exists>x \<in> set xs. f x = Ok y"
  by (induction xs arbitrary: ys) (auto simp: outcome_simps)

text \<open>The \<open>try_fold\<close> of an iterator over a fallible step.\<close>

fun try_fold :: "('b \<Rightarrow> 'a \<Rightarrow> 'b option) \<Rightarrow> 'b \<Rightarrow> 'a list \<Rightarrow> 'b option" where
  "try_fold f acc [] = Some acc"
| "try_fold f acc (x # xs) = Option.bind (f acc x) (\<lambda>acc'. try_fold f acc' xs)"

fun try_fold_r :: "('b \<Rightarrow> 'a \<Rightarrow> ('b, 'e) outcome) \<Rightarrow> 'b \<Rightarrow> 'a list \<Rightarrow> ('b, 'e) outcome" where
  "try_fold_r f acc [] = Ok acc"
| "try_fold_r f acc (x # xs) = and_then (f acc x) (\<lambda>acc'. try_fold_r f acc' xs)"

section \<open>Methods with mutable state\<close>

text \<open>
  A method on \<open>&mut self\<close> returns its result and the state it leaves, which an early return by \<open>?\<close>
  leaves as it is at that point. The state beside a \<open>Panic\<close> means nothing.
\<close>

type_synonym ('s, 'a, 'e) routine = "'s \<Rightarrow> ('a, 'e) outcome \<times> 's"

definition seq :: "('s, 'a, 'e) routine \<Rightarrow> ('a \<Rightarrow> ('s, 'b, 'e) routine) \<Rightarrow> ('s, 'b, 'e) routine" where
  "seq m f s = (case m s of (Ok x, s') \<Rightarrow> f x s' | (Err e, s') \<Rightarrow> (Err e, s') | (Panic, s') \<Rightarrow> (Panic, s'))"

definition give :: "'a \<Rightarrow> ('s, 'a, 'e) routine" where
  "give x s = (Ok x, s)"

definition attempt :: "('a, 'e) outcome \<Rightarrow> ('s, 'a, 'e) routine" where
  "attempt r s = (r, s)"

lemma seq_simps [simp]:
  "m s = (Ok x, s') \<Longrightarrow> seq m f s = f x s'"
  "m s = (Err e, s') \<Longrightarrow> seq m f s = (Err e, s')"
  "m s = (Panic, s') \<Longrightarrow> seq m f s = (Panic, s')"
  by (simp_all add: seq_def)

lemma seq_give [simp]: "seq (give x) f = f x"
  by (simp add: seq_def give_def fun_eq_iff)

lemma give_apply [simp]: "give x s = (Ok x, s)"
  by (simp add: give_def)

lemma attempt_apply [simp]: "attempt r s = (r, s)"
  by (simp add: attempt_def)

section \<open>Simulations\<close>

text \<open>
  Two computations agree up to a relation when both succeed with related results, fail with the same
  error, or both panic. A \<open>simulation\<close> is a relation that every step of two machines keeps.
\<close>

fun sim_outcome :: "('a \<Rightarrow> 'b \<Rightarrow> bool) \<Rightarrow> ('a, 'e) outcome \<Rightarrow> ('b, 'e) outcome \<Rightarrow> bool" where
  "sim_outcome R (Ok x) (Ok y) = R x y"
| "sim_outcome R (Err e) (Err e') = (e = e')"
| "sim_outcome R Panic Panic = True"
| "sim_outcome R _ _ = False"

fun run_steps :: "('o \<Rightarrow> 'w \<Rightarrow> ('w, 'e) outcome) \<Rightarrow> 'o list \<Rightarrow> 'w \<Rightarrow> ('w, 'e) outcome" where
  "run_steps step [] w = Ok w"
| "run_steps step (x # xs) w = and_then (step x w) (run_steps step xs)"

lemma run_steps_append: "run_steps step (xs @ ys) w = and_then (run_steps step xs w) (run_steps step ys)"
  by (induction xs arbitrary: w) (auto simp: and_then_def split: outcome.splits)

lemma sim_outcome_mono:
  "sim_outcome R r r' \<Longrightarrow> (\<And>x y. R x y \<Longrightarrow> Q x y) \<Longrightarrow> sim_outcome Q r r'"
  by (cases r; cases r') auto

lemma sim_outcome_Ok_right: "sim_outcome R r (Ok y) \<longleftrightarrow> (\<exists>x. r = Ok x \<and> R x y)"
  by (cases r) auto

lemma sim_outcome_and_then:
  "sim_outcome R r r' \<Longrightarrow> (\<And>x y. R x y \<Longrightarrow> sim_outcome Q (f x) (g y)) \<Longrightarrow>
   sim_outcome Q (and_then r f) (and_then r' g)"
  by (cases r; cases r') auto

locale simulation =
  fixes rel :: "'a \<Rightarrow> 'b \<Rightarrow> bool"
    and step :: "'o \<Rightarrow> 'a \<Rightarrow> ('a, 'e) outcome"
    and step' :: "'o \<Rightarrow> 'b \<Rightarrow> ('b, 'e) outcome"
  assumes step_simulates: "rel x y \<Longrightarrow> sim_outcome rel (step op x) (step' op y)"
begin

lemma run_simulates: "rel x y \<Longrightarrow> sim_outcome rel (run_steps step ops x) (run_steps step' ops y)"
  by (induction ops arbitrary: x y) (auto intro!: sim_outcome_and_then step_simulates)

end

section \<open>Checked machine arithmetic\<close>

definition checked_add :: "'a::len word \<Rightarrow> 'a word \<Rightarrow> 'a word option" where
  "checked_add a b = (if unat a + unat b < 2 ^ LENGTH('a) then Some (a + b) else None)"

definition checked_sub :: "'a::len word \<Rightarrow> 'a word \<Rightarrow> 'a word option" where
  "checked_sub a b = (if unat b \<le> unat a then Some (a - b) else None)"

definition checked_mul :: "'a::len word \<Rightarrow> 'a word \<Rightarrow> 'a word option" where
  "checked_mul a b = (if unat a * unat b < 2 ^ LENGTH('a) then Some (a * b) else None)"

lemma unat_lt2p: "unat (a :: 'a::len word) < 2 ^ LENGTH('a)"
  by simp

lemma checked_add_Some [checked_simps]:
  "checked_add a b = Some c \<longleftrightarrow> unat (c :: 'a::len word) = unat a + unat b"
  by (auto simp: checked_add_def unat_word_ariths word_unat_eq_iff) (metis unat_lt2p)

lemma checked_add_None [checked_simps]:
  "checked_add a b = None \<longleftrightarrow> 2 ^ LENGTH('a) \<le> unat (a :: 'a::len word) + unat b"
  by (auto simp: checked_add_def)

lemma checked_mul_Some [checked_simps]:
  "checked_mul a b = Some c \<longleftrightarrow> unat (c :: 'a::len word) = unat a * unat b"
  by (auto simp: checked_mul_def unat_word_ariths word_unat_eq_iff) (metis unat_lt2p)

lemma checked_mul_None [checked_simps]:
  "checked_mul a b = None \<longleftrightarrow> 2 ^ LENGTH('a) \<le> unat (a :: 'a::len word) * unat b"
  by (auto simp: checked_mul_def)

lemma checked_sub_Some [checked_simps]:
  "checked_sub a b = Some c \<longleftrightarrow> unat (a :: 'a::len word) = unat b + unat c"
proof
  assume "checked_sub a b = Some c"
  then have le: "unat b \<le> unat a" and c: "c = a - b"
    by (auto simp: checked_sub_def split: if_splits)
  from le have "b \<le> a" by (simp add: word_le_nat_alt)
  then have "unat (a - b) = unat a - unat b" by (simp add: unat_sub)
  with le c show "unat a = unat b + unat c" by simp
next
  assume h: "unat a = unat b + unat c"
  then have le: "unat b \<le> unat a" by simp
  then have "b \<le> a" by (simp add: word_le_nat_alt)
  then have "unat (a - b) = unat c" using h by (simp add: unat_sub)
  then have "a - b = c" by (simp add: word_unat_eq_iff)
  with le show "checked_sub a b = Some c" by (simp add: checked_sub_def)
qed

lemma checked_sub_None [checked_simps]:
  "checked_sub a b = None \<longleftrightarrow> unat (a :: 'a::len word) < unat b"
  by (auto simp: checked_sub_def)

section \<open>Ordered maps\<close>

text \<open>
  The entries of a \<open>BTreeMap\<close> in iteration order. Insertion keeps the keys strictly
  increasing and replaces the value of a key that is already there.
\<close>

type_synonym ('k, 'v) btree = "('k \<times> 'v) list"

fun bt_insert :: "'k::linorder \<Rightarrow> 'v \<Rightarrow> ('k, 'v) btree \<Rightarrow> ('k, 'v) btree" where
  "bt_insert k v [] = [(k, v)]"
| "bt_insert k v ((k', v') # m) =
     (if k < k' then (k, v) # (k', v') # m
      else if k = k' then (k, v) # m
      else (k', v') # bt_insert k v m)"

definition bt_wf :: "('k::linorder, 'v) btree \<Rightarrow> bool" where
  "bt_wf m \<longleftrightarrow> sorted_wrt (<) (map fst m)"

abbreviation bt_get :: "('k, 'v) btree \<Rightarrow> 'k \<Rightarrow> 'v option" where
  "bt_get m k \<equiv> map_of m k"

lemma bt_wf_Nil [simp]: "bt_wf []"
  by (simp add: bt_wf_def)

lemma bt_wf_Cons: "bt_wf ((k, v) # m) \<longleftrightarrow> (\<forall>k' \<in> fst ` set m. k < k') \<and> bt_wf m"
  by (auto simp: bt_wf_def)

lemma bt_wf_distinct: "bt_wf m \<Longrightarrow> distinct (map fst m)"
  by (simp add: bt_wf_def strict_sorted_iff)

lemma bt_insert_keys: "fst ` set (bt_insert k v m) = insert k (fst ` set m)"
  by (induction k v m rule: bt_insert.induct) auto

lemma bt_insert_wf: "bt_wf m \<Longrightarrow> bt_wf (bt_insert k v m)"
  by (induction k v m rule: bt_insert.induct) (auto simp: bt_wf_Cons bt_insert_keys)

lemma bt_insert_get: "bt_wf m \<Longrightarrow> bt_get (bt_insert k v m) = (bt_get m)(k \<mapsto> v)"
proof (induction k v m rule: bt_insert.induct)
  case (2 k v k' v' m)
  show ?case
  proof (cases "k < k'")
    case True
    then show ?thesis by auto
  next
    case False
    with 2 show ?thesis by (auto simp: bt_wf_Cons fun_upd_twist)
  qed
qed simp

lemma bt_insert_fresh_length:
  "k \<notin> fst ` set m \<Longrightarrow> length (bt_insert k v m) = Suc (length m)"
  by (induction k v m rule: bt_insert.induct) auto

lemma bt_insert_set_fresh:
  "k \<notin> fst ` set m \<Longrightarrow> set (bt_insert k v m) = insert (k, v) (set m)"
  by (induction k v m rule: bt_insert.induct) auto

text \<open>Inserting a key above every key present appends it: what deserialising an ordered map does.\<close>

lemma bt_insert_above: "\<forall>k' \<in> fst ` set m. k' < k \<Longrightarrow> bt_insert k v m = m @ [(k, v)]"
  by (induction k v m rule: bt_insert.induct) (auto dest: less_asym)

lemma bt_wf_append:
  "bt_wf (m @ n) \<longleftrightarrow> bt_wf m \<and> bt_wf n \<and> (\<forall>k \<in> fst ` set m. \<forall>k' \<in> fst ` set n. k < k')"
  by (auto simp: bt_wf_def sorted_wrt_append)

section \<open>Big-endian byte strings\<close>

fun to_be_bytes :: "nat \<Rightarrow> nat \<Rightarrow> u8 list" where
  "to_be_bytes 0 x = []"
| "to_be_bytes (Suc n) x = to_be_bytes n (x div 256) @ [word_of_nat (x mod 256)]"

definition from_be_bytes :: "u8 list \<Rightarrow> nat" where
  "from_be_bytes bs = foldl (\<lambda>a b. a * 256 + unat b) 0 bs"

lemma from_be_bytes_snoc [simp]: "from_be_bytes (bs @ [b]) = from_be_bytes bs * 256 + unat b"
  by (simp add: from_be_bytes_def)

lemma from_be_bytes_Nil [simp]: "from_be_bytes [] = 0"
  by (simp add: from_be_bytes_def)

lemma to_be_bytes_length [simp]: "length (to_be_bytes n x) = n"
  by (induction n arbitrary: x) auto

lemma unat_byte_of_mod [simp]: "unat (word_of_nat (x mod 256) :: u8) = x mod 256"
  by (simp add: unat_of_nat)

lemma from_to_be_bytes: "x < 256 ^ n \<Longrightarrow> from_be_bytes (to_be_bytes n x) = x"
proof (induction n arbitrary: x)
  case (Suc n)
  then have "x div 256 < 256 ^ n" by (simp add: less_mult_imp_div_less mult.commute)
  with Suc.IH show ?case by simp
qed simp

lemma from_be_bytes_bound: "from_be_bytes bs < 256 ^ length bs"
proof (induction bs rule: rev_induct)
  case (snoc b bs)
  have "unat b < 256" using unat_lt2p [of b] by simp
  with snoc show ?case by simp
qed simp

lemma to_from_be_bytes: "to_be_bytes (length bs) (from_be_bytes bs) = bs"
proof (induction bs rule: rev_induct)
  case (snoc b bs)
  have "unat b < 256" using unat_lt2p [of b] by simp
  with snoc show ?case by (simp add: div_mult1_eq)
qed simp

definition word_to_be :: "'a::len word \<Rightarrow> u8 list" where
  "word_to_be w = to_be_bytes (LENGTH('a) div 8) (unat w)"

definition word_from_be :: "u8 list \<Rightarrow> 'a::len word" where
  "word_from_be bs = word_of_nat (from_be_bytes bs)"

lemma word_to_be_length [simp]: "length (word_to_be (w :: 'a::len word)) = LENGTH('a) div 8"
  by (simp add: word_to_be_def)

lemma word_from_to_be:
  assumes "LENGTH('a::len) = 8 * n"
  shows "word_from_be (word_to_be w) = (w :: 'a word)"
proof -
  have "(256::nat) ^ n = 2 ^ LENGTH('a)"
    using assms by (simp add: power_mult)
  then have "unat w < 256 ^ n" using unat_lt2p [of w] by simp
  with assms show ?thesis
    by (simp add: word_from_be_def word_to_be_def from_to_be_bytes)
qed

lemma word_from_to_be_widths [simp]:
  "word_from_be (word_to_be (w1 :: u128)) = w1"
  "word_from_be (word_to_be (w2 :: u64)) = w2"
  "word_from_be (word_to_be (w3 :: u32)) = w3"
  "word_from_be (word_to_be (w4 :: u16)) = w4"
  "word_from_be (word_to_be (w5 :: u8)) = w5"
  by (rule word_from_to_be [where n = 16] word_from_to_be [where n = 8]
        word_from_to_be [where n = 4] word_from_to_be [where n = 2]
        word_from_to_be [where n = 1]; simp)+

lemma word_to_from_be:
  assumes "LENGTH('a::len) = 8 * n" and "length bs = n"
  shows "word_to_be (word_from_be bs :: 'a word) = bs"
proof -
  have "(256::nat) ^ n = 2 ^ LENGTH('a)"
    using assms(1) by (simp add: power_mult)
  with from_be_bytes_bound [of bs] assms(2)
  have "from_be_bytes bs < 2 ^ LENGTH('a)" by simp
  then have "unat (word_of_nat (from_be_bytes bs) :: 'a word) = from_be_bytes bs"
    by (simp add: unat_of_nat)
  with assms to_from_be_bytes [of bs] show ?thesis
    by (simp add: word_to_be_def word_from_be_def)
qed

end
