(* ===== verification/Costs.thy ===== *)
theory Costs
  imports Prelude
begin

text \<open>
  Execution costs of the Clarity VM, \<open>src/src/vm/costs/mod.rs\<close>: five-dimensional costs, their
  overflow-checked arithmetic, the cost functions, and the tracker that charges them against a
  limit. A method on \<open>&mut self\<close> returns its result together with the state it leaves behind,
  on the error paths too: \<open>ExecutionCost::add\<close> stops at the first overflowing dimension and
  keeps the dimensions it has already written.
\<close>

section \<open>Data\<close>

record execution_cost =
  write_length :: u64
  write_count :: u64
  read_length :: u64
  read_count :: u64
  runtime :: u64

datatype cost_errors =
    CostOverflow
  | CostBalanceExceeded execution_cost execution_cost
  | MemoryBalanceExceeded u64 u64

record limited_cost_tracker =
  total :: execution_cost
  limit :: execution_cost
  memory :: u64
  memory_limit :: u64

datatype cost_function =
    Constant u64
  | Linear u64 u64
  | NLogN u64 u64
  | LogN u64 u64

record simple_cost_specification =
  spec_write_count :: cost_function
  spec_write_length :: cost_function
  spec_read_count :: cost_function
  spec_read_length :: cost_function
  spec_runtime :: cost_function

definition CLARITY_MEMORY_LIMIT :: u64 where
  "CLARITY_MEMORY_LIMIT = 100 * 1000 * 1000"

section \<open>Overflow-checked arithmetic\<close>

definition cost_overflow_mul :: "u64 \<Rightarrow> u64 \<Rightarrow> (u64, cost_errors) outcome" where
  "cost_overflow_mul a b = ok_or CostOverflow (checked_mul a b)"

definition cost_overflow_add :: "u64 \<Rightarrow> u64 \<Rightarrow> (u64, cost_errors) outcome" where
  "cost_overflow_add a b = ok_or CostOverflow (checked_add a b)"

definition cost_zero :: execution_cost where
  "cost_zero = \<lparr>write_length = 0, write_count = 0, read_length = 0, read_count = 0, runtime = 0\<rparr>"

definition cost_max_value :: execution_cost where
  "cost_max_value = \<lparr>write_length = - 1, write_count = - 1, read_length = - 1, read_count = - 1,
                     runtime = - 1\<rparr>"

definition cost_runtime :: "u64 \<Rightarrow> execution_cost" where
  "cost_runtime r = cost_zero\<lparr>runtime := r\<rparr>"

text \<open>
  One assignment \<open>self.f = self.f.op(x)?\<close>: on success the field is written and the rest runs,
  on failure the state stays as it is.
\<close>

definition assign_try ::
  "(u64, cost_errors) outcome \<Rightarrow> (u64 \<Rightarrow> 's \<Rightarrow> 's) \<Rightarrow>
   ('s \<Rightarrow> (unit, cost_errors) outcome \<times> 's) \<Rightarrow> 's \<Rightarrow> (unit, cost_errors) outcome \<times> 's" where
  "assign_try r upd k s = (case r of Ok v \<Rightarrow> k (upd v s) | Err e \<Rightarrow> (Err e, s) | Panic \<Rightarrow> (Panic, s))"

definition cost_add_runtime :: "execution_cost \<Rightarrow> u64 \<Rightarrow> (unit, cost_errors) outcome \<times> execution_cost" where
  "cost_add_runtime s r =
     assign_try (cost_overflow_add (runtime s) r) (\<lambda>v s. s\<lparr>runtime := v\<rparr>) (\<lambda>s. (Ok (), s)) s"

definition cost_pointwise ::
  "(u64 \<Rightarrow> u64 \<Rightarrow> (u64, cost_errors) outcome) \<Rightarrow> execution_cost \<Rightarrow> execution_cost \<Rightarrow>
   (unit, cost_errors) outcome \<times> execution_cost" where
  "cost_pointwise f s c =
     assign_try (f (runtime s) (runtime c)) (\<lambda>v s. s\<lparr>runtime := v\<rparr>) (\<lambda>s.
     assign_try (f (read_count s) (read_count c)) (\<lambda>v s. s\<lparr>read_count := v\<rparr>) (\<lambda>s.
     assign_try (f (read_length s) (read_length c)) (\<lambda>v s. s\<lparr>read_length := v\<rparr>) (\<lambda>s.
     assign_try (f (write_length s) (write_length c)) (\<lambda>v s. s\<lparr>write_length := v\<rparr>) (\<lambda>s.
     assign_try (f (write_count s) (write_count c)) (\<lambda>v s. s\<lparr>write_count := v\<rparr>) (\<lambda>s.
     (Ok (), s)) s) s) s) s) s"

definition cost_add :: "execution_cost \<Rightarrow> execution_cost \<Rightarrow> (unit, cost_errors) outcome \<times> execution_cost" where
  "cost_add s c = cost_pointwise cost_overflow_add s c"

definition cost_multiply :: "execution_cost \<Rightarrow> u64 \<Rightarrow> (unit, cost_errors) outcome \<times> execution_cost" where
  "cost_multiply s n =
     cost_pointwise cost_overflow_mul s
       \<lparr>write_length = n, write_count = n, read_length = n, read_count = n, runtime = n\<rparr>"

definition cost_exceeds :: "execution_cost \<Rightarrow> execution_cost \<Rightarrow> bool" where
  "cost_exceeds a b \<longleftrightarrow>
     runtime a > runtime b \<or> write_length a > write_length b \<or> write_count a > write_count b \<or>
     read_count a > read_count b \<or> read_length a > read_length b"

definition max_cost :: "execution_cost \<Rightarrow> execution_cost \<Rightarrow> execution_cost" where
  "max_cost a b =
     \<lparr>write_length = max (write_length a) (write_length b),
      write_count = max (write_count a) (write_count b),
      read_length = max (read_length a) (read_length b),
      read_count = max (read_count a) (read_count b),
      runtime = max (runtime a) (runtime b)\<rparr>"

section \<open>Cost functions\<close>

definition leading_zeros :: "'a::len word \<Rightarrow> nat" where
  "leading_zeros w = length (takeWhile (\<lambda>b. \<not> b) (rev (map (bit w) [0..<LENGTH('a)])))"

definition trailing_zeros :: "'a::len word \<Rightarrow> nat" where
  "trailing_zeros w = length (takeWhile (\<lambda>b. \<not> b) (map (bit w) [0..<LENGTH('a)]))"

definition int_log2 :: "u64 \<Rightarrow> u64 option" where
  "int_log2 x =
     (if leading_zeros x > 63 then None
      else let floor_log = 63 - leading_zeros x
           in Some (if trailing_zeros x = floor_log then word_of_nat floor_log
                    else word_of_nat (floor_log + 1)))"

fun cost_function_compute :: "cost_function \<Rightarrow> u64 \<Rightarrow> (u64, cost_errors) outcome" where
  "cost_function_compute (Constant v) x = Ok v"
| "cost_function_compute (Linear a b) x =
     and_then (cost_overflow_mul a x) (\<lambda>y. cost_overflow_add y b)"
| "cost_function_compute (LogN a b) x =
     and_then (ok_or CostOverflow (int_log2 (max x 1))) (\<lambda>l.
     and_then (cost_overflow_mul l a) (\<lambda>y. cost_overflow_add y b))"
| "cost_function_compute (NLogN a b) x =
     and_then (ok_or CostOverflow (int_log2 (max x 1))) (\<lambda>l.
     and_then (cost_overflow_mul l x) (\<lambda>y.
     and_then (cost_overflow_mul y a) (\<lambda>z. cost_overflow_add z b)))"

definition compute_cost :: "simple_cost_specification \<Rightarrow> u64 \<Rightarrow> (execution_cost, cost_errors) outcome" where
  "compute_cost sp x =
     and_then (cost_function_compute (spec_write_length sp) x) (\<lambda>wl.
     and_then (cost_function_compute (spec_write_count sp) x) (\<lambda>wc.
     and_then (cost_function_compute (spec_read_count sp) x) (\<lambda>rc.
     and_then (cost_function_compute (spec_read_length sp) x) (\<lambda>rl.
     and_then (cost_function_compute (spec_runtime sp) x) (\<lambda>rt.
     Ok \<lparr>write_length = wl, write_count = wc, read_length = rl, read_count = rc, runtime = rt\<rparr>)))))"

definition cost_to_specification :: "execution_cost \<Rightarrow> simple_cost_specification" where
  "cost_to_specification c =
     \<lparr>spec_write_count = Constant (write_count c), spec_write_length = Constant (write_length c),
      spec_read_count = Constant (read_count c), spec_read_length = Constant (read_length c),
      spec_runtime = Constant (runtime c)\<rparr>"

section \<open>The tracker\<close>

definition tracker_new :: "execution_cost \<Rightarrow> limited_cost_tracker" where
  "tracker_new l = \<lparr>total = cost_zero, limit = l, memory = 0, memory_limit = CLARITY_MEMORY_LIMIT\<rparr>"

definition tracker_new_max_limit :: limited_cost_tracker where
  "tracker_new_max_limit = tracker_new cost_max_value"

definition add_cost :: "limited_cost_tracker \<Rightarrow> execution_cost \<Rightarrow>
    (unit, cost_errors) outcome \<times> limited_cost_tracker" where
  "add_cost s c =
     (case cost_add (total s) c of
        (Ok _, t) \<Rightarrow>
          (if cost_exceeds t (limit s) then Err (CostBalanceExceeded t (limit s)) else Ok (),
           s\<lparr>total := t\<rparr>)
      | (Err e, t) \<Rightarrow> (Err e, s\<lparr>total := t\<rparr>)
      | (Panic, t) \<Rightarrow> (Panic, s\<lparr>total := t\<rparr>))"

definition add_memory :: "limited_cost_tracker \<Rightarrow> u64 \<Rightarrow>
    (unit, cost_errors) outcome \<times> limited_cost_tracker" where
  "add_memory s m =
     assign_try (cost_overflow_add (memory s) m) (\<lambda>v s. s\<lparr>memory := v\<rparr>)
       (\<lambda>s. (if memory s > memory_limit s
             then Err (MemoryBalanceExceeded (memory s) (memory_limit s)) else Ok (), s)) s"

definition drop_memory :: "limited_cost_tracker \<Rightarrow> u64 \<Rightarrow> (limited_cost_tracker, 'e) outcome" where
  "drop_memory s m =
     (case checked_sub (memory s) m of Some v \<Rightarrow> Ok (s\<lparr>memory := v\<rparr>) | None \<Rightarrow> Panic)"

definition reset_memory :: "limited_cost_tracker \<Rightarrow> limited_cost_tracker" where
  "reset_memory s = s\<lparr>memory := 0\<rparr>"

text \<open>The macro \<open>runtime_cost!\<close>: compute the cost of an input, then charge it.\<close>

definition runtime_cost :: "simple_cost_specification \<Rightarrow> u64 \<Rightarrow> limited_cost_tracker \<Rightarrow>
    (unit, cost_errors) outcome \<times> limited_cost_tracker" where
  "runtime_cost sp x s =
     (case compute_cost sp x of Ok c \<Rightarrow> add_cost s c | Err e \<Rightarrow> (Err e, s) | Panic \<Rightarrow> (Panic, s))"

text \<open>A sequence of charges, stopping at the first error as the callers' \<open>?\<close> does.\<close>

fun add_costs :: "limited_cost_tracker \<Rightarrow> execution_cost list \<Rightarrow>
    (unit, cost_errors) outcome \<times> limited_cost_tracker" where
  "add_costs s [] = (Ok (), s)"
| "add_costs s (c # cs) =
     (case add_cost s c of (Ok _, s') \<Rightarrow> add_costs s' cs | (Err e, s') \<Rightarrow> (Err e, s')
      | (Panic, s') \<Rightarrow> (Panic, s'))"

section \<open>Lemmas\<close>

text \<open>The five dimensions, read as natural numbers.\<close>

definition cost_dims :: "(execution_cost \<Rightarrow> u64) list" where
  "cost_dims = [runtime, read_count, read_length, write_length, write_count]"

definition cost_le :: "execution_cost \<Rightarrow> execution_cost \<Rightarrow> bool" where
  "cost_le a b \<longleftrightarrow> (\<forall>d \<in> set cost_dims. d a \<le> d b)"

lemma cost_exceeds_iff: "cost_exceeds a b \<longleftrightarrow> \<not> cost_le a b"
  by (auto simp: cost_exceeds_def cost_le_def cost_dims_def not_le)

lemma cost_overflow_add_simps [checked_simps]:
  "cost_overflow_add a b = Ok c \<longleftrightarrow> unat c = unat a + unat b"
  "cost_overflow_add a b \<noteq> Panic"
  by (auto simp: cost_overflow_add_def checked_simps outcome_simps)

lemma cost_overflow_mul_simps [checked_simps]:
  "cost_overflow_mul a b = Ok c \<longleftrightarrow> unat c = unat a * unat b"
  "cost_overflow_mul a b \<noteq> Panic"
  by (auto simp: cost_overflow_mul_def checked_simps outcome_simps)

lemma assign_try_cases:
  "assign_try r upd k s = (case r of Ok v \<Rightarrow> k (upd v s) | Err e \<Rightarrow> (Err e, s) | Panic \<Rightarrow> (Panic, s))"
  by (simp add: assign_try_def)

lemma cost_pointwise_Ok:
  assumes "cost_pointwise f s c = (Ok (), t)"
  shows "\<forall>d \<in> set cost_dims. f (d s) (d c) = Ok (d t)"
  using assms
  by (auto simp: cost_pointwise_def assign_try_def cost_dims_def split: outcome.splits)

lemma cost_pointwise_complete:
  assumes "\<forall>d \<in> set cost_dims. f (d s) (d c) = Ok (d t)"
  shows "cost_pointwise f s c = (Ok (), t)"
  using assms
  by (simp add: cost_pointwise_def assign_try_def cost_dims_def)

lemma cost_add_Ok_iff:
  "cost_add s c = (Ok (), t) \<longleftrightarrow> (\<forall>d \<in> set cost_dims. unat (d t) = unat (d s) + unat (d c))"
  using cost_pointwise_Ok [of cost_overflow_add s c t] cost_pointwise_complete [of cost_overflow_add s c t]
  by (auto simp: cost_add_def checked_simps)

lemma cost_add_not_Panic: "fst (cost_add s c) \<noteq> Panic"
  by (auto simp: cost_add_def cost_pointwise_def assign_try_def cost_overflow_add_def
      split: outcome.splits)

lemma cost_add_mono: "cost_add s c = (r, t) \<Longrightarrow> cost_le s t"
  by (auto simp: cost_add_def cost_pointwise_def assign_try_def cost_le_def cost_dims_def
      checked_simps word_le_nat_alt split: outcome.splits)

lemma cost_le_refl [simp]: "cost_le a a"
  by (simp add: cost_le_def)

lemma cost_le_trans: "cost_le a b \<Longrightarrow> cost_le b c \<Longrightarrow> cost_le a c"
  by (auto simp: cost_le_def intro: order_trans)

lemma add_cost_limit [simp]: "limit (snd (add_cost s c)) = limit s"
  by (auto simp: add_cost_def split: prod.splits outcome.splits)

lemma add_cost_Ok_iff:
  "add_cost s c = (Ok (), s') \<longleftrightarrow>
     (\<forall>d \<in> set cost_dims. unat (d (total s')) = unat (d (total s)) + unat (d c)) \<and>
     cost_le (total s') (limit s) \<and> s' = s\<lparr>total := total s'\<rparr>"
proof
  assume "add_cost s c = (Ok (), s')"
  then obtain t where t: "cost_add (total s) c = (Ok (), t)" "cost_le t (limit s)" "s' = s\<lparr>total := t\<rparr>"
    by (auto simp: add_cost_def cost_exceeds_iff split: prod.splits outcome.splits if_splits)
  then show "(\<forall>d \<in> set cost_dims. unat (d (total s')) = unat (d (total s)) + unat (d c)) \<and>
     cost_le (total s') (limit s) \<and> s' = s\<lparr>total := total s'\<rparr>"
    by (auto simp: cost_add_Ok_iff)
next
  assume h: "(\<forall>d \<in> set cost_dims. unat (d (total s')) = unat (d (total s)) + unat (d c)) \<and>
     cost_le (total s') (limit s) \<and> s' = s\<lparr>total := total s'\<rparr>"
  then have "cost_add (total s) c = (Ok (), total s')"
    by (simp add: cost_add_Ok_iff)
  with h show "add_cost s c = (Ok (), s')"
    by (simp add: add_cost_def cost_exceeds_iff)
qed


lemma cost_le_nat: "cost_le a b \<longleftrightarrow> (\<forall>d \<in> set cost_dims. unat (d a) \<le> unat (d b))"
  by (simp add: cost_le_def word_le_nat_alt)

text \<open>Every dimension can be set: a tracker state with given totals exists when they fit a word.\<close>

lemma cost_with_dims:
  assumes "\<forall>d \<in> set cost_dims. f d < 2 ^ 64"
  shows "\<exists>t. \<forall>d \<in> set cost_dims. unat (d t) = f d"
proof -
  define t :: execution_cost where
    "t = \<lparr>write_length = word_of_nat (f write_length), write_count = word_of_nat (f write_count),
          read_length = word_of_nat (f read_length), read_count = word_of_nat (f read_count),
          runtime = word_of_nat (f runtime)\<rparr>"
  from assms have "\<forall>d \<in> set cost_dims. unat (d t) = f d"
    by (simp add: t_def cost_dims_def unat_of_nat)
  then show ?thesis by blast
qed

lemma add_cost_Ok_ex:
  "(\<exists>s'. add_cost s c = (Ok (), s')) \<longleftrightarrow>
     (\<forall>d \<in> set cost_dims. unat (d (total s)) + unat (d c) \<le> unat (d (limit s)))"
proof
  assume "\<exists>s'. add_cost s c = (Ok (), s')"
  then show "\<forall>d \<in> set cost_dims. unat (d (total s)) + unat (d c) \<le> unat (d (limit s))"
    by (auto simp: add_cost_Ok_iff cost_le_nat)
next
  assume h: "\<forall>d \<in> set cost_dims. unat (d (total s)) + unat (d c) \<le> unat (d (limit s))"
  then have "\<forall>d \<in> set cost_dims. unat (d (total s)) + unat (d c) < 2 ^ 64"
    by (auto intro: le_less_trans [OF _ unat_lt2p [where 'a = 64, simplified]])
  from cost_with_dims [OF this] obtain t where
    t: "\<forall>d \<in> set cost_dims. unat (d t) = unat (d (total s)) + unat (d c)" by blast
  with h have "add_cost s c = (Ok (), s\<lparr>total := t\<rparr>)"
    by (simp add: add_cost_Ok_iff cost_le_nat)
  then show "\<exists>s'. add_cost s c = (Ok (), s')" by blast
qed

lemma add_costs_Ok_total:
  "add_costs s cs = (Ok (), s') \<Longrightarrow> d \<in> set cost_dims \<Longrightarrow>
     unat (d (total s')) = unat (d (total s)) + (\<Sum>c\<leftarrow>cs. unat (d c)) \<and>
     limit s' = limit s \<and> memory s' = memory s"
proof (induction cs arbitrary: s)
  case (Cons c cs)
  from Cons.prems(1) obtain s1 where
    s1: "add_cost s c = (Ok (), s1)" and rest: "add_costs s1 cs = (Ok (), s')"
    by (auto split: prod.splits outcome.splits)
  from s1 Cons.prems(2) have step: "unat (d (total s1)) = unat (d (total s)) + unat (d c)"
    by (simp add: add_cost_Ok_iff)
  from s1 have eq: "s1 = s\<lparr>total := total s1\<rparr>" by (simp add: add_cost_Ok_iff)
  from Cons.IH [OF rest Cons.prems(2)] have
    "unat (d (total s')) = unat (d (total s1)) + (\<Sum>c\<leftarrow>cs. unat (d c))"
    "limit s' = limit s1" "memory s' = memory s1" by simp_all
  moreover from eq have "limit s1 = limit s" "memory s1 = memory s"
    by (metis limited_cost_tracker.select_convs limited_cost_tracker.surjective
        limited_cost_tracker.update_convs(1))+
  ultimately show ?case using step by simp
qed simp

lemma add_costs_complete:
  assumes "cost_le (total s) (limit s)"
    and "\<forall>d \<in> set cost_dims. unat (d (total s)) + (\<Sum>c\<leftarrow>cs. unat (d c)) \<le> unat (d (limit s))"
  shows "\<exists>s'. add_costs s cs = (Ok (), s')"
  using assms
proof (induction cs arbitrary: s)
  case (Cons c cs)
  then have "\<forall>d \<in> set cost_dims. unat (d (total s)) + unat (d c) \<le> unat (d (limit s))"
    by fastforce
  with add_cost_Ok_ex obtain s1 where s1: "add_cost s c = (Ok (), s1)" by blast
  then have step: "\<forall>d \<in> set cost_dims. unat (d (total s1)) = unat (d (total s)) + unat (d c)"
    and le: "cost_le (total s1) (limit s)" by (simp_all add: add_cost_Ok_iff)
  from s1 add_cost_limit [of s c] have lim: "limit s1 = limit s" by simp
  have "\<exists>s'. add_costs s1 cs = (Ok (), s')"
    using Cons.prems step le lim by (intro Cons.IH) (auto simp: add.assoc)
  with s1 show ?case by simp
qed simp

text \<open>Charging and releasing the same amount of memory restores the tracker.\<close>

lemma add_costs_within_limit:
  "add_costs s cs = (Ok (), s') \<Longrightarrow> cost_le (total s) (limit s) \<Longrightarrow> cost_le (total s') (limit s)"
proof (induction cs arbitrary: s)
  case (Cons c cs)
  from Cons.prems(1) obtain s1 where s1: "add_cost s c = (Ok (), s1)" "add_costs s1 cs = (Ok (), s')"
    by (auto split: prod.splits outcome.splits)
  from s1(1) have "cost_le (total s1) (limit s)" by (simp add: add_cost_Ok_iff)
  moreover from s1(1) have "limit s1 = limit s" using add_cost_limit [of s c] by simp
  ultimately show ?case using Cons.IH [OF s1(2)] by simp
qed simp

lemma add_cost_mono: "add_cost s c = (r, s') \<Longrightarrow> cost_le (total s) (total s')"
  using cost_add_mono [of "total s" c]
  by (auto simp: add_cost_def split: prod.splits outcome.splits)

lemma add_then_drop_memory:
  assumes "add_memory s m = (r, s')" and "r = Ok ()"
  shows "drop_memory s' m = Ok s"
proof -
  from assms have s': "s' = s\<lparr>memory := memory s'\<rparr>" and m: "unat (memory s') = unat (memory s) + unat m"
    by (auto simp: add_memory_def assign_try_def checked_simps split: outcome.splits if_splits)
  then have "checked_sub (memory s') m = Some (memory s)"
    by (simp add: checked_simps)
  then have "drop_memory s' m = Ok (s'\<lparr>memory := memory s\<rparr>)"
    by (simp add: drop_memory_def)
  also have "s'\<lparr>memory := memory s\<rparr> = s" by (subst s') simp
  finally show ?thesis .
qed

section \<open>Logarithms\<close>

lemma bit_imp_exp_le: "bit (w :: 'a::len word) k \<Longrightarrow> 2 ^ k \<le> unat w"
proof (rule ccontr)
  assume b: "bit w k" and "\<not> 2 ^ k \<le> unat w"
  then have "take_bit k (unat w) = unat w" by (simp add: take_bit_nat_eq_self_iff)
  moreover from b have "bit (unat w) k" by (simp add: bit_unsigned_iff bit_imp_le_length)
  ultimately show False by (metis bit_take_bit_iff less_irrefl)
qed

lemma high_bits_zero_bound:
  assumes "\<And>i. n \<le> i \<Longrightarrow> i < LENGTH('a::len) \<Longrightarrow> \<not> bit (w :: 'a word) i"
  shows "unat w < 2 ^ n"
proof -
  have "take_bit n (unat w) = unat w"
  proof (rule bit_eqI)
    fix i
    show "bit (take_bit n (unat w)) i \<longleftrightarrow> bit (unat w) i"
      using assms [of i] bit_imp_le_length [of w i]
      by (cases "n \<le> i") (auto simp: bit_take_bit_iff bit_unsigned_iff)
  qed
  then show ?thesis by (simp add: take_bit_nat_eq_self_iff)
qed

lemma leading_zeros_spec:
  fixes w :: "'a::len word"
  assumes "w \<noteq> 0"
  shows "leading_zeros w < LENGTH('a)"
    and "bit w (LENGTH('a) - 1 - leading_zeros w)"
    and "unat w < 2 ^ (LENGTH('a) - leading_zeros w)"
proof -
  let ?bs = "rev (map (bit w) [0..<LENGTH('a)])"
  have nth: "?bs ! i \<longleftrightarrow> bit w (LENGTH('a) - 1 - i)" if "i < LENGTH('a)" for i
    using that by (simp add: rev_nth)
  from assms obtain k where k: "bit w k" by (metis bit_eqI bit_0_eq bot_apply bot_bool_def)
  then have kl: "k < LENGTH('a)" by (rule bit_imp_le_length)
  show lz: "leading_zeros w < LENGTH('a)"
  proof (rule ccontr)
    assume "\<not> ?thesis"
    then have "takeWhile (\<lambda>b. \<not> b) ?bs = ?bs"
      using length_takeWhile_le [of "\<lambda>b. \<not> b" ?bs]
      by (metis leading_zeros_def diff_zero length_map length_rev length_upt linorder_neqE_nat not_less takeWhile_eq_take take_all_iff)
    then have "\<forall>b \<in> set ?bs. \<not> b" by (metis set_takeWhileD)
    with k kl show False by auto
  qed
  have "?bs ! leading_zeros w"
    using nth_length_takeWhile [of "\<lambda>b. \<not> b" ?bs] lz by (simp add: leading_zeros_def)
  with nth lz show "bit w (LENGTH('a) - 1 - leading_zeros w)" by blast
  show "unat w < 2 ^ (LENGTH('a) - leading_zeros w)"
  proof (rule high_bits_zero_bound)
    fix i assume i: "LENGTH('a) - leading_zeros w \<le> i" "i < LENGTH('a)"
    let ?j = "LENGTH('a) - 1 - i"
    from i lz have j: "?j < leading_zeros w" "?j < LENGTH('a)" by auto
    then have "\<not> ?bs ! ?j"
      using nth_mem [of ?j "takeWhile (\<lambda>b. \<not> b) ?bs"] takeWhile_nth [of ?j "\<lambda>b. \<not> b" ?bs]
      by (metis leading_zeros_def set_takeWhileD)
    with nth [OF j(2)] i show "\<not> bit w i" by simp
  qed
qed

lemma trailing_zeros_low_bits: "i < trailing_zeros (w :: 'a::len word) \<Longrightarrow> \<not> bit w i"
proof -
  let ?bs = "map (bit w) [0..<LENGTH('a)]"
  assume i: "i < trailing_zeros w"
  then have il: "i < LENGTH('a)"
    using length_takeWhile_le [of "\<lambda>b. \<not> b" ?bs] by (simp add: trailing_zeros_def)
  from i have "\<not> ?bs ! i"
    using nth_mem [of i "takeWhile (\<lambda>b. \<not> b) ?bs"] takeWhile_nth [of i "\<lambda>b. \<not> b" ?bs]
    by (metis trailing_zeros_def set_takeWhileD)
  with il show ?thesis by simp
qed

lemma trailing_zeros_first_bit:
  fixes w :: "'a::len word"
  assumes "bit w k" and "\<And>i. i < k \<Longrightarrow> \<not> bit w i"
  shows "trailing_zeros w = k"
proof -
  let ?bs = "map (bit w) [0..<LENGTH('a)]"
  from assms(1) have kl: "k < LENGTH('a)" by (rule bit_imp_le_length)
  have "\<not> k < trailing_zeros w" using trailing_zeros_low_bits [of k w] assms(1) by blast
  moreover have "\<not> trailing_zeros w < k"
  proof
    assume lt: "trailing_zeros w < k"
    then have "length (takeWhile (\<lambda>b. \<not> b) ?bs) < length ?bs" using kl by (simp add: trailing_zeros_def)
    from nth_length_takeWhile [OF this] have "bit w (trailing_zeros w)"
      using lt kl by (simp add: trailing_zeros_def)
    with assms(2) lt show False by blast
  qed
  ultimately show ?thesis by simp
qed

text \<open>\<open>int_log2\<close> is the binary logarithm rounded up, and is defined on every positive input.\<close>

lemma int_log2_spec:
  assumes "x \<noteq> 0"
  obtains n where "int_log2 x = Some (word_of_nat n)" and "n \<le> 64" and "unat x \<le> 2 ^ n"
    and "n = 0 \<or> 2 ^ (n - 1) < unat x"
proof -
  define k where "k = 63 - leading_zeros x"
  from leading_zeros_spec [OF assms] have lz: "leading_zeros x < 64" and bk: "bit x k"
    and up: "unat x < 2 ^ (64 - leading_zeros x)" by (simp_all add: k_def)
  from lz have k1: "64 - leading_zeros x = Suc k" by (simp add: k_def)
  from bk have lo: "2 ^ k \<le> unat x" by (rule bit_imp_exp_le)
  show thesis
  proof (cases "trailing_zeros x = k")
    case True
    have "unat x = 2 ^ k"
    proof -
      have "x = 2 ^ k"
      proof (rule bit_word_eqI)
        fix i assume il: "i < LENGTH(64)"
        consider "i < k" | "i = k" | "i > k" by linarith
        then show "bit x i \<longleftrightarrow> bit (2 ^ k :: u64) i"
        proof cases
          case 1
          with True trailing_zeros_low_bits [of i x] show ?thesis by (simp add: bit_exp_iff)
        next
          case 2
          with bk il show ?thesis by (simp add: bit_exp_iff)
        next
          case 3
          have "\<not> bit x i"
          proof
            assume "bit x i"
            then have "(2::nat) ^ i \<le> unat x" by (rule bit_imp_exp_le)
            with up k1 3 show False
              by (metis Suc_leI less_le_not_le less_le_trans one_less_numeral_iff power_increasing_iff
                  semiring_norm(76))
          qed
          with 3 show ?thesis by (simp add: bit_exp_iff)
        qed
      qed
      then have "x = word_of_nat (2 ^ k)" by simp
      then have "unat x = 2 ^ k mod 2 ^ 64" by (simp only: unat_of_nat len_of_numeral_defs) simp
      moreover have "(2::nat) ^ k < 2 ^ 64"
        by (rule power_strict_increasing) (use bit_imp_le_length [OF bk] in simp_all)
      ultimately show ?thesis by simp
    qed
    moreover have "int_log2 x = Some (word_of_nat k)"
      using lz True by (simp add: int_log2_def k_def)
    moreover from calculation(1) have "k = 0 \<or> 2 ^ (k - 1) < unat x" by (cases k) simp_all
    moreover have "k \<le> 64" by (simp add: k_def)
    ultimately show thesis using that [of k] by simp
  next
    case False
    have "unat x \<noteq> 2 ^ k"
    proof
      assume eq: "unat x = 2 ^ k"
      have "\<not> bit x i" if "i < k" for i
      proof -
        have "bit (unat x) i \<longleftrightarrow> bit ((2::nat) ^ k) i" by (simp add: eq)
        with that show ?thesis by (auto simp: bit_exp_iff bit_unsigned_iff dest: bit_imp_le_length)
      qed
      from trailing_zeros_first_bit [OF bk this] False show False by blast
    qed
    with lo have "2 ^ k < unat x" by simp
    moreover have "int_log2 x = Some (word_of_nat (Suc k))"
      using lz False by (simp add: int_log2_def k_def)
    moreover have "unat x \<le> 2 ^ Suc k" using up k1 by simp
    ultimately show thesis
      using that [of "Suc k"] by (simp add: k_def)
  qed
qed

lemma int_log2_mono:
  assumes "x \<noteq> 0" and "x \<le> y"
  shows "\<exists>a b. int_log2 x = Some a \<and> int_log2 y = Some b \<and> a \<le> b"
proof -
  from assms have y: "y \<noteq> 0" by (metis word_le_0_iff)
  obtain m where m: "int_log2 x = Some (word_of_nat m)" "m \<le> 64" "m = 0 \<or> 2 ^ (m - 1) < unat x"
    by (rule int_log2_spec [OF assms(1)])
  obtain n where n: "int_log2 y = Some (word_of_nat n)" "n \<le> 64" "unat y \<le> 2 ^ n"
    by (rule int_log2_spec [OF y])
  have "m \<le> n"
  proof (cases m)
    case (Suc k)
    with m have "2 ^ k < unat x" by simp
    also have "\<dots> \<le> unat y" using assms(2) by (simp add: word_le_nat_alt)
    also have "\<dots> \<le> 2 ^ n" by (rule n(3))
    finally have "(2::nat) ^ k < 2 ^ n" .
    then have "k < n" by simp
    with Suc show ?thesis by simp
  qed simp
  with m n have "word_of_nat m \<le> (word_of_nat n :: u64)"
    by (simp add: word_le_nat_alt unat_of_nat)
  with m n show ?thesis by blast
qed

lemma cost_overflow_mono:
  assumes "a \<le> a'" and "b \<le> b'"
  shows "cost_overflow_mul a' b' = Ok c \<Longrightarrow> \<exists>c'. cost_overflow_mul a b = Ok c' \<and> c' \<le> c"
    and "cost_overflow_add a' b' = Ok c \<Longrightarrow> \<exists>c'. cost_overflow_add a b = Ok c' \<and> c' \<le> c"
proof -
  have le: "unat a \<le> unat a'" "unat b \<le> unat b'" using assms by (simp_all add: word_le_nat_alt)
  show "\<exists>c'. cost_overflow_mul a b = Ok c' \<and> c' \<le> c" if "cost_overflow_mul a' b' = Ok c"
  proof -
    have "unat a * unat b \<le> unat c" using that le by (simp add: checked_simps mult_le_mono)
    then have "unat (a * b) = unat a * unat b"
      using unat_lt2p [of c] by (simp add: unat_word_ariths)
    with \<open>unat a * unat b \<le> unat c\<close> show ?thesis
      by (intro exI [of _ "a * b"]) (simp add: checked_simps word_le_nat_alt)
  qed
  show "\<exists>c'. cost_overflow_add a b = Ok c' \<and> c' \<le> c" if "cost_overflow_add a' b' = Ok c"
  proof -
    have "unat a + unat b \<le> unat c" using that le by (simp add: checked_simps)
    then have "unat (a + b) = unat a + unat b"
      using unat_lt2p [of c] by (simp add: unat_word_ariths)
    with \<open>unat a + unat b \<le> unat c\<close> show ?thesis
      by (intro exI [of _ "a + b"]) (simp add: checked_simps word_le_nat_alt)
  qed
qed

text \<open>A larger input never costs less, and fails whenever a smaller one does.\<close>

lemma cost_function_compute_mono:
  assumes "x \<le> y" and "cost_function_compute f y = Ok c"
  shows "\<exists>c'. cost_function_compute f x = Ok c' \<and> c' \<le> c"
proof (cases f)
  case (Constant v)
  with assms show ?thesis by simp
next
  case (Linear a b)
  with assms obtain p where p: "cost_overflow_mul a y = Ok p" "cost_overflow_add p b = Ok c"
    by (auto simp: outcome_simps)
  from cost_overflow_mono(1) [OF order_refl assms(1) p(1)] obtain p' where
    p': "cost_overflow_mul a x = Ok p'" "p' \<le> p" by blast
  from cost_overflow_mono(2) [OF p'(2) order_refl p(2)] p'(1) Linear show ?thesis by auto
next
  case (NLogN a b)
  have "max x 1 \<noteq> (0::u64)" and "max x 1 \<le> max y 1"
    using assms(1) by (auto simp: max_def word_le_nat_alt unat_eq_zero)
  from int_log2_mono [OF this] obtain l m where
    lm: "int_log2 (max x 1) = Some l" "int_log2 (max y 1) = Some m" "l \<le> m" by blast
  from NLogN assms(2) lm obtain p q where pq: "cost_overflow_mul m y = Ok p"
    "cost_overflow_mul p a = Ok q" "cost_overflow_add q b = Ok c"
    by (auto simp: outcome_simps)
  from cost_overflow_mono(1) [OF lm(3) assms(1) pq(1)] obtain p' where
    p': "cost_overflow_mul l x = Ok p'" "p' \<le> p" by blast
  from cost_overflow_mono(1) [OF p'(2) order_refl pq(2)] obtain q' where
    q': "cost_overflow_mul p' a = Ok q'" "q' \<le> q" by blast
  from cost_overflow_mono(2) [OF q'(2) order_refl pq(3)] p' q' lm NLogN show ?thesis by auto
next
  case (LogN a b)
  have "max x 1 \<noteq> (0::u64)" and "max x 1 \<le> max y 1"
    using assms(1) by (auto simp: max_def word_le_nat_alt unat_eq_zero)
  from int_log2_mono [OF this] obtain l m where
    lm: "int_log2 (max x 1) = Some l" "int_log2 (max y 1) = Some m" "l \<le> m" by blast
  from LogN assms(2) lm obtain p where p: "cost_overflow_mul m a = Ok p" "cost_overflow_add p b = Ok c"
    by (auto simp: outcome_simps)
  from cost_overflow_mono(1) [OF lm(3) order_refl p(1)] obtain p' where
    p': "cost_overflow_mul l a = Ok p'" "p' \<le> p" by blast
  from cost_overflow_mono(2) [OF p'(2) order_refl p(2)] p' lm LogN show ?thesis by auto
qed

lemmas int_log2_eval = int_log2_def leading_zeros_def trailing_zeros_def upt_rec bit_numeral_rec

section \<open>Properties\<close>

text \<open>C24: charging a list of costs succeeds exactly when, in every one of the five dimensions, the
  total so far plus everything charged stays within the limit. After success each total is the
  exact sum, with no wrap-around, and the limit and the memory counter are untouched.\<close>

theorem add_costs_exact:
  assumes "cost_le (total s) (limit s)"
  shows "((\<exists>s'. add_costs s cs = (Ok (), s')) \<longleftrightarrow>
      (\<forall>d \<in> set cost_dims. unat (d (total s)) + (\<Sum>c\<leftarrow>cs. unat (d c)) \<le> unat (d (limit s)))) \<and>
    (\<forall>s'. add_costs s cs = (Ok (), s') \<longrightarrow>
      (\<forall>d \<in> set cost_dims. unat (d (total s')) = unat (d (total s)) + (\<Sum>c\<leftarrow>cs. unat (d c))) \<and>
      limit s' = limit s \<and> memory s' = memory s)"
proof -
  have "\<forall>d \<in> set cost_dims. unat (d (total s)) + (\<Sum>c\<leftarrow>cs. unat (d c)) \<le> unat (d (limit s))"
    if ok: "add_costs s cs = (Ok (), s')" for s'
    using add_costs_within_limit [OF ok assms] add_costs_Ok_total [OF ok] by (auto simp: cost_le_nat)
  moreover have "runtime \<in> set cost_dims" by (simp add: cost_dims_def)
  ultimately show ?thesis
    using add_costs_complete [OF assms, of cs] add_costs_Ok_total [of s cs] by blast
qed

theorem add_costs_exact_witness:
  "cost_le (total (tracker_new (cost_runtime 10))) (limit (tracker_new (cost_runtime 10))) \<and>
   (\<exists>s'. add_costs (tracker_new (cost_runtime 10)) [cost_runtime 4, cost_runtime 6] = (Ok (), s')) \<and>
   \<not> (\<exists>s'. add_costs (tracker_new (cost_runtime 10)) [cost_runtime 4, cost_runtime 7] = (Ok (), s'))"
proof -
  have le: "cost_le (total (tracker_new (cost_runtime 10))) (limit (tracker_new (cost_runtime 10)))"
    by (simp add: cost_le_def cost_dims_def tracker_new_def cost_runtime_def cost_zero_def)
  show ?thesis
    using le add_costs_exact [OF le, of "[cost_runtime 4, cost_runtime 6]"]
      add_costs_exact [OF le, of "[cost_runtime 4, cost_runtime 7]"]
    by (simp add: cost_dims_def tracker_new_def cost_runtime_def cost_zero_def)
qed

text \<open>exceeding the limit is final: once the total is above the limit in some dimension, every
  later charge fails and the total stays above the limit.\<close>

theorem exceeded_stays_exceeded:
  assumes "cost_exceeds (total s) (limit s)"
  shows "fst (add_costs s (c # cs)) \<noteq> Ok () \<and>
    cost_exceeds (total (snd (add_costs s (c # cs)))) (limit s)"
proof -
  obtain r s' where a: "add_cost s c = (r, s')" by force
  have ex: "cost_exceeds (total s') (limit s)"
    using add_cost_mono [OF a] assms cost_le_trans by (auto simp: cost_exceeds_iff)
  moreover from a ex have "r \<noteq> Ok ()" by (auto simp: add_cost_Ok_iff cost_exceeds_iff)
  ultimately show ?thesis using a by (cases r) auto
qed

theorem exceeded_stays_exceeded_witness:
  "fst (add_costs ((tracker_new (cost_runtime 10))\<lparr>total := cost_runtime 11\<rparr>) [cost_zero, cost_zero]) \<noteq> Ok ()"
  using exceeded_stays_exceeded [of "(tracker_new (cost_runtime 10))\<lparr>total := cost_runtime 11\<rparr>" cost_zero "[cost_zero]"]
  by (simp add: cost_exceeds_def tracker_new_def cost_runtime_def cost_zero_def)

text \<open>\<open>int_log2\<close> is the logarithm to base two rounded up: it fails on zero only, and for any other
  input it returns the least n (at most 64) with input at most two to the n.\<close>

theorem int_log2_ceiling:
  "int_log2 0 = None \<and>
   (x \<noteq> 0 \<longrightarrow> int_log2 x = Some (word_of_nat (LEAST n. unat x \<le> 2 ^ n)) \<and> (LEAST n. unat x \<le> 2 ^ n) \<le> 64)"
proof (intro conjI impI)
  show "int_log2 0 = None" by (simp add: int_log2_eval)
next
  assume "x \<noteq> 0"
  then obtain n where n: "int_log2 x = Some (word_of_nat n)" "n \<le> 64" "unat x \<le> 2 ^ n"
    "n = 0 \<or> 2 ^ (n - 1) < unat x"
    by (rule int_log2_spec)
  have "(LEAST n. unat x \<le> 2 ^ n) = n"
  proof (rule Least_equality)
    show "unat x \<le> 2 ^ n" by (fact n)
    show "n \<le> m" if m: "unat x \<le> 2 ^ m" for m
    proof (rule ccontr)
      assume "\<not> n \<le> m"
      then have "m \<le> n - 1" "n \<noteq> 0" by auto
      then have "(2::nat) ^ m \<le> 2 ^ (n - 1)" by (intro power_increasing) auto
      moreover from n(4) \<open>n \<noteq> 0\<close> have "2 ^ (n - 1) < unat x" by simp
      ultimately show False using m by linarith
    qed
  qed
  with n show "int_log2 x = Some (word_of_nat (LEAST n. unat x \<le> 2 ^ n))"
    "(LEAST n. unat x \<le> 2 ^ n) \<le> 64" by simp_all
qed

theorem int_log2_ceiling_witness:
  "int_log2 5 = Some 3 \<and> int_log2 5 = Some (word_of_nat (LEAST n. unat (5 :: u64) \<le> 2 ^ n))"
proof -
  have "int_log2 5 = Some 3" by (simp add: int_log2_eval)
  with int_log2_ceiling [of 5] show ?thesis by simp
qed

text \<open>cost functions are monotone in the input size: when the charge for an input is computable,
  so is the charge for every smaller input, and no dimension of it is larger.\<close>

theorem compute_cost_mono:
  assumes "x \<le> y" and "compute_cost sp y = Ok c"
  shows "\<exists>c'. compute_cost sp x = Ok c' \<and> cost_le c' c"
proof -
  from assms(2) have
    "cost_function_compute (spec_write_length sp) y = Ok (write_length c)"
    "cost_function_compute (spec_write_count sp) y = Ok (write_count c)"
    "cost_function_compute (spec_read_count sp) y = Ok (read_count c)"
    "cost_function_compute (spec_read_length sp) y = Ok (read_length c)"
    "cost_function_compute (spec_runtime sp) y = Ok (runtime c)"
    by (auto simp: compute_cost_def outcome_simps)
  from this [THEN cost_function_compute_mono [OF assms(1)]] show ?thesis
    by (auto simp: compute_cost_def cost_le_def cost_dims_def)
qed

theorem compute_cost_mono_witness:
  "\<exists>c'. compute_cost (cost_to_specification cost_zero\<lparr>spec_runtime := NLogN 3 5\<rparr>) 2 = Ok c' \<and>
     cost_le c' (cost_runtime 77)"
proof -
  have "compute_cost (cost_to_specification cost_zero\<lparr>spec_runtime := NLogN 3 5\<rparr>) 8 = Ok (cost_runtime 77)"
    by (simp add: compute_cost_def cost_to_specification_def cost_zero_def cost_runtime_def int_log2_eval
        cost_overflow_mul_def cost_overflow_add_def checked_mul_def checked_add_def)
  with compute_cost_mono [of 2 8] show ?thesis by simp
qed

end
