(* ===== verification/ClarityData.thy ===== *)
theory ClarityData
  imports Costs
begin

text \<open>
  The data of the Clarity VM: names and their guards (\<open>src/src/vm/representations.rs\<close>),
  principals, type signatures and values (\<open>src/src/vm/types/mod.rs\<close> and
  \<open>src/src/vm/types/signatures.rs\<close>), and the errors the modelled code raises
  (\<open>src/src/vm/errors.rs\<close>, \<open>src/src/vm/analysis/errors.rs\<close>).

  A \<open>BTreeMap\<close> keyed by names is a list of entries in key order. The \<open>ListTypeData\<close> and
  \<open>TupleTypeSignature\<close> structs are flattened into the constructors that carry them.
  An \<open>i128\<close> is a 128-bit word read in two's complement.
\<close>

section \<open>Names\<close>

type_synonym clarity_name = string
type_synonym contract_name = string
type_synonym function_identifier = string

definition MAX_STRING_LEN :: nat where
  "MAX_STRING_LEN = 128"

definition is_alpha :: "char \<Rightarrow> bool" where
  "is_alpha c \<longleftrightarrow> (CHR ''a'' \<le> c \<and> c \<le> CHR ''z'') \<or> (CHR ''A'' \<le> c \<and> c \<le> CHR ''Z'')"

definition is_digit :: "char \<Rightarrow> bool" where
  "is_digit c \<longleftrightarrow> CHR ''0'' \<le> c \<and> c \<le> CHR ''9''"

text \<open>
  The regular expressions of \<open>guarded_string!\<close>, written out. For \<open>ClarityName\<close>:
  a letter followed by letters, digits and \<open>-_!?+<>=/*\<close>; or one of \<open>-+=/*\<close>; or one of \<open><>\<close>
  with an optional \<open>=\<close>. For \<open>ContractName\<close>: a letter followed by letters, digits, \<open>-\<close> and \<open>_\<close>;
  or \<open>__transient\<close>.
\<close>

definition clarity_name_regex :: "string \<Rightarrow> bool" where
  "clarity_name_regex s \<longleftrightarrow>
     (case s of
        [] \<Rightarrow> False
      | c # cs \<Rightarrow>
          (is_alpha c \<and> list_all (\<lambda>x. is_alpha x \<or> is_digit x \<or> x \<in> set ''-_!?+<>=/*'') cs) \<or>
          (c \<in> set ''-+=/*'' \<and> cs = []) \<or>
          (c \<in> set ''<>'' \<and> (cs = [] \<or> cs = ''='')))"

definition contract_name_regex :: "string \<Rightarrow> bool" where
  "contract_name_regex s \<longleftrightarrow>
     (case s of
        [] \<Rightarrow> False
      | c # cs \<Rightarrow> is_alpha c \<and> list_all (\<lambda>x. is_alpha x \<or> is_digit x \<or> x \<in> set ''-_'') cs) \<or>
     s = ''__transient''"

section \<open>Principals\<close>

datatype standard_principal_data = StandardPrincipalData (spd_version: u8) (spd_bytes: "u8 list")

datatype qualified_contract_identifier =
  QualifiedContractIdentifier (qci_issuer: standard_principal_data) (qci_name: contract_name)

datatype principal_data =
    Standard standard_principal_data
  | Contract qualified_contract_identifier

datatype trait_identifier =
  TraitIdentifier (trait_name: clarity_name) (trait_contract: qualified_contract_identifier)

datatype asset_identifier =
  AssetIdentifier (asset_contract: qualified_contract_identifier) (asset_name: clarity_name)

definition standard_transient :: standard_principal_data where
  "standard_transient = StandardPrincipalData 1 (replicate 20 1)"

definition contract_transient :: qualified_contract_identifier where
  "contract_transient = QualifiedContractIdentifier standard_transient ''__transient''"

definition asset_STX :: asset_identifier where
  "asset_STX =
     AssetIdentifier (QualifiedContractIdentifier (StandardPrincipalData 0 (replicate 20 0)) ''STX'') ''STX''"

definition asset_STX_burned :: asset_identifier where
  "asset_STX_burned =
     AssetIdentifier (QualifiedContractIdentifier (StandardPrincipalData 0 (replicate 20 0)) ''BURNED'')
       ''BURNED''"

fun principal_version :: "principal_data \<Rightarrow> u8" where
  "principal_version (Standard p) = spd_version p"
| "principal_version (Contract c) = spd_version (qci_issuer c)"

section \<open>Types and values\<close>

datatype type_signature =
    NoType
  | IntType
  | UIntType
  | BoolType
  | BufferType u32
  | PrincipalType
  | ListType u32 type_signature
  | TupleType "(clarity_name \<times> type_signature) list"
  | OptionalType type_signature
  | ResponseType type_signature type_signature
  | TraitReferenceType trait_identifier

type_synonym tuple_type_signature = "(clarity_name, type_signature) btree"
type_synonym list_type_data = "u32 \<times> type_signature"

datatype val =
    VInt i128
  | VUInt u128
  | VBool bool
  | VBuffer "u8 list"
  | VList "val list" u32 type_signature
  | VPrincipal principal_data
  | VTuple "(clarity_name \<times> type_signature) list" "(clarity_name \<times> val) list"
  | VOptional "val option"
  | VResponse bool val

definition MAX_VALUE_SIZE :: u32 where
  "MAX_VALUE_SIZE = 1024 * 1024"

definition BOUND_VALUE_SERIALIZATION_BYTES :: nat where
  "BOUND_VALUE_SERIALIZATION_BYTES = 2 * (1024 * 1024)"

definition MAX_TYPE_DEPTH :: u8 where
  "MAX_TYPE_DEPTH = 32"

definition WRAPPER_VALUE_SIZE :: u32 where
  "WRAPPER_VALUE_SIZE = 1"

section \<open>Errors\<close>

datatype check_errors =
    CheckCost cost_errors
  | ValueTooLarge
  | TypeSignatureTooDeep
  | ExpectedName
  | BadMatchOptionSyntax check_errors
  | BadMatchResponseSyntax check_errors
  | BadMatchInput type_signature
  | TypeError type_signature type_signature
  | TypeValueError type_signature val
  | InvalidTypeDescription
  | UnknownTypeName string
  | UnionTypeValueError "type_signature list" val
  | ExpectedOptionalValue val
  | ExpectedResponseValue val
  | ExpectedOptionalOrResponseValue val
  | ExpectedTuple type_signature
  | NoSuchTupleField string tuple_type_signature
  | EmptyTuplesNotAllowed
  | PublicFunctionMustReturnResponse type_signature
  | CircularReference "string list"
  | NoSuchContract string
  | NameAlreadyUsed string
  | ExpectedListApplication
  | ExpectedListOrBuffer type_signature
  | BadSyntaxExpectedListOfPairs
  | UndefinedFunction string
  | UndefinedVariable string
  | RequiresAtLeastArguments nat nat
  | IncorrectArgumentCount nat nat
  | DefineTraitBadSignature
  | DefineFunctionBadSignature
  | ReturnTypesMustMatch type_signature type_signature
  | ExpectedTraitIdentifier
  | TraitBasedContractCallInReadOnly
  | BadTokenName
  | NoSuchNFT string
  | NoSuchFT string
  | BadTransferSTXArguments
  | BadTransferFTArguments
  | BadTransferNFTArguments
  | BadMintFTArguments
  | NoSuchDataVariable string
  | BadMapName
  | NoSuchMap string
  | NoSuchPublicFunction string string
  | PublicFunctionNotReadOnly string string
  | ContractAlreadyExists string
  | ContractCallExpectName
  | NoSuchBlockInfoProperty string
  | GetBlockInfoExpectPropertyName
  | NonFunctionApplication
  | BadFunctionName
  | BadLetSyntax
  | BadSyntaxBinding
  | TraitReferenceUnknown string
  | TraitMethodUnknown string string
  | BadTraitImplementation string string
  | WriteAttemptedInReadOnly
  | AtBlockClosureMustBeReadOnly

datatype runtime_error_type =
    Arithmetic string
  | ArithmeticOverflow
  | ArithmeticUnderflow
  | SupplyOverflow u128 u128
  | DivisionByZero
  | ParseError string
  | MaxStackDepthReached
  | MaxContextDepthReached
  | BadTypeConstruction
  | TransferNonPositiveAmount
  | NoSuchToken
  | NotImplemented
  | NoSenderInContext
  | BadNameValue string string
  | BadBlockHeight string
  | AttemptToFetchInTransientContext
  | NonPositiveTokenSupply
  | UnknownBlockHeaderHash "u8 list"
  | BadBlockHash "u8 list"
  | UnwrapFailure

datatype interpreter_error =
    InterpreterError string
  | BadSender val
  | BadSymbolicRepresentation string
  | FailedToConstructAssetTable
  | FailedToConstructEventBatch
  | FailureConstructingTupleWithType
  | FailureConstructingListWithType
  | UninitializedPersistedVariable

datatype short_return_type =
    ExpectedValue val
  | AssertionFailed val

datatype vm_error =
    Unchecked check_errors
  | Interpreter interpreter_error
  | Runtime runtime_error_type
  | ShortReturn short_return_type

section \<open>Name guards\<close>

definition clarity_name_try_from :: "string \<Rightarrow> (clarity_name, runtime_error_type) outcome" where
  "clarity_name_try_from s =
     (if length s > MAX_STRING_LEN then Err (BadNameValue ''ClarityName'' s)
      else if clarity_name_regex s then Ok s
      else Err (BadNameValue ''ClarityName'' s))"

definition contract_name_try_from :: "string \<Rightarrow> (contract_name, runtime_error_type) outcome" where
  "contract_name_try_from s =
     (if length s > MAX_STRING_LEN then Err (BadNameValue ''ContractName'' s)
      else if contract_name_regex s then Ok s
      else Err (BadNameValue ''ContractName'' s))"

definition qci_local :: "string \<Rightarrow> (qualified_contract_identifier, runtime_error_type) outcome" where
  "qci_local s = map_ok (QualifiedContractIdentifier standard_transient) (contract_name_try_from s)"

definition valid_clarity_name :: "string \<Rightarrow> bool" where
  "valid_clarity_name s \<longleftrightarrow> length s \<le> MAX_STRING_LEN \<and> clarity_name_regex s"

definition valid_contract_name :: "string \<Rightarrow> bool" where
  "valid_contract_name s \<longleftrightarrow> length s \<le> MAX_STRING_LEN \<and> contract_name_regex s"

definition valid_principal :: "principal_data \<Rightarrow> bool" where
  "valid_principal p \<longleftrightarrow>
     (case p of
        Standard sp \<Rightarrow> length (spd_bytes sp) = 20
      | Contract c \<Rightarrow> length (spd_bytes (qci_issuer c)) = 20 \<and> valid_contract_name (qci_name c))"

lemma clarity_name_try_from_Ok: "clarity_name_try_from s = Ok n \<longleftrightarrow> n = s \<and> valid_clarity_name s"
  by (auto simp: clarity_name_try_from_def valid_clarity_name_def)

lemma contract_name_try_from_Ok: "contract_name_try_from s = Ok n \<longleftrightarrow> n = s \<and> valid_contract_name s"
  by (auto simp: contract_name_try_from_def valid_contract_name_def)

end
