(* ===== verification/TypeSignatures.thy ===== *)
theory TypeSignatures
  imports ClarityData
begin

text \<open>
  Type signatures, \<open>src/src/vm/types/signatures.rs\<close>: depth and size of types, the guarded
  constructors, admission (the subtype test) and least supertypes.

  \<open>.size()\<close> is \<open>inner_size\<close> followed by \<open>expect\<close>, so it panics on a type that is too large; the
  guarded constructors exist so that this never happens. Unchecked additions on \<open>u32\<close> and \<open>u8\<close>
  wrap, as they do in a release build.
\<close>

section \<open>Depth and size\<close>

fun depth :: "type_signature \<Rightarrow> u8"
  and max_depth :: "u8 \<Rightarrow> (clarity_name \<times> type_signature) list \<Rightarrow> u8" where
  "depth (TupleType fs) = 1 + max_depth 0 fs"
| "depth (ListType n t) = 1 + depth t"
| "depth (OptionalType t) = 1 + depth t"
| "depth (ResponseType t s) = 1 + max (depth t) (depth s)"
| "depth (TraitReferenceType i) = 1"
| "depth NoType = 1"
| "depth IntType = 1"
| "depth UIntType = 1"
| "depth BoolType = 1"
| "depth PrincipalType = 1"
| "depth (BufferType l) = 1"
| "max_depth m [] = m"
| "max_depth m ((n, t) # fs) = max_depth (max m (depth t)) fs"

definition too_large :: "u32 \<Rightarrow> u32 option" where
  "too_large s = (if s > MAX_VALUE_SIZE then None else Some s)"

definition u32_try_from :: "nat \<Rightarrow> u32 option" where
  "u32_try_from n = (if n < 2 ^ 32 then Some (word_of_nat n) else None)"

fun inner_type_size :: "type_signature \<Rightarrow> u32 option"
  and list_type_size :: "type_signature \<Rightarrow> u32 option"
  and tuple_type_size :: "(clarity_name \<times> type_signature) list \<Rightarrow> u32 option"
  and tuple_type_size_loop :: "u32 \<Rightarrow> (clarity_name \<times> type_signature) list \<Rightarrow> u32 option" where
  "inner_type_size NoType = Some 1"
| "inner_type_size IntType = Some 1"
| "inner_type_size UIntType = Some 1"
| "inner_type_size BoolType = Some 1"
| "inner_type_size PrincipalType = Some 1"
| "inner_type_size (BufferType l) = Some (1 + 4)"
| "inner_type_size (TupleType fs) = tuple_type_size fs"
| "inner_type_size (ListType n t) = list_type_size t"
| "inner_type_size (OptionalType t) = Option.bind (inner_type_size t) (\<lambda>s. checked_add s 1)"
| "inner_type_size (ResponseType t s) =
     Option.bind (inner_type_size t) (\<lambda>a.
     Option.bind (inner_type_size s) (\<lambda>b.
     Option.bind (checked_add a b) (\<lambda>c. checked_add c 1)))"
| "inner_type_size (TraitReferenceType i) = Some 1"
| "list_type_size t =
     Option.bind (inner_type_size t) (\<lambda>s.
     Option.bind (checked_add s (4 + 1)) too_large)"
| "tuple_type_size fs =
     Option.bind (u32_try_from (length fs)) (\<lambda>l.
     Option.bind (checked_mul l 2) (\<lambda>m.
     Option.bind (tuple_type_size_loop m fs) too_large))"
| "tuple_type_size_loop acc [] = Some acc"
| "tuple_type_size_loop acc ((name, t) # fs) =
     Option.bind (inner_type_size t) (\<lambda>s.
     Option.bind (checked_add acc s) (\<lambda>a.
     Option.bind (checked_add a (word_of_nat (length name))) (\<lambda>a'.
     tuple_type_size_loop a' fs)))"

definition type_size :: "type_signature \<Rightarrow> (u32, check_errors) outcome" where
  "type_size t = ok_or ValueTooLarge (inner_type_size t)"

fun inner_size :: "type_signature \<Rightarrow> (u32, unit) outcome"
  and list_inner_size :: "u32 \<Rightarrow> type_signature \<Rightarrow> (u32, unit) outcome"
  and tuple_inner_size :: "(clarity_name \<times> type_signature) list \<Rightarrow> (u32, unit) outcome"
  and tuple_inner_size_loop ::
    "u32 \<Rightarrow> (clarity_name \<times> type_signature) list \<Rightarrow> (u32, unit) outcome" where
  "inner_size NoType = Ok 1"
| "inner_size IntType = Ok 16"
| "inner_size UIntType = Ok 16"
| "inner_size BoolType = Ok 1"
| "inner_size PrincipalType = Ok 148"
| "inner_size (BufferType l) = Ok (4 + l)"
| "inner_size (TupleType fs) = tuple_inner_size fs"
| "inner_size (ListType n t) = list_inner_size n t"
| "inner_size (OptionalType t) =
     and_then (expect (inner_size t)) (\<lambda>s. ok_or () (checked_add s WRAPPER_VALUE_SIZE))"
| "inner_size (ResponseType t s) =
     and_then (expect (inner_size t)) (\<lambda>a.
     and_then (expect (inner_size s)) (\<lambda>b.
     ok_or () (checked_add (max a b) WRAPPER_VALUE_SIZE)))"
| "inner_size (TraitReferenceType i) = Ok 276"
| "list_inner_size n t =
     and_then (expect (inner_size t)) (\<lambda>s.
     and_then (ok_or () (checked_mul s n)) (\<lambda>m.
     and_then (ok_or () (list_type_size t)) (\<lambda>ts.
     and_then (ok_or () (checked_add m ts)) (\<lambda>tot. ok_or () (too_large tot)))))"
| "tuple_inner_size fs =
     and_then (ok_or () (u32_try_from (length fs))) (\<lambda>l.
     and_then (ok_or () (checked_mul l 2)) (\<lambda>m.
     and_then (ok_or () (tuple_type_size fs)) (\<lambda>ts.
     and_then (ok_or () (checked_add m ts)) (\<lambda>a.
     and_then (tuple_inner_size_loop a fs) (\<lambda>tot. ok_or () (too_large tot))))))"
| "tuple_inner_size_loop acc [] = Ok acc"
| "tuple_inner_size_loop acc ((name, t) # fs) =
     and_then (expect (inner_size t)) (\<lambda>s.
     and_then (ok_or () (checked_add acc s)) (\<lambda>a.
     and_then (ok_or () (checked_add a (word_of_nat (length name)))) (\<lambda>a'.
     tuple_inner_size_loop a' fs)))"

definition type_sig_size :: "type_signature \<Rightarrow> (u32, 'e) outcome" where
  "type_sig_size t = expect (inner_size t)"

section \<open>Guarded constructors\<close>

definition buffer_length_from_u32 :: "u32 \<Rightarrow> (u32, check_errors) outcome" where
  "buffer_length_from_u32 d = (if d > MAX_VALUE_SIZE then Err ValueTooLarge else Ok d)"

definition buffer_length_from_usize :: "nat \<Rightarrow> (u32, check_errors) outcome" where
  "buffer_length_from_usize d =
     (if d > unat MAX_VALUE_SIZE then Err ValueTooLarge else Ok (word_of_nat d))"

definition buffer_length_from_i128 :: "i128 \<Rightarrow> (u32, check_errors) outcome" where
  "buffer_length_from_i128 d =
     (if sint d > uint MAX_VALUE_SIZE then Err ValueTooLarge else Ok (ucast d))"

definition new_list :: "type_signature \<Rightarrow> u32 \<Rightarrow> (list_type_data, check_errors) outcome" where
  "new_list entry_type max_len =
     (if 1 + depth entry_type > MAX_TYPE_DEPTH then Err TypeSignatureTooDeep
      else and_then (map_err (\<lambda>_. ValueTooLarge) (list_inner_size max_len entry_type)) (\<lambda>s.
             if s > MAX_VALUE_SIZE then Err ValueTooLarge else Ok (max_len, entry_type)))"

definition list_of :: "type_signature \<Rightarrow> u32 \<Rightarrow> (type_signature, check_errors) outcome" where
  "list_of item_type max_len = map_ok (\<lambda>(n, t). ListType n t) (new_list item_type max_len)"

definition empty_list :: list_type_data where
  "empty_list = (0, NoType)"

definition new_option :: "type_signature \<Rightarrow> (type_signature, check_errors) outcome" where
  "new_option t =
     and_then (type_sig_size t) (\<lambda>s.
       if WRAPPER_VALUE_SIZE + s > MAX_VALUE_SIZE then Err ValueTooLarge
       else if 1 + depth t > MAX_TYPE_DEPTH then Err TypeSignatureTooDeep
       else Ok (OptionalType t))"

definition new_response :: "type_signature \<Rightarrow> type_signature \<Rightarrow> (type_signature, check_errors) outcome" where
  "new_response ok_type err_type =
     and_then (type_sig_size ok_type) (\<lambda>a.
     and_then (type_sig_size err_type) (\<lambda>b.
       if WRAPPER_VALUE_SIZE + max a b > MAX_VALUE_SIZE then Err ValueTooLarge
       else if 1 + max (depth ok_type) (depth err_type) > MAX_TYPE_DEPTH then Err TypeSignatureTooDeep
       else Ok (ResponseType ok_type err_type)))"

text \<open>\<open>TryFrom<BTreeMap<ClarityName, TypeSignature>>\<close> for \<open>TupleTypeSignature\<close>.\<close>

definition tuple_type_try_from :: "tuple_type_signature \<Rightarrow> (tuple_type_signature, check_errors) outcome" where
  "tuple_type_try_from m =
     (if m = [] then Err EmptyTuplesNotAllowed
      else if list_ex (\<lambda>(n, t). 1 + depth t > MAX_TYPE_DEPTH) m then Err TypeSignatureTooDeep
      else and_then (map_err (\<lambda>_. ValueTooLarge) (tuple_inner_size m)) (\<lambda>s.
             if s > MAX_VALUE_SIZE then Err ValueTooLarge else Ok m))"

fun tuple_type_collect ::
  "tuple_type_signature \<Rightarrow> (clarity_name \<times> type_signature) list \<Rightarrow> (tuple_type_signature, check_errors) outcome" where
  "tuple_type_collect m [] = Ok m"
| "tuple_type_collect m ((name, t) # ds) =
     (if bt_get m name \<noteq> None then Err (NameAlreadyUsed name)
      else tuple_type_collect (bt_insert name t m) ds)"

text \<open>\<open>TryFrom<Vec<(ClarityName, TypeSignature)>>\<close> for \<open>TupleTypeSignature\<close>.\<close>

definition tuple_type_try_from_vec ::
  "(clarity_name \<times> type_signature) list \<Rightarrow> (tuple_type_signature, check_errors) outcome" where
  "tuple_type_try_from_vec ds =
     (if ds = [] then Err EmptyTuplesNotAllowed
      else and_then (tuple_type_collect [] ds) tuple_type_try_from)"

definition is_response_type :: "type_signature \<Rightarrow> bool" where
  "is_response_type t = (case t of ResponseType _ _ \<Rightarrow> True | _ \<Rightarrow> False)"

definition is_no_type :: "type_signature \<Rightarrow> bool" where
  "is_no_type t \<longleftrightarrow> t = NoType"

section \<open>Admission\<close>

fun admits_type :: "type_signature \<Rightarrow> type_signature \<Rightarrow> (bool, check_errors) outcome"
  and tuple_admits_loop :: "(clarity_name \<times> type_signature) list \<Rightarrow> tuple_type_signature \<Rightarrow> (bool, check_errors) outcome" where
  "admits_type (ListType n t) x =
     (case x of
        ListType m s \<Rightarrow> if m \<le> 0 then Ok True else if n \<ge> m then admits_type t s else Ok False
      | _ \<Rightarrow> Ok False)"
| "admits_type (OptionalType t) x =
     (case x of
        OptionalType s \<Rightarrow> if is_no_type s then Ok True else admits_type t s
      | _ \<Rightarrow> Ok False)"
| "admits_type (ResponseType t0 t1) x =
     (case x of
        ResponseType s0 s1 \<Rightarrow>
          if is_no_type s0 then admits_type t1 s1
          else if is_no_type s1 then admits_type t0 s0
          else and_then (admits_type t1 s1) (\<lambda>b. if b then admits_type t0 s0 else Ok False)
      | _ \<Rightarrow> Ok False)"
| "admits_type (BufferType l) x = (case x of BufferType k \<Rightarrow> Ok (l \<ge> k) | _ \<Rightarrow> Ok False)"
| "admits_type (TupleType fs) x =
     (case x of
        TupleType gs \<Rightarrow> if length fs \<noteq> length gs then Ok False else tuple_admits_loop fs gs
      | _ \<Rightarrow> Ok False)"
| "admits_type NoType x = Panic"
| "admits_type IntType x = Ok (x = IntType)"
| "admits_type UIntType x = Ok (x = UIntType)"
| "admits_type BoolType x = Ok (x = BoolType)"
| "admits_type PrincipalType x = Ok (x = PrincipalType)"
| "admits_type (TraitReferenceType i) x = Ok (x = TraitReferenceType i)"
| "tuple_admits_loop [] gs = Ok True"
| "tuple_admits_loop ((name, t) # fs) gs =
     (case bt_get gs name of
        Some s \<Rightarrow> and_then (admits_type t s) (\<lambda>b. if b then tuple_admits_loop fs gs else Ok False)
      | None \<Rightarrow> Ok False)"

text \<open>\<open>TupleTypeSignature::admits\<close>.\<close>

definition tuple_admits :: "tuple_type_signature \<Rightarrow> tuple_type_signature \<Rightarrow> (bool, check_errors) outcome" where
  "tuple_admits fs gs = (if length fs \<noteq> length gs then Ok False else tuple_admits_loop fs gs)"

section \<open>Least supertypes\<close>

function (sequential) least_supertype :: "type_signature \<Rightarrow> type_signature \<Rightarrow> (type_signature, check_errors) outcome"
  and least_supertype_fields :: "check_errors \<Rightarrow> tuple_type_signature \<Rightarrow>
      (clarity_name \<times> type_signature) list \<Rightarrow> tuple_type_signature \<Rightarrow>
      (tuple_type_signature, check_errors) outcome"
  and factor_out_no_type :: "type_signature \<Rightarrow> type_signature \<Rightarrow> (type_signature, check_errors) outcome" where
  "least_supertype a b =
     (case (a, b) of
        (TupleType fa, TupleType fb) \<Rightarrow>
          if length fa \<noteq> length fb then Err (TypeError a b)
          else and_then (least_supertype_fields (TypeError a b) [] fa fb) (\<lambda>out.
                 map_ok TupleType (expect (tuple_type_try_from out)))
      | (ListType la ea, ListType lb eb) \<Rightarrow>
          and_then (if la = 0 then Ok eb else if lb = 0 then Ok ea else least_supertype ea eb) (\<lambda>e.
            expect (list_of e (max la lb)))
      | (ResponseType a0 a1, ResponseType b0 b1) \<Rightarrow>
          and_then (factor_out_no_type a0 b0) (\<lambda>ok_type.
          and_then (factor_out_no_type a1 b1) (\<lambda>err_type.
            new_response ok_type err_type))
      | (OptionalType sa, OptionalType sb) \<Rightarrow> and_then (factor_out_no_type sa sb) new_option
      | (BufferType ba, BufferType bb) \<Rightarrow> Ok (BufferType (if ba > bb then ba else bb))
      | (NoType, x) \<Rightarrow> Ok x
      | (x, NoType) \<Rightarrow> Ok x
      | (x, y) \<Rightarrow> if x = y then Ok x else Err (TypeError a b))"
| "least_supertype_fields err out [] fb = Ok out"
| "least_supertype_fields err out ((name, ea) # fa) fb =
     and_then (ok_or err (bt_get fb name)) (\<lambda>eb.
     and_then (least_supertype ea eb) (\<lambda>e.
       least_supertype_fields err (bt_insert name e out) fa fb))"
| "factor_out_no_type a b =
     (if is_no_type a then Ok b
      else if is_no_type b then Ok a
      else least_supertype a b)"
  by pat_completeness auto
termination
  by (relation "measure (\<lambda>x. case x of
        Inl (a, b) \<Rightarrow> 2 * size a
      | Inr (Inl (err, out, fa, fb)) \<Rightarrow> 2 * size_list (size_prod (\<lambda>_. 0) size) fa + 1
      | Inr (Inr (a, b)) \<Rightarrow> 2 * size a + 1)") auto

text \<open>\<open>parent_list_type\<close>: the list type of a literal with these entry types.\<close>

definition parent_list_type :: "type_signature list \<Rightarrow> (list_type_data, check_errors) outcome" where
  "parent_list_type children =
     (case children of
        first # rest \<Rightarrow>
          and_then (try_fold_r least_supertype first rest) (\<lambda>e.
          and_then (ok_or ValueTooLarge (u32_try_from (length children))) (\<lambda>n. new_list e n))
      | [] \<Rightarrow> Ok empty_list)"

end
