(* ===== verification/TypeLattice.thy ===== *)
theory TypeLattice
  imports TypeSignatures
begin

text \<open>
  The subtype order of Clarity types: \<open>admits_type\<close> is a preorder on the types that values have,
  and \<open>least_supertype\<close> is its join. The order and its join are stated as locales; the laws are
  discharged for the model's definitions, and the type of a list literal (\<open>parent_list_type\<close>)
  is obtained from the join laws.
\<close>

section \<open>Induction and the shapes of the operations\<close>

lemma type_induct [case_names NoType IntType UIntType BoolType BufferType PrincipalType ListType
    TupleType OptionalType ResponseType TraitReferenceType]:
  assumes "P NoType" "P IntType" "P UIntType" "P BoolType" "\<And>l. P (BufferType l)" "P PrincipalType"
    and "\<And>n t. P t \<Longrightarrow> P (ListType n t)"
    and "\<And>fs. (\<And>n t. (n, t) \<in> set fs \<Longrightarrow> P t) \<Longrightarrow> P (TupleType fs)"
    and "\<And>t. P t \<Longrightarrow> P (OptionalType t)"
    and "\<And>t s. P t \<Longrightarrow> P s \<Longrightarrow> P (ResponseType t s)"
    and "\<And>i. P (TraitReferenceType i)"
  shows "P t"
proof (induction t)
  case (TupleType fs)
  have "P t" if "(n, t) \<in> set fs" for n t
    using TupleType.IH [OF that] by simp
  then show ?case by (rule assms(8))
qed (auto intro: assms)

declare least_supertype.simps [simp del]
declare factor_out_no_type.simps [simp del]

lemma least_supertype_shapes:
  "least_supertype (TupleType fa) b =
     (case b of
        TupleType fb \<Rightarrow>
          if length fa \<noteq> length fb then Err (TypeError (TupleType fa) b)
          else and_then (least_supertype_fields (TypeError (TupleType fa) b) [] fa fb) (\<lambda>out.
                 map_ok TupleType (expect (tuple_type_try_from out)))
      | NoType \<Rightarrow> Ok (TupleType fa)
      | _ \<Rightarrow> Err (TypeError (TupleType fa) b))"
  "least_supertype (ListType la ea) b =
     (case b of
        ListType lb eb \<Rightarrow>
          and_then (if la = 0 then Ok eb else if lb = 0 then Ok ea else least_supertype ea eb) (\<lambda>e.
            expect (list_of e (max la lb)))
      | NoType \<Rightarrow> Ok (ListType la ea)
      | _ \<Rightarrow> Err (TypeError (ListType la ea) b))"
  "least_supertype (ResponseType a0 a1) b =
     (case b of
        ResponseType b0 b1 \<Rightarrow>
          and_then (factor_out_no_type a0 b0) (\<lambda>ok_type.
          and_then (factor_out_no_type a1 b1) (\<lambda>err_type. new_response ok_type err_type))
      | NoType \<Rightarrow> Ok (ResponseType a0 a1)
      | _ \<Rightarrow> Err (TypeError (ResponseType a0 a1) b))"
  "least_supertype (OptionalType sa) b =
     (case b of
        OptionalType sb \<Rightarrow> and_then (factor_out_no_type sa sb) new_option
      | NoType \<Rightarrow> Ok (OptionalType sa)
      | _ \<Rightarrow> Err (TypeError (OptionalType sa) b))"
  "least_supertype (BufferType ba) b =
     (case b of
        BufferType bb \<Rightarrow> Ok (BufferType (if ba > bb then ba else bb))
      | NoType \<Rightarrow> Ok (BufferType ba)
      | _ \<Rightarrow> Err (TypeError (BufferType ba) b))"
  "least_supertype NoType b = Ok b"
  by (subst least_supertype.simps, cases b, simp_all)+

lemma least_supertype_atoms:
  assumes "a \<in> {IntType, UIntType, BoolType, PrincipalType} \<or> (\<exists>i. a = TraitReferenceType i)"
  shows "least_supertype a b =
    (if b = NoType then Ok a else if a = b then Ok a else Err (TypeError a b))"
  using assms by (subst least_supertype.simps) (cases b; auto split: if_splits)

lemma new_option_Ok: "new_option t = Ok u \<Longrightarrow> u = OptionalType t"
  by (auto simp: new_option_def outcome_simps split: if_splits)

lemma new_response_Ok: "new_response t s = Ok u \<Longrightarrow> u = ResponseType t s"
  by (auto simp: new_response_def outcome_simps split: if_splits)

lemma new_list_Ok: "new_list t n = Ok u \<Longrightarrow> u = (n, t)"
  by (auto simp: new_list_def outcome_simps split: if_splits)

lemma list_of_Ok: "list_of t n = Ok u \<Longrightarrow> u = ListType n t"
  by (auto simp: list_of_def outcome_simps dest: new_list_Ok)

lemma tuple_type_try_from_Ok: "tuple_type_try_from m = Ok u \<Longrightarrow> u = m"
  by (auto simp: tuple_type_try_from_def outcome_simps split: if_splits)

lemmas constructor_Ok = new_option_Ok new_response_Ok new_list_Ok list_of_Ok tuple_type_try_from_Ok

lemma tuple_admits_loop_iff:
  "tuple_admits_loop fs gs = Ok True \<longleftrightarrow>
     (\<forall>(n, t) \<in> set fs. \<exists>s. bt_get gs n = Some s \<and> admits_type t s = Ok True)"
proof (induction fs)
  case (Cons p fs)
  then show ?case
    by (cases p; cases "bt_get gs (fst p)"; cases "admits_type (snd p) (the (bt_get gs (fst p)))") auto
qed simp

text \<open>What each kind of type admits.\<close>

lemma admits_iff:
  "admits_type (ListType n t) x = Ok True \<longleftrightarrow>
     (\<exists>m s. x = ListType m s \<and> (m = 0 \<or> m \<le> n \<and> admits_type t s = Ok True))"
  "admits_type (OptionalType t) x = Ok True \<longleftrightarrow>
     (\<exists>s. x = OptionalType s \<and> (s = NoType \<or> admits_type t s = Ok True))"
  "admits_type (BufferType l) x = Ok True \<longleftrightarrow> (\<exists>k. x = BufferType k \<and> k \<le> l)"
  "admits_type (TupleType fs) x = Ok True \<longleftrightarrow>
     (\<exists>gs. x = TupleType gs \<and> length fs = length gs \<and>
       (\<forall>(n, t) \<in> set fs. \<exists>s. bt_get gs n = Some s \<and> admits_type t s = Ok True))"
  "admits_type (ResponseType t0 t1) x = Ok True \<longleftrightarrow>
     (\<exists>s0 s1. x = ResponseType s0 s1 \<and>
       (if s0 = NoType then admits_type t1 s1 = Ok True
        else if s1 = NoType then admits_type t0 s0 = Ok True
        else admits_type t0 s0 = Ok True \<and> admits_type t1 s1 = Ok True))"
  "admits_type NoType x \<noteq> Ok True"
  "admits_type IntType x = Ok True \<longleftrightarrow> x = IntType"
  "admits_type UIntType x = Ok True \<longleftrightarrow> x = UIntType"
  "admits_type BoolType x = Ok True \<longleftrightarrow> x = BoolType"
  "admits_type PrincipalType x = Ok True \<longleftrightarrow> x = PrincipalType"
  "admits_type (TraitReferenceType i) x = Ok True \<longleftrightarrow> x = TraitReferenceType i"
  by (cases x; simp add: is_no_type_def tuple_admits_loop_iff outcome_simps; fail | 
      cases x; auto simp: is_no_type_def tuple_admits_loop_iff outcome_simps split: if_splits)+

declare admits_type.simps [simp del]

text \<open>The loop over the fields of two tuples: the fields of the result, in the order of the first.\<close>

lemma least_supertype_fields_Ok:
  assumes "least_supertype_fields err out fa fb = Ok res" and "bt_wf (out @ fa)"
  shows "\<exists>zs. res = out @ zs \<and> map fst zs = map fst fa \<and>
    list_all2 (\<lambda>(n, ea) (m, e). \<exists>eb. bt_get fb n = Some eb \<and> least_supertype ea eb = Ok e) fa zs"
  using assms
proof (induction fa arbitrary: out)
  case (Cons p fa)
  obtain n ea where p: "p = (n, ea)" by force
  from Cons.prems(1) p obtain eb e where
    eb: "bt_get fb n = Some eb" and e: "least_supertype ea eb = Ok e"
    and rest: "least_supertype_fields err (bt_insert n e out) fa fb = Ok res"
    by (auto simp: outcome_simps)
  from Cons.prems(2) p have ins: "bt_insert n e out = out @ [(n, e)]"
    by (intro bt_insert_above) (auto simp: bt_wf_append)
  have "bt_wf ((out @ [(n, e)]) @ fa)"
    using Cons.prems(2) p by (auto simp: bt_wf_append bt_wf_Cons)
  from Cons.IH [OF rest [unfolded ins] this] obtain zs where
    "res = (out @ [(n, e)]) @ zs" "map fst zs = map fst fa"
    "list_all2 (\<lambda>(n, ea) (m, e). \<exists>eb. bt_get fb n = Some eb \<and> least_supertype ea eb = Ok e) fa zs"
    by blast
  with p eb e show ?case by (intro exI [of _ "(n, e) # zs"]) auto
qed auto

section \<open>The types that values have\<close>

text \<open>
  \<open>NoType\<close> stands for a component no value inhabits: the entries of an empty list, the content of
  \<open>none\<close>, or the untaken side of a response. A type is \<open>concrete\<close> when \<open>NoType\<close> occurs only there.
\<close>

fun concrete :: "type_signature \<Rightarrow> bool" where
  "concrete NoType = False"
| "concrete (ListType n t) = (n = 0 \<or> concrete t)"
| "concrete (TupleType fs) = (bt_wf fs \<and> (\<forall>p \<in> set fs. concrete (snd p)))"
| "concrete (OptionalType t) = (t = NoType \<or> concrete t)"
| "concrete (ResponseType t s) =
     ((t = NoType \<or> concrete t) \<and> (s = NoType \<or> concrete s) \<and> \<not> (t = NoType \<and> s = NoType))"
| "concrete _ = True"

lemma admits_type_refl: "concrete t \<Longrightarrow> admits_type t t = Ok True"
proof (induction t rule: type_induct)
  case (TupleType fs)
  have "bt_get fs n = Some t \<and> admits_type t t = Ok True" if nt: "(n, t) \<in> set fs" for n t
  proof
    from TupleType.prems have "bt_wf fs" by simp
    with nt show "bt_get fs n = Some t" by (simp add: bt_wf_distinct map_of_eq_Some_iff)
    from TupleType.prems nt have "concrete t" by force
    with nt show "admits_type t t = Ok True" by (rule TupleType.IH)
  qed
  then show ?case by (auto simp: admits_iff)
qed (auto simp: admits_iff)

lemma admits_NoType: "admits_type t NoType \<noteq> Ok True"
  by (cases t) (auto simp: admits_iff)

lemma admits_response:
  "admits_type (ResponseType t0 t1) (ResponseType s0 s1) = Ok True \<longleftrightarrow>
    \<not> (s0 = NoType \<and> s1 = NoType) \<and>
    (s0 \<noteq> NoType \<longrightarrow> admits_type t0 s0 = Ok True) \<and> (s1 \<noteq> NoType \<longrightarrow> admits_type t1 s1 = Ok True)"
  using admits_NoType [of t1] by (auto simp: admits_iff)

lemma admits_not_NoType: "admits_type t s = Ok True \<Longrightarrow> t \<noteq> NoType \<and> s \<noteq> NoType"
  using admits_NoType [of t] by (auto simp: admits_iff)

lemma admits_type_trans:
  "admits_type t s = Ok True \<Longrightarrow> admits_type s r = Ok True \<Longrightarrow> admits_type t r = Ok True"
proof (induction t arbitrary: s r rule: type_induct)
  case (ListType n t)
  from ListType.prems obtain m s' k r' where s: "s = ListType m s'" and r: "r = ListType k r'"
    by (auto simp: admits_iff)
  from ListType.prems s r ListType.IH [of s' r'] show ?case
    by (auto simp: admits_iff intro: order_trans)
next
  case (TupleType fs)
  from TupleType.prems(1) obtain gs where gs: "s = TupleType gs" "length fs = length gs"
    "\<forall>(n, t) \<in> set fs. \<exists>s. bt_get gs n = Some s \<and> admits_type t s = Ok True"
    by (auto simp: admits_iff)
  from TupleType.prems(2) gs(1) obtain hs where hs: "r = TupleType hs" "length gs = length hs"
    "\<forall>(n, t) \<in> set gs. \<exists>s. bt_get hs n = Some s \<and> admits_type t s = Ok True"
    by (auto simp: admits_iff)
  have "\<exists>x. bt_get hs n = Some x \<and> admits_type t x = Ok True" if nt: "(n, t) \<in> set fs" for n t
  proof -
    from bspec [OF gs(3) nt] obtain y where y: "bt_get gs n = Some y" "admits_type t y = Ok True"
      by auto
    from bspec [OF hs(3) map_of_SomeD [OF y(1)]] obtain x where
      x: "bt_get hs n = Some x" "admits_type y x = Ok True" by auto
    from TupleType.IH [OF nt y(2) x(2)] x(1) show ?thesis by blast
  qed
  with gs hs show ?case by (auto simp: admits_iff)
next
  case (OptionalType t)
  then obtain s' r' where s: "s = OptionalType s'" and r: "r = OptionalType r'"
    by (auto simp: admits_iff)
  from OptionalType.prems s r OptionalType.IH [of s' r'] show ?case
    by (auto simp: admits_iff)
next
  case (ResponseType t0 t1)
  from ResponseType.prems obtain s0 s1 r0 r1 where s: "s = ResponseType s0 s1" and r: "r = ResponseType r0 r1"
    by (auto simp: admits_iff)
  from ResponseType.prems [unfolded s r admits_response] show ?case
    unfolding r admits_response
    using ResponseType.IH(1) [of s0 r0] ResponseType.IH(2) [of s1 r1] by (auto dest: admits_not_NoType)
qed (auto simp: admits_iff intro: order_trans)

section \<open>Least supertypes are joins\<close>

lemma factor_out_cases:
  "factor_out_no_type a b =
     (if a = NoType then Ok b else if b = NoType then Ok a else least_supertype a b)"
  by (simp add: factor_out_no_type.simps is_no_type_def)

lemma least_supertype_not_NoType:
  "least_supertype a b = Ok c \<Longrightarrow> c = NoType \<Longrightarrow> a = NoType \<and> b = NoType"
  by (cases a)
    (auto simp: least_supertype_shapes least_supertype_atoms outcome_simps
      split: type_signature.splits if_splits dest: constructor_Ok)

text \<open>The fields of the join of two tuple types, looked up by name.\<close>

lemma least_supertype_tuple_Ok:
  assumes "least_supertype (TupleType fa) (TupleType fb) = Ok c" and "bt_wf fa"
  obtains zs where "c = TupleType zs" and "length fa = length fb" and "map fst zs = map fst fa"
    and "bt_wf zs"
    and "\<And>n e. (n, e) \<in> set zs \<Longrightarrow> \<exists>ea eb. (n, ea) \<in> set fa \<and> bt_get fa n = Some ea \<and>
           bt_get fb n = Some eb \<and> least_supertype ea eb = Ok e"
proof -
  from assms(1) obtain out where len: "length fa = length fb"
    and out: "least_supertype_fields (TypeError (TupleType fa) (TupleType fb)) [] fa fb = Ok out"
    and c: "c = TupleType out"
    by (auto simp: least_supertype_shapes outcome_simps dest!: tuple_type_try_from_Ok split: if_splits)
  from least_supertype_fields_Ok [OF out] assms(2) have keys: "map fst out = map fst fa"
    and rel: "list_all2 (\<lambda>(n, ea) (m, e). \<exists>eb. bt_get fb n = Some eb \<and> least_supertype ea eb = Ok e) fa out"
    by auto
  from keys assms(2) have wf: "bt_wf out" by (simp add: bt_wf_def)
  have "\<exists>ea eb. (n, ea) \<in> set fa \<and> bt_get fa n = Some ea \<and> bt_get fb n = Some eb \<and>
      least_supertype ea eb = Ok e" if ne: "(n, e) \<in> set out" for n e
  proof -
    from ne obtain i where i: "i < length out" "out ! i = (n, e)" by (meson in_set_conv_nth)
    from rel have l: "length fa = length out" by (rule list_all2_lengthD)
    obtain m ea where fai: "fa ! i = (m, ea)" by force
    from i l keys fai have "m = n" by (metis fst_conv nth_map)
    from list_all2_nthD [OF rel] i l fai obtain eb where
      eb: "bt_get fb m = Some eb" "least_supertype ea eb = Ok e" by fastforce
    from fai i l have mem: "(m, ea) \<in> set fa" by (metis nth_mem)
    with assms(2) have "bt_get fa m = Some ea" by (simp add: bt_wf_distinct map_of_eq_Some_iff)
    with mem eb \<open>m = n\<close> show ?thesis by blast
  qed
  with that c len keys wf show thesis by blast
qed

lemma least_supertype_upper:
  "least_supertype a b = Ok c \<Longrightarrow> concrete a \<Longrightarrow> concrete b \<Longrightarrow>
     concrete c \<and> admits_type c a = Ok True \<and> admits_type c b = Ok True"
proof (induction a arbitrary: b c rule: type_induct)
  case (ListType la ea)
  from ListType.prems obtain lb eb where b: "b = ListType lb eb"
    by (auto simp: least_supertype_shapes split: type_signature.splits)
  from ListType.prems(1) b obtain e where
    e: "(if la = 0 then Ok eb else if lb = 0 then Ok ea else least_supertype ea eb) = Ok e"
    and c: "c = ListType (max la lb) e"
    by (auto simp: least_supertype_shapes outcome_simps dest!: list_of_Ok)
  show ?case
  proof (cases "la = 0 \<or> lb = 0")
    case True
    with e c b ListType.prems show ?thesis
      by (auto simp: admits_iff admits_type_refl split: if_splits)
  next
    case False
    with e ListType.IH [of eb e] ListType.prems b c show ?thesis
      by (auto simp: admits_iff)
  qed
next
  case (TupleType fa)
  from TupleType.prems obtain fb where b: "b = TupleType fb"
    by (auto simp: least_supertype_shapes split: type_signature.splits)
  from TupleType.prems(2) have wfa: "bt_wf fa" by simp
  from TupleType.prems(1) [unfolded b] wfa obtain zs where
    zs: "c = TupleType zs" "length fa = length fb" "map fst zs = map fst fa" "bt_wf zs"
    and fields: "\<And>n e. (n, e) \<in> set zs \<Longrightarrow> \<exists>ea eb. (n, ea) \<in> set fa \<and> bt_get fa n = Some ea \<and>
           bt_get fb n = Some eb \<and> least_supertype ea eb = Ok e"
    by (rule least_supertype_tuple_Ok) (rule that)
  have each: "concrete e \<and> (\<exists>ea. bt_get fa n = Some ea \<and> admits_type e ea = Ok True) \<and>
      (\<exists>eb. bt_get fb n = Some eb \<and> admits_type e eb = Ok True)" if ne: "(n, e) \<in> set zs" for n e
  proof -
    from fields [OF ne] obtain ea eb where f: "(n, ea) \<in> set fa" "bt_get fa n = Some ea"
      "bt_get fb n = Some eb" "least_supertype ea eb = Ok e" by blast
    from TupleType.prems(2) f(1) have "concrete ea" by force
    moreover from TupleType.prems(3) b map_of_SomeD [OF f(3)] have "concrete eb" by force
    ultimately show ?thesis using TupleType.IH [OF f(1) f(4)] f by blast
  qed
  from zs have "length zs = length fa" by (metis length_map)
  with zs each b show ?case by (auto simp: admits_iff)
next
  case (OptionalType sa)
  from OptionalType.prems obtain sb where b: "b = OptionalType sb"
    by (auto simp: least_supertype_shapes split: type_signature.splits)
  from OptionalType.prems(1) b obtain e where e: "factor_out_no_type sa sb = Ok e" "c = OptionalType e"
    by (auto simp: least_supertype_shapes outcome_simps dest: new_option_Ok)
  with OptionalType.IH [of sb e] OptionalType.prems b show ?case
    by (auto simp: factor_out_cases admits_iff admits_type_refl split: if_splits)
next
  case (ResponseType a0 a1)
  from ResponseType.prems obtain b0 b1 where b: "b = ResponseType b0 b1"
    by (auto simp: least_supertype_shapes split: type_signature.splits)
  from ResponseType.prems(1) b obtain e0 e1 where e: "factor_out_no_type a0 b0 = Ok e0"
    "factor_out_no_type a1 b1 = Ok e1" "c = ResponseType e0 e1"
    by (auto simp: least_supertype_shapes outcome_simps dest: new_response_Ok)
  have side: "(e = NoType \<longleftrightarrow> x = NoType \<and> y = NoType) \<and> (e = NoType \<or> concrete e) \<and>
      (x \<noteq> NoType \<longrightarrow> admits_type e x = Ok True) \<and> (y \<noteq> NoType \<longrightarrow> admits_type e y = Ok True)"
    if "factor_out_no_type x y = Ok e" "x = NoType \<or> concrete x" "y = NoType \<or> concrete y"
      "\<And>b c. least_supertype x b = Ok c \<Longrightarrow> concrete x \<Longrightarrow> concrete b \<Longrightarrow>
        concrete c \<and> admits_type c x = Ok True \<and> admits_type c b = Ok True" for x y e
    using that least_supertype_not_NoType [of x y e]
    by (auto simp: factor_out_cases admits_type_refl split: if_splits)
  from side [OF e(1)] side [OF e(2)] ResponseType b e(3) show ?case
    by (auto simp: admits_response)
qed (auto simp: least_supertype_shapes least_supertype_atoms admits_iff
       split: type_signature.splits if_splits)

lemma least_supertype_least:
  "least_supertype a b = Ok c \<Longrightarrow> concrete a \<Longrightarrow> concrete b \<Longrightarrow>
     admits_type d a = Ok True \<Longrightarrow> admits_type d b = Ok True \<Longrightarrow> admits_type d c = Ok True"
proof (induction a arbitrary: b c d rule: type_induct)
  case (ListType la ea)
  from ListType.prems obtain lb eb where b: "b = ListType lb eb"
    by (auto simp: least_supertype_shapes split: type_signature.splits)
  from ListType.prems(1) b obtain e where
    e: "(if la = 0 then Ok eb else if lb = 0 then Ok ea else least_supertype ea eb) = Ok e"
    and c: "c = ListType (max la lb) e"
    by (auto simp: least_supertype_shapes outcome_simps dest!: list_of_Ok)
  from ListType.prems(4) obtain ld ed where d: "d = ListType ld ed"
    by (cases d) (auto simp: admits_iff)
  from e c b d ListType.prems ListType.IH [of eb e ed] show ?case
    by (auto simp: admits_iff max_def split: if_splits)
next
  case (TupleType fa)
  from TupleType.prems(1,3) obtain fb where b: "b = TupleType fb"
    by (auto simp: least_supertype_shapes split: type_signature.splits)
  from TupleType.prems(2) have wfa: "bt_wf fa" by simp
  from TupleType.prems(1) [unfolded b] wfa obtain zs where
    zs: "c = TupleType zs" "length fa = length fb" "map fst zs = map fst fa" "bt_wf zs"
    and fields: "\<And>n e. (n, e) \<in> set zs \<Longrightarrow> \<exists>ea eb. (n, ea) \<in> set fa \<and> bt_get fa n = Some ea \<and>
           bt_get fb n = Some eb \<and> least_supertype ea eb = Ok e"
    by (rule least_supertype_tuple_Ok) (rule that)
  from TupleType.prems(4) obtain ds where d: "d = TupleType ds" "length ds = length fa"
    and da: "\<forall>(n, t) \<in> set ds. \<exists>s. bt_get fa n = Some s \<and> admits_type t s = Ok True"
    by (cases d) (auto simp: admits_iff)
  from TupleType.prems(5) d b have db: "\<forall>(n, t) \<in> set ds. \<exists>s. bt_get fb n = Some s \<and> admits_type t s = Ok True"
    by (auto simp: admits_iff)
  have "\<exists>s. bt_get zs n = Some s \<and> admits_type t s = Ok True" if nt: "(n, t) \<in> set ds" for n t
  proof -
    from bspec [OF da nt] obtain ea where ea: "bt_get fa n = Some ea" "admits_type t ea = Ok True" by auto
    from bspec [OF db nt] obtain eb where eb: "bt_get fb n = Some eb" "admits_type t eb = Ok True" by auto
    from ea(1) have "n \<in> fst ` set fa" by (metis domI dom_map_of_conv_image_fst)
    with zs(3) have "n \<in> fst ` set zs" by (metis set_map)
    then obtain e where ne: "(n, e) \<in> set zs" by force
    with zs(4) have get: "bt_get zs n = Some e" by (simp add: bt_wf_distinct map_of_eq_Some_iff)
    from fields [OF ne] ea eb have mem: "(n, ea) \<in> set fa" and ls: "least_supertype ea eb = Ok e" by auto
    from TupleType.prems(2) mem have cea: "concrete ea" by force
    from TupleType.prems(3) b map_of_SomeD [OF eb(1)] have ceb: "concrete eb" by force
    from TupleType.IH [OF mem ls cea ceb ea(2) eb(2)] get show ?thesis by blast
  qed
  moreover from zs have "length zs = length fa" by (metis length_map)
  ultimately show ?case using zs d by (auto simp: admits_iff)
next
  case (OptionalType sa)
  from OptionalType.prems(1,3) obtain sb where b: "b = OptionalType sb"
    by (auto simp: least_supertype_shapes split: type_signature.splits)
  from OptionalType.prems(1) b obtain e where e: "factor_out_no_type sa sb = Ok e" "c = OptionalType e"
    by (auto simp: least_supertype_shapes outcome_simps dest: new_option_Ok)
  from OptionalType.prems(4) obtain sd where d: "d = OptionalType sd"
    by (cases d) (auto simp: admits_iff)
  from e d b OptionalType.prems OptionalType.IH [of sb e sd] show ?case
    by (auto simp: factor_out_cases admits_iff split: if_splits)
next
  case (ResponseType a0 a1)
  from ResponseType.prems(1,3) obtain b0 b1 where b: "b = ResponseType b0 b1"
    by (auto simp: least_supertype_shapes split: type_signature.splits)
  from ResponseType.prems(1) b obtain e0 e1 where e: "factor_out_no_type a0 b0 = Ok e0"
    "factor_out_no_type a1 b1 = Ok e1" "c = ResponseType e0 e1"
    by (auto simp: least_supertype_shapes outcome_simps dest: new_response_Ok)
  from ResponseType.prems(4) obtain d0 d1 where d: "d = ResponseType d0 d1"
    by (cases d) (auto simp: admits_iff)
  have side: "(e = NoType \<longleftrightarrow> x = NoType \<and> y = NoType) \<and> (e \<noteq> NoType \<longrightarrow> admits_type z e = Ok True)"
    if "factor_out_no_type x y = Ok e" "x = NoType \<or> concrete x" "y = NoType \<or> concrete y"
      "x \<noteq> NoType \<longrightarrow> admits_type z x = Ok True" "y \<noteq> NoType \<longrightarrow> admits_type z y = Ok True"
      "\<And>b c d. least_supertype x b = Ok c \<Longrightarrow> concrete x \<Longrightarrow> concrete b \<Longrightarrow>
        admits_type d x = Ok True \<Longrightarrow> admits_type d b = Ok True \<Longrightarrow> admits_type d c = Ok True" for x y e z
    using that least_supertype_not_NoType [of x y e]
    by (auto simp: factor_out_cases split: if_splits)
  from side [OF e(1), of d0] side [OF e(2), of d1] ResponseType b d e(3) show ?case
    by (auto simp: admits_response)
qed (auto simp: least_supertype_shapes least_supertype_atoms split: type_signature.splits if_splits)

section \<open>The order and the join as interfaces\<close>

locale admission_order =
  fixes carrier :: "'a \<Rightarrow> bool"
    and admits :: "'a \<Rightarrow> 'a \<Rightarrow> bool"
  assumes admits_refl: "carrier t \<Longrightarrow> admits t t"
    and admits_trans: "admits t s \<Longrightarrow> admits s r \<Longrightarrow> admits t r"

locale admission_join = admission_order carrier admits
  for carrier :: "'a \<Rightarrow> bool" and admits :: "'a \<Rightarrow> 'a \<Rightarrow> bool" +
  fixes join :: "'a \<Rightarrow> 'a \<Rightarrow> ('a, 'e) outcome"
  assumes join_carrier: "join a b = Ok c \<Longrightarrow> carrier a \<Longrightarrow> carrier b \<Longrightarrow> carrier c"
    and join_upper: "join a b = Ok c \<Longrightarrow> carrier a \<Longrightarrow> carrier b \<Longrightarrow> admits c a \<and> admits c b"
    and join_least: "join a b = Ok c \<Longrightarrow> carrier a \<Longrightarrow> carrier b \<Longrightarrow>
          admits d a \<Longrightarrow> admits d b \<Longrightarrow> admits d c"
begin

lemma fold_join_carrier:
  "try_fold_r join t ts = Ok u \<Longrightarrow> \<forall>s \<in> set (t # ts). carrier s \<Longrightarrow> carrier u"
  by (induction ts arbitrary: t) (auto simp: outcome_simps dest: join_carrier)

lemma fold_join_upper:
  "try_fold_r join t ts = Ok u \<Longrightarrow> \<forall>s \<in> set (t # ts). carrier s \<Longrightarrow>
     s \<in> set (t # ts) \<Longrightarrow> admits u s"
proof (induction ts arbitrary: t s)
  case (Cons x ts)
  from Cons.prems(1) obtain v where v: "join t x = Ok v" and rest: "try_fold_r join v ts = Ok u"
    by (auto simp: outcome_simps)
  from Cons.prems(2) v have c: "\<forall>s \<in> set (v # ts). carrier s" by (auto dest: join_carrier)
  from Cons.IH [OF rest c, of v] have uv: "admits u v" by simp
  from join_upper [OF v] Cons.prems(2) have vt: "admits v t" "admits v x" by auto
  show ?case
  proof (cases "s \<in> set ts")
    case True
    with Cons.IH [OF rest c, of s] show ?thesis by simp
  next
    case False
    with Cons.prems(3) uv vt admits_trans show ?thesis by auto
  qed
qed (auto intro: admits_refl)

lemma fold_join_least:
  "try_fold_r join t ts = Ok u \<Longrightarrow> \<forall>s \<in> set (t # ts). carrier s \<Longrightarrow>
     \<forall>s \<in> set (t # ts). admits d s \<Longrightarrow> admits d u"
proof (induction ts arbitrary: t)
  case (Cons x ts)
  from Cons.prems(1) obtain v where v: "join t x = Ok v" and rest: "try_fold_r join v ts = Ok u"
    by (auto simp: outcome_simps)
  from Cons.prems(2) v have c: "\<forall>s \<in> set (v # ts). carrier s" by (auto dest: join_carrier)
  from join_least [OF v, of d] Cons.prems(2,3) have "admits d v" by simp
  with Cons.IH [OF rest c] Cons.prems(3) show ?case by simp
qed simp

end

interpretation type_order: admission_order concrete "\<lambda>t s. admits_type t s = Ok True"
  by unfold_locales (auto intro: admits_type_refl admits_type_trans)

interpretation type_join: admission_join concrete "\<lambda>t s. admits_type t s = Ok True" least_supertype
  by unfold_locales (use least_supertype_upper least_supertype_least in blast)+

section \<open>Properties\<close>

lemmas type_eval = least_supertype_shapes least_supertype_atoms list_of_def new_list_def new_option_def
  new_response_def tuple_type_try_from_def type_sig_size_def too_large_def u32_try_from_def
  checked_mul_def checked_add_def MAX_TYPE_DEPTH_def MAX_VALUE_SIZE_def WRAPPER_VALUE_SIZE_def

text \<open>C8: on types of actual values, admission is a preorder, and a successful \<open>least_supertype\<close> is the
  join of its arguments: it admits both, and every type that admits both admits it.\<close>

theorem least_supertype_is_join:
  assumes "concrete a" and "concrete b" and "least_supertype a b = Ok c"
  shows "admits_type a a = Ok True \<and> admits_type c a = Ok True \<and> admits_type c b = Ok True \<and>
    (\<forall>d. admits_type d a = Ok True \<and> admits_type d b = Ok True \<longrightarrow> admits_type d c = Ok True) \<and>
    (\<forall>d e. admits_type d c = Ok True \<and> admits_type e d = Ok True \<longrightarrow> admits_type e a = Ok True)"
  using type_join.join_upper [OF assms(3,1,2)] type_join.join_least [OF assms(3,1,2)]
    type_order.admits_refl [OF assms(1)] type_order.admits_trans by blast

theorem least_supertype_is_join_witness:
  "least_supertype (ListType 2 (BufferType 3)) (ListType 4 (BufferType 1)) = Ok (ListType 4 (BufferType 3)) \<and>
   admits_type (ListType 4 (BufferType 3)) (ListType 2 (BufferType 3)) = Ok True \<and>
   admits_type (ListType 4 (BufferType 3)) (ListType 4 (BufferType 1)) = Ok True"
proof -
  have "least_supertype (ListType 2 (BufferType 3)) (ListType 4 (BufferType 1)) = Ok (ListType 4 (BufferType 3))"
    by (simp add: type_eval)
  with least_supertype_is_join [OF _ _ this] show ?thesis by simp
qed

text \<open>C30: the list type computed for a non-empty literal has the literal's length, admits every
  entry type, and its entry type is below every other type that admits all of them.\<close>

theorem parent_list_type_least:
  assumes "ts \<noteq> []" and "\<forall>t \<in> set ts. concrete t" and "parent_list_type ts = Ok (n, e)"
  shows "unat n = length ts \<and> concrete e \<and> (\<forall>t \<in> set ts. admits_type e t = Ok True) \<and>
    (\<forall>d. (\<forall>t \<in> set ts. admits_type d t = Ok True) \<longrightarrow> admits_type d e = Ok True)"
proof -
  from assms(1) obtain t us where ts: "ts = t # us" by (cases ts) auto
  with assms(3) obtain u m where u: "try_fold_r least_supertype t us = Ok u"
    and m: "u32_try_from (length ts) = Some m" "new_list u m = Ok (n, e)"
    by (auto simp: parent_list_type_def outcome_simps)
  from m(2) have "e = u" "n = m" by (auto dest: new_list_Ok)
  moreover from m(1) have "unat m = length ts" by (auto simp: u32_try_from_def unat_of_nat split: if_splits)
  ultimately show ?thesis
    using type_join.fold_join_carrier [OF u] type_join.fold_join_upper [OF u]
      type_join.fold_join_least [OF u] assms(2) ts by blast
qed

theorem parent_list_type_least_witness:
  "parent_list_type [BufferType 3, BufferType 7, BufferType 1] = Ok (3, BufferType 7) \<and>
   admits_type (BufferType 7) (BufferType 3) = Ok True \<and> admits_type (BufferType 7) (BufferType 1) = Ok True"
proof -
  have "parent_list_type [BufferType 3, BufferType 7, BufferType 1] = Ok (3, BufferType 7)"
    by (simp add: parent_list_type_def type_eval)
  with parent_list_type_least [OF _ _ this] show ?thesis by simp
qed

end
