(* ===== verification/TypeBounds.thy ===== *)
theory TypeBounds
  imports TypeLattice
begin

text \<open>
  Sizes and depths of the types the guarded constructors build. The reference functions
  \<open>nat_size\<close>, \<open>nat_type_size\<close> and \<open>nat_depth\<close> are the documented formulas over unbounded
  numbers; on well-formed types the checked 32-bit computations of the code agree with them,
  nothing panics, and the results stay below the limits.
\<close>

section \<open>Reference formulas\<close>

fun nat_type_size :: "type_signature \<Rightarrow> nat" where
  "nat_type_size (BufferType l) = 5"
| "nat_type_size (ListType n t) = nat_type_size t + 5"
| "nat_type_size (TupleType fs) = 2 * length fs + (\<Sum>p\<leftarrow>fs. nat_type_size (snd p) + length (fst p))"
| "nat_type_size (OptionalType t) = nat_type_size t + 1"
| "nat_type_size (ResponseType t s) = nat_type_size t + nat_type_size s + 1"
| "nat_type_size _ = 1"

fun nat_size :: "type_signature \<Rightarrow> nat" where
  "nat_size NoType = 1"
| "nat_size IntType = 16"
| "nat_size UIntType = 16"
| "nat_size BoolType = 1"
| "nat_size PrincipalType = 148"
| "nat_size (BufferType l) = 4 + unat l"
| "nat_size (ListType n t) = unat n * nat_size t + (nat_type_size t + 5)"
| "nat_size (TupleType fs) =
     2 * length fs + nat_type_size (TupleType fs) + (\<Sum>p\<leftarrow>fs. nat_size (snd p) + length (fst p))"
| "nat_size (OptionalType t) = nat_size t + 1"
| "nat_size (ResponseType t s) = max (nat_size t) (nat_size s) + 1"
| "nat_size (TraitReferenceType i) = 276"

fun nat_depth :: "type_signature \<Rightarrow> nat" where
  "nat_depth (TupleType fs) = 1 + fold max (map (\<lambda>p. nat_depth (snd p)) fs) 0"
| "nat_depth (ListType n t) = 1 + nat_depth t"
| "nat_depth (OptionalType t) = 1 + nat_depth t"
| "nat_depth (ResponseType t s) = 1 + max (nat_depth t) (nat_depth s)"
| "nat_depth _ = 1"

text \<open>The types the guarded constructors build, hereditarily.\<close>

fun wf_type :: "type_signature \<Rightarrow> bool" where
  "wf_type (BufferType l) = (l \<le> MAX_VALUE_SIZE)"
| "wf_type (ListType n t) = (wf_type t \<and> new_list t n = Ok (n, t))"
| "wf_type (TupleType fs) =
     (bt_wf fs \<and> (\<forall>p \<in> set fs. valid_clarity_name (fst p) \<and> wf_type (snd p)) \<and>
      tuple_type_try_from fs = Ok fs)"
| "wf_type (OptionalType t) = (wf_type t \<and> new_option t = Ok (OptionalType t))"
| "wf_type (ResponseType t s) = (wf_type t \<and> wf_type s \<and> new_response t s = Ok (ResponseType t s))"
| "wf_type _ = True"

section \<open>Constants\<close>

lemma unat_MAX_VALUE_SIZE [simp]: "unat MAX_VALUE_SIZE = 1048576"
  by (simp add: MAX_VALUE_SIZE_def)

lemma unat_MAX_TYPE_DEPTH [simp]: "unat MAX_TYPE_DEPTH = 32"
  by (simp add: MAX_TYPE_DEPTH_def)

lemma unat_WRAPPER_VALUE_SIZE [simp]: "unat WRAPPER_VALUE_SIZE = 1"
  by (simp add: WRAPPER_VALUE_SIZE_def)

lemma too_large_Some [checked_simps]: "too_large s = Some r \<longleftrightarrow> r = s \<and> unat s \<le> 1048576"
  by (auto simp: too_large_def word_less_nat_alt)

lemma u32_try_from_Some [checked_simps]: "u32_try_from n = Some r \<longleftrightarrow> unat r = n"
proof -
  have "unat r < 2 ^ 32" using unat_lt2p [of r] by (simp del: unsigned_less)
  then show ?thesis
    by (auto simp: u32_try_from_def unat_of_nat)
qed

lemma unat_name_length [simp]: "valid_clarity_name n \<Longrightarrow> unat (word_of_nat (length n) :: u32) = length n"
  by (simp add: valid_clarity_name_def MAX_STRING_LEN_def unat_of_nat)

section \<open>Type sizes\<close>

lemma ex_unat_add:
  "(\<exists>a :: 'a::len word. unat a = k \<and> unat (s :: 'a word) = unat a + m) \<longleftrightarrow> unat s = k + m"
proof
  assume s: "unat s = k + m"
  then have "k < 2 ^ LENGTH('a)" by (metis unat_lt2p le_add1 order_le_less_trans)
  then have "unat (word_of_nat k :: 'a word) = k" by (simp add: unat_of_nat)
  with s show "\<exists>a :: 'a word. unat a = k \<and> unat s = unat a + m" by metis
qed auto

lemma ex_unat_le: "k \<le> unat (s :: 'a::len word) \<Longrightarrow> \<exists>a :: 'a word. unat a = k"
  by (metis ex_unat_add le_add_diff_inverse)

lemma tuple_type_size_loop_iff:
  assumes "\<forall>p \<in> set fs. valid_clarity_name (fst p)"
    and "\<And>p s. p \<in> set fs \<Longrightarrow> inner_type_size (snd p) = Some s \<longleftrightarrow> unat s = nat_type_size (snd p)"
  shows "tuple_type_size_loop acc fs = Some r \<longleftrightarrow>
    unat r = unat acc + (\<Sum>p\<leftarrow>fs. nat_type_size (snd p) + length (fst p))"
  using assms
proof (induction fs arbitrary: acc)
  case (Cons p fs)
  obtain n t where p: "p = (n, t)" by force
  have t: "inner_type_size t = Some s \<longleftrightarrow> unat s = nat_type_size t" for s
    using Cons.prems(2) [of p s] p by simp
  have IH: "tuple_type_size_loop a fs = Some r \<longleftrightarrow>
    unat r = unat a + (\<Sum>p\<leftarrow>fs. nat_type_size (snd p) + length (fst p))" for a
    using Cons by simp
  have n: "unat (word_of_nat (length n) :: u32) = length n" using Cons.prems(1) p by simp
  let ?s = "\<Sum>p\<leftarrow>fs. nat_type_size (snd p) + length (fst p)"
  have "tuple_type_size_loop acc (p # fs) = Some r \<longleftrightarrow>
      (\<exists>(s :: u32) (a :: u32) (a' :: u32). unat s = nat_type_size t \<and> unat a = unat acc + unat s \<and> unat a' = unat a + length n \<and>
         unat r = unat a' + ?s)"
    by (simp add: p t IH n bind_eq_Some_conv checked_simps)
  also have "\<dots> \<longleftrightarrow> unat r = unat acc + nat_type_size t + length n + ?s" (is "?l \<longleftrightarrow> ?r")
  proof
    assume r: ?r
    then obtain s :: u32 where "unat s = nat_type_size t" using ex_unat_le [of "nat_type_size t" r] by auto
    moreover from r obtain a :: u32 where "unat a = unat acc + nat_type_size t"
      using ex_unat_le [of "unat acc + nat_type_size t" r] by auto
    moreover from r obtain a' :: u32 where "unat a' = unat acc + nat_type_size t + length n"
      using ex_unat_le [of "unat acc + nat_type_size t + length n" r] by auto
    ultimately show ?l using r by (intro exI [of _ s] exI [of _ a] exI [of _ a']) simp
  qed auto
  finally show ?case by (simp add: p add.assoc)
qed (auto simp: word_unat_eq_iff)

lemma new_list_Ok_iff:
  "new_list t n = Ok x \<longleftrightarrow> x = (n, t) \<and> 1 + depth t \<le> MAX_TYPE_DEPTH \<and>
     (\<exists>s. list_inner_size n t = Ok s \<and> s \<le> MAX_VALUE_SIZE)"
  by (auto simp: new_list_def outcome_simps not_less split: if_splits)

lemma tuple_type_try_from_Ok_iff:
  "tuple_type_try_from m = Ok x \<longleftrightarrow> x = m \<and> m \<noteq> [] \<and> (\<forall>p \<in> set m. 1 + depth (snd p) \<le> MAX_TYPE_DEPTH) \<and>
     (\<exists>s. tuple_inner_size m = Ok s \<and> s \<le> MAX_VALUE_SIZE)"
proof -
  have "list_ex (\<lambda>(n, t). 1 + depth t > MAX_TYPE_DEPTH) m \<longleftrightarrow> \<not> (\<forall>p \<in> set m. 1 + depth (snd p) \<le> MAX_TYPE_DEPTH)"
    by (simp add: list_ex_iff case_prod_beta not_le)
  then show ?thesis
    by (auto simp: tuple_type_try_from_def outcome_simps not_less simp del: tuple_inner_size.simps)
qed

lemma inner_type_size_iff:
  "wf_type t \<Longrightarrow> inner_type_size t = Some s \<longleftrightarrow> unat s = nat_type_size t"
proof (induction t arbitrary: s rule: type_induct)
  case (TupleType fs)
  let ?s = "\<Sum>p\<leftarrow>fs. nat_type_size (snd p) + length (fst p)"
  have loop: "tuple_type_size_loop m fs = Some r \<longleftrightarrow> unat r = unat m + ?s" for m r
  proof (rule tuple_type_size_loop_iff)
    show "\<forall>p \<in> set fs. valid_clarity_name (fst p)" using TupleType.prems by auto
    show "inner_type_size (snd p) = Some s \<longleftrightarrow> unat s = nat_type_size (snd p)" if "p \<in> set fs" for p s
      using TupleType.IH [of "fst p" "snd p" s] TupleType.prems that by auto
  qed
  from TupleType.prems obtain r where r: "tuple_type_size fs = Some r"
    by (auto simp: tuple_type_try_from_Ok_iff outcome_simps)
  with loop have "unat r = nat_type_size (TupleType fs)"
    by (auto simp: bind_eq_Some_conv checked_simps)
  with r show ?case by (auto simp: word_unat_eq_iff simp del: tuple_type_size.simps)
next
  case (ListType n t)
  then obtain r where r: "list_type_size t = Some r"
    by (auto simp: new_list_Ok_iff outcome_simps)
  with ListType have "unat r = nat_type_size (ListType n t)"
    by (auto simp: bind_eq_Some_conv checked_simps)
  with r show ?case by (auto simp: word_unat_eq_iff simp del: list_type_size.simps)
next
  case (OptionalType t)
  then show ?case using ex_unat_add [of "nat_type_size t" s 1]
    by (simp add: bind_eq_Some_conv checked_simps)
next
  case (ResponseType t u)
  then have "inner_type_size (ResponseType t u) = Some s \<longleftrightarrow>
     (\<exists>(a :: u32) (b :: u32) (c :: u32). unat a = nat_type_size t \<and> unat b = nat_type_size u \<and> unat c = unat a + unat b \<and>
        unat s = unat c + 1)"
    by (simp add: bind_eq_Some_conv checked_simps)
  also have "\<dots> \<longleftrightarrow> unat s = nat_type_size t + nat_type_size u + 1" (is "?l \<longleftrightarrow> ?r")
  proof
    assume r: ?r
    then obtain a b c :: u32 where "unat a = nat_type_size t" "unat b = nat_type_size u"
        "unat c = nat_type_size t + nat_type_size u"
      using ex_unat_le [of "nat_type_size t" s] ex_unat_le [of "nat_type_size u" s]
        ex_unat_le [of "nat_type_size t + nat_type_size u" s] by auto
    with r show ?l by metis
  qed auto
  finally show ?case by simp
qed (auto simp: word_unat_eq_iff)

section \<open>Sizes\<close>

lemma list_inner_size_iff:
  assumes wf: "wf_type t" and s: "inner_size t = Ok s" "unat s = nat_size t"
  shows "list_inner_size n t = Ok r \<longleftrightarrow>
    unat r = unat n * nat_size t + (nat_type_size t + 5) \<and> unat r \<le> 1048576"
proof -
  note ts = inner_type_size_iff [OF wf]
  have lts: "list_type_size t = Some x \<longleftrightarrow> unat x = nat_type_size t + 5 \<and> unat x \<le> 1048576" for x
    using ex_unat_add [of "nat_type_size t" x 5] by (auto simp: ts bind_eq_Some_conv checked_simps)
  have "list_inner_size n t = Ok r \<longleftrightarrow> (\<exists>(m :: u32) (x :: u32). unat m = nat_size t * unat n \<and>
     unat x = nat_type_size t + 5 \<and> unat x \<le> 1048576 \<and> unat r = unat m + unat x \<and> unat r \<le> 1048576)"
    by (auto simp: s lts outcome_simps checked_simps simp del: list_type_size.simps)
  also have "\<dots> \<longleftrightarrow> unat r = unat n * nat_size t + (nat_type_size t + 5) \<and> unat r \<le> 1048576" (is "?l \<longleftrightarrow> ?r")
  proof
    assume r: ?r
    then obtain m x :: u32 where "unat m = nat_size t * unat n" "unat x = nat_type_size t + 5"
      using ex_unat_le [of "nat_size t * unat n" r] ex_unat_le [of "nat_type_size t + 5" r]
      by (auto simp: mult.commute)
    moreover from this r have "unat x \<le> 1048576" by simp
    ultimately show ?l using r
      by (intro exI [of _ m] exI [of _ x]) (simp add: mult.commute)
  qed auto
  finally show ?thesis .
qed

lemma tuple_inner_size_loop_iff:
  assumes "\<forall>p \<in> set fs. valid_clarity_name (fst p)"
    and "\<And>p. p \<in> set fs \<Longrightarrow> \<exists>s. inner_size (snd p) = Ok s \<and> unat s = nat_size (snd p)"
  shows "tuple_inner_size_loop acc fs = Ok r \<longleftrightarrow>
    unat r = unat acc + (\<Sum>p\<leftarrow>fs. nat_size (snd p) + length (fst p))"
  using assms
proof (induction fs arbitrary: acc)
  case (Cons p fs)
  obtain n t where p: "p = (n, t)" by force
  obtain s where s: "inner_size t = Ok s" "unat s = nat_size t"
    using Cons.prems(2) [of p] p by auto
  have IH: "tuple_inner_size_loop a fs = Ok r \<longleftrightarrow>
    unat r = unat a + (\<Sum>p\<leftarrow>fs. nat_size (snd p) + length (fst p))" for a
    using Cons by simp
  have n: "unat (word_of_nat (length n) :: u32) = length n" using Cons.prems(1) p by simp
  let ?s = "\<Sum>p\<leftarrow>fs. nat_size (snd p) + length (fst p)"
  have "tuple_inner_size_loop acc (p # fs) = Ok r \<longleftrightarrow>
      (\<exists>(a :: u32) (a' :: u32). unat a = unat acc + nat_size t \<and> unat a' = unat a + length n \<and> unat r = unat a' + ?s)"
    by (simp add: p s IH n outcome_simps checked_simps)
  also have "\<dots> \<longleftrightarrow> unat r = unat acc + nat_size t + length n + ?s" (is "?l \<longleftrightarrow> ?r")
  proof
    assume r: ?r
    then obtain a a' :: u32 where "unat a = unat acc + nat_size t" "unat a' = unat acc + nat_size t + length n"
      using ex_unat_le [of "unat acc + nat_size t" r]
        ex_unat_le [of "unat acc + nat_size t + length n" r] by auto
    with r show ?l by (intro exI [of _ a] exI [of _ a']) simp
  qed auto
  finally show ?case by (simp add: p add.assoc)
qed (auto simp: word_unat_eq_iff)

section \<open>Well-formed types stay within the limits\<close>

lemma unat_max: "unat (max a b) = max (unat a) (unat (b :: 'a::len word))"
  by (simp add: max_def word_le_nat_alt)

lemma depth_guard:
  "unat (d :: u8) \<le> 32 \<Longrightarrow> unat (1 + d) = unat d + 1"
  by (simp add: unat_word_ariths)

lemma size_guard:
  "unat (s :: u32) \<le> 1048580 \<Longrightarrow> unat (WRAPPER_VALUE_SIZE + s) = unat s + 1"
  by (simp add: unat_word_ariths)

lemma wrap_add:
  "unat (s :: u32) \<le> 1048580 \<Longrightarrow>
     checked_add s WRAPPER_VALUE_SIZE = Some (s + WRAPPER_VALUE_SIZE) \<and> unat (s + WRAPPER_VALUE_SIZE) = unat s + 1"
  by (simp add: checked_add_def unat_word_ariths)

lemma new_option_Ok_iff:
  assumes "inner_size t = Ok s" "unat s \<le> 1048580"
  shows "new_option t = Ok x \<longleftrightarrow>
    x = OptionalType t \<and> unat s + 1 \<le> 1048576 \<and> 1 + depth t \<le> MAX_TYPE_DEPTH"
  using assms by (auto simp: new_option_def type_sig_size_def size_guard word_less_nat_alt word_le_nat_alt)

lemma new_response_Ok_iff:
  assumes "inner_size t = Ok a" "inner_size u = Ok b" "unat (max a b) \<le> 1048580"
  shows "new_response t u = Ok x \<longleftrightarrow>
    x = ResponseType t u \<and> unat (max a b) + 1 \<le> 1048576 \<and> 1 + max (depth t) (depth u) \<le> MAX_TYPE_DEPTH"
  using assms by (auto simp: new_response_def type_sig_size_def size_guard word_less_nat_alt word_le_nat_alt)

lemma exceeds_if_no_word:
  assumes "\<And>r :: u32. \<not> (unat r = k \<and> unat r \<le> 1048576)"
  shows "1048576 < k"
proof (rule ccontr)
  assume "\<not> 1048576 < k"
  then obtain r :: u32 where "unat r = k" using ex_unat_le [of k "1048576 :: u32"] by auto
  with assms [of r] \<open>\<not> 1048576 < k\<close> show False by simp
qed

lemma fold_max_le: "fold max xs (a :: nat) \<le> k \<longleftrightarrow> a \<le> k \<and> (\<forall>x \<in> set xs. x \<le> k)"
  by (induction xs arbitrary: a) auto

lemma max_depth_unat:
  "\<forall>p \<in> set fs. unat (depth (snd p)) = nat_depth (snd p) \<Longrightarrow>
     unat (max_depth m fs) = fold max (map (\<lambda>p. nat_depth (snd p)) fs) (unat m)"
  by (induction fs arbitrary: m) (auto simp: unat_max max.commute)

lemma depth_ref: "wf_type t \<Longrightarrow> unat (depth t) = nat_depth t \<and> nat_depth t \<le> 32"
proof (induction t rule: type_induct)
  case (ListType n t)
  then show ?case by (auto simp: new_list_Ok_iff depth_guard word_le_nat_alt)
next
  case (TupleType fs)
  have fields: "unat (depth (snd p)) = nat_depth (snd p) \<and> nat_depth (snd p) \<le> 31" if "p \<in> set fs" for p
  proof -
    from TupleType.prems that have "1 + depth (snd p) \<le> MAX_TYPE_DEPTH"
      by (auto simp: tuple_type_try_from_Ok_iff)
    with TupleType.IH [of "fst p" "snd p"] TupleType.prems that show ?thesis
      by (auto simp: depth_guard word_le_nat_alt)
  qed
  then have "unat (max_depth 0 fs) = fold max (map (\<lambda>p. nat_depth (snd p)) fs) 0"
    using max_depth_unat [of fs 0] by simp
  moreover from fields have "fold max (map (\<lambda>p. nat_depth (snd p)) fs) 0 \<le> 31"
    by (auto simp: fold_max_le)
  ultimately show ?case by (simp add: depth_guard)
next
  case (OptionalType t)
  then show ?case by (auto simp: new_option_def outcome_simps depth_guard word_le_nat_alt not_less split: if_splits)
next
  case (ResponseType t s)
  then have "unat (max (depth t) (depth s)) = max (nat_depth t) (nat_depth s)"
    by (simp add: unat_max)
  with ResponseType show ?case
    by (auto simp: new_response_def outcome_simps depth_guard word_le_nat_alt not_less split: if_splits)
qed auto

lemma size_ref: "wf_type t \<Longrightarrow> \<exists>s. inner_size t = Ok s \<and> unat s = nat_size t \<and> nat_size t \<le> 1048580"
proof (induction t rule: type_induct)
  case (BufferType l)
  then have "unat l \<le> 1048576" by (simp add: word_le_nat_alt)
  then show ?case by (simp add: unat_word_ariths)
next
  case (ListType n t)
  then obtain s where s: "inner_size t = Ok s" "unat s = nat_size t" by auto
  from ListType.prems obtain r where r: "list_inner_size n t = Ok r" by (auto simp: new_list_Ok_iff)
  with list_inner_size_iff [OF _ s, of n r] ListType.prems
  have "unat r = nat_size (ListType n t)" "unat r \<le> 1048576" by auto
  with r show ?case by (auto simp del: list_inner_size.simps nat_size.simps)
next
  case (TupleType fs)
  from TupleType.prems obtain r where r: "tuple_inner_size fs = Ok r" by (auto simp: tuple_type_try_from_Ok_iff)
  then obtain l m ts a tot where d: "u32_try_from (length fs) = Some l" "checked_mul l 2 = Some m"
    "tuple_type_size fs = Some ts" "checked_add m ts = Some a" "tuple_inner_size_loop a fs = Ok tot"
    "too_large tot = Some r"
    by (auto simp: outcome_simps simp del: tuple_type_size.simps)
  have "unat tot = unat a + (\<Sum>p\<leftarrow>fs. nat_size (snd p) + length (fst p))"
  proof (subst tuple_inner_size_loop_iff [symmetric])
    show "\<forall>p \<in> set fs. valid_clarity_name (fst p)" using TupleType.prems by auto
    show "\<exists>s. inner_size (snd p) = Ok s \<and> unat s = nat_size (snd p)" if "p \<in> set fs" for p
      using TupleType.IH [of "fst p" "snd p"] TupleType.prems that by auto
  qed (fact d(5))
  moreover from d(3) inner_type_size_iff [OF TupleType.prems, of ts]
  have "unat ts = nat_type_size (TupleType fs)" by simp
  ultimately have "unat r = nat_size (TupleType fs)" "unat r \<le> 1048576"
    using d(1,2,4,6) by (auto simp: checked_simps)
  with r show ?case by (auto simp del: tuple_inner_size.simps nat_size.simps)
next
  case (OptionalType t)
  then obtain s where s: "inner_size t = Ok s" "unat s = nat_size t" "unat s \<le> 1048580" by auto
  with OptionalType.prems new_option_Ok_iff [OF s(1,3)] wrap_add [OF s(3)] show ?case by auto
next
  case (ResponseType t u)
  then obtain a b where s: "inner_size t = Ok a" "unat a = nat_size t" "unat a \<le> 1048580"
      "inner_size u = Ok b" "unat b = nat_size u" "unat b \<le> 1048580" by auto
  then have m: "unat (max a b) \<le> 1048580" "unat (max a b) = max (nat_size t) (nat_size u)"
    by (simp_all add: unat_max)
  with s ResponseType.prems new_response_Ok_iff [OF s(1,4) m(1)] wrap_add [OF m(1)] show ?case by auto
qed auto

section \<open>The guarded constructors, exactly\<close>

lemma list_inner_size_total:
  assumes "wf_type t"
  shows "list_inner_size n t \<noteq> Panic"
    and "list_inner_size n t = Ok r \<longleftrightarrow>
      unat r = unat n * nat_size t + (nat_type_size t + 5) \<and> unat r \<le> 1048576"
proof -
  obtain s where s: "inner_size t = Ok s" "unat s = nat_size t" using size_ref [OF assms] by auto
  then show "list_inner_size n t = Ok r \<longleftrightarrow>
      unat r = unat n * nat_size t + (nat_type_size t + 5) \<and> unat r \<le> 1048576"
    by (rule list_inner_size_iff [OF assms])
  from s show "list_inner_size n t \<noteq> Panic"
    by (simp add: outcome_simps split: option.splits)
qed

lemma new_list_exact:
  assumes "wf_type t"
  shows "new_list t n =
    (if 32 < nat_depth t + 1 then Err TypeSignatureTooDeep
     else if 1048576 < unat n * nat_size t + nat_type_size t + 5 then Err ValueTooLarge
     else Ok (n, t))"
proof -
  have d: "MAX_TYPE_DEPTH < 1 + depth t \<longleftrightarrow> 32 < nat_depth t + 1"
    using depth_ref [OF assms] by (simp add: word_less_nat_alt depth_guard)
  note size = list_inner_size_total [OF assms, of n]
  show ?thesis
  proof (cases "list_inner_size n t")
    case (Ok r)
    with size(2) [of r] d show ?thesis
      by (auto simp: new_list_def word_less_nat_alt simp del: list_inner_size.simps)
  next
    case (Err e)
    have "1048576 < unat n * nat_size t + (nat_type_size t + 5)"
      using size(2) Err by (intro exceeds_if_no_word) (auto simp del: list_inner_size.simps)
    with Err d show ?thesis by (simp add: new_list_def del: list_inner_size.simps)
  next
    case Panic
    with size(1) show ?thesis by simp
  qed
qed

lemma new_option_exact:
  assumes "wf_type t"
  shows "new_option t =
    (if 1048576 < nat_size t + 1 then Err ValueTooLarge
     else if 32 < nat_depth t + 1 then Err TypeSignatureTooDeep
     else Ok (OptionalType t))"
  using size_ref [OF assms] depth_ref [OF assms]
  by (auto simp: new_option_def type_sig_size_def word_less_nat_alt size_guard depth_guard)

lemma new_response_exact:
  assumes "wf_type t" "wf_type s"
  shows "new_response t s =
    (if 1048576 < max (nat_size t) (nat_size s) + 1 then Err ValueTooLarge
     else if 32 < max (nat_depth t) (nat_depth s) + 1 then Err TypeSignatureTooDeep
     else Ok (ResponseType t s))"
proof -
  obtain a b where ab: "inner_size t = Ok a" "unat a = nat_size t" "nat_size t \<le> 1048580"
    "inner_size s = Ok b" "unat b = nat_size s" "nat_size s \<le> 1048580"
    using size_ref [OF assms(1)] size_ref [OF assms(2)] by auto
  then have "unat (WRAPPER_VALUE_SIZE + max a b) = max (nat_size t) (nat_size s) + 1"
    by (simp add: size_guard unat_max)
  moreover have "unat (1 + max (depth t) (depth s)) = max (nat_depth t) (nat_depth s) + 1"
    using depth_ref [OF assms(1)] depth_ref [OF assms(2)] by (simp add: depth_guard unat_max)
  ultimately show ?thesis
    by (simp add: new_response_def type_sig_size_def ab word_less_nat_alt)
qed

lemma tuple_type_size_iff:
  assumes "\<forall>p \<in> set fs. valid_clarity_name (fst p) \<and> wf_type (snd p)"
  shows "tuple_type_size fs = Some x \<longleftrightarrow> unat x = nat_type_size (TupleType fs) \<and> unat x \<le> 1048576"
proof -
  let ?s = "\<Sum>p\<leftarrow>fs. nat_type_size (snd p) + length (fst p)"
  have loop: "tuple_type_size_loop m fs = Some r \<longleftrightarrow> unat r = unat m + ?s" for m r
    by (rule tuple_type_size_loop_iff) (use assms inner_type_size_iff in auto)
  have "tuple_type_size fs = Some x \<longleftrightarrow> (\<exists>(l :: u32) (m :: u32). unat l = length fs \<and> unat m = unat l * 2 \<and>
      unat x = unat m + ?s \<and> unat x \<le> 1048576)"
    by (auto simp: loop bind_eq_Some_conv checked_simps)
  also have "\<dots> \<longleftrightarrow> unat x = 2 * length fs + ?s \<and> unat x \<le> 1048576" (is "?l \<longleftrightarrow> ?r")
  proof
    assume r: ?r
    then obtain l m :: u32 where "unat l = length fs" "unat m = 2 * length fs"
      using ex_unat_le [of "length fs" x] ex_unat_le [of "2 * length fs" x] by auto
    with r show ?l by (intro exI [of _ l] exI [of _ m]) simp
  qed auto
  finally show ?thesis by simp
qed

lemma tuple_inner_size_total:
  assumes wf: "\<forall>p \<in> set fs. valid_clarity_name (fst p) \<and> wf_type (snd p)"
  shows "tuple_inner_size fs \<noteq> Panic"
    and "tuple_inner_size fs = Ok r \<longleftrightarrow> unat r = nat_size (TupleType fs) \<and> unat r \<le> 1048576"
proof -
  let ?s = "\<Sum>p\<leftarrow>fs. nat_size (snd p) + length (fst p)" and ?t = "nat_type_size (TupleType fs)"
  note ts = tuple_type_size_iff [OF wf]
  have loop: "tuple_inner_size_loop m fs = Ok r \<longleftrightarrow> unat r = unat m + ?s" for m r
    by (rule tuple_inner_size_loop_iff) (use wf size_ref in force)+
  have "tuple_inner_size fs = Ok r \<longleftrightarrow> (\<exists>(l :: u32) (m :: u32) (x :: u32) (a :: u32). unat l = length fs \<and>
      unat m = unat l * 2 \<and> unat x = ?t \<and> unat x \<le> 1048576 \<and> unat a = unat m + unat x \<and>
      unat r = unat a + ?s \<and> unat r \<le> 1048576)"
    by (auto simp: loop ts outcome_simps checked_simps simp del: tuple_type_size.simps nat_type_size.simps)
  also have "\<dots> \<longleftrightarrow> unat r = 2 * length fs + ?t + ?s \<and> unat r \<le> 1048576" (is "?l \<longleftrightarrow> ?r")
  proof
    assume r: ?r
    then obtain l m x a :: u32 where "unat l = length fs" "unat m = 2 * length fs" "unat x = ?t"
      "unat a = 2 * length fs + ?t"
      using ex_unat_le [of "length fs" r] ex_unat_le [of "2 * length fs" r] ex_unat_le [of ?t r]
        ex_unat_le [of "2 * length fs + ?t" r] by (auto simp del: nat_type_size.simps)
    with r show ?l
      by (intro exI [of _ l] exI [of _ m] exI [of _ x] exI [of _ a]) (simp del: nat_type_size.simps)
  qed (auto simp del: nat_type_size.simps)
  finally show "tuple_inner_size fs = Ok r \<longleftrightarrow> unat r = nat_size (TupleType fs) \<and> unat r \<le> 1048576"
    by simp
  have "tuple_inner_size_loop m fs \<noteq> Panic" for m
    using wf
  proof (induction fs arbitrary: m)
    case (Cons p fs)
    then obtain s where "inner_size (snd p) = Ok s" using size_ref by fastforce
    with Cons show ?case by (cases p) (simp add: outcome_simps)
  qed simp
  then show "tuple_inner_size fs \<noteq> Panic"
    by (simp add: outcome_simps del: tuple_type_size.simps)
qed

lemma tuple_type_try_from_exact:
  assumes wf: "\<forall>p \<in> set fs. valid_clarity_name (fst p) \<and> wf_type (snd p)"
  shows "tuple_type_try_from fs =
    (if fs = [] then Err EmptyTuplesNotAllowed
     else if \<exists>p \<in> set fs. 32 < nat_depth (snd p) + 1 then Err TypeSignatureTooDeep
     else if 1048576 < nat_size (TupleType fs) then Err ValueTooLarge
     else Ok fs)"
proof -
  have "MAX_TYPE_DEPTH < 1 + depth (snd p) \<longleftrightarrow> 32 < nat_depth (snd p) + 1" if "p \<in> set fs" for p
    using depth_ref [of "snd p"] wf that by (simp add: word_less_nat_alt depth_guard)
  then have d: "list_ex (\<lambda>(n, t). 1 + depth t > MAX_TYPE_DEPTH) fs \<longleftrightarrow> (\<exists>p \<in> set fs. 32 < nat_depth (snd p) + 1)"
    by (auto simp: list_ex_iff case_prod_beta)
  note size = tuple_inner_size_total [OF wf]
  show ?thesis
  proof (cases "tuple_inner_size fs")
    case (Ok r)
    with size(2) [of r] d show ?thesis
      by (auto simp: tuple_type_try_from_def word_less_nat_alt simp del: tuple_inner_size.simps nat_size.simps)
  next
    case (Err e)
    have "1048576 < nat_size (TupleType fs)"
      using size(2) Err by (intro exceeds_if_no_word) (auto simp del: tuple_inner_size.simps nat_size.simps)
    with Err d show ?thesis
      by (simp add: tuple_type_try_from_def del: tuple_inner_size.simps nat_size.simps)
  next
    case Panic
    with size(1) show ?thesis by simp
  qed
qed

section \<open>Least supertypes of well-formed types\<close>

lemma new_option_wf: "new_option t = Ok c \<Longrightarrow> wf_type t \<Longrightarrow> wf_type c"
  using new_option_Ok [of t c] by auto

lemma new_response_wf: "new_response t s = Ok c \<Longrightarrow> wf_type t \<Longrightarrow> wf_type s \<Longrightarrow> wf_type c"
  using new_response_Ok [of t s c] by auto

lemma list_of_wf: "list_of t n = Ok c \<Longrightarrow> wf_type t \<Longrightarrow> wf_type c \<and> c = ListType n t"
  by (auto simp: list_of_def outcome_simps new_list_Ok_iff simp del: list_inner_size.simps)

lemma least_supertype_wf:
  "least_supertype a b = Ok c \<Longrightarrow> wf_type a \<Longrightarrow> wf_type b \<Longrightarrow> wf_type c"
proof (induction a arbitrary: b c rule: type_induct)
  case (ListType la ea)
  show ?case
  proof (cases "b = NoType")
    case False
    with ListType.prems obtain lb eb where b: "b = ListType lb eb"
      by (auto simp: least_supertype_shapes split: type_signature.splits)
    from ListType.prems(1) b obtain e where
      e: "(if la = 0 then Ok eb else if lb = 0 then Ok ea else least_supertype ea eb) = Ok e"
      and c: "list_of e (max la lb) = Ok c"
      by (auto simp: least_supertype_shapes outcome_simps)
    from e ListType.IH [of eb e] ListType.prems b have "wf_type e" by (auto split: if_splits)
    with c show ?thesis using list_of_wf by blast
  qed (use ListType.prems in \<open>auto simp: least_supertype_shapes\<close>)
next
  case (TupleType fa)
  show ?case
  proof (cases "b = NoType")
    case False
    with TupleType.prems obtain fb where b: "b = TupleType fb"
      by (auto simp: least_supertype_shapes split: type_signature.splits)
    from TupleType.prems(1) b obtain out where out: "tuple_type_try_from out = Ok out" "c = TupleType out"
      by (auto simp: least_supertype_shapes outcome_simps split: if_splits dest: tuple_type_try_from_Ok)
    from TupleType.prems(2) have wfa: "bt_wf fa" by simp
    from TupleType.prems(1) [unfolded b] wfa obtain zs where
      zs: "c = TupleType zs" "length fa = length fb" "map fst zs = map fst fa" "bt_wf zs"
      and fields: "\<And>n e. (n, e) \<in> set zs \<Longrightarrow> \<exists>ea eb. (n, ea) \<in> set fa \<and> bt_get fa n = Some ea \<and>
           bt_get fb n = Some eb \<and> least_supertype ea eb = Ok e"
      by (rule least_supertype_tuple_Ok) (rule that)
    have "valid_clarity_name n \<and> wf_type e" if ne: "(n, e) \<in> set zs" for n e
    proof -
      from fields [OF ne] obtain ea eb where f: "(n, ea) \<in> set fa" "bt_get fb n = Some eb"
        "least_supertype ea eb = Ok e" by blast
      from TupleType.prems(2) f(1) have "valid_clarity_name n \<and> wf_type ea" by force
      moreover from TupleType.prems(3) b map_of_SomeD [OF f(2)] have "wf_type eb" by force
      ultimately show ?thesis using TupleType.IH [OF f(1) f(3)] by blast
    qed
    with out zs show ?thesis by auto
  qed (use TupleType.prems in \<open>auto simp: least_supertype_shapes\<close>)
next
  case (OptionalType sa)
  show ?case
  proof (cases "b = NoType")
    case False
    with OptionalType.prems obtain sb where b: "b = OptionalType sb"
      by (auto simp: least_supertype_shapes split: type_signature.splits)
    with OptionalType.prems(1) obtain e where e: "factor_out_no_type sa sb = Ok e" "new_option e = Ok c"
      by (auto simp: least_supertype_shapes outcome_simps)
    from e(1) OptionalType.IH [of sb e] OptionalType.prems b have "wf_type e"
      by (auto simp: factor_out_cases split: if_splits)
    with e(2) show ?thesis by (rule new_option_wf)
  qed (use OptionalType.prems in \<open>auto simp: least_supertype_shapes\<close>)
next
  case (ResponseType a0 a1)
  show ?case
  proof (cases "b = NoType")
    case False
    with ResponseType.prems obtain b0 b1 where b: "b = ResponseType b0 b1"
      by (auto simp: least_supertype_shapes split: type_signature.splits)
    with ResponseType.prems(1) obtain e0 e1 where e: "factor_out_no_type a0 b0 = Ok e0"
      "factor_out_no_type a1 b1 = Ok e1" "new_response e0 e1 = Ok c"
      by (auto simp: least_supertype_shapes outcome_simps)
    from e(1,2) ResponseType.IH(1) [of b0 e0] ResponseType.IH(2) [of b1 e1] ResponseType.prems b
    have "wf_type e0" "wf_type e1" by (auto simp: factor_out_cases split: if_splits)
    with e(3) show ?thesis by (rule new_response_wf)
  qed (use ResponseType.prems in \<open>auto simp: least_supertype_shapes\<close>)
qed (auto simp: least_supertype_shapes least_supertype_atoms split: type_signature.splits if_splits)

interpretation wf_join: admission_join "\<lambda>t. concrete t \<and> wf_type t"
    "\<lambda>t s. admits_type t s = Ok True" least_supertype
  by unfold_locales
    (use least_supertype_wf type_join.join_carrier type_join.join_upper type_join.join_least
       type_order.admits_refl type_order.admits_trans in blast)+

section \<open>Properties\<close>

text \<open>C25: a type built by the guarded constructors never makes \<open>size()\<close> panic. Its size is the one of
  the documented formula over unbounded numbers, at most the maximum value size plus the four bytes
  of a buffer prefix, and its nesting depth is exact and at most 32.\<close>

theorem wf_type_within_limits:
  assumes "wf_type t"
  shows "type_sig_size t = Ok (word_of_nat (nat_size t)) \<and> nat_size t \<le> unat MAX_VALUE_SIZE + 4 \<and>
    unat (depth t) = nat_depth t \<and> nat_depth t \<le> unat MAX_TYPE_DEPTH"
proof -
  from size_ref [OF assms] obtain s where s: "inner_size t = Ok s" "unat s = nat_size t" "nat_size t \<le> 1048580"
    by blast
  then have "s = word_of_nat (nat_size t)" by (simp flip: s(2))
  with s depth_ref [OF assms] show ?thesis by (simp add: type_sig_size_def)
qed

theorem wf_type_within_limits_witness:
  "wf_type (OptionalType (ListType 10 (BufferType 32))) \<and>
   type_sig_size (OptionalType (ListType 10 (BufferType 32))) = Ok 371"
proof -
  have wf: "wf_type (OptionalType (ListType 10 (BufferType 32)))" by (simp add: type_eval)
  with wf_type_within_limits [OF wf] show ?thesis by simp
qed

text \<open>C29: on well-formed parts each guarded constructor accepts exactly the types within the depth and
  size limits of the unbounded formulas, and otherwise reports the limit that is broken; the checked
  32-bit arithmetic never accepts a type whose true size overflows.\<close>

theorem guarded_constructors_exact:
  assumes "wf_type t" and "wf_type s" and "\<forall>p \<in> set fs. valid_clarity_name (fst p) \<and> wf_type (snd p)"
  shows "new_list t n =
      (if 32 < nat_depth t + 1 then Err TypeSignatureTooDeep
       else if 1048576 < nat_size (ListType n t) then Err ValueTooLarge else Ok (n, t)) \<and>
    new_option t =
      (if 1048576 < nat_size (OptionalType t) then Err ValueTooLarge
       else if 32 < nat_depth t + 1 then Err TypeSignatureTooDeep else Ok (OptionalType t)) \<and>
    new_response t s =
      (if 1048576 < nat_size (ResponseType t s) then Err ValueTooLarge
       else if 32 < max (nat_depth t) (nat_depth s) + 1 then Err TypeSignatureTooDeep
       else Ok (ResponseType t s)) \<and>
    tuple_type_try_from fs =
      (if fs = [] then Err EmptyTuplesNotAllowed
       else if \<exists>p \<in> set fs. 32 < nat_depth (snd p) + 1 then Err TypeSignatureTooDeep
       else if 1048576 < nat_size (TupleType fs) then Err ValueTooLarge else Ok fs)"
  using new_list_exact [OF assms(1)] new_option_exact [OF assms(1)] new_response_exact [OF assms(1,2)]
    tuple_type_try_from_exact [OF assms(3)] by (simp add: add.assoc)

theorem guarded_constructors_exact_witness:
  "new_list (BufferType 1048575) 1 = Err ValueTooLarge \<and> new_option (BufferType 1048571) = Ok (OptionalType (BufferType 1048571))"
  using guarded_constructors_exact [of "BufferType 1048575" IntType "[]" 1]
    guarded_constructors_exact [of "BufferType 1048571" IntType "[]" 1]
  by (simp add: MAX_VALUE_SIZE_def)

text \<open>C31: the least supertype of two well-formed types is well formed, so its size and depth are again
  within the limits.\<close>

theorem least_supertype_preserves_wf:
  assumes "wf_type a" and "wf_type b" and "least_supertype a b = Ok c"
  shows "wf_type c"
  using assms least_supertype_wf by blast

theorem least_supertype_preserves_wf_witness:
  "wf_type (ListType 4 (BufferType 3)) \<and>
   least_supertype (ListType 2 (BufferType 3)) (ListType 4 (BufferType 1)) = Ok (ListType 4 (BufferType 3))"
proof -
  have "least_supertype (ListType 2 (BufferType 3)) (ListType 4 (BufferType 1)) = Ok (ListType 4 (BufferType 3))"
    by (simp add: type_eval)
  with least_supertype_preserves_wf [OF _ _ this] show ?thesis by (simp add: type_eval)
qed

text \<open>the join of two well-formed types can panic: a short list of long buffers and a long list of
  short buffers have no common list type within the size limit, and the code expects one.\<close>

theorem least_supertype_panics:
  "wf_type (ListType 1 (BufferType 1000000)) \<and> wf_type (ListType 1000 (BufferType 1)) \<and>
   least_supertype (ListType 1 (BufferType 1000000)) (ListType 1000 (BufferType 1)) = Panic"
  by (simp add: type_eval)

text \<open>a buffer length read from a signed integer is not checked from below: a negative length is
  accepted and becomes a length far above the maximum value size, so the type built from it is not
  well formed and its 32-bit size wraps around.\<close>

theorem buffer_length_negative:
  "buffer_length_from_i128 (- 1) = Ok 4294967295 \<and> \<not> wf_type (BufferType 4294967295) \<and>
   type_sig_size (BufferType 4294967295) = Ok 3"
proof -
  have "buffer_length_from_i128 (- 1) = Ok 4294967295" by code_simp
  then show ?thesis by (simp add: type_eval)
qed

end
