(* ===== verification/Values.thy ===== *)
theory Values
  imports TypeBounds
begin

text \<open>
  Clarity values, \<open>src/src/vm/types/mod.rs\<close>: the type of a value, the guarded constructors, tuple
  data, and the equality the code derives, which ignores the type annotations of lists and tuples.

  A value is well formed (\<open>wf_value\<close>) when it and its parts are within the limits on length, size and
  depth, where \<open>value_bytes\<close> and \<open>value_levels\<close> state size and depth over unbounded numbers, without
  the constructors. Well-formed values have a type of that size and depth. The optional and response
  wrappers, buffers and lists of a given type are accepted exactly when they are well formed; list and
  tuple literals are well formed when they are accepted. \<open>from_data_typed\<close> is not guarded in this
  way: it does not look for missing or repeated fields.
\<close>

section \<open>The type of a value\<close>

fun type_of :: "val \<Rightarrow> (type_signature, unit) outcome" where
  "type_of (VPrincipal p) = Ok PrincipalType"
| "type_of (VInt i) = Ok IntType"
| "type_of (VUInt i) = Ok UIntType"
| "type_of (VBool b) = Ok BoolType"
| "type_of (VBuffer bs) = map_ok BufferType (expect (buffer_length_from_usize (length bs)))"
| "type_of (VTuple sig m) = Ok (TupleType sig)"
| "type_of (VList vs n t) = Ok (ListType n t)"
| "type_of (VOptional None) = expect (new_option NoType)"
| "type_of (VOptional (Some v)) = and_then (type_of v) (\<lambda>t. expect (new_option t))"
| "type_of (VResponse committed v) =
     and_then (type_of v) (\<lambda>t.
       expect (if committed then new_response t NoType else new_response NoType t))"

definition value_size :: "val \<Rightarrow> (u32, 'e) outcome" where
  "value_size v = and_then (expect (type_of v)) type_sig_size"

definition value_depth :: "val \<Rightarrow> (u8, 'e) outcome" where
  "value_depth v = map_ok depth (expect (type_of v))"

text \<open>\<open>TypeSignature::admits\<close>.\<close>

definition type_admits :: "type_signature \<Rightarrow> val \<Rightarrow> (bool, check_errors) outcome" where
  "type_admits t v = and_then (expect (type_of v)) (\<lambda>s. admits_type t s)"

section \<open>Guarded constructors\<close>

definition wrap_guard :: "val \<Rightarrow> (val, vm_error) outcome \<Rightarrow> (val, vm_error) outcome" where
  "wrap_guard v k =
     and_then (value_size v) (\<lambda>s.
       if s + WRAPPER_VALUE_SIZE > MAX_VALUE_SIZE then Err (Unchecked ValueTooLarge)
       else and_then (value_depth v) (\<lambda>d.
         if d + 1 > MAX_TYPE_DEPTH then Err (Unchecked TypeSignatureTooDeep) else k))"

definition value_some :: "val \<Rightarrow> (val, vm_error) outcome" where
  "value_some v = wrap_guard v (Ok (VOptional (Some v)))"

definition value_none :: val where
  "value_none = VOptional None"

definition value_okay_true :: val where
  "value_okay_true = VResponse True (VBool True)"

definition value_err_uint :: "u128 \<Rightarrow> val" where
  "value_err_uint n = VResponse False (VUInt n)"

definition value_err_none :: val where
  "value_err_none = VResponse False value_none"

definition value_okay :: "val \<Rightarrow> (val, vm_error) outcome" where
  "value_okay v = wrap_guard v (Ok (VResponse True v))"

definition value_error :: "val \<Rightarrow> (val, vm_error) outcome" where
  "value_error v = wrap_guard v (Ok (VResponse False v))"

fun all_admitted :: "vm_error \<Rightarrow> type_signature \<Rightarrow> val list \<Rightarrow> (unit, vm_error) outcome" where
  "all_admitted e t [] = Ok ()"
| "all_admitted e t (v # vs) =
     and_then (map_err Unchecked (type_admits t v)) (\<lambda>b. if b then all_admitted e t vs else Err e)"

definition list_with_type :: "val list \<Rightarrow> list_type_data \<Rightarrow> (val, vm_error) outcome" where
  "list_with_type vs lt =
     (if unat (fst lt) < length vs then Err (Interpreter FailureConstructingListWithType)
      else and_then (all_admitted (Interpreter FailureConstructingListWithType) (snd lt) vs) (\<lambda>_.
             Ok (VList vs (fst lt) (snd lt))))"

definition construct_parent_list_type :: "val list \<Rightarrow> (list_type_data, check_errors) outcome" where
  "construct_parent_list_type vs = and_then (expect (collect type_of vs)) parent_list_type"

definition list_from :: "val list \<Rightarrow> (val, vm_error) outcome" where
  "list_from vs = map_ok (\<lambda>(n, t). VList vs n t) (map_err Unchecked (construct_parent_list_type vs))"

definition buff_from :: "u8 list \<Rightarrow> (val, vm_error) outcome" where
  "buff_from bs =
     and_then (map_err Unchecked (buffer_length_from_usize (length bs))) (\<lambda>_. Ok (VBuffer bs))"

definition buff_from_byte :: "u8 \<Rightarrow> val" where
  "buff_from_byte b = VBuffer [b]"

text \<open>\<open>TupleData\<close> is the pair of its type signature and its data map.\<close>

type_synonym tuple_data = "tuple_type_signature \<times> (clarity_name, val) btree"

fun from_data_loop :: "tuple_type_signature \<Rightarrow> (clarity_name, val) btree \<Rightarrow> (clarity_name \<times> val) list \<Rightarrow>
    (tuple_type_signature \<times> (clarity_name, val) btree, vm_error) outcome" where
  "from_data_loop tm dm [] = Ok (tm, dm)"
| "from_data_loop tm dm ((name, v) # ds) =
     and_then (expect (type_of v)) (\<lambda>t.
       if bt_get tm name \<noteq> None then Err (Unchecked (NameAlreadyUsed name))
       else from_data_loop (bt_insert name t tm) (bt_insert name v dm) ds)"

definition tuple_from_data :: "(clarity_name \<times> val) list \<Rightarrow> (tuple_data, vm_error) outcome" where
  "tuple_from_data ds =
     and_then (from_data_loop [] [] ds) (\<lambda>(tm, dm).
     and_then (map_err Unchecked (tuple_type_try_from tm)) (\<lambda>sig. Ok (sig, dm)))"

fun from_data_typed_loop :: "tuple_type_signature \<Rightarrow> (clarity_name, val) btree \<Rightarrow> (clarity_name \<times> val) list \<Rightarrow>
    ((clarity_name, val) btree, vm_error) outcome" where
  "from_data_typed_loop sig dm [] = Ok dm"
| "from_data_typed_loop sig dm ((name, v) # ds) =
     and_then (ok_or (Interpreter FailureConstructingTupleWithType) (bt_get sig name)) (\<lambda>t.
     and_then (map_err Unchecked (type_admits t v)) (\<lambda>b.
       if b then from_data_typed_loop sig (bt_insert name v dm) ds
       else Err (Interpreter FailureConstructingTupleWithType)))"

definition tuple_from_data_typed :: "(clarity_name \<times> val) list \<Rightarrow> tuple_type_signature \<Rightarrow> (tuple_data, vm_error) outcome" where
  "tuple_from_data_typed ds sig = map_ok (\<lambda>dm. (sig, dm)) (from_data_typed_loop sig [] ds)"

definition tuple_get :: "tuple_data \<Rightarrow> string \<Rightarrow> (val, vm_error) outcome" where
  "tuple_get td name = ok_or (Unchecked (NoSuchTupleField name (fst td))) (bt_get (snd td) name)"

section \<open>Equality\<close>

text \<open>\<open>PartialEq\<close> compares lists by their entries and tuples by their data maps.\<close>

fun value_eq :: "val \<Rightarrow> val \<Rightarrow> bool" where
  "value_eq (VInt a) w = (w = VInt a)"
| "value_eq (VUInt a) w = (w = VUInt a)"
| "value_eq (VBool a) w = (w = VBool a)"
| "value_eq (VBuffer a) w = (w = VBuffer a)"
| "value_eq (VPrincipal a) w = (w = VPrincipal a)"
| "value_eq (VList vs n t) w = (case w of VList ws m s \<Rightarrow> list_all2 value_eq vs ws | _ \<Rightarrow> False)"
| "value_eq (VTuple sig m) w =
     (case w of
        VTuple sig' m' \<Rightarrow> list_all2 (\<lambda>p q. fst p = fst q \<and> value_eq (snd p) (snd q)) m m'
      | _ \<Rightarrow> False)"
| "value_eq (VOptional None) w = (w = VOptional None)"
| "value_eq (VOptional (Some v)) w = (case w of VOptional (Some u) \<Rightarrow> value_eq v u | _ \<Rightarrow> False)"
| "value_eq (VResponse b v) w = (case w of VResponse c u \<Rightarrow> b = c \<and> value_eq v u | _ \<Rightarrow> False)"

section \<open>Well-formed values\<close>

text \<open>The size and the depth of a value, in unbounded numbers.\<close>

fun value_bytes :: "val \<Rightarrow> nat" where
  "value_bytes (VInt i) = 16"
| "value_bytes (VUInt i) = 16"
| "value_bytes (VBool b) = 1"
| "value_bytes (VPrincipal p) = 148"
| "value_bytes (VBuffer bs) = 4 + length bs"
| "value_bytes (VList vs n t) = nat_size (ListType n t)"
| "value_bytes (VTuple sig m) = nat_size (TupleType sig)"
| "value_bytes (VOptional None) = 2"
| "value_bytes (VOptional (Some v)) = value_bytes v + 1"
| "value_bytes (VResponse c v) = max (value_bytes v) 1 + 1"

fun value_levels :: "val \<Rightarrow> nat" where
  "value_levels (VList vs n t) = nat_depth (ListType n t)"
| "value_levels (VTuple sig m) = nat_depth (TupleType sig)"
| "value_levels (VOptional None) = 2"
| "value_levels (VOptional (Some v)) = 1 + value_levels v"
| "value_levels (VResponse c v) = 1 + max (value_levels v) 1"
| "value_levels _ = 1"

abbreviation wraps :: "val \<Rightarrow> bool" where
  "wraps v \<equiv> value_bytes v + 1 \<le> unat MAX_VALUE_SIZE \<and> value_levels v + 1 \<le> unat MAX_TYPE_DEPTH"

fun wf_value :: "val \<Rightarrow> bool" where
  "wf_value (VBuffer bs) = (length bs \<le> unat MAX_VALUE_SIZE)"
| "wf_value (VPrincipal p) = valid_principal p"
| "wf_value (VList vs n t) =
     (wf_type (ListType n t) \<and> concrete (ListType n t) \<and> length vs \<le> unat n \<and>
      (\<forall>v \<in> set vs. wf_value v \<and> type_admits t v = Ok True))"
| "wf_value (VTuple sig m) =
     (wf_type (TupleType sig) \<and> concrete (TupleType sig) \<and> map fst m = map fst sig \<and>
      (\<forall>p \<in> set m. wf_value (snd p) \<and> (\<exists>t \<in> set sig. fst t = fst p \<and> type_admits (snd t) (snd p) = Ok True)))"
| "wf_value (VOptional None) = True"
| "wf_value (VOptional (Some v)) = (wf_value v \<and> wraps v)"
| "wf_value (VResponse c v) = (wf_value v \<and> wraps v)"
| "wf_value _ = True"

lemma val_induct [case_names VInt VUInt VBool VBuffer VList VPrincipal VTuple None Some VResponse]:
  assumes "\<And>i. P (VInt i)" "\<And>i. P (VUInt i)" "\<And>b. P (VBool b)" "\<And>bs. P (VBuffer bs)"
    and "\<And>vs n t. (\<And>v. v \<in> set vs \<Longrightarrow> P v) \<Longrightarrow> P (VList vs n t)"
    and "\<And>p. P (VPrincipal p)"
    and "\<And>sig m. (\<And>p. p \<in> set m \<Longrightarrow> P (snd p)) \<Longrightarrow> P (VTuple sig m)"
    and "P (VOptional None)" and "\<And>v. P v \<Longrightarrow> P (VOptional (Some v))"
    and "\<And>b v. P v \<Longrightarrow> P (VResponse b v)"
  shows "P v"
proof (induction v)
  case (VTuple sig m)
  have "P (snd p)" if "p \<in> set m" for p
    using VTuple.IH [of p "snd p"] that by (cases p) auto
  then show ?case by (rule assms(7))
next
  case (VOptional x)
  then show ?case using assms(8,9) by (cases x) auto
qed (use assms in auto)

section \<open>Values have types\<close>

lemma wrap_guard_exact:
  assumes "type_of v = Ok t" and "wf_type t"
  shows "wrap_guard v k =
    (if 1048576 < nat_size t + 1 then Err (Unchecked ValueTooLarge)
     else if 32 < nat_depth t + 1 then Err (Unchecked TypeSignatureTooDeep) else k)"
proof -
  obtain s where s: "inner_size t = Ok s" "unat s = nat_size t" "nat_size t \<le> 1048580"
    using size_ref [OF assms(2)] by auto
  then have "unat (s + WRAPPER_VALUE_SIZE) = nat_size t + 1" by (simp add: wrap_add)
  moreover have "unat (depth t + 1) = nat_depth t + 1"
    using depth_ref [OF assms(2)] depth_guard [of "depth t"] by (simp add: add.commute)
  ultimately show ?thesis
    by (simp add: wrap_guard_def value_size_def value_depth_def type_sig_size_def assms(1) s(1)
        word_less_nat_alt)
qed

lemma wrap_guard_Ok:
  assumes "type_of v = Ok t" and "wf_type t"
  shows "wrap_guard v (Ok w) = Ok u \<longleftrightarrow> u = w \<and> nat_size t + 1 \<le> 1048576 \<and> nat_depth t + 1 \<le> 32"
  using wrap_guard_exact [OF assms, of "Ok w"] by auto

lemma new_response_none:
  assumes "wf_type t" and "nat_size t + 1 \<le> 1048576" and "nat_depth t + 1 \<le> 32"
  shows "new_response t NoType = Ok (ResponseType t NoType)"
    and "new_response NoType t = Ok (ResponseType NoType t)"
  using new_response_exact [OF assms(1), of NoType] new_response_exact [OF _ assms(1), of NoType] assms(2,3)
  by auto

lemma new_option_none: "new_option NoType = Ok (OptionalType NoType)"
  using new_option_exact [of NoType] by simp

lemma type_of_measured:
  "wf_value v \<Longrightarrow> \<exists>t. type_of v = Ok t \<and> wf_type t \<and> concrete t \<and> nat_size t = value_bytes v \<and> nat_depth t = value_levels v"
proof (induction v rule: val_induct)
  case (VBuffer bs)
  then show ?case
    by (simp add: buffer_length_from_usize_def word_le_nat_alt unat_of_nat)
next
  case None
  then show ?case by (simp add: new_option_none)
next
  case (Some v)
  then obtain t where t: "type_of v = Ok t" "wf_type t" "concrete t" "nat_size t = value_bytes v" "nat_depth t = value_levels v"
    by auto
  with Some.prems new_option_exact [OF t(2)] have "new_option t = Ok (OptionalType t)" by simp
  with t show ?case by simp
next
  case (VResponse b v)
  then obtain t where t: "type_of v = Ok t" "wf_type t" "concrete t" "nat_size t = value_bytes v" "nat_depth t = value_levels v"
    by auto
  with VResponse.prems have "nat_size t + 1 \<le> 1048576" "nat_depth t + 1 \<le> 32" by simp_all
  from new_response_none [OF t(2) this] t show ?case by (cases b) (auto simp: max.commute)
qed auto

lemma type_of_wf: "wf_value v \<Longrightarrow> \<exists>t. type_of v = Ok t \<and> wf_type t \<and> concrete t"
  using type_of_measured by blast

section \<open>Constructors build well-formed values\<close>

lemma wrap_guard_wf:
  assumes "wf_value v"
  shows "wrap_guard v (Ok w) = Ok u \<longleftrightarrow> u = w \<and> wraps v"
proof -
  obtain t where "type_of v = Ok t" "wf_type t" "nat_size t = value_bytes v" "nat_depth t = value_levels v"
    using type_of_measured [OF assms] by blast
  with wrap_guard_Ok [of v t w u] show ?thesis by simp
qed

lemma wrap_exact:
  assumes "wf_value v"
  shows "value_some v = Ok w \<longleftrightarrow> w = VOptional (Some v) \<and> wf_value w"
    and "value_okay v = Ok w \<longleftrightarrow> w = VResponse True v \<and> wf_value w"
    and "value_error v = Ok w \<longleftrightarrow> w = VResponse False v \<and> wf_value w"
  using assms by (auto simp: value_some_def value_okay_def value_error_def wrap_guard_wf)

text \<open>From here on a wrapped value is well formed when its constructor accepts it.\<close>

lemma wf_value_wrapped:
  "wf_value (VOptional (Some v)) \<longleftrightarrow> wf_value v \<and> value_some v = Ok (VOptional (Some v))"
  "wf_value (VResponse True v) \<longleftrightarrow> wf_value v \<and> value_okay v = Ok (VResponse True v)"
  "wf_value (VResponse False v) \<longleftrightarrow> wf_value v \<and> value_error v = Ok (VResponse False v)"
  using wrap_exact(1) [of v "VOptional (Some v)"] wrap_exact(2) [of v "VResponse True v"] wrap_exact(3) [of v "VResponse False v"]
  by auto

declare wf_value.simps(6,7) [simp del] wf_value_wrapped [simp]

lemma all_admitted_Ok: "all_admitted e t vs = Ok u \<longleftrightarrow> (\<forall>v \<in> set vs. type_admits t v = Ok True)"
  by (induction vs) (auto simp: outcome_simps split: if_splits)

lemma list_with_type_wf:
  assumes "\<forall>v \<in> set vs. wf_value v" "wf_type (ListType n t)" "concrete (ListType n t)"
    and "list_with_type vs (n, t) = Ok w"
  shows "w = VList vs n t \<and> wf_value w"
  using assms by (auto simp: list_with_type_def outcome_simps all_admitted_Ok split: if_splits)

lemma list_with_type_accepts: "wf_value (VList vs n t) \<Longrightarrow> list_with_type vs (n, t) = Ok (VList vs n t)"
  by (auto simp: list_with_type_def outcome_simps all_admitted_Ok)

lemma collect_types:
  "collect type_of vs = Ok ts \<Longrightarrow> list_all2 (\<lambda>v t. type_of v = Ok t) vs ts"
  by (induction vs arbitrary: ts) (auto simp: outcome_simps)

lemma list_from_wf:
  assumes "\<forall>v \<in> set vs. wf_value v" and "list_from vs = Ok w"
  shows "wf_value w \<and> (\<exists>n t. w = VList vs n t)"
proof (cases vs)
  case Nil
  with assms(2) have "w = VList [] 0 NoType"
    by (simp add: list_from_def construct_parent_list_type_def parent_list_type_def empty_list_def)
  with Nil show ?thesis by (simp add: new_list_exact)
next
  case (Cons v us)
  from assms(2) obtain ts n t where ts: "collect type_of vs = Ok ts" "parent_list_type ts = Ok (n, t)"
    "w = VList vs n t"
    by (auto simp: list_from_def construct_parent_list_type_def outcome_simps)
  note rel = collect_types [OF ts(1)]
  with assms(1) have wf: "\<forall>s \<in> set ts. concrete s \<and> wf_type s"
    using type_of_wf by (auto simp: in_set_conv_nth list_all2_conv_all_nth) (metis nth_mem outcome.inject(1))+
  from rel Cons obtain s ss where tss: "ts = s # ss" by (cases ts) auto
  with ts(2) obtain e m where e: "try_fold_r least_supertype s ss = Ok e"
    "u32_try_from (length ts) = Some m" "new_list e m = Ok (n, t)"
    by (auto simp: parent_list_type_def outcome_simps)
  from new_list_Ok [OF e(3)] have et: "t = e" "n = m" by auto
  have carrier: "concrete e \<and> wf_type e" using wf_join.fold_join_carrier [OF e(1)] wf tss by simp
  have "unat m = length vs" using e(2) list_all2_lengthD [OF rel] by (simp add: checked_simps)
  moreover have "type_admits e v = Ok True" if "v \<in> set vs" for v
  proof -
    from that rel obtain s' where "s' \<in> set ts" "type_of v = Ok s'"
      by (auto simp: in_set_conv_nth list_all2_conv_all_nth) (metis nth_mem)
    with wf_join.fold_join_upper [OF e(1)] wf tss show ?thesis by (simp add: type_admits_def)
  qed
  ultimately show ?thesis using ts(3) et carrier e(3) assms(1) by simp
qed

section \<open>Tuples\<close>

lemma bt_insert_list_all2:
  assumes "list_all2 (\<lambda>p q. fst p = fst q \<and> R (fst p) (snd p) (snd q)) xs ys" and "R k a b"
  shows "list_all2 (\<lambda>p q. fst p = fst q \<and> R (fst p) (snd p) (snd q)) (bt_insert k a xs) (bt_insert k b ys)"
  using assms by (induction xs ys rule: list_all2_induct) (auto split: prod.splits)

abbreviation typed_fields :: "tuple_type_signature \<Rightarrow> (clarity_name, val) btree \<Rightarrow> bool" where
  "typed_fields tm dm \<equiv> list_all2 (\<lambda>p q. fst p = fst q \<and> type_of (snd q) = Ok (snd p)) tm dm"

lemma from_data_loop_typed:
  "from_data_loop tm dm ds = Ok (tm', dm') \<Longrightarrow> typed_fields tm dm \<Longrightarrow> bt_wf tm \<Longrightarrow>
     \<forall>p \<in> set dm \<union> set ds. valid_clarity_name (fst p) \<and> wf_value (snd p) \<Longrightarrow>
     typed_fields tm' dm' \<and> bt_wf tm' \<and> (\<forall>p \<in> set dm'. valid_clarity_name (fst p) \<and> wf_value (snd p))"
proof (induction ds arbitrary: tm dm)
  case (Cons p ds)
  obtain name v where p: "p = (name, v)" by force
  from Cons.prems(1) p obtain t where t: "type_of v = Ok t" "bt_get tm name = None"
    "from_data_loop (bt_insert name t tm) (bt_insert name v dm) ds = Ok (tm', dm')"
    by (auto simp: outcome_simps split: if_splits)
  have typed: "typed_fields (bt_insert name t tm) (bt_insert name v dm)"
    using bt_insert_list_all2 [of "\<lambda>k a b. type_of b = Ok a" tm dm name t v] Cons.prems(2) t(1) by simp
  have "map fst tm = map fst dm"
    using Cons.prems(2) by (induction tm dm rule: list_all2_induct) auto
  with t(2) have "name \<notin> fst ` set dm" by (metis list.set_map map_of_eq_None_iff)
  then have dom: "set (bt_insert name v dm) = insert (name, v) (set dm)" by (rule bt_insert_set_fresh)
  have "\<forall>p \<in> set (bt_insert name v dm) \<union> set ds. valid_clarity_name (fst p) \<and> wf_value (snd p)"
    using Cons.prems(4) dom p by auto
  from Cons.IH [OF t(3) typed bt_insert_wf [OF Cons.prems(3)] this] show ?case .
qed simp

lemma typed_fields_wf:
  assumes "typed_fields tm dm" and "bt_wf tm" and "tuple_type_try_from tm = Ok sig"
    and "\<forall>p \<in> set dm. valid_clarity_name (fst p) \<and> wf_value (snd p)"
  shows "wf_value (VTuple sig dm)"
proof -
  have sig: "sig = tm" using assms(3) by (rule tuple_type_try_from_Ok)
  have keys: "map fst dm = map fst tm"
    using assms(1) by (induction tm dm rule: list_all2_induct) auto
  have each: "\<exists>p \<in> set dm. fst p = fst q \<and> type_of (snd p) = Ok (snd q)" if "q \<in> set tm" for q
    using assms(1) that by (induction tm dm rule: list_all2_induct) auto
  have field: "\<exists>q \<in> set tm. fst q = fst p \<and> type_of (snd p) = Ok (snd q)" if "p \<in> set dm" for p
    using assms(1) that by (induction tm dm rule: list_all2_induct) auto
  have wf: "valid_clarity_name (fst q) \<and> wf_type (snd q) \<and> concrete (snd q)" if "q \<in> set tm" for q
    using each [OF that] assms(4) type_of_wf by fastforce
  have "wf_value (snd p) \<and> (\<exists>t \<in> set tm. fst t = fst p \<and> type_admits (snd t) (snd p) = Ok True)"
    if p: "p \<in> set dm" for p
    using field [OF p] assms(4) p wf by (force simp: type_admits_def admits_type_refl)
  then show ?thesis using wf keys assms(2,3) sig by auto
qed

lemma tuple_from_data_wf:
  assumes "\<forall>p \<in> set ds. valid_clarity_name (fst p) \<and> wf_value (snd p)"
    and "tuple_from_data ds = Ok (sig, dm)"
  shows "wf_value (VTuple sig dm)"
proof -
  from assms(2) obtain tm where tm: "from_data_loop [] [] ds = Ok (tm, dm)" "tuple_type_try_from tm = Ok sig"
    by (auto simp: tuple_from_data_def outcome_simps)
  from from_data_loop_typed [OF tm(1)] assms(1) have "typed_fields tm dm" "bt_wf tm"
    "\<forall>p \<in> set dm. valid_clarity_name (fst p) \<and> wf_value (snd p)" by simp_all
  then show ?thesis using typed_fields_wf [OF _ _ tm(2)] by blast
qed

lemma from_data_typed_loop_sorted:
  assumes "bt_wf (dm @ ds)"
    and "\<forall>p \<in> set ds. \<exists>t. bt_get sig (fst p) = Some t \<and> type_admits t (snd p) = Ok True"
  shows "from_data_typed_loop sig dm ds = Ok (dm @ ds)"
  using assms
proof (induction ds arbitrary: dm)
  case (Cons p ds)
  then have "\<forall>k' \<in> fst ` set dm. k' < fst p" by (auto simp: bt_wf_append)
  then have "bt_insert (fst p) (snd p) dm = dm @ [p]" by (simp add: bt_insert_above)
  moreover have "bt_wf ((dm @ [p]) @ ds)" using Cons.prems(1) by simp
  ultimately show ?case using Cons.IH [of "dm @ [p]"] Cons.prems(2) by (cases p) auto
qed simp

lemma from_data_typed_loop_Ok:
  assumes "from_data_typed_loop sig dm ds = Ok dm'" and "bt_wf dm"
  shows "bt_wf dm' \<and> fst ` set dm' = fst ` set dm \<union> fst ` set ds \<and> fst ` set ds \<subseteq> fst ` set sig \<and>
    (\<forall>p \<in> set dm'. p \<in> set dm \<or> p \<in> set ds \<and> (\<exists>t. bt_get sig (fst p) = Some t \<and> type_admits t (snd p) = Ok True))"
  using assms
proof (induction ds arbitrary: dm)
  case (Cons p ds)
  obtain name v where p: "p = (name, v)" by force
  from Cons.prems(1) p obtain t where t: "bt_get sig name = Some t" "type_admits t v = Ok True"
    "from_data_typed_loop sig (bt_insert name v dm) ds = Ok dm'"
    by (auto simp: outcome_simps split: if_splits)
  have sub: "set (bt_insert name v dm) \<subseteq> insert (name, v) (set dm)"
    by (induction name v dm rule: bt_insert.induct) auto
  have "name \<in> fst ` set sig" using t(1) by (metis domI dom_map_of_conv_image_fst)
  with Cons.IH [OF t(3) bt_insert_wf [OF Cons.prems(2)]] sub t(1,2) show ?case
    by (auto simp: bt_insert_keys p)
qed simp

text \<open>Typed construction is right when the names are distinct and as many as the type has.\<close>

lemma tuple_from_data_typed_wf:
  assumes "wf_type (TupleType sig)" and "concrete (TupleType sig)"
    and "\<forall>p \<in> set ds. wf_value (snd p)" and "distinct (map fst ds)" and "length ds = length sig"
    and "tuple_from_data_typed ds sig = Ok (sig', dm)"
  shows "sig' = sig \<and> wf_value (VTuple sig dm)"
proof -
  from assms(6) have dm: "from_data_typed_loop sig [] ds = Ok dm" and sig: "sig' = sig"
    by (auto simp: tuple_from_data_typed_def outcome_simps)
  note ok = from_data_typed_loop_Ok [OF dm bt_wf_Nil]
  have sorted: "bt_wf sig" using assms(2) by simp
  have "card (fst ` set ds) = card (fst ` set sig)"
    using assms(4,5) bt_wf_distinct [OF sorted] by (metis distinct_card length_map set_map)
  with ok have "fst ` set ds = fst ` set sig" by (metis card_subset_eq finite_imageI List.finite_set)
  with ok have "set (map fst dm) = set (map fst sig)" by auto
  with ok sorted have keys: "map fst dm = map fst sig"
    by (auto simp: bt_wf_def intro: strict_sorted_equal)
  have "\<exists>t \<in> set sig. fst t = fst p \<and> type_admits (snd t) (snd p) = Ok True" if "p \<in> set dm" for p
  proof -
    from ok that obtain t where t: "bt_get sig (fst p) = Some t" "type_admits t (snd p) = Ok True" by auto
    then show ?thesis by (intro bexI [OF _ map_of_SomeD [OF t(1)]]) simp
  qed
  moreover have "wf_value (snd p)" if "p \<in> set dm" for p using ok assms(3) that by auto
  ultimately show ?thesis using sig keys assms(1,2) by simp
qed

section \<open>Properties\<close>

text \<open>C28: \<open>type_of\<close> never panics on a value the guarded constructors built: the value has a well-formed
  type that admits it, and \<open>size()\<close> and \<open>depth()\<close> return that type's size and depth.\<close>

theorem wf_value_has_type:
  assumes "wf_value v"
  shows "\<exists>t. type_of v = Ok t \<and> wf_type t \<and> type_admits t v = Ok True \<and>
    value_size v = Ok (word_of_nat (nat_size t)) \<and> value_depth v = Ok (word_of_nat (nat_depth t))"
proof -
  obtain t where t: "type_of v = Ok t" "wf_type t" "concrete t" using type_of_wf [OF assms] by blast
  from size_ref [OF t(2)] obtain s where s: "inner_size t = Ok s" "unat s = nat_size t" by blast
  from s(2) have "s = word_of_nat (nat_size t)" by (simp flip: s(2))
  moreover have "depth t = word_of_nat (nat_depth t)"
    using depth_ref [OF t(2)] by (simp add: word_unat_eq_iff unat_of_nat)
  ultimately show ?thesis using t s(1)
    by (intro exI [of _ t]) (simp add: type_admits_def value_size_def value_depth_def type_sig_size_def admits_type_refl)
qed

theorem wf_value_has_type_witness:
  "wf_value (VOptional (Some (VList [VInt 1, VInt 2] 5 IntType))) \<and>
   (\<exists>t. type_of (VOptional (Some (VList [VInt 1, VInt 2] 5 IntType))) = Ok t \<and> wf_type t)"
proof -
  have wf: "wf_value (VOptional (Some (VList [VInt 1, VInt 2] 5 IntType)))"
    by (simp add: type_eval type_admits_def admits_iff value_some_def wrap_guard_def value_size_def value_depth_def)
  with wf_value_has_type [OF wf] show ?thesis by blast
qed

text \<open>C27: the guarded constructors and well-formedness. On well-formed parts the optional and response
  wrappers, buffers and lists of a given well-formed type are accepted exactly when the value they are
  asked to build is well formed: within the limits on size and depth, not too long, with admitted
  entries. A list literal or a tuple literal that is accepted is well formed.\<close>

theorem value_constructors_wf:
  assumes "\<forall>v \<in> set vs. wf_value v" and "v \<in> set vs"
    and "\<forall>p \<in> set ds. valid_clarity_name (fst p) \<and> wf_value (snd p)"
    and "wf_type (ListType n t)" and "concrete (ListType n t)"
  shows "(value_some v = Ok w \<longleftrightarrow> w = VOptional (Some v) \<and> wf_value w) \<and>
    (value_okay v = Ok w \<longleftrightarrow> w = VResponse True v \<and> wf_value w) \<and>
    (value_error v = Ok w \<longleftrightarrow> w = VResponse False v \<and> wf_value w) \<and>
    (buff_from bs = Ok w \<longleftrightarrow> w = VBuffer bs \<and> wf_value w) \<and>
    (list_with_type vs (n, t) = Ok w \<longleftrightarrow> w = VList vs n t \<and> wf_value w) \<and>
    (list_from vs = Ok w \<longrightarrow> wf_value w \<and> (\<exists>k e. w = VList vs k e)) \<and>
    (tuple_from_data ds = Ok (sig, dm) \<longrightarrow> wf_value (VTuple sig dm))"
proof -
  have "wf_value v" using assms(1,2) by blast
  moreover have "buff_from bs = Ok w \<longleftrightarrow> w = VBuffer bs \<and> wf_value w"
    by (auto simp: buff_from_def buffer_length_from_usize_def outcome_simps split: if_splits)
  moreover have "list_with_type vs (n, t) = Ok w \<longleftrightarrow> w = VList vs n t \<and> wf_value w"
    using list_with_type_wf [OF assms(1,4,5), of w] list_with_type_accepts [of vs n t] by blast
  ultimately show ?thesis
    using wrap_exact [of v w] list_from_wf [OF assms(1), of w] tuple_from_data_wf [OF assms(3), of sig dm] by blast
qed

theorem value_constructors_wf_witness:
  "list_from [VInt 1, VInt 2] = Ok (VList [VInt 1, VInt 2] 2 IntType) \<and> wf_value (VList [VInt 1, VInt 2] 2 IntType) \<and>
   value_some (VInt 1) = Ok (VOptional (Some (VInt 1)))"
proof -
  have "list_from [VInt 1, VInt 2] = Ok (VList [VInt 1, VInt 2] 2 IntType)"
    by (simp add: list_from_def construct_parent_list_type_def parent_list_type_def type_eval)
  moreover have "wf_value (VOptional (Some (VInt 1)))" by (simp only: wf_value.simps value_bytes.simps value_levels.simps) simp
  moreover have "wf_type (ListType 0 IntType)" "concrete (ListType 0 IntType)" by (simp_all add: type_eval)
  ultimately show ?thesis
    using value_constructors_wf [of "[VInt 1, VInt 2]" "VInt 1" "[]" 0 IntType "VList [VInt 1, VInt 2] 2 IntType"]
      value_constructors_wf [of "[VInt 1, VInt 2]" "VInt 1" "[]" 0 IntType "VOptional (Some (VInt 1))"] by simp
qed

text \<open>typed tuple construction does not look for missing or repeated fields. With the pairs a = 1, a = 2
  for the type with fields a and b it succeeds, and the tuple it returns has no field b although its
  type says so; reading b then fails.\<close>

theorem tuple_from_data_typed_incomplete:
  "wf_type (TupleType [(''a'', IntType), (''b'', IntType)]) \<and>
   tuple_from_data_typed [(''a'', VInt 1), (''a'', VInt 2)] [(''a'', IntType), (''b'', IntType)] =
     Ok ([(''a'', IntType), (''b'', IntType)], [(''a'', VInt 2)]) \<and>
   tuple_get ([(''a'', IntType), (''b'', IntType)], [(''a'', VInt 2)]) ''b'' =
     Err (Unchecked (NoSuchTupleField ''b'' [(''a'', IntType), (''b'', IntType)])) \<and>
   \<not> wf_value (VTuple [(''a'', IntType), (''b'', IntType)] [(''a'', VInt 2)])"
proof -
  have names: "valid_clarity_name ''a''" "valid_clarity_name ''b''" by code_simp+
  then have "wf_type (TupleType [(''a'', IntType), (''b'', IntType)])"
    by (simp add: bt_wf_Cons tuple_type_try_from_exact)
  then show ?thesis
    by (simp add: tuple_from_data_typed_def tuple_get_def type_admits_def admits_type.simps)
qed

end
