(* ===== verification/Readers.thy ===== *)
theory Readers
  imports Prelude
begin

text \<open>
  Bounded byte readers: \<open>BoundReader\<close> of \<open>src/src/util/retry.rs\<close> over a byte slice, with
  \<open>read_exact\<close> of the standard library's \<open>Read\<close> trait, which calls \<open>read\<close> until the buffer is full or a
  read returns no byte. \<open>buf.len()\<close> is a natural number below \<open>2\<^sup>6\<^sup>4\<close>.
\<close>

datatype io_error = UnexpectedEof | IoOther

record bound_reader =
  fd :: "u8 list"
  max_len :: u64
  read_so_far :: u64

definition from_reader :: "u8 list \<Rightarrow> u64 \<Rightarrow> bound_reader" where
  "from_reader reader len = \<lparr>fd = reader, max_len = len, read_so_far = 0\<rparr>"

definition num_read :: "bound_reader \<Rightarrow> u64" where
  "num_read r = read_so_far r"

definition bound_read :: "bound_reader \<Rightarrow> nat \<Rightarrow> (u8 list \<times> bound_reader, io_error) outcome" where
  "bound_read r len =
     and_then (ok_or IoOther (checked_add (read_so_far r) (word_of_nat len))) (\<lambda>intended_read.
       let max_read = if intended_read > max_len r then unat (max_len r - read_so_far r) else len;
           nr = take max_read (fd r)
       in Ok (nr, r\<lparr>fd := drop max_read (fd r), read_so_far := read_so_far r + word_of_nat (length nr)\<rparr>))"

function read_exact :: "bound_reader \<Rightarrow> nat \<Rightarrow> (u8 list \<times> bound_reader, io_error) outcome" where
  "read_exact r n =
     (if n = 0 then Ok ([], r)
      else and_then (bound_read r n) (\<lambda>(bs, r').
             if bs = [] then Err UnexpectedEof
             else map_ok (\<lambda>(cs, r''). (bs @ cs, r'')) (read_exact r' (n - length bs))))"
  by pat_completeness auto
termination
  by (relation "measure snd") auto

declare read_exact.simps [simp del]

section \<open>What a bounded reader delivers\<close>

definition reader_inv :: "bound_reader \<Rightarrow> bool" where
  "reader_inv r \<longleftrightarrow> read_so_far r \<le> max_len r"

definition remaining :: "bound_reader \<Rightarrow> nat" where
  "remaining r = min (length (fd r)) (unat (max_len r) - unat (read_so_far r))"

definition advance :: "bound_reader \<Rightarrow> nat \<Rightarrow> bound_reader" where
  "advance r n = r\<lparr>fd := drop n (fd r), read_so_far := read_so_far r + word_of_nat n\<rparr>"

lemma unat_add_nat:
  "unat (a :: 'a::len word) + n < 2 ^ LENGTH('a) \<Longrightarrow> unat (a + word_of_nat n) = unat a + n"
  by (simp add: unat_word_ariths unat_of_nat mod_add_right_eq)

lemma advance_simps [simp]:
  "max_len (advance r n) = max_len r"
  "fd (advance r n) = drop n (fd r)"
  "advance r 0 = r"
  by (simp_all add: advance_def)

lemma advance_advance [simp]: "advance (advance r m) n = advance r (m + n)"
  by (simp add: advance_def add.commute add.left_commute)

lemma advance_inv:
  assumes "reader_inv r" and "n \<le> remaining r"
  shows "reader_inv (advance r n)" and "remaining (advance r n) = remaining r - n"
    and "unat (read_so_far (advance r n)) = unat (read_so_far r) + n"
proof -
  have b: "unat (read_so_far r) + n \<le> unat (max_len r)"
    using assms by (auto simp: reader_inv_def remaining_def word_le_nat_alt)
  also have "\<dots> < 2 ^ 64" using unat_lt2p [of "max_len r"] by (simp del: unsigned_less)
  finally have u: "unat (read_so_far r + word_of_nat n) = unat (read_so_far r) + n"
    by (simp add: unat_add_nat)
  show "reader_inv (advance r n)" "remaining (advance r n) = remaining r - n"
    "unat (read_so_far (advance r n)) = unat (read_so_far r) + n"
    using b u by (auto simp: reader_inv_def remaining_def advance_def word_le_nat_alt)
qed

lemma bound_read_exact:
  assumes inv: "reader_inv r" and n: "unat (read_so_far r) + n < 2 ^ 64"
  shows "bound_read r n =
    Ok (take (min n (remaining r)) (fd r), advance r (min n (remaining r)))"
proof -
  have nn: "unat (word_of_nat n :: u64) = n" using n by (simp add: unat_of_nat)
  then have add: "checked_add (read_so_far r) (word_of_nat n) = Some (read_so_far r + word_of_nat n)"
    using n by (simp add: checked_add_def)
  have u: "unat (read_so_far r + word_of_nat n) = unat (read_so_far r) + n"
    using n by (simp add: unat_add_nat)
  have sub: "unat (max_len r - read_so_far r) = unat (max_len r) - unat (read_so_far r)"
    using inv by (simp add: unat_sub reader_inv_def)
  define m where "m = (if max_len r < read_so_far r + word_of_nat n then unat (max_len r - read_so_far r) else n)"
  have read: "bound_read r n = Ok (take m (fd r),
      r\<lparr>fd := drop m (fd r), read_so_far := read_so_far r + word_of_nat (length (take m (fd r)))\<rparr>)"
    by (simp add: bound_read_def add Let_def m_def)
  have m: "min (length (fd r)) m = min n (remaining r)"
    using inv u sub by (auto simp: m_def remaining_def word_less_nat_alt reader_inv_def word_le_nat_alt)
  have "take (min (length (fd r)) m) (fd r) = take m (fd r)" "drop (min (length (fd r)) m) (fd r) = drop m (fd r)"
    by (simp_all add: min_def)
  then have "take m (fd r) = take (min n (remaining r)) (fd r)" "drop m (fd r) = drop (min n (remaining r)) (fd r)"
    by (simp_all only: m)
  moreover have "length (take m (fd r)) = min n (remaining r)" using m by simp
  ultimately show ?thesis unfolding read advance_def by simp
qed

lemma read_exact_Ok:
  assumes "reader_inv r" and "n \<le> remaining r"
  shows "read_exact r n = Ok (take n (fd r), advance r n)"
proof (cases "n = 0")
  case False
  have b: "unat (read_so_far r) + n < 2 ^ 64"
    using advance_inv(3) [OF assms] unat_lt2p [of "read_so_far (advance r n)"] by (simp del: unsigned_less)
  have "min n (remaining r) = n" using assms(2) by simp
  moreover have "take n (fd r) \<noteq> []" using False assms(2) by (auto simp: remaining_def)
  moreover have "length (take n (fd r)) = n" using assms(2) by (simp add: remaining_def)
  ultimately show ?thesis
    using bound_read_exact [OF assms(1) b] False
    by (simp add: read_exact.simps [of r n] read_exact.simps [of _ 0])
qed (simp add: read_exact.simps)

lemma read_exact_eof:
  assumes "reader_inv r" and "remaining r < n" and "unat (read_so_far r) + n < 2 ^ 64"
  shows "read_exact r n = Err UnexpectedEof"
proof -
  have none: "read_exact q k = Err UnexpectedEof"
    if "reader_inv q" "remaining q = 0" "0 < k" "unat (read_so_far q) + k < 2 ^ 64" for q k
    using bound_read_exact [OF that(1,4)] that(2,3) by (simp add: read_exact.simps [of q k])
  have first: "bound_read r n = Ok (take (remaining r) (fd r), advance r (remaining r))"
    using bound_read_exact [OF assms(1,3)] assms(2) by simp
  have "read_exact (advance r (remaining r)) (n - remaining r) = Err UnexpectedEof"
    using advance_inv [OF assms(1), of "remaining r"] assms(2,3) by (intro none) auto
  moreover have "length (take (remaining r) (fd r)) = remaining r" by (simp add: remaining_def)
  ultimately show ?thesis using first assms(2) by (simp add: read_exact.simps [of r n])
qed

text \<open>reading exactly n bytes from a bounded reader returns the next n bytes when both the slice
  and the bound still have them, and an end-of-file error otherwise; so no sequence of reads delivers
  more than the bound, and the reader stays within it.\<close>

theorem read_exact_bounded:
  assumes "reader_inv r" and "unat (read_so_far r) + n < 2 ^ 64"
  shows "read_exact r n =
      (if n \<le> remaining r then Ok (take n (fd r), advance r n) else Err UnexpectedEof) \<and>
    (n \<le> remaining r \<longrightarrow> reader_inv (advance r n) \<and> unat (num_read (advance r n)) = unat (num_read r) + n)"
  using read_exact_Ok [OF assms(1)] read_exact_eof [OF assms(1) _ assms(2)] advance_inv [OF assms(1)]
  by (simp add: num_read_def)

theorem read_exact_bounded_witness:
  "read_exact (from_reader [1, 2, 3] 2) 2 = Ok ([1, 2], advance (from_reader [1, 2, 3] 2) 2) \<and>
   read_exact (from_reader [1, 2, 3] 2) 3 = Err UnexpectedEof"
  using read_exact_bounded [of "from_reader [1, 2, 3] 2" 2] read_exact_bounded [of "from_reader [1, 2, 3] 2" 3]
  by (simp add: reader_inv_def from_reader_def remaining_def)

end
