(* ===== verification/Hex.thy ===== *)
theory Hex
  imports Prelude
begin

text \<open>
  Hexadecimal text, \<open>hex_bytes\<close> and \<open>to_hex\<close> of \<open>src/src/util/hash.rs\<close>. Strings are ASCII: one
  character is one byte.
\<close>

datatype hex_error =
    BadLength nat
  | BadCharacter char

text \<open>\<open>char::to_digit(16)\<close>.\<close>

definition to_digit16 :: "char \<Rightarrow> nat option" where
  "to_digit16 c =
     (if CHR ''0'' \<le> c \<and> c \<le> CHR ''9'' then Some (of_char c - 48)
      else if CHR ''a'' \<le> c \<and> c \<le> CHR ''f'' then Some (of_char c - 87)
      else if CHR ''A'' \<le> c \<and> c \<le> CHR ''F'' then Some (of_char c - 55)
      else None)"

text \<open>The fold over the pairs of characters, then the check for a remainder.\<close>

fun hex_pairs :: "nat \<Rightarrow> u8 list \<Rightarrow> string \<Rightarrow> (u8 list, hex_error) outcome" where
  "hex_pairs len v [] = Ok v"
| "hex_pairs len v [c] = Err (BadLength len)"
| "hex_pairs len v (f # s # cs) =
     (case (to_digit16 f, to_digit16 s) of
        (None, _) \<Rightarrow> Err (BadCharacter f)
      | (Some _, None) \<Rightarrow> Err (BadCharacter s)
      | (Some a, Some b) \<Rightarrow> hex_pairs len (v @ [word_of_nat (a * 16 + b)]) cs)"

definition hex_bytes :: "string \<Rightarrow> (u8 list, hex_error) outcome" where
  "hex_bytes s = hex_pairs (length s) [] s"

definition hex_digit :: "nat \<Rightarrow> char" where
  "hex_digit n = ''0123456789abcdef'' ! n"

definition byte_to_hex :: "u8 \<Rightarrow> string" where
  "byte_to_hex b = [hex_digit (unat b div 16), hex_digit (unat b mod 16)]"

definition to_hex :: "u8 list \<Rightarrow> string" where
  "to_hex bs = concat (map byte_to_hex bs)"

text \<open>Numbers in text, without leading zeros: \<open>{}\<close> is base 10 and \<open>{:x}\<close> base 16.\<close>

function radix :: "nat \<Rightarrow> nat \<Rightarrow> string" where
  "radix b n =
     (if b < 2 \<or> n < b then [hex_digit n] else radix b (n div b) @ [hex_digit (n mod b)])"
  by auto
termination
  by (relation "measure snd") auto

declare radix.simps [simp del]

definition decimal :: "nat \<Rightarrow> string" where
  "decimal n = radix 10 n"

section \<open>Round trips\<close>

lemma to_digit16_hex_digit: "n < 16 \<Longrightarrow> to_digit16 (hex_digit n) = Some n"
proof -
  have "list_all (\<lambda>n. to_digit16 (hex_digit n) = Some n) [0..<16]" by code_simp
  then show "n < 16 \<Longrightarrow> to_digit16 (hex_digit n) = Some n" by (simp add: list_all_iff)
qed

lemma hex_pairs_byte: "hex_pairs len v (byte_to_hex b @ s) = hex_pairs len (v @ [b]) s"
proof -
  have "unat b < 256" using unat_lt2p [of b] by simp
  then have "unat b div 16 < 16" by (simp add: less_mult_imp_div_less)
  moreover have "word_of_nat (unat b div 16 * 16 + unat b mod 16) = b"
    using div_mult_mod_eq [of "unat b" 16] by (simp del: div_mult_mod_eq)
  ultimately show ?thesis by (simp add: byte_to_hex_def to_digit16_hex_digit)
qed

lemma hex_pairs_to_hex: "hex_pairs len v (to_hex bs) = Ok (v @ bs)"
proof (induction bs arbitrary: v)
  case (Cons b bs)
  then show ?case using hex_pairs_byte [of len v b "to_hex bs"] by (simp add: to_hex_def)
qed (simp add: to_hex_def)

lemma hex_bytes_to_hex [simp]: "hex_bytes (to_hex bs) = Ok bs"
  by (simp add: hex_bytes_def hex_pairs_to_hex)

lemma length_to_hex [simp]: "length (to_hex bs) = 2 * length bs"
  by (induction bs) (auto simp: to_hex_def byte_to_hex_def)

lemma hex_pairs_length:
  "hex_pairs len v s = Ok bs \<Longrightarrow> 2 * length bs = 2 * length v + length s"
  by (induction len v s rule: hex_pairs.induct) (auto split: option.splits)

lemma hex_pairs_total: "hex_pairs len v s \<noteq> Panic"
  by (induction len v s rule: hex_pairs.induct) (auto split: option.splits)

lemma hex_pairs_accepts:
  "\<forall>c \<in> set s. to_digit16 c \<noteq> None \<Longrightarrow> even (length s) \<Longrightarrow> \<exists>bs. hex_pairs len v s = Ok bs"
  by (induction len v s rule: hex_pairs.induct) auto

lemma hex_pairs_rejects: "hex_pairs len v s = Ok bs \<Longrightarrow> c \<in> set s \<Longrightarrow> to_digit16 c \<noteq> None"
  by (induction len v s rule: hex_pairs.induct) (auto split: option.splits)

text \<open>decoding inverts encoding, and decoding accepts exactly the strings of even length made of
  hexadecimal digits, producing one byte for two characters.\<close>

theorem hex_round_trip:
  "hex_bytes (to_hex bs) = Ok bs \<and> hex_bytes s \<noteq> Panic \<and>
   ((\<exists>cs. hex_bytes s = Ok cs) \<longleftrightarrow> even (length s) \<and> list_all (\<lambda>c. to_digit16 c \<noteq> None) s) \<and>
   (hex_bytes s = Ok cs \<longrightarrow> length s = 2 * length cs)"
  using hex_pairs_accepts [of s "length s" "[]"] hex_pairs_rejects [of "length s" "[]" s]
    hex_pairs_length [of "length s" "[]" s] hex_pairs_total [of "length s" "[]" s]
  by (auto simp: hex_bytes_def hex_pairs_to_hex list_all_iff) (metis dvd_triv_left)+

theorem hex_round_trip_witness:
  "hex_bytes ''0aFf'' = Ok [10, 255] \<and> length ''0aFf'' = 2 * length [10 :: u8, 255] \<and> to_hex [10, 255] = ''0aff''"
proof -
  have "hex_bytes ''0aFf'' = Ok [10, 255]" "to_hex [10, 255] = ''0aff''" by code_simp+
  with hex_round_trip [of "[]" "''0aFf''" "[10, 255]"] show ?thesis by simp
qed

end
