(* ===== verification/Serialization.thy ===== *)
theory Serialization
  imports Values Readers Hex
begin

text \<open>
  The consensus encoding of Clarity values, \<open>src/src/vm/types/serialization.rs\<close>: the writer, and the
  reader with its optional expected type, nesting limit and byte bound.

  A string is the list of its UTF-8 bytes read as characters; the names that occur are ASCII.
\<close>

section \<open>Bytes and text\<close>

definition byte_of_char :: "char \<Rightarrow> u8" where
  "byte_of_char c = word_of_nat (of_char c)"

definition char_of_byte :: "u8 \<Rightarrow> char" where
  "char_of_byte b = char_of (unat b)"

definition utf8_cont :: "u8 \<Rightarrow> bool" where
  "utf8_cont b \<longleftrightarrow> 0x80 \<le> b \<and> b \<le> 0xBF"

text \<open>The validity test of \<open>String::from_utf8\<close>.\<close>

fun utf8_valid :: "u8 list \<Rightarrow> bool" where
  "utf8_valid [] = True"
| "utf8_valid (a # bs) =
     (if a < 0x80 then utf8_valid bs
      else if 0xC2 \<le> a \<and> a \<le> 0xDF then
        (case bs of b # cs \<Rightarrow> utf8_cont b \<and> utf8_valid cs | [] \<Rightarrow> False)
      else if 0xE0 \<le> a \<and> a \<le> 0xEF then
        (case bs of
           b # c # cs \<Rightarrow>
             (if a = 0xE0 then 0xA0 \<le> b \<and> b \<le> 0xBF
              else if a = 0xED then 0x80 \<le> b \<and> b \<le> 0x9F else utf8_cont b) \<and>
             utf8_cont c \<and> utf8_valid cs
         | _ \<Rightarrow> False)
      else if 0xF0 \<le> a \<and> a \<le> 0xF4 then
        (case bs of
           b # c # d # cs \<Rightarrow>
             (if a = 0xF0 then 0x90 \<le> b \<and> b \<le> 0xBF
              else if a = 0xF4 then 0x80 \<le> b \<and> b \<le> 0x8F else utf8_cont b) \<and>
             utf8_cont c \<and> utf8_cont d \<and> utf8_valid cs
         | _ \<Rightarrow> False)
      else False)"

section \<open>Errors and prefixes\<close>

datatype serialization_error =
    IOError io_error
  | BadTypeError check_errors
  | DeserializationError string
  | DeserializeExpected type_signature

datatype type_prefix =
    PInt | PUInt | PBuffer | PBoolTrue | PBoolFalse | PPrincipalStandard | PPrincipalContract
  | PResponseOk | PResponseErr | POptionalNone | POptionalSome | PList | PTuple

definition all_prefixes :: "type_prefix list" where
  "all_prefixes = [PInt, PUInt, PBuffer, PBoolTrue, PBoolFalse, PPrincipalStandard, PPrincipalContract,
     PResponseOk, PResponseErr, POptionalNone, POptionalSome, PList, PTuple]"

fun prefix_u8 :: "type_prefix \<Rightarrow> u8" where
  "prefix_u8 PInt = 0" | "prefix_u8 PUInt = 1" | "prefix_u8 PBuffer = 2" | "prefix_u8 PBoolTrue = 3"
| "prefix_u8 PBoolFalse = 4" | "prefix_u8 PPrincipalStandard = 5" | "prefix_u8 PPrincipalContract = 6"
| "prefix_u8 PResponseOk = 7" | "prefix_u8 PResponseErr = 8" | "prefix_u8 POptionalNone = 9"
| "prefix_u8 POptionalSome = 10" | "prefix_u8 PList = 11" | "prefix_u8 PTuple = 12"

definition prefix_from_u8 :: "u8 \<Rightarrow> type_prefix option" where
  "prefix_from_u8 v = find (\<lambda>p. prefix_u8 p = v) all_prefixes"

fun principal_prefix :: "principal_data \<Rightarrow> type_prefix" where
  "principal_prefix (Standard p) = PPrincipalStandard"
| "principal_prefix (Contract c) = PPrincipalContract"

fun value_prefix :: "val \<Rightarrow> type_prefix" where
  "value_prefix (VInt i) = PInt"
| "value_prefix (VUInt i) = PUInt"
| "value_prefix (VBuffer bs) = PBuffer"
| "value_prefix (VBool b) = (if b then PBoolTrue else PBoolFalse)"
| "value_prefix (VPrincipal p) = principal_prefix p"
| "value_prefix (VResponse committed v) = (if committed then PResponseOk else PResponseErr)"
| "value_prefix (VOptional None) = POptionalNone"
| "value_prefix (VOptional (Some v)) = POptionalSome"
| "value_prefix (VList vs n t) = PList"
| "value_prefix (VTuple sig m) = PTuple"

section \<open>Writing\<close>

definition serialize_standard_principal :: "standard_principal_data \<Rightarrow> u8 list" where
  "serialize_standard_principal p = spd_version p # spd_bytes p"

definition serialize_name :: "string \<Rightarrow> (u8 list, unit) outcome" where
  "serialize_name n =
     (if length n < 256 then Ok (word_of_nat (length n) # map byte_of_char n) else Panic)"

text \<open>\<open>PrincipalData::inner_consensus_serialize\<close>.\<close>

fun serialize_principal :: "principal_data \<Rightarrow> (u8 list, unit) outcome" where
  "serialize_principal (Standard p) =
     Ok (prefix_u8 PPrincipalStandard # serialize_standard_principal p)"
| "serialize_principal (Contract c) =
     and_then (serialize_name (qci_name c)) (\<lambda>bs.
       Ok (prefix_u8 PPrincipalContract # serialize_standard_principal (qci_issuer c) @ bs))"

fun serialize_write :: "val \<Rightarrow> (u8 list, unit) outcome"
  and serialize_items :: "val list \<Rightarrow> (u8 list, unit) outcome"
  and serialize_fields :: "(clarity_name \<times> val) list \<Rightarrow> (u8 list, unit) outcome" where
  "serialize_write (VInt i) = Ok (prefix_u8 PInt # word_to_be i)"
| "serialize_write (VUInt i) = Ok (prefix_u8 PUInt # word_to_be i)"
| "serialize_write (VBuffer bs) =
     and_then (expect (buffer_length_from_usize (length bs))) (\<lambda>l.
       Ok (prefix_u8 PBuffer # word_to_be l @ bs))"
| "serialize_write (VPrincipal p) = serialize_principal p"
| "serialize_write (VResponse committed v) =
     map_ok (\<lambda>bs. prefix_u8 (value_prefix (VResponse committed v)) # bs) (serialize_write v)"
| "serialize_write (VBool b) = Ok [prefix_u8 (value_prefix (VBool b))]"
| "serialize_write (VOptional None) = Ok [prefix_u8 POptionalNone]"
| "serialize_write (VOptional (Some v)) = map_ok (\<lambda>bs. prefix_u8 POptionalSome # bs) (serialize_write v)"
| "serialize_write (VList vs n t) =
     and_then (unwrap_opt (u32_try_from (length vs))) (\<lambda>l.
     and_then (serialize_items vs) (\<lambda>bs.
       Ok (prefix_u8 PList # word_to_be l @ bs)))"
| "serialize_write (VTuple sig m) =
     and_then (unwrap_opt (u32_try_from (length m))) (\<lambda>l.
     and_then (serialize_fields m) (\<lambda>bs.
       Ok (prefix_u8 PTuple # word_to_be l @ bs)))"
| "serialize_items [] = Ok []"
| "serialize_items (v # vs) =
     and_then (serialize_write v) (\<lambda>bs. and_then (serialize_items vs) (\<lambda>cs. Ok (bs @ cs)))"
| "serialize_fields [] = Ok []"
| "serialize_fields ((key, v) # m) =
     and_then (serialize_name key) (\<lambda>ks.
     and_then (serialize_write v) (\<lambda>bs.
     and_then (serialize_fields m) (\<lambda>cs. Ok (ks @ bs @ cs))))"

text \<open>\<open>ClaritySerializable::serialize\<close>.\<close>

definition value_serialize :: "val \<Rightarrow> (string, unit) outcome" where
  "value_serialize v = map_ok to_hex (serialize_write v)"

section \<open>Reading\<close>

definition read_bytes :: "bound_reader \<Rightarrow> nat \<Rightarrow> (u8 list \<times> bound_reader, serialization_error) outcome" where
  "read_bytes r n = map_err IOError (read_exact r n)"

definition deserialize_standard_principal ::
  "bound_reader \<Rightarrow> (standard_principal_data \<times> bound_reader, serialization_error) outcome" where
  "deserialize_standard_principal r =
     and_then (read_bytes r 1) (\<lambda>(version, r).
     and_then (read_bytes r 20) (\<lambda>(data, r).
       Ok (StandardPrincipalData (hd version) data, r)))"

text \<open>The reader of guarded strings, for either kind of name.\<close>

definition deserialize_name :: "(string \<Rightarrow> (string, runtime_error_type) outcome) \<Rightarrow> bound_reader \<Rightarrow>
    (string \<times> bound_reader, serialization_error) outcome" where
  "deserialize_name try_from r =
     and_then (read_bytes r 1) (\<lambda>(len, r).
       if unat (hd len) > MAX_STRING_LEN then Err (DeserializationError ''String too long'')
       else and_then (read_bytes r (unat (hd len))) (\<lambda>(data, r).
         if utf8_valid data then
           map_ok (\<lambda>n. (n, r))
             (map_err (\<lambda>_. DeserializationError ''Illegal Clarity string'') (try_from (map char_of_byte data)))
         else Err (DeserializationError ''Non-UTF8 string data'')))"

definition deserialize_contract_principal ::
  "bound_reader \<Rightarrow> (qualified_contract_identifier \<times> bound_reader, serialization_error) outcome" where
  "deserialize_contract_principal r =
     and_then (deserialize_standard_principal r) (\<lambda>(issuer, r).
     and_then (deserialize_name contract_name_try_from r) (\<lambda>(name, r).
       Ok (QualifiedContractIdentifier issuer name, r)))"

text \<open>\<open>PrincipalData::inner_consensus_deserialize\<close>.\<close>

definition deserialize_principal ::
  "bound_reader \<Rightarrow> (principal_data \<times> bound_reader, serialization_error) outcome" where
  "deserialize_principal r =
     and_then (read_bytes r 1) (\<lambda>(header, r).
     and_then (ok_or (DeserializationError ''Bad principal prefix'') (prefix_from_u8 (hd header))) (\<lambda>prefix.
       case prefix of
         PPrincipalStandard \<Rightarrow> map_ok (\<lambda>(p, r). (Standard p, r)) (deserialize_standard_principal r)
       | PPrincipalContract \<Rightarrow> map_ok (\<lambda>(c, r). (Contract c, r)) (deserialize_contract_principal r)
       | _ \<Rightarrow> Err (DeserializationError ''Bad principal prefix'')))"

text \<open>The macro \<open>check_match!\<close>.\<close>

definition check_match :: "type_signature option \<Rightarrow> (type_signature \<Rightarrow> bool) \<Rightarrow> (unit, serialization_error) outcome" where
  "check_match expected pat =
     (case expected of None \<Rightarrow> Ok () | Some x \<Rightarrow> if pat x then Ok () else Err (DeserializeExpected x))"

text \<open>The type expected of the content of a wrapper.\<close>

definition expect_contained :: "type_signature option \<Rightarrow> (type_signature \<Rightarrow> type_signature option) \<Rightarrow>
    (type_signature option, serialization_error) outcome" where
  "expect_contained expected sel =
     (case expected of
        None \<Rightarrow> Ok None
      | Some x \<Rightarrow> map_ok Some (ok_or (DeserializeExpected x) (sel x)))"

definition response_side :: "bool \<Rightarrow> type_signature \<Rightarrow> type_signature option" where
  "response_side committed x =
     (case x of ResponseType a b \<Rightarrow> Some (if committed then a else b) | _ \<Rightarrow> None)"

definition optional_content :: "type_signature \<Rightarrow> type_signature option" where
  "optional_content x = (case x of OptionalType t \<Rightarrow> Some t | _ \<Rightarrow> None)"

definition too_large_msg :: "(val, vm_error) outcome \<Rightarrow> (val, serialization_error) outcome" where
  "too_large_msg = map_err (\<lambda>_. DeserializationError ''Value too large'')"

definition buffer_expected :: "type_signature option \<Rightarrow> u32 \<Rightarrow> (unit, serialization_error) outcome" where
  "buffer_expected expected len =
     check_match expected (\<lambda>x. case x of BufferType l \<Rightarrow> len \<le> l | _ \<Rightarrow> False)"

definition list_expected :: "type_signature option \<Rightarrow> u32 \<Rightarrow> (list_type_data option, serialization_error) outcome" where
  "list_expected expected len =
     (case expected of
        None \<Rightarrow> Ok None
      | Some (ListType n t) \<Rightarrow> if len > n then Err (DeserializeExpected (ListType n t)) else Ok (Some (n, t))
      | Some x \<Rightarrow> Err (DeserializeExpected x))"

definition tuple_expected :: "type_signature option \<Rightarrow> u32 \<Rightarrow> (tuple_type_signature option, serialization_error) outcome" where
  "tuple_expected expected len =
     (case expected of
        None \<Rightarrow> Ok None
      | Some (TupleType sig) \<Rightarrow>
          if unat len \<noteq> length sig then Err (DeserializeExpected (TupleType sig)) else Ok (Some sig)
      | Some x \<Rightarrow> Err (DeserializeExpected x))"

definition build_list :: "val list \<Rightarrow> list_type_data option \<Rightarrow> (val, serialization_error) outcome" where
  "build_list items list_type =
     map_err (\<lambda>_. DeserializationError ''Illegal list type'')
       (case list_type of Some lt \<Rightarrow> list_with_type items lt | None \<Rightarrow> list_from items)"

definition build_tuple :: "(clarity_name \<times> val) list \<Rightarrow> tuple_type_signature option \<Rightarrow> (val, serialization_error) outcome" where
  "build_tuple items tuple_type =
     map_ok (\<lambda>(sig, m). VTuple sig m)
       (map_err (\<lambda>_. DeserializationError ''Illegal tuple type'')
         (case tuple_type of Some sig \<Rightarrow> tuple_from_data_typed items sig | None \<Rightarrow> tuple_from_data items))"

definition field_expected :: "tuple_type_signature option \<Rightarrow> clarity_name \<Rightarrow> (type_signature option, serialization_error) outcome" where
  "field_expected tuple_type key =
     (case tuple_type of
        None \<Rightarrow> Ok None
      | Some sig \<Rightarrow> map_ok Some (ok_or (DeserializeExpected (TupleType sig)) (bt_get sig key)))"

lemma depth_step: "\<not> 16 \<le> (d :: u8) \<Longrightarrow> 17 - unat (d + 1) < 17 - unat d"
proof -
  assume "\<not> 16 \<le> d"
  then have "unat d < 16" by (simp add: word_le_nat_alt)
  then show ?thesis by (simp add: unat_word_ariths)
qed

function (sequential)
  inner_deserialize_read :: "bound_reader \<Rightarrow> type_signature option \<Rightarrow> u8 \<Rightarrow>
      (val \<times> bound_reader, serialization_error) outcome"
  and deserialize_items :: "bound_reader \<Rightarrow> type_signature option \<Rightarrow> u8 \<Rightarrow> nat \<Rightarrow>
      (val list \<times> bound_reader, serialization_error) outcome"
  and deserialize_fields :: "bound_reader \<Rightarrow> tuple_type_signature option \<Rightarrow> u8 \<Rightarrow> nat \<Rightarrow>
      ((clarity_name \<times> val) list \<times> bound_reader, serialization_error) outcome" where
  "inner_deserialize_read r expected d =
     (if d \<ge> 16 then Err (BadTypeError TypeSignatureTooDeep)
      else and_then (read_bytes r 1) (\<lambda>(header, r).
      and_then (ok_or (DeserializationError ''Bad type prefix'') (prefix_from_u8 (hd header))) (\<lambda>prefix.
      case prefix of
        PInt \<Rightarrow>
          and_then (check_match expected (\<lambda>x. x = IntType)) (\<lambda>_.
          and_then (read_bytes r 16) (\<lambda>(buffer, r). Ok (VInt (word_from_be buffer), r)))
      | PUInt \<Rightarrow>
          and_then (check_match expected (\<lambda>x. x = UIntType)) (\<lambda>_.
          and_then (read_bytes r 16) (\<lambda>(buffer, r). Ok (VUInt (word_from_be buffer), r)))
      | PBuffer \<Rightarrow>
          and_then (read_bytes r 4) (\<lambda>(len, r).
          and_then (map_err BadTypeError (buffer_length_from_u32 (word_from_be len))) (\<lambda>buffer_len.
          and_then (buffer_expected expected buffer_len) (\<lambda>_.
          and_then (read_bytes r (unat buffer_len)) (\<lambda>(data, r).
            map_ok (\<lambda>v. (v, r)) (expect (buff_from data))))))
      | PBoolTrue \<Rightarrow> and_then (check_match expected (\<lambda>x. x = BoolType)) (\<lambda>_. Ok (VBool True, r))
      | PBoolFalse \<Rightarrow> and_then (check_match expected (\<lambda>x. x = BoolType)) (\<lambda>_. Ok (VBool False, r))
      | PPrincipalStandard \<Rightarrow>
          and_then (check_match expected (\<lambda>x. x = PrincipalType)) (\<lambda>_.
            map_ok (\<lambda>(p, r). (VPrincipal (Standard p), r)) (deserialize_standard_principal r))
      | PPrincipalContract \<Rightarrow>
          and_then (check_match expected (\<lambda>x. x = PrincipalType)) (\<lambda>_.
            map_ok (\<lambda>(c, r). (VPrincipal (Contract c), r)) (deserialize_contract_principal r))
      | PResponseOk \<Rightarrow>
          and_then (expect_contained expected (response_side True)) (\<lambda>contained.
          and_then (inner_deserialize_read r contained (d + 1)) (\<lambda>(data, r).
          map_ok (\<lambda>v. (v, r)) (too_large_msg (value_okay data))))
      | PResponseErr \<Rightarrow>
          and_then (expect_contained expected (response_side False)) (\<lambda>contained.
          and_then (inner_deserialize_read r contained (d + 1)) (\<lambda>(data, r).
          map_ok (\<lambda>v. (v, r)) (too_large_msg (value_error data))))
      | POptionalNone \<Rightarrow>
          and_then (check_match expected (\<lambda>x. optional_content x \<noteq> None)) (\<lambda>_. Ok (value_none, r))
      | POptionalSome \<Rightarrow>
          and_then (expect_contained expected optional_content) (\<lambda>contained.
          and_then (inner_deserialize_read r contained (d + 1)) (\<lambda>(data, r).
          map_ok (\<lambda>v. (v, r)) (too_large_msg (value_some data))))
      | PList \<Rightarrow>
          and_then (read_bytes r 4) (\<lambda>(len, r).
          if word_from_be len > MAX_VALUE_SIZE then Err (DeserializationError ''Illegal list type'')
          else and_then (list_expected expected (word_from_be len)) (\<lambda>list_type.
          and_then (deserialize_items r (map_option snd list_type) (d + 1)
              (unat (word_from_be len :: u32))) (\<lambda>(items, r).
          map_ok (\<lambda>v. (v, r)) (build_list items list_type))))
      | PTuple \<Rightarrow>
          and_then (read_bytes r 4) (\<lambda>(len, r).
          if word_from_be len > MAX_VALUE_SIZE then Err (DeserializationError ''Illegal tuple type'')
          else and_then (tuple_expected expected (word_from_be len)) (\<lambda>tuple_type.
          and_then (deserialize_fields r tuple_type (d + 1)
              (unat (word_from_be len :: u32))) (\<lambda>(items, r).
          map_ok (\<lambda>v. (v, r)) (build_tuple items tuple_type)))))))"
| "deserialize_items r entry d 0 = Ok ([], r)"
| "deserialize_items r entry d (Suc n) =
     and_then (inner_deserialize_read r entry d) (\<lambda>(v, r).
     and_then (deserialize_items r entry d n) (\<lambda>(vs, r). Ok (v # vs, r)))"
| "deserialize_fields r tuple_type d 0 = Ok ([], r)"
| "deserialize_fields r tuple_type d (Suc n) =
     and_then (deserialize_name clarity_name_try_from r) (\<lambda>(key, r).
     and_then (field_expected tuple_type key) (\<lambda>field_type.
     and_then (inner_deserialize_read r field_type d) (\<lambda>(v, r).
     and_then (deserialize_fields r tuple_type d n) (\<lambda>(vs, r). Ok ((key, v) # vs, r)))))"
  by pat_completeness auto
termination
proof (relation "measures [\<lambda>x. case x of
      Inl (r, e, d) \<Rightarrow> 17 - unat d
    | Inr (Inl (r, e, d, n)) \<Rightarrow> 17 - unat d
    | Inr (Inr (r, e, d, n)) \<Rightarrow> 17 - unat d,
    \<lambda>x. case x of
      Inl (r, e, d) \<Rightarrow> 0
    | Inr (Inl (r, e, d, n)) \<Rightarrow> Suc n
    | Inr (Inr (r, e, d, n)) \<Rightarrow> Suc n]", goal_cases)
qed (auto simp: depth_step)

declare inner_deserialize_read.simps [simp del]

definition deserialize_read :: "u8 list \<Rightarrow> type_signature option \<Rightarrow>
    (val \<times> u8 list, serialization_error) outcome" where
  "deserialize_read r expected =
     map_ok (\<lambda>(v, br). (v, fd br))
       (inner_deserialize_read (from_reader r (word_of_nat BOUND_VALUE_SERIALIZATION_BYTES)) expected 0)"

text \<open>The public entry points; an I/O error is a panic there.\<close>

definition no_io_error :: "('a, serialization_error) outcome \<Rightarrow> ('a, serialization_error) outcome" where
  "no_io_error r = (case r of Err (IOError e) \<Rightarrow> Panic | _ \<Rightarrow> r)"

definition try_deserialize_bytes :: "u8 list \<Rightarrow> type_signature \<Rightarrow> (val, serialization_error) outcome" where
  "try_deserialize_bytes bytes expected = no_io_error (map_ok fst (deserialize_read bytes (Some expected)))"

definition try_deserialize_hex :: "string \<Rightarrow> type_signature \<Rightarrow> (val, serialization_error) outcome" where
  "try_deserialize_hex hex expected =
     and_then (map_err (\<lambda>_. DeserializationError ''Bad hex string'') (hex_bytes hex)) (\<lambda>data.
       try_deserialize_bytes data expected)"

definition try_deserialize_bytes_untyped :: "u8 list \<Rightarrow> (val, serialization_error) outcome" where
  "try_deserialize_bytes_untyped bytes = no_io_error (map_ok fst (deserialize_read bytes None))"

definition try_deserialize_hex_untyped :: "string \<Rightarrow> (val, serialization_error) outcome" where
  "try_deserialize_hex_untyped hex =
     (let hex = (if take 2 hex = ''0x'' then drop 2 hex else hex) in
      and_then (map_err (\<lambda>_. DeserializationError ''Bad hex string'') (hex_bytes hex)) (\<lambda>data.
        try_deserialize_bytes_untyped data))"

text \<open>\<open>Value::deserialize\<close> and \<open>ClarityDeserializable::deserialize\<close>: failures panic.\<close>

definition value_deserialize :: "string \<Rightarrow> type_signature \<Rightarrow> (val, serialization_error) outcome" where
  "value_deserialize hex expected = expect (try_deserialize_hex hex expected)"

definition value_deserialize_untyped :: "string \<Rightarrow> (val, serialization_error) outcome" where
  "value_deserialize_untyped hex = expect (try_deserialize_hex_untyped hex)"

end
