(* ===== verification/SerializationRoundTrip.thy ===== *)
theory SerializationRoundTrip
  imports Serialization
begin

text \<open>
  Writing then reading a well-formed value: the typed reader returns an equal value, annotated with the
  expected type, for every expected type that admits the value, up to the reader's nesting limit; beyond that limit reading always fails. The
  byte bound of the reader is never the obstacle: a well-formed value is never written to more bytes.
\<close>

section \<open>Readers that hold a given prefix\<close>

definition holds :: "bound_reader \<Rightarrow> u8 list \<Rightarrow> bool" where
  "holds r bs \<longleftrightarrow> reader_inv r \<and> length bs \<le> remaining r \<and> take (length bs) (fd r) = bs"

lemma read_bytes_holds: "holds r bs \<Longrightarrow> n = length bs \<Longrightarrow> read_bytes r n = Ok (bs, advance r n)"
  by (simp add: read_bytes_def holds_def read_exact_Ok)

lemma holds_append:
  assumes "holds r (as @ bs)"
  shows "holds r as" and "holds (advance r (length as)) bs"
proof -
  from assms have t: "take (length as + length bs) (fd r) = as @ bs"
    and l: "length as + length bs \<le> remaining r" and inv: "reader_inv r"
    by (auto simp: holds_def)
  have "length as \<le> length (fd r)" using l by (simp add: remaining_def)
  with t have eq: "take (length as) (fd r) = as" "take (length bs) (drop (length as) (fd r)) = bs"
    by (auto simp: take_add append_eq_append_conv)
  then show "holds r as" using l inv by (simp add: holds_def)
  from eq show "holds (advance r (length as)) bs"
    using l inv advance_inv [OF inv, of "length as"] by (simp add: holds_def)
qed

lemma holds_Cons:
  assumes "holds r (b # bs)"
  shows "read_bytes r 1 = Ok ([b], advance r 1)" and "holds (advance r 1) bs"
proof -
  from assms have h: "holds r ([b] @ bs)" by simp
  from read_bytes_holds [OF holds_append(1) [OF h]] show "read_bytes r 1 = Ok ([b], advance r 1)" by simp
  from holds_append(2) [OF h] show "holds (advance r 1) bs" by simp
qed

lemma holds_read_append:
  assumes "holds r (as @ bs)" and "n = length as"
  shows "read_bytes r n = Ok (as, advance r n)" and "holds (advance r n) bs"
  using read_bytes_holds [OF holds_append(1) [OF assms(1)] assms(2)] holds_append(2) [OF assms(1)] assms(2)
  by simp_all

section \<open>Names\<close>

lemma prefix_from_u8_inv [simp]: "prefix_from_u8 (prefix_u8 p) = Some p"
  by (cases p) (simp_all add: prefix_from_u8_def all_prefixes_def)

lemma of_char_lt: "of_char c < (256 :: nat)"
  by simp

lemma byte_char_inv [simp]: "char_of_byte (byte_of_char c) = c"
  by (simp add: char_of_byte_def byte_of_char_def unat_of_nat)

lemma utf8_valid_ascii: "\<forall>c \<in> set s. of_char c < (128 :: nat) \<Longrightarrow> utf8_valid (map byte_of_char s)"
proof (induction s)
  case (Cons c s)
  then have "byte_of_char c < 0x80"
    by (simp add: byte_of_char_def word_less_nat_alt unat_of_nat)
  with Cons show ?case by simp
qed simp

lemma ascii_classes: "is_alpha c \<or> is_digit c \<Longrightarrow> of_char c < (128 :: nat)"
proof -
  have "of_char c \<le> (of_char (CHR ''z'') :: nat)" if "c \<le> CHR ''z''"
    using that by (simp add: less_eq_char_def)
  moreover have "of_char c \<le> (of_char (CHR ''Z'') :: nat)" if "c \<le> CHR ''Z''"
    using that by (simp add: less_eq_char_def)
  moreover have "of_char c \<le> (of_char (CHR ''9'') :: nat)" if "c \<le> CHR ''9''"
    using that by (simp add: less_eq_char_def)
  moreover have "of_char (CHR ''z'') = (122 :: nat)" "of_char (CHR ''Z'') = (90 :: nat)" "of_char (CHR ''9'') = (57 :: nat)"
    by simp_all
  ultimately show "is_alpha c \<or> is_digit c \<Longrightarrow> of_char c < (128 :: nat)"
    by (auto simp: is_alpha_def is_digit_def)
qed

lemma ascii_marks: "c \<in> set ''-_!?+<>=/*'' \<Longrightarrow> of_char c < (128 :: nat)"
proof -
  have "\<forall>c \<in> set ''-_!?+<>=/*''. of_char c < (128 :: nat)" by simp
  then show "c \<in> set ''-_!?+<>=/*'' \<Longrightarrow> of_char c < (128 :: nat)" by blast
qed

lemma mark_subsets:
  "set ''-+=/*'' \<subseteq> set ''-_!?+<>=/*''" "set ''<>'' \<subseteq> set ''-_!?+<>=/*''"
  "set ''='' \<subseteq> set ''-_!?+<>=/*''" "set ''-_'' \<subseteq> set ''-_!?+<>=/*''"
  by simp_all

definition name_char :: "char \<Rightarrow> bool" where
  "name_char c \<longleftrightarrow> is_alpha c \<or> is_digit c \<or> c \<in> set ''-_!?+<>=/*''"

lemma name_char_ascii: "\<forall>c \<in> set s. name_char c \<Longrightarrow> \<forall>c \<in> set s. of_char c < (128 :: nat)"
  unfolding name_char_def using ascii_classes ascii_marks by blast

lemma clarity_name_chars:
  assumes "valid_clarity_name s"
  shows "\<forall>c \<in> set s. name_char c"
proof (cases s)
  case (Cons a cs)
  with assms have "clarity_name_regex (a # cs)" by (simp only: valid_clarity_name_def)
  moreover have "cs = [] \<Longrightarrow> set cs \<subseteq> {}" "cs = ''='' \<Longrightarrow> set cs \<subseteq> set ''=''" by simp_all
  ultimately have "\<forall>c \<in> insert a (set cs). name_char c"
    unfolding name_char_def clarity_name_regex_def list.case list_all_iff using mark_subsets by blast
  then show ?thesis by (simp add: Cons)
qed simp

lemma contract_name_chars:
  assumes "valid_contract_name s"
  shows "\<forall>c \<in> set s. name_char c"
proof (cases "s = ''__transient''")
  case True
  have "list_all name_char ''__transient''" by code_simp
  then show ?thesis by (simp only: True list_all_iff)
next
  case False
  show ?thesis
  proof (cases s)
    case (Cons a cs)
    with assms False have "is_alpha a \<and> list_all (\<lambda>x. is_alpha x \<or> is_digit x \<or> x \<in> set ''-_'') cs"
      by (simp only: valid_contract_name_def contract_name_regex_def list.case simp_thms)
    then have "\<forall>c \<in> insert a (set cs). name_char c"
      unfolding list_all_iff name_char_def using mark_subsets(4) by blast
    then show ?thesis by (simp add: Cons)
  qed simp
qed

lemmas clarity_name_ascii = name_char_ascii [OF clarity_name_chars]
lemmas contract_name_ascii = name_char_ascii [OF contract_name_chars]

lemma deserialize_name_holds:
  assumes "length n \<le> MAX_STRING_LEN" and "\<forall>c \<in> set n. of_char c < (128 :: nat)" and "try_from n = Ok n"
    and "serialize_name n = Ok bs" and "holds r (bs @ rest)"
  shows "deserialize_name try_from r = Ok (n, advance r (length bs))" and "holds (advance r (length bs)) rest"
    and "length bs = length n + 1"
proof -
  let ?len = "word_of_nat (length n) :: u8"
  have n: "length n \<le> 128" using assms(1) by (simp add: MAX_STRING_LEN_def)
  then have u: "unat ?len = length n" by (simp add: unat_of_nat)
  have bs: "bs = ?len # map byte_of_char n" using assms(4) n by (simp add: serialize_name_def)
  with assms(5) have h: "holds r (?len # (map byte_of_char n @ rest))" by simp
  note h1 = holds_Cons [OF h]
  note h2 = holds_read_append [OF h1(2), of "length n", simplified]
  have "map (char_of_byte \<circ> byte_of_char) n = n" by (simp add: comp_def)
  then show "deserialize_name try_from r = Ok (n, advance r (length bs))"
    using h1(1) h2(1) utf8_valid_ascii [OF assms(2)] assms(1,3)
    by (simp add: deserialize_name_def u bs)
  show "holds (advance r (length bs)) rest" using h2(2) by (simp add: bs)
  show "length bs = length n + 1" by (simp add: bs)
qed

section \<open>Expected types\<close>

lemma admits_shapes:
  "admits_type T IntType = Ok True \<Longrightarrow> T = IntType"
  "admits_type T UIntType = Ok True \<Longrightarrow> T = UIntType"
  "admits_type T BoolType = Ok True \<Longrightarrow> T = BoolType"
  "admits_type T PrincipalType = Ok True \<Longrightarrow> T = PrincipalType"
  "admits_type T (BufferType l) = Ok True \<Longrightarrow> \<exists>k. T = BufferType k \<and> l \<le> k"
  "admits_type T (OptionalType s) = Ok True \<Longrightarrow>
     \<exists>t. T = OptionalType t \<and> (s = NoType \<or> admits_type t s = Ok True)"
  "admits_type T (ListType n s) = Ok True \<Longrightarrow>
     \<exists>m t. T = ListType m t \<and> (n = 0 \<or> n \<le> m \<and> admits_type t s = Ok True)"
  by (cases T; simp add: admits_iff)+

lemma admits_response_ok:
  "admits_type T (ResponseType s NoType) = Ok True \<Longrightarrow> s \<noteq> NoType \<Longrightarrow>
     \<exists>a b. T = ResponseType a b \<and> admits_type a s = Ok True"
  "admits_type T (ResponseType NoType s) = Ok True \<Longrightarrow> s \<noteq> NoType \<Longrightarrow>
     \<exists>a b. T = ResponseType a b \<and> admits_type b s = Ok True"
  by (cases T; simp add: admits_iff)+

lemma admits_concrete: "admits_type t s = Ok True \<Longrightarrow> t \<noteq> NoType"
  by (auto simp: admits_iff)

lemma type_admits_trans:
  "type_admits s v = Ok True \<Longrightarrow> admits_type t s = Ok True \<Longrightarrow> type_admits t v = Ok True"
  by (cases "type_of v") (auto simp: type_admits_def intro: admits_type_trans)

lemma nat_size_pos: "wf_type t \<Longrightarrow> 1 \<le> nat_size t"
proof (cases t)
  case (TupleType fs)
  assume "wf_type t"
  with TupleType have "fs \<noteq> []" by (auto simp: tuple_type_try_from_def)
  with TupleType show ?thesis by (cases fs) auto
qed auto

lemma nat_depth_pos: "1 \<le> nat_depth t"
  by (cases t) auto

lemma wrapper_bounds:
  "wf_type (OptionalType t) \<Longrightarrow> wf_type t \<and> nat_size t + 1 \<le> 1048576 \<and> nat_depth t + 1 \<le> 32"
  "wf_type (ResponseType t s) \<Longrightarrow> wf_type t \<and> wf_type s \<and> max (nat_size t) (nat_size s) + 1 \<le> 1048576 \<and>
     max (nat_depth t) (nat_depth s) + 1 \<le> 32"
  using new_option_exact [of t] new_response_exact [of t s] by (auto split: if_splits)

text \<open>A value that fits an expected type: its own type is below it and no larger or deeper.\<close>

definition fits :: "type_signature \<Rightarrow> val \<Rightarrow> bool" where
  "fits T v \<longleftrightarrow> wf_value v \<and>
     (\<exists>s. type_of v = Ok s \<and> admits_type T s = Ok True \<and> nat_size s \<le> nat_size T \<and> nat_depth s \<le> nat_depth T)"

lemma fits_admits: "fits T v \<Longrightarrow> wf_value v \<and> type_admits T v = Ok True"
  by (auto simp: fits_def type_admits_def)

lemma fits_own: "wf_value v \<Longrightarrow> type_of v = Ok T \<Longrightarrow> fits T v"
  using type_of_wf [of v] by (auto simp: fits_def admits_type_refl)

lemma fits_some:
  assumes "fits t v" and "wf_type (OptionalType t)"
  shows "value_some v = Ok (VOptional (Some v)) \<and> fits (OptionalType t) (VOptional (Some v))"
proof -
  from assms(1) obtain s where wf: "wf_value v" and s: "type_of v = Ok s" "admits_type t s = Ok True"
    "nat_size s \<le> nat_size t" "nat_depth s \<le> nat_depth t" by (auto simp: fits_def)
  from type_of_wf [OF wf] s(1) have wfs: "wf_type s" by auto
  note b = wrapper_bounds(1) [OF assms(2)]
  have some: "value_some v = Ok (VOptional (Some v))"
    using b s by (auto simp: value_some_def wrap_guard_Ok [OF s(1) wfs])
  with wf have "wf_value (VOptional (Some v))" by simp
  moreover have "new_option s = Ok (OptionalType s)" using new_option_exact [OF wfs] b s by auto
  ultimately show ?thesis using some s by (auto simp: fits_def admits_iff)
qed

lemma fits_response:
  assumes "fits (if c then a else b) v" and "wf_type (ResponseType a b)"
  shows "(if c then value_okay v else value_error v) = Ok (VResponse c v) \<and>
    fits (ResponseType a b) (VResponse c v)"
proof -
  let ?t = "if c then a else b"
  from assms(1) obtain s where wf: "wf_value v" and s: "type_of v = Ok s" "admits_type ?t s = Ok True"
    "nat_size s \<le> nat_size ?t" "nat_depth s \<le> nat_depth ?t" by (auto simp: fits_def)
  from type_of_wf [OF wf] s(1) have wfs: "wf_type s" "s \<noteq> NoType" by auto
  note b = wrapper_bounds(2) [OF assms(2)]
  have bound: "nat_size s + 1 \<le> 1048576" "nat_depth s + 1 \<le> 32"
    using b s(3,4) by (cases c; simp)+
  then have resp: "(if c then value_okay v else value_error v) = Ok (VResponse c v)"
    by (simp add: value_okay_def value_error_def wrap_guard_Ok [OF s(1) wfs(1)])
  with wf have "wf_value (VResponse c v)" by (cases c) auto
  moreover have "type_of (VResponse c v) = Ok (if c then ResponseType s NoType else ResponseType NoType s)"
    using s(1) new_response_none [OF wfs(1) bound] by (cases c) auto
  moreover have "1 \<le> nat_size a" "1 \<le> nat_size b" "1 \<le> nat_depth a" "1 \<le> nat_depth b"
    using b nat_size_pos nat_depth_pos by auto
  ultimately show ?thesis using resp s wfs(2) by (cases c) (auto simp: fits_def admits_iff)
qed

section \<open>The typed round trip\<close>

fun nesting :: "val \<Rightarrow> nat" where
  "nesting (VList vs n t) = 1 + fold max (map nesting vs) 0"
| "nesting (VTuple sig m) = 1 + fold max (map (\<lambda>p. nesting (snd p)) m) 0"
| "nesting (VOptional (Some v)) = 1 + nesting v"
| "nesting (VResponse c v) = 1 + nesting v"
| "nesting _ = 1"

lemma nesting_member:
  "v \<in> set vs \<Longrightarrow> nesting v < nesting (VList vs n t)"
  "p \<in> set m \<Longrightarrow> nesting (snd p) < nesting (VTuple sig m)"
  using fold_max_le [of "map nesting vs" 0 "fold max (map nesting vs) 0"]
    fold_max_le [of "map (\<lambda>p. nesting (snd p)) m" 0 "fold max (map (\<lambda>p. nesting (snd p)) m) 0"]
  by (auto simp: less_Suc_eq_le)

lemma depth_below: "unat (d :: u8) + Suc n \<le> 16 \<Longrightarrow> \<not> 16 \<le> d \<and> unat (d + 1) + n \<le> 16"
proof -
  assume "unat d + Suc n \<le> 16"
  moreover from this have "unat (d + 1) = unat d + 1" by (simp add: unat_word_ariths)
  ultimately show ?thesis by (simp add: word_le_nat_alt)
qed

definition round_trips :: "val \<Rightarrow> bool" where
  "round_trips v \<longleftrightarrow>
     (\<forall>T r d bs. serialize_write v = Ok bs \<and> wf_value v \<and> type_admits T v = Ok True \<and> wf_type T \<and>
        concrete T \<and> unat d + nesting v \<le> 16 \<and> holds r bs \<longrightarrow>
        (\<exists>v'. inner_deserialize_read r (Some T) d = Ok (v', advance r (length bs)) \<and> value_eq v v' \<and> fits T v'))"

lemma round_tripsD:
  assumes "round_trips v" "serialize_write v = Ok bs" "wf_value v" "type_admits T v = Ok True" "wf_type T"
    "concrete T" "unat d + nesting v \<le> 16" "holds r (bs @ rest)"
  shows "\<exists>v'. inner_deserialize_read r (Some T) d = Ok (v', advance r (length bs)) \<and> value_eq v v' \<and>
    fits T v' \<and> holds (advance r (length bs)) rest"
  using assms holds_append [OF assms(8)] unfolding round_trips_def by blast

declare prefix_u8.simps [simp del]

lemma read_prefix:
  assumes "holds r0 (prefix_u8 p # bs)" and "\<not> 16 \<le> d" and "r = advance r0 1"
  shows
    "p = PInt \<Longrightarrow> inner_deserialize_read r0 expected d =
       and_then (check_match expected (\<lambda>x. x = IntType)) (\<lambda>_.
       and_then (read_bytes r 16) (\<lambda>(buffer, r). Ok (VInt (word_from_be buffer), r)))"
    and "p = PUInt \<Longrightarrow> inner_deserialize_read r0 expected d =
       and_then (check_match expected (\<lambda>x. x = UIntType)) (\<lambda>_.
       and_then (read_bytes r 16) (\<lambda>(buffer, r). Ok (VUInt (word_from_be buffer), r)))"
    and "p = PBuffer \<Longrightarrow> inner_deserialize_read r0 expected d =
       and_then (read_bytes r 4) (\<lambda>(len, r).
       and_then (map_err BadTypeError (buffer_length_from_u32 (word_from_be len))) (\<lambda>buffer_len.
       and_then (buffer_expected expected buffer_len) (\<lambda>_.
       and_then (read_bytes r (unat buffer_len)) (\<lambda>(data, r).
       map_ok (\<lambda>v. (v, r)) (expect (buff_from data))))))"
    and "p = PBoolTrue \<Longrightarrow> inner_deserialize_read r0 expected d =
       and_then (check_match expected (\<lambda>x. x = BoolType)) (\<lambda>_. Ok (VBool True, r))"
    and "p = PBoolFalse \<Longrightarrow> inner_deserialize_read r0 expected d =
       and_then (check_match expected (\<lambda>x. x = BoolType)) (\<lambda>_. Ok (VBool False, r))"
    and "p = PPrincipalStandard \<Longrightarrow> inner_deserialize_read r0 expected d =
       and_then (check_match expected (\<lambda>x. x = PrincipalType)) (\<lambda>_.
       map_ok (\<lambda>(p, r). (VPrincipal (Standard p), r)) (deserialize_standard_principal r))"
    and "p = PPrincipalContract \<Longrightarrow> inner_deserialize_read r0 expected d =
       and_then (check_match expected (\<lambda>x. x = PrincipalType)) (\<lambda>_.
       map_ok (\<lambda>(c, r). (VPrincipal (Contract c), r)) (deserialize_contract_principal r))"
    and "p = PResponseOk \<Longrightarrow> inner_deserialize_read r0 expected d =
       and_then (expect_contained expected (response_side True)) (\<lambda>contained.
       and_then (inner_deserialize_read r contained (d + 1)) (\<lambda>(data, r).
       map_ok (\<lambda>v. (v, r)) (too_large_msg (value_okay data))))"
    and "p = PResponseErr \<Longrightarrow> inner_deserialize_read r0 expected d =
       and_then (expect_contained expected (response_side False)) (\<lambda>contained.
       and_then (inner_deserialize_read r contained (d + 1)) (\<lambda>(data, r).
       map_ok (\<lambda>v. (v, r)) (too_large_msg (value_error data))))"
    and "p = POptionalNone \<Longrightarrow> inner_deserialize_read r0 expected d =
       and_then (check_match expected (\<lambda>x. optional_content x \<noteq> None)) (\<lambda>_. Ok (value_none, r))"
    and "p = POptionalSome \<Longrightarrow> inner_deserialize_read r0 expected d =
       and_then (expect_contained expected optional_content) (\<lambda>contained.
       and_then (inner_deserialize_read r contained (d + 1)) (\<lambda>(data, r).
       map_ok (\<lambda>v. (v, r)) (too_large_msg (value_some data))))"
    and "p = PList \<Longrightarrow> inner_deserialize_read r0 expected d =
       and_then (read_bytes r 4) (\<lambda>(len, r).
       if word_from_be len > MAX_VALUE_SIZE then Err (DeserializationError ''Illegal list type'')
       else and_then (list_expected expected (word_from_be len)) (\<lambda>list_type.
       and_then (deserialize_items r (map_option snd list_type) (d + 1)
       (unat (word_from_be len :: u32))) (\<lambda>(items, r).
       map_ok (\<lambda>v. (v, r)) (build_list items list_type))))"
    and "p = PTuple \<Longrightarrow> inner_deserialize_read r0 expected d =
       and_then (read_bytes r 4) (\<lambda>(len, r).
       if word_from_be len > MAX_VALUE_SIZE then Err (DeserializationError ''Illegal tuple type'')
       else and_then (tuple_expected expected (word_from_be len)) (\<lambda>tuple_type.
       and_then (deserialize_fields r tuple_type (d + 1)
       (unat (word_from_be len :: u32))) (\<lambda>(items, r).
       map_ok (\<lambda>v. (v, r)) (build_tuple items tuple_type))))"
  using assms
  by (simp_all add: inner_deserialize_read.simps [of r0 expected d] holds_Cons(1) [OF assms(1), simplified])

lemma round_trips_int: "round_trips (VInt i)" "round_trips (VUInt i)"
proof -
  have "\<exists>v'. inner_deserialize_read r (Some T) d = Ok (v', advance r (length bs)) \<and> value_eq v v' \<and> fits T v'"
    if a: "serialize_write v = Ok bs" "type_admits T v = Ok True" "unat d + nesting v \<le> 16" "holds r bs"
      and v: "v = VInt i \<or> v = VUInt i" for v T r d bs
  proof -
    from v a(1) have bs: "bs = prefix_u8 (value_prefix v) # word_to_be i" by auto
    with a(4) have h: "holds r (prefix_u8 (value_prefix v) # word_to_be i)" by simp
    have d: "\<not> 16 \<le> d" using v a(3) by (auto simp: word_le_nat_alt)
    have T: "type_of v = Ok T" using v a(2) by (auto simp: type_admits_def dest!: admits_shapes)
    have "read_bytes (advance r 1) 16 = Ok (word_to_be i, advance r 17)"
      using read_bytes_holds [OF holds_Cons(2) [OF h], of 16] by (simp add: word_to_be_length)
    moreover have "fits T v" using v T by (intro fits_own) auto
    ultimately show ?thesis
      using v bs T read_prefix(1,2) [OF h d refl]
      by (auto simp: check_match_def word_to_be_length)
  qed
  then show "round_trips (VInt i)" "round_trips (VUInt i)" unfolding round_trips_def by blast+
qed

lemma round_tripsI:
  assumes "\<And>T r d bs. serialize_write v = Ok bs \<Longrightarrow> wf_value v \<Longrightarrow> type_admits T v = Ok True \<Longrightarrow> wf_type T \<Longrightarrow>
     concrete T \<Longrightarrow> unat d + nesting v \<le> 16 \<Longrightarrow> \<not> 16 \<le> d \<Longrightarrow> holds r bs \<Longrightarrow>
     \<exists>v'. inner_deserialize_read r (Some T) d = Ok (v', advance r (length bs)) \<and> value_eq v v' \<and> fits T v'"
  shows "round_trips v"
proof -
  have "1 \<le> nesting v" by (cases v rule: nesting.cases) auto
  then have "unat (d :: u8) + nesting v \<le> 16 \<Longrightarrow> \<not> 16 \<le> d" for d by (simp add: word_le_nat_alt)
  with assms show ?thesis unfolding round_trips_def by blast
qed

lemma round_trips_bool: "round_trips (VBool b)"
proof (rule round_tripsI)
  fix T r bs and d :: u8
  assume a: "serialize_write (VBool b) = Ok bs" "type_admits T (VBool b) = Ok True" "\<not> 16 \<le> d" "holds r bs"
  from a(1,4) have h: "holds r (prefix_u8 (if b then PBoolTrue else PBoolFalse) # [])" by simp
  have "T = BoolType" using a(2) by (auto simp: type_admits_def dest!: admits_shapes)
  moreover have "fits BoolType (VBool b)" by (intro fits_own) auto
  ultimately show "\<exists>v'. inner_deserialize_read r (Some T) d = Ok (v', advance r (length bs)) \<and>
      value_eq (VBool b) v' \<and> fits T v'"
    using read_prefix(4,5) [OF h a(3) refl] a(1) by (cases b) (auto simp: check_match_def)
qed

lemma round_trips_none: "round_trips (VOptional None)"
proof (rule round_tripsI)
  fix T r bs and d :: u8
  assume a: "serialize_write (VOptional None) = Ok bs" "type_admits T (VOptional None) = Ok True"
    "wf_type T" "\<not> 16 \<le> d" "holds r bs"
  then obtain t where T: "T = OptionalType t"
    by (auto simp: type_admits_def new_option_none dest!: admits_shapes)
  have "fits T (VOptional None)"
    using T a(3) nat_size_pos [of t] nat_depth_pos [of t] wrapper_bounds(1) [of t]
    by (auto simp: fits_def new_option_none admits_iff)
  moreover from a(1,5) have h: "holds r (prefix_u8 POptionalNone # [])" by simp
  ultimately show "\<exists>v'. inner_deserialize_read r (Some T) d = Ok (v', advance r (length bs)) \<and>
        value_eq (VOptional None) v' \<and> fits T v'"
    using read_prefix(10) [OF h a(4) refl refl] a(1) T
    by (auto simp: check_match_def optional_content_def value_none_def)
qed

lemma round_trips_buffer: "round_trips (VBuffer data)"
proof (rule round_tripsI)
  fix T r bs and d :: u8
  assume a: "serialize_write (VBuffer data) = Ok bs" "wf_value (VBuffer data)"
    "type_admits T (VBuffer data) = Ok True" "wf_type T" "\<not> 16 \<le> d" "holds r bs"
  define l :: u32 where "l = word_of_nat (length data)"
  from a(2) have len: "length data \<le> 1048576" by simp
  then have l: "unat l = length data" by (simp add: l_def unat_of_nat)
  have bl: "buffer_length_from_usize (length data) = Ok l"
    using len by (simp add: buffer_length_from_usize_def l_def)
  with a(1) have bs: "bs = prefix_u8 PBuffer # word_to_be l @ data" by simp
  with a(6) have h: "holds r (prefix_u8 PBuffer # (word_to_be l @ data))" by simp
  note h1 = holds_read_append [OF holds_Cons(2) [OF h], of 4, simplified]
  have h2: "read_bytes (advance r 5) (unat l) = Ok (data, advance r (5 + length data))"
    using read_bytes_holds [OF h1(2), of "unat l"] l by simp
  from a(3) bl obtain k where T: "T = BufferType k" "l \<le> k"
    by (auto simp: type_admits_def dest!: admits_shapes)
  have "buffer_length_from_u32 l = Ok l" using l len by (simp add: buffer_length_from_u32_def word_less_nat_alt)
  moreover have "buff_from data = Ok (VBuffer data)" by (simp add: buff_from_def bl)
  ultimately have "inner_deserialize_read r (Some T) d = Ok (VBuffer data, advance r (length bs))"
    using read_prefix(3) [OF h a(5) refl refl] h1(1) h2 T bs
    by (simp add: buffer_expected_def check_match_def)
  moreover have "fits T (VBuffer data)"
    using T a(2) bl l by (auto simp: fits_def admits_iff word_le_nat_alt)
  ultimately show "\<exists>v'. inner_deserialize_read r (Some T) d = Ok (v', advance r (length bs)) \<and>
      value_eq (VBuffer data) v' \<and> fits T v'" by auto
qed

lemma deserialize_standard_holds:
  assumes "length (spd_bytes p) = 20" and "holds r (serialize_standard_principal p @ rest)"
  shows "deserialize_standard_principal r = Ok (p, advance r 21)" and "holds (advance r 21) rest"
proof -
  from assms(2) have h: "holds r (spd_version p # (spd_bytes p @ rest))"
    by (simp add: serialize_standard_principal_def)
  note h1 = holds_read_append [OF holds_Cons(2) [OF h], of 20, simplified]
  show "deserialize_standard_principal r = Ok (p, advance r 21)" "holds (advance r 21) rest"
    using holds_Cons(1) [OF h] h1 assms(1) by (cases p; simp add: deserialize_standard_principal_def)+
qed

lemma deserialize_contract_holds:
  assumes "length (spd_bytes (qci_issuer c)) = 20" "valid_contract_name (qci_name c)"
    and "serialize_name (qci_name c) = Ok ns"
    and "holds r (serialize_standard_principal (qci_issuer c) @ ns)"
  shows "deserialize_contract_principal r = Ok (c, advance r (21 + length ns))"
proof -
  note h = deserialize_standard_holds [OF assms(1,4)]
  have "holds (advance r 21) (ns @ [])" using h(2) by simp
  from deserialize_name_holds [OF _ contract_name_ascii [OF assms(2)] _ assms(3) this, of contract_name_try_from]
    assms(2)
  have "deserialize_name contract_name_try_from (advance r 21) = Ok (qci_name c, advance r (21 + length ns))"
    by (simp add: valid_contract_name_def contract_name_try_from_Ok)
  with h(1) show ?thesis by (cases c) (simp add: deserialize_contract_principal_def)
qed

lemma round_trips_principal: "round_trips (VPrincipal p)"
proof (rule round_tripsI)
  fix T r bs and d :: u8
  assume a: "serialize_write (VPrincipal p) = Ok bs" "wf_value (VPrincipal p)"
    "type_admits T (VPrincipal p) = Ok True" "\<not> 16 \<le> d" "holds r bs"
  have T: "T = PrincipalType" using a(3) by (auto simp: type_admits_def dest!: admits_shapes)
  have fit: "fits PrincipalType (VPrincipal p)" using a(2) by (intro fits_own) auto
  have "inner_deserialize_read r (Some T) d = Ok (VPrincipal p, advance r (length bs))"
  proof (cases p)
    case (Standard sp)
    with a(1,5) have h: "holds r (prefix_u8 PPrincipalStandard # (serialize_standard_principal sp @ []))" by simp
    from a(2) Standard have l: "length (spd_bytes sp) = 20" by (simp add: valid_principal_def)
    from deserialize_standard_holds(1) [OF l holds_Cons(2) [OF h]] read_prefix(6) [OF h a(4) refl refl] a(1) T l Standard
    show ?thesis by (auto simp: check_match_def serialize_standard_principal_def)
  next
    case (Contract c)
    with a(1) obtain ns where ns: "serialize_name (qci_name c) = Ok ns"
      "bs = prefix_u8 PPrincipalContract # (serialize_standard_principal (qci_issuer c) @ ns)"
      by (auto simp: outcome_simps)
    with a(5) have h: "holds r (prefix_u8 PPrincipalContract # (serialize_standard_principal (qci_issuer c) @ ns))" by simp
    from a(2) Contract have l: "length (spd_bytes (qci_issuer c)) = 20" "valid_contract_name (qci_name c)"
      by (simp_all add: valid_principal_def)
    from deserialize_contract_holds [OF l ns(1) holds_Cons(2) [OF h]] read_prefix(7) [OF h a(4) refl refl] ns(2) T l Contract
    show ?thesis by (simp add: check_match_def serialize_standard_principal_def)
  qed
  with fit T show "\<exists>v'. inner_deserialize_read r (Some T) d = Ok (v', advance r (length bs)) \<and>
      value_eq (VPrincipal p) v' \<and> fits T v'" by auto
qed

lemma round_trips_some: "round_trips v \<Longrightarrow> round_trips (VOptional (Some v))"
proof (rule round_tripsI)
  fix T r bs and d :: u8
  assume rt: "round_trips v" and a: "serialize_write (VOptional (Some v)) = Ok bs" "wf_value (VOptional (Some v))"
    "type_admits T (VOptional (Some v)) = Ok True" "wf_type T" "concrete T"
    "unat d + nesting (VOptional (Some v)) \<le> 16" "\<not> 16 \<le> d" "holds r bs"
  from a(1) obtain cs where cs: "serialize_write v = Ok cs" "bs = prefix_u8 POptionalSome # cs"
    by (auto simp: outcome_simps)
  from a(2) obtain s where s: "wf_value v" "type_of v = Ok s" "concrete s" using type_of_wf [of v] by auto
  from a(3) s obtain t where t: "T = OptionalType t" "admits_type t s = Ok True"
    by (auto simp: type_admits_def outcome_simps dest!: new_option_Ok admits_shapes)
  from a(4,5) t have wft: "wf_type t" "concrete t" by (auto simp: admits_iff)
  have h: "holds r (prefix_u8 POptionalSome # cs)" using a(8) cs(2) by simp
  have "holds (advance r 1) (cs @ [])" using holds_Cons(2) [OF h] by simp
  moreover have "unat (d + 1) + nesting v \<le> 16" using depth_below [of d "nesting v"] a(6) by simp
  moreover have "type_admits t v = Ok True" using s(2) t(2) by (simp add: type_admits_def)
  ultimately obtain v' where v': "inner_deserialize_read (advance r 1) (Some t) (d + 1) = Ok (v', advance r (length bs))"
    "value_eq v v'" "fits t v'"
    using round_tripsD [OF rt cs(1) s(1) _ wft] by (fastforce simp: cs(2))
  from fits_some [OF v'(3)] a(4) t have "value_some v' = Ok (VOptional (Some v'))" "fits T (VOptional (Some v'))" by auto
  with v' t read_prefix(11) [OF h a(7) refl refl] show "\<exists>v'. inner_deserialize_read r (Some T) d = Ok (v', advance r (length bs)) \<and>
      value_eq (VOptional (Some v)) v' \<and> fits T v'"
    by (auto simp: expect_contained_def optional_content_def too_large_msg_def)
qed

lemma round_trips_response: "round_trips v \<Longrightarrow> round_trips (VResponse c v)"
proof (rule round_tripsI)
  fix T r bs and d :: u8
  let ?p = "if c then PResponseOk else PResponseErr"
  assume rt: "round_trips v" and a: "serialize_write (VResponse c v) = Ok bs" "wf_value (VResponse c v)"
    "type_admits T (VResponse c v) = Ok True" "wf_type T" "concrete T"
    "unat d + nesting (VResponse c v) \<le> 16" "\<not> 16 \<le> d" "holds r bs"
  from a(1) obtain cs where cs: "serialize_write v = Ok cs" "bs = prefix_u8 ?p # cs"
    by (auto simp: outcome_simps)
  from a(2) have "wf_value v" by (cases c) auto
  with type_of_wf [of v] obtain s where s: "wf_value v" "type_of v = Ok s" "concrete s" by auto
  from a(3) s(2,3) obtain a' b' where t: "T = ResponseType a' b'" "admits_type (if c then a' else b') s = Ok True"
    by (cases c) (auto simp: type_admits_def outcome_simps dest!: new_response_Ok admits_response_ok)
  let ?t = "if c then a' else b'"
  from a(4,5) t have wft: "wf_type ?t" "concrete ?t" by (auto simp: admits_iff split: if_splits)
  have h: "holds r (prefix_u8 ?p # cs)" using a(8) cs(2) by simp
  have "holds (advance r 1) (cs @ [])" using holds_Cons(2) [OF h] by simp
  moreover have "unat (d + 1) + nesting v \<le> 16" using depth_below [of d "nesting v"] a(6) by simp
  moreover have "type_admits ?t v = Ok True" using s(2) t(2) by (simp add: type_admits_def)
  ultimately obtain v' where v': "inner_deserialize_read (advance r 1) (Some ?t) (d + 1) = Ok (v', advance r (length bs))"
    "value_eq v v'" "fits ?t v'"
    using round_tripsD [OF rt cs(1) s(1) _ wft] by (fastforce simp: cs(2))
  from fits_response [OF v'(3)] a(4) t have "(if c then value_okay v' else value_error v') = Ok (VResponse c v')"
    "fits T (VResponse c v')" by auto
  with v' t read_prefix(8,9) [OF h a(7) refl] show "\<exists>v'. inner_deserialize_read r (Some T) d = Ok (v', advance r (length bs)) \<and>
      value_eq (VResponse c v) v' \<and> fits T v'"
    by (cases c) (auto simp: expect_contained_def response_side_def too_large_msg_def)
qed

lemma items_round_trip:
  assumes "serialize_items vs = Ok bs" "wf_type t" "concrete t"
    and "\<forall>v \<in> set vs. round_trips v \<and> wf_value v \<and> type_admits t v = Ok True \<and> unat (d :: u8) + nesting v \<le> 16"
    and "holds r bs"
  shows "\<exists>ws. deserialize_items r (Some t) d (length vs) = Ok (ws, advance r (length bs)) \<and>
    list_all2 value_eq vs ws \<and> (\<forall>w \<in> set ws. fits t w)"
  using assms(1,4,5)
proof (induction vs arbitrary: bs r)
  case (Cons v vs)
  from Cons.prems(1) obtain b1 b2 where b: "serialize_write v = Ok b1" "serialize_items vs = Ok b2" "bs = b1 @ b2"
    by (auto simp: outcome_simps)
  from Cons.prems(3) b(3) have h: "holds r (b1 @ b2)" by simp
  from Cons.prems(2) have v: "round_trips v" "wf_value v" "type_admits t v = Ok True" "unat d + nesting v \<le> 16" by auto
  from round_tripsD [OF v(1) b(1) v(2,3) assms(2,3) v(4) h] obtain w where
    w: "inner_deserialize_read r (Some t) d = Ok (w, advance r (length b1))" "value_eq v w" "fits t w"
      "holds (advance r (length b1)) b2" by blast
  from Cons.IH [OF b(2) _ w(4)] Cons.prems(2) obtain ws where
    ws: "deserialize_items (advance r (length b1)) (Some t) d (length vs) = Ok (ws, advance r (length bs))"
      "list_all2 value_eq vs ws" "\<forall>w \<in> set ws. fits t w" by (auto simp: b(3))
  from w ws show ?case by (intro exI [of _ "w # ws"]) simp
qed simp

lemma list_length_bound:
  assumes "wf_type (ListType n t)"
  shows "unat n \<le> 1048576"
proof -
  have "unat n * 1 \<le> unat n * nat_size t" using nat_size_pos [of t] assms by (intro mult_le_mono) auto
  also have "\<dots> \<le> 1048576" using assms new_list_exact [of t n] by (auto split: if_splits)
  finally show ?thesis by simp
qed

lemma round_trips_list:
  assumes "\<And>v. v \<in> set vs \<Longrightarrow> round_trips v"
  shows "round_trips (VList vs n t)"
proof (rule round_tripsI)
  fix T r bs and d :: u8
  assume a: "serialize_write (VList vs n t) = Ok bs" "wf_value (VList vs n t)" "type_admits T (VList vs n t) = Ok True"
    "wf_type T" "concrete T" "unat d + nesting (VList vs n t) \<le> 16" "\<not> 16 \<le> d" "holds r bs"
  from a(1) obtain l cs where l: "unat (l :: u32) = length vs" "serialize_items vs = Ok cs"
    "bs = prefix_u8 PList # (word_to_be l @ cs)"
    by (auto simp: outcome_simps checked_simps unwrap_opt_def split: option.splits)
  from a(3) obtain m t' where T: "T = ListType m t'" "n = 0 \<or> n \<le> m \<and> admits_type t' t = Ok True"
    by (auto simp: type_admits_def dest!: admits_shapes)
  have len: "length vs \<le> unat m" using T(2) a(2) by (auto simp: word_le_nat_alt)
  have h: "holds r (prefix_u8 PList # (word_to_be l @ cs))" using a(8) l(3) by simp
  note h1 = holds_read_append [OF holds_Cons(2) [OF h], of 4, simplified]
  have "\<exists>ws. deserialize_items (advance r 5) (Some t') (d + 1) (length vs) = Ok (ws, advance r (length bs)) \<and>
    list_all2 value_eq vs ws \<and> (\<forall>w \<in> set ws. fits t' w)"
  proof (cases "vs = []")
    case False
    then have "0 < unat n" using a(2) by (cases vs) auto
    with T have t': "admits_type t' t = Ok True" "0 < unat m" by (auto simp: word_le_nat_alt)
    with T a(4,5) have "wf_type t'" "concrete t'" by auto
    moreover have "type_admits t' v = Ok True" if "v \<in> set vs" for v
      using a(2) that t'(1) by (auto intro: type_admits_trans)
    moreover have "unat (d + 1) + nesting v \<le> 16" if "v \<in> set vs" for v
      using depth_below [of d "nesting v"] nesting_member(1) [OF that, of n t] a(6) by simp
    ultimately show ?thesis
      using items_round_trip [OF l(2), of t' "d + 1" "advance r 5"] h1(2) assms a(2) l(3) by auto
  qed (use l in auto)
  then obtain ws where ws: "deserialize_items (advance r 5) (Some t') (d + 1) (length vs) = Ok (ws, advance r (length bs))"
    "list_all2 value_eq vs ws" "\<forall>w \<in> set ws. fits t' w" by blast
  have "length ws \<le> unat m" using list_all2_lengthD [OF ws(2)] len by simp
  then have lw: "list_with_type ws (m, t') = Ok (VList ws m t')"
    using ws(3) fits_admits by (auto simp: list_with_type_def all_admitted_Ok outcome_simps)
  then have "wf_value (VList ws m t')"
    using list_with_type_wf [of ws m t'] ws(3) fits_admits T(1) a(4,5) by blast
  then have "fits T (VList ws m t')" unfolding T(1) by (rule fits_own) simp
  moreover have "\<not> MAX_VALUE_SIZE < l" "\<not> m < l"
    using l(1) len a(2,4) T(1) list_length_bound [of n t] by (auto simp: word_less_nat_alt)
  ultimately show "\<exists>v'. inner_deserialize_read r (Some T) d = Ok (v', advance r (length bs)) \<and>
      value_eq (VList vs n t) v' \<and> fits T v'"
    using read_prefix(12) [OF h a(7) refl refl] h1(1) l(1) ws T(1) lw
    by (auto simp: list_expected_def build_list_def)
qed

lemma fields_round_trip:
  assumes "serialize_fields m = Ok bs"
    and "\<forall>p \<in> set m. round_trips (snd p) \<and> wf_value (snd p) \<and> valid_clarity_name (fst p) \<and>
      unat (d :: u8) + nesting (snd p) \<le> 16 \<and>
      (\<exists>t. bt_get sig (fst p) = Some t \<and> wf_type t \<and> concrete t \<and> type_admits t (snd p) = Ok True)"
    and "holds r bs"
  shows "\<exists>ws. deserialize_fields r (Some sig) d (length m) = Ok (ws, advance r (length bs)) \<and>
    list_all2 (\<lambda>p q. fst p = fst q \<and> value_eq (snd p) (snd q)) m ws \<and>
    (\<forall>q \<in> set ws. \<exists>t. bt_get sig (fst q) = Some t \<and> fits t (snd q))"
  using assms
proof (induction m arbitrary: bs r)
  case (Cons p m)
  obtain k v where p: "p = (k, v)" by force
  from Cons.prems(1) p obtain ks b1 b2 where b: "serialize_name k = Ok ks" "serialize_write v = Ok b1"
    "serialize_fields m = Ok b2" "bs = ks @ b1 @ b2"
    by (auto simp: outcome_simps)
  from Cons.prems(2) p obtain t where t: "round_trips v" "wf_value v" "valid_clarity_name k"
    "unat d + nesting v \<le> 16" "bt_get sig k = Some t" "wf_type t" "concrete t" "type_admits t v = Ok True" by auto
  have "holds r (ks @ (b1 @ b2))" using Cons.prems(3) b(4) by simp
  note k = deserialize_name_holds [OF _ clarity_name_ascii [OF t(3)] _ b(1) this, of clarity_name_try_from]
  have key: "deserialize_name clarity_name_try_from r = Ok (k, advance r (length ks))"
    and h: "holds (advance r (length ks)) (b1 @ b2)"
    using k t(3) by (simp_all add: valid_clarity_name_def clarity_name_try_from_Ok)
  from round_tripsD [OF t(1) b(2) t(2,8,6,7,4) h] obtain w where
    w: "inner_deserialize_read (advance r (length ks)) (Some t) d = Ok (w, advance r (length ks + length b1))"
      "value_eq v w" "fits t w" "holds (advance r (length ks + length b1)) b2" by auto
  from Cons.IH [OF b(3) _ w(4)] Cons.prems(2) obtain ws where
    ws: "deserialize_fields (advance r (length ks + length b1)) (Some sig) d (length m) = Ok (ws, advance r (length bs))"
      "list_all2 (\<lambda>p q. fst p = fst q \<and> value_eq (snd p) (snd q)) m ws"
      "\<forall>q \<in> set ws. \<exists>t. bt_get sig (fst q) = Some t \<and> fits t (snd q)" by (auto simp: b(4) add.assoc)
  from key w ws t(5) show ?case
    by (intro exI [of _ "(k, w) # ws"]) (simp add: field_expected_def p)
qed simp

lemma tuple_admits_keys:
  assumes "admits_type (TupleType fs) (TupleType gs) = Ok True" and "bt_wf fs" and "bt_wf gs"
  shows "map fst fs = map fst gs"
proof -
  from assms(1) have len: "length fs = length gs" and get: "\<forall>(n, t) \<in> set fs. \<exists>s. bt_get gs n = Some s"
    by (auto simp: admits_iff)
  have "fst ` set fs \<subseteq> fst ` set gs"
  proof
    fix n assume "n \<in> fst ` set fs"
    then obtain t where "(n, t) \<in> set fs" by auto
    with get obtain s where "bt_get gs n = Some s" by blast
    then show "n \<in> fst ` set gs" by (metis domI dom_map_of_conv_image_fst)
  qed
  moreover have "card (fst ` set fs) = card (fst ` set gs)"
    using len bt_wf_distinct [OF assms(2)] bt_wf_distinct [OF assms(3)] by (metis distinct_card length_map set_map)
  ultimately have "set (map fst fs) = set (map fst gs)" by (simp add: card_subset_eq)
  with assms(2,3) show ?thesis unfolding bt_wf_def by (intro strict_sorted_equal) auto
qed

lemma tuple_length_bound:
  assumes "wf_type (TupleType fs)"
  shows "length fs \<le> 1048576"
proof -
  have "nat_size (TupleType fs) \<le> 1048576"
    using assms tuple_type_try_from_exact [of fs] by (auto split: if_splits)
  then show ?thesis by simp
qed

lemma tuple_field_expected:
  assumes "wf_value (VTuple sig m)" and "admits_type (TupleType fs) (TupleType sig) = Ok True"
    and "wf_type (TupleType fs)" and "concrete (TupleType fs)" and p: "p \<in> set m"
  shows "wf_value (snd p) \<and> valid_clarity_name (fst p) \<and>
    (\<exists>t. bt_get fs (fst p) = Some t \<and> wf_type t \<and> concrete t \<and> type_admits t (snd p) = Ok True)"
proof -
  from assms(1,4) have wf: "bt_wf fs" "bt_wf sig" by auto
  from tuple_admits_keys [OF assms(2) wf] have keys: "map fst fs = map fst sig" .
  from assms(1) p obtain s where s: "wf_value (snd p)" "(fst p, s) \<in> set sig" "type_admits s (snd p) = Ok True"
    by force
  then have get: "bt_get sig (fst p) = Some s" using wf(2) by (simp add: bt_wf_distinct map_of_eq_Some_iff)
  from s(2) keys have "fst p \<in> set (map fst fs)" by force
  then obtain t where t: "(fst p, t) \<in> set fs" by auto
  with assms(2) get have "admits_type t s = Ok True" by (auto simp: admits_iff)
  with s(3) have "type_admits t (snd p) = Ok True" by (rule type_admits_trans)
  moreover have "bt_get fs (fst p) = Some t" using t wf(1) by (simp add: bt_wf_distinct map_of_eq_Some_iff)
  moreover have "wf_type t" "concrete t" "valid_clarity_name (fst p)" using t assms(3,4) by force+
  ultimately show ?thesis using s(1) by blast
qed

lemma tuple_built:
  assumes "map fst ws = map fst fs" and "\<forall>q \<in> set ws. \<exists>t. bt_get fs (fst q) = Some t \<and> fits t (snd q)"
    and "wf_type (TupleType fs)" and "concrete (TupleType fs)"
  shows "tuple_from_data_typed ws fs = Ok (fs, ws)" and "fits (TupleType fs) (VTuple fs ws)"
proof -
  have "bt_wf ([] @ ws)" using assms(1,4) by (simp add: bt_wf_def)
  from from_data_typed_loop_sorted [OF this, of fs] assms(2) fits_admits
  show built: "tuple_from_data_typed ws fs = Ok (fs, ws)" by (fastforce simp: tuple_from_data_typed_def)
  have "distinct (map fst ws)" using assms(1,4) bt_wf_distinct by auto
  moreover have "length ws = length fs" using assms(1) by (rule map_eq_imp_length_eq)
  ultimately have "wf_value (VTuple fs ws)"
    using tuple_from_data_typed_wf [OF assms(3,4) _ _ _ built] assms(2) fits_admits by blast
  then show "fits (TupleType fs) (VTuple fs ws)" by (rule fits_own) simp
qed

lemma round_trips_tuple:
  assumes "\<And>p. p \<in> set m \<Longrightarrow> round_trips (snd p)"
  shows "round_trips (VTuple sig m)"
proof (rule round_tripsI)
  fix T r bs and d :: u8
  assume a: "serialize_write (VTuple sig m) = Ok bs" "wf_value (VTuple sig m)" "type_admits T (VTuple sig m) = Ok True"
    "wf_type T" "concrete T" "unat d + nesting (VTuple sig m) \<le> 16" "\<not> 16 \<le> d" "holds r bs"
  from a(1) obtain l cs where l: "unat (l :: u32) = length m" "serialize_fields m = Ok cs"
    "bs = prefix_u8 PTuple # (word_to_be l @ cs)"
    by (auto simp: outcome_simps checked_simps unwrap_opt_def split: option.splits)
  from a(3) have adm: "admits_type T (TupleType sig) = Ok True" by (simp add: type_admits_def)
  then obtain fs where T: "T = TupleType fs" by (cases T) (auto simp: admits_iff)
  from a(2,5) T tuple_admits_keys [of fs sig] adm have keys: "map fst m = map fst fs" by simp
  have h: "holds r (prefix_u8 PTuple # (word_to_be l @ cs))" using a(8) l(3) by simp
  note h1 = holds_read_append [OF holds_Cons(2) [OF h], of 4, simplified]
  have "unat (d + 1) + nesting (snd p) \<le> 16" if p: "p \<in> set m" for p
    using depth_below [of d "nesting (snd p)"] nesting_member(2) [OF p, of sig] a(6) by simp
  with fields_round_trip [OF l(2), of "d + 1" fs "advance r 5"] tuple_field_expected [OF a(2), of fs]
    adm a(4,5) T assms h1(2) l(3) obtain ws where
    ws: "deserialize_fields (advance r 5) (Some fs) (d + 1) (length m) = Ok (ws, advance r (length bs))"
      "list_all2 (\<lambda>p q. fst p = fst q \<and> value_eq (snd p) (snd q)) m ws"
      "\<forall>q \<in> set ws. \<exists>t. bt_get fs (fst q) = Some t \<and> fits t (snd q)" by auto
  have "map fst ws = map fst fs" using ws(2) keys by (induction m ws arbitrary: fs rule: list_all2_induct) auto
  note built = tuple_built [OF this ws(3) a(4,5) [unfolded T]]
  have "unat l = length fs" using l(1) keys by (metis length_map)
  moreover from this have "\<not> MAX_VALUE_SIZE < l"
    using tuple_length_bound [of fs] a(4) T by (simp add: word_less_nat_alt)
  ultimately show "\<exists>v'. inner_deserialize_read r (Some T) d = Ok (v', advance r (length bs)) \<and>
      value_eq (VTuple sig m) v' \<and> fits T v'"
    using read_prefix(13) [OF h a(7) refl refl] h1(1) l(1) ws T built
    by (auto simp: tuple_expected_def build_tuple_def)
qed

lemma round_trips_all: "round_trips v"
  by (induction v rule: val_induct)
    (auto intro: round_trips_int round_trips_bool round_trips_none round_trips_buffer round_trips_principal
      round_trips_some round_trips_response round_trips_list round_trips_tuple)

section \<open>The byte bound\<close>

lemma serialize_name_valid: "length n \<le> MAX_STRING_LEN \<Longrightarrow> \<exists>bs. serialize_name n = Ok bs \<and> length bs = length n + 1"
  by (simp add: serialize_name_def MAX_STRING_LEN_def)

text \<open>The written form of a value is at most twice as long as the size of any type that admits it.\<close>

definition written_within :: "val \<Rightarrow> bool" where
  "written_within v \<longleftrightarrow>
     (\<forall>T. wf_value v \<and> type_admits T v = Ok True \<and> wf_type T \<and> concrete T \<longrightarrow>
       (\<exists>bs. serialize_write v = Ok bs \<and> length bs \<le> 2 * nat_size T))"

lemma written_within_principal: "written_within (VPrincipal p)"
proof -
  have "\<exists>bs. serialize_principal p = Ok bs \<and> length bs \<le> 151" if "valid_principal p"
  proof (cases p)
    case (Contract c)
    with that have l: "length (spd_bytes (qci_issuer c)) = 20" "length (qci_name c) \<le> 128"
      by (simp_all add: valid_principal_def valid_contract_name_def MAX_STRING_LEN_def)
    with serialize_name_valid [of "qci_name c"] show ?thesis
      by (auto simp: Contract serialize_standard_principal_def MAX_STRING_LEN_def)
  qed (use that in \<open>simp add: valid_principal_def serialize_standard_principal_def\<close>)
  then show ?thesis
    by (fastforce simp: written_within_def type_admits_def dest!: admits_shapes)
qed

lemma items_written:
  assumes "\<forall>v \<in> set vs. written_within v \<and> wf_value v \<and> type_admits t v = Ok True" "wf_type t" "concrete t"
  shows "\<exists>bs. serialize_items vs = Ok bs \<and> length bs \<le> length vs * (2 * nat_size t)"
  using assms(1)
proof (induction vs)
  case (Cons v vs)
  then obtain b1 where "serialize_write v = Ok b1" "length b1 \<le> 2 * nat_size t"
    using assms(2,3) by (auto simp: written_within_def)
  moreover from Cons obtain b2 where "serialize_items vs = Ok b2" "length b2 \<le> length vs * (2 * nat_size t)" by auto
  ultimately show ?case by auto
qed simp

lemma written_within_list:
  assumes "\<And>v. v \<in> set vs \<Longrightarrow> written_within v"
  shows "written_within (VList vs n t)"
  unfolding written_within_def
proof (intro allI impI, elim conjE)
  fix T
  assume a: "wf_value (VList vs n t)" "type_admits T (VList vs n t) = Ok True" "wf_type T" "concrete T"
  from a(2) obtain m t' where T: "T = ListType m t'" "n = 0 \<or> n \<le> m \<and> admits_type t' t = Ok True"
    by (auto simp: type_admits_def dest!: admits_shapes)
  have len: "length vs \<le> unat m" using T(2) a(1) by (auto simp: word_le_nat_alt)
  have "\<exists>bs. serialize_items vs = Ok bs \<and> length bs \<le> length vs * (2 * nat_size t')"
  proof (cases "vs = []")
    case False
    then have "0 < unat n" using a(1) by (cases vs) auto
    with T have t': "admits_type t' t = Ok True" "0 < unat m" by (auto simp: word_le_nat_alt)
    with T a(3,4) have "wf_type t'" "concrete t'" by auto
    moreover have "type_admits t' v = Ok True" if "v \<in> set vs" for v
      using a(1) that t'(1) by (auto intro: type_admits_trans)
    ultimately show ?thesis using items_written [of vs t'] assms a(1) by auto
  qed simp
  then obtain bs where bs: "serialize_items vs = Ok bs" "length bs \<le> length vs * (2 * nat_size t')" by blast
  have "length vs * (2 * nat_size t') \<le> unat m * (2 * nat_size t')" using len by (rule mult_le_mono1)
  with bs(2) have "length bs \<le> 2 * (unat m * nat_size t')" by linarith
  moreover have "length vs < 2 ^ 32" using len list_length_bound [of m t'] a(3) T by simp
  ultimately show "\<exists>bs. serialize_write (VList vs n t) = Ok bs \<and> length bs \<le> 2 * nat_size T"
    using bs(1) by (simp add: T u32_try_from_def unwrap_opt_def)
qed

lemma fields_written:
  assumes "list_all2 (\<lambda>p q. fst p = fst q \<and> written_within (snd p) \<and> wf_value (snd p) \<and>
      valid_clarity_name (fst p) \<and> wf_type (snd q) \<and> concrete (snd q) \<and> type_admits (snd q) (snd p) = Ok True) m fs"
  shows "\<exists>bs. serialize_fields m = Ok bs \<and> length bs \<le> length fs + 2 * (\<Sum>p\<leftarrow>fs. nat_size (snd p) + length (fst p))"
  using assms
proof (induction m fs rule: list_all2_induct)
  case (Cons p m q fs)
  then obtain b1 where b1: "serialize_write (snd p) = Ok b1" "length b1 \<le> 2 * nat_size (snd q)"
    by (auto simp: written_within_def)
  from Cons obtain ks where ks: "serialize_name (fst p) = Ok ks" "length ks = length (fst q) + 1"
    using serialize_name_valid [of "fst p"] by (auto simp: valid_clarity_name_def)
  from Cons.IH obtain b2 where b2: "serialize_fields m = Ok b2"
    "length b2 \<le> length fs + 2 * (\<Sum>p\<leftarrow>fs. nat_size (snd p) + length (fst p))" by blast
  from b1 ks b2 show ?case by (cases p) auto
qed simp

lemma written_within_tuple:
  assumes "\<And>p. p \<in> set m \<Longrightarrow> written_within (snd p)"
  shows "written_within (VTuple sig m)"
  unfolding written_within_def
proof (intro allI impI, elim conjE)
  fix T
  assume a: "wf_value (VTuple sig m)" "type_admits T (VTuple sig m) = Ok True" "wf_type T" "concrete T"
  from a(2) have adm: "admits_type T (TupleType sig) = Ok True" by (simp add: type_admits_def)
  then obtain fs where T: "T = TupleType fs" by (cases T) (auto simp: admits_iff)
  from a(1,4) T tuple_admits_keys [of fs sig] adm have keys: "map fst m = map fst fs" by simp
  then have len: "length m = length fs" by (rule map_eq_imp_length_eq)
  have "fst (m ! i) = fst (fs ! i) \<and> written_within (snd (m ! i)) \<and> wf_value (snd (m ! i)) \<and>
      valid_clarity_name (fst (m ! i)) \<and> wf_type (snd (fs ! i)) \<and> concrete (snd (fs ! i)) \<and>
      type_admits (snd (fs ! i)) (snd (m ! i)) = Ok True" if i: "i < length m" for i
  proof -
    from i keys have k: "fst (m ! i) = fst (fs ! i)" by (metis len nth_map)
    from i len have mem: "(fst (fs ! i), snd (fs ! i)) \<in> set fs" by simp
    from a(4) T have "distinct (map fst fs)" using bt_wf_distinct by auto
    with mem have "bt_get fs (fst (m ! i)) = Some (snd (fs ! i))" unfolding k by (simp add: map_of_is_SomeI)
    with tuple_field_expected [OF a(1), of fs "m ! i"] adm a(3,4) T i assms k show ?thesis by auto
  qed
  then have "list_all2 (\<lambda>p q. fst p = fst q \<and> written_within (snd p) \<and> wf_value (snd p) \<and>
      valid_clarity_name (fst p) \<and> wf_type (snd q) \<and> concrete (snd q) \<and> type_admits (snd q) (snd p) = Ok True) m fs"
    by (rule list_all2_all_nthI [OF len])
  from fields_written [OF this] obtain bs where bs: "serialize_fields m = Ok bs"
    "length bs \<le> length fs + 2 * (\<Sum>p\<leftarrow>fs. nat_size (snd p) + length (fst p))" by blast
  moreover have "length m < 2 ^ 32" "1 \<le> length fs"
    using len tuple_length_bound [of fs] a(3) T by (auto simp: tuple_type_try_from_def Suc_le_eq)
  ultimately show "\<exists>bs. serialize_write (VTuple sig m) = Ok bs \<and> length bs \<le> 2 * nat_size T"
    by (simp add: T u32_try_from_def unwrap_opt_def)
qed

lemma written_within_atoms:
  "written_within (VInt i)" "written_within (VUInt i)" "written_within (VBool b)"
  "written_within (VOptional None)" "written_within (VBuffer bs)"
proof -
  show "written_within (VInt i)" "written_within (VUInt i)" "written_within (VBool b)"
    by (auto simp: written_within_def type_admits_def dest!: admits_shapes)
  show "written_within (VOptional None)"
    using nat_size_pos by (fastforce simp: written_within_def type_admits_def new_option_none dest!: admits_shapes)
  show "written_within (VBuffer bs)"
    unfolding written_within_def
    by (auto simp: type_admits_def buffer_length_from_usize_def unat_of_nat word_le_nat_alt dest!: admits_shapes)
qed

lemma written_within_some:
  assumes "written_within v"
  shows "written_within (VOptional (Some v))"
  unfolding written_within_def
proof (intro allI impI, elim conjE)
  fix T
  assume a: "wf_value (VOptional (Some v))" "type_admits T (VOptional (Some v)) = Ok True" "wf_type T" "concrete T"
  from a(1) obtain s where s: "wf_value v" "type_of v = Ok s" "concrete s" using type_of_wf [of v] by auto
  from a(2) s obtain t where t: "T = OptionalType t" "admits_type t s = Ok True"
    by (auto simp: type_admits_def outcome_simps dest!: new_option_Ok admits_shapes)
  with a(3,4) have "wf_type t" "concrete t" by (auto simp: admits_iff)
  with assms s t show "\<exists>bs. serialize_write (VOptional (Some v)) = Ok bs \<and> length bs \<le> 2 * nat_size T"
    by (fastforce simp: written_within_def type_admits_def)
qed

lemma written_within_response:
  assumes "written_within v"
  shows "written_within (VResponse c v)"
  unfolding written_within_def
proof (intro allI impI, elim conjE)
  fix T
  assume a: "wf_value (VResponse c v)" "type_admits T (VResponse c v) = Ok True" "wf_type T" "concrete T"
  from a(1) have "wf_value v" by (cases c) auto
  with type_of_wf [of v] obtain s where s: "wf_value v" "type_of v = Ok s" "concrete s" by auto
  from a(2) s(2,3) obtain a' b' where t: "T = ResponseType a' b'" "admits_type (if c then a' else b') s = Ok True"
    by (cases c) (auto simp: type_admits_def outcome_simps dest!: new_response_Ok admits_response_ok)
  let ?t = "if c then a' else b'"
  from a(3,4) t have "wf_type ?t" "concrete ?t" by (auto simp: admits_iff split: if_splits)
  with assms s t obtain bs where "serialize_write v = Ok bs" "length bs \<le> 2 * nat_size ?t"
    by (fastforce simp: written_within_def type_admits_def)
  moreover have "nat_size ?t \<le> max (nat_size a') (nat_size b')" by simp
  ultimately have "serialize_write v = Ok bs" "length bs \<le> 2 * max (nat_size a') (nat_size b')" by linarith+
  then show "\<exists>bs. serialize_write (VResponse c v) = Ok bs \<and> length bs \<le> 2 * nat_size T" by (simp add: t(1))
qed

lemma written_within_all: "written_within v"
  by (induction v rule: val_induct)
    (auto intro: written_within_atoms written_within_principal written_within_list written_within_tuple
      written_within_some written_within_response)

lemma nat_size_not_buffer:
  assumes "wf_type t" and "\<forall>l. t \<noteq> BufferType l"
  shows "nat_size t \<le> 1048576"
proof (cases t)
  case (ListType n u)
  with assms(1) new_list_exact [of u n] show ?thesis by (auto split: if_splits)
next
  case (TupleType fs)
  with assms(1) tuple_type_try_from_exact [of fs] show ?thesis by (auto simp del: nat_size.simps split: if_splits)
next
  case (OptionalType u)
  with assms(1) wrapper_bounds(1) [of u] show ?thesis by simp
next
  case (ResponseType u v)
  with wrapper_bounds(2) [of u v] assms(1) have "max (nat_size u) (nat_size v) + 1 \<le> 1048576" by blast
  then show ?thesis by (simp add: ResponseType)
next
  case (BufferType l)
  with assms(2) show ?thesis by blast
qed simp_all

lemma type_of_buffer:
  assumes "type_of v = Ok (BufferType l)"
  shows "\<exists>data. v = VBuffer data"
proof (cases v)
  case (VOptional x)
  with assms obtain t where "new_option t = Ok (BufferType l)"
    by (cases x) (simp_all add: outcome_simps, blast+)
  then show ?thesis using new_option_Ok by blast
next
  case (VResponse c w)
  with assms obtain t s where "new_response t s = Ok (BufferType l)"
    by (cases c) (simp_all add: outcome_simps, blast+)
  then show ?thesis using new_response_Ok by blast
qed (use assms in simp_all)

lemma written_bound:
  assumes "wf_value v"
  shows "\<exists>bs. serialize_write v = Ok bs \<and> length bs \<le> BOUND_VALUE_SERIALIZATION_BYTES"
proof -
  obtain t where t: "type_of v = Ok t" "wf_type t" "concrete t" using type_of_wf [OF assms] by blast
  then have adm: "type_admits t v = Ok True" by (simp add: type_admits_def admits_type_refl)
  with written_within_all [of v] assms t obtain bs where bs: "serialize_write v = Ok bs" "length bs \<le> 2 * nat_size t"
    unfolding written_within_def by blast
  show ?thesis
  proof (cases "\<exists>l. t = BufferType l")
    case True
    with t(1) type_of_buffer obtain data where "v = VBuffer data" by blast
    with assms bs(1) show ?thesis
      by (auto simp: BOUND_VALUE_SERIALIZATION_BYTES_def buffer_length_from_usize_def outcome_simps)
  next
    case False
    with nat_size_not_buffer [OF t(2)] bs show ?thesis by (auto simp: BOUND_VALUE_SERIALIZATION_BYTES_def)
  qed
qed

lemma from_reader_holds:
  "length bs \<le> BOUND_VALUE_SERIALIZATION_BYTES \<Longrightarrow>
     holds (from_reader (bs @ rest) (word_of_nat BOUND_VALUE_SERIALIZATION_BYTES)) bs"
  by (simp add: holds_def reader_inv_def remaining_def from_reader_def BOUND_VALUE_SERIALIZATION_BYTES_def)

lemma value_round_trip:
  assumes "wf_value v" and "nesting v \<le> 16" and "wf_type T" and "concrete T" and "type_admits T v = Ok True"
  shows "\<exists>hex w. value_serialize v = Ok hex \<and> value_deserialize hex T = Ok w \<and> value_eq v w \<and>
    wf_value w \<and> type_admits T w = Ok True"
proof -
  obtain bs where bs: "serialize_write v = Ok bs" "length bs \<le> BOUND_VALUE_SERIALIZATION_BYTES"
    using written_bound [OF assms(1)] by blast
  let ?r = "from_reader bs (word_of_nat BOUND_VALUE_SERIALIZATION_BYTES)"
  have "holds ?r (bs @ [])" using from_reader_holds [OF bs(2), of "[]"] by simp
  with round_tripsD [OF round_trips_all bs(1) assms(1,5,3,4), of 0 ?r "[]"] assms(2) obtain w where
    w: "inner_deserialize_read ?r (Some T) 0 = Ok (w, advance ?r (length bs))" "value_eq v w" "fits T w" by auto
  have "value_serialize v = Ok (to_hex bs)" using bs(1) by (simp add: value_serialize_def)
  moreover have "value_deserialize (to_hex bs) T = Ok w"
    using w(1) by (simp add: value_deserialize_def try_deserialize_hex_def try_deserialize_bytes_def
        deserialize_read_def no_io_error_def)
  ultimately show ?thesis using w(2) fits_admits [OF w(3)] by blast
qed

section \<open>Beyond the nesting limit\<close>

definition nested_some :: "nat \<Rightarrow> val" where
  "nested_some n = ((\<lambda>v. VOptional (Some v)) ^^ n) (VInt 0)"

definition nested_type :: "nat \<Rightarrow> type_signature" where
  "nested_type n = (OptionalType ^^ n) IntType"

lemma nested_type_measure: "nat_size (nested_type n) = n + 16" "nat_depth (nested_type n) = n + 1"
  by (induction n) (simp_all add: nested_type_def)

lemma nested_type_wf: "n \<le> 31 \<Longrightarrow> wf_type (nested_type n) \<and> concrete (nested_type n)"
proof (induction n)
  case (Suc n)
  then have wf: "wf_type (nested_type n)" "concrete (nested_type n)" by simp_all
  have "new_option (nested_type n) = Ok (OptionalType (nested_type n))"
    using new_option_exact [OF wf(1)] Suc.prems by (simp add: nested_type_measure)
  with wf show ?case by (simp add: nested_type_def)
qed (simp add: nested_type_def)

lemma nested_some_wf: "n \<le> 31 \<Longrightarrow> wf_value (nested_some n) \<and> type_of (nested_some n) = Ok (nested_type n)"
proof (induction n)
  case (Suc n)
  then have v: "wf_value (nested_some n)" "type_of (nested_some n) = Ok (nested_type n)" by simp_all
  have wf: "wf_type (nested_type n)" using nested_type_wf [of n] Suc.prems by simp
  have "value_some (nested_some n) = Ok (VOptional (Some (nested_some n)))"
    using Suc.prems by (simp add: value_some_def wrap_guard_Ok [OF v(2) wf] nested_type_measure)
  moreover have "new_option (nested_type n) = Ok (OptionalType (nested_type n))"
    using new_option_exact [OF wf] Suc.prems by (simp add: nested_type_measure)
  ultimately show ?case using v by (simp add: nested_some_def nested_type_def)
qed (simp add: nested_some_def nested_type_def)

lemma nested_some_nesting: "nesting (nested_some n) = n + 1"
  by (induction n) (simp_all add: nested_some_def)

text \<open>Reading a value that is nested too deeply stops at the limit.\<close>

abbreviation too_deep :: "('a, serialization_error) outcome" where
  "too_deep \<equiv> Err (BadTypeError TypeSignatureTooDeep)"

definition stops_at_limit :: "val \<Rightarrow> bool" where
  "stops_at_limit v \<longleftrightarrow>
     (\<forall>T r d bs. serialize_write v = Ok bs \<and> wf_value v \<and> type_admits T v = Ok True \<and> wf_type T \<and> concrete T \<and>
        unat (d :: u8) \<le> 16 \<and> 16 < unat d + nesting v \<and> holds r bs \<longrightarrow> inner_deserialize_read r (Some T) d = too_deep)"

lemma stops_at_limitD:
  assumes "stops_at_limit v" "serialize_write v = Ok bs" "wf_value v" "type_admits T v = Ok True" "wf_type T" "concrete T"
    "unat (d :: u8) \<le> 16" "16 < unat d + nesting v" "holds r (bs @ rest)"
  shows "inner_deserialize_read r (Some T) d = too_deep"
  using assms holds_append [OF assms(9)] unfolding stops_at_limit_def by blast

lemma stops_at_limitI:
  assumes "\<And>T r d bs. serialize_write v = Ok bs \<Longrightarrow> wf_value v \<Longrightarrow> type_admits T v = Ok True \<Longrightarrow> wf_type T \<Longrightarrow>
     concrete T \<Longrightarrow> 16 < unat (d :: u8) + nesting v \<Longrightarrow> \<not> 16 \<le> d \<Longrightarrow> holds r bs \<Longrightarrow> inner_deserialize_read r (Some T) d = too_deep"
  shows "stops_at_limit v"
proof -
  have "inner_deserialize_read r (Some T) d = too_deep" if "16 \<le> d" for r T and d :: u8
    using that by (simp add: inner_deserialize_read.simps)
  with assms show ?thesis unfolding stops_at_limit_def by blast
qed

lemma stops_at_limit_flat: "nesting v = 1 \<Longrightarrow> stops_at_limit v"
  by (rule stops_at_limitI) (simp add: word_le_nat_alt)

lemma depth_above: "\<not> 16 \<le> (d :: u8) \<Longrightarrow> 16 < unat d + Suc n \<Longrightarrow> unat (d + 1) \<le> 16 \<and> 16 < unat (d + 1) + n"
  by (simp add: word_le_nat_alt unat_word_ariths)

lemma stops_some: "stops_at_limit v \<Longrightarrow> stops_at_limit (VOptional (Some v))"
proof (rule stops_at_limitI)
  fix T r bs and d :: u8
  assume st: "stops_at_limit v" and a: "serialize_write (VOptional (Some v)) = Ok bs" "wf_value (VOptional (Some v))"
    "type_admits T (VOptional (Some v)) = Ok True" "wf_type T" "concrete T"
    "16 < unat d + nesting (VOptional (Some v))" "\<not> 16 \<le> d" "holds r bs"
  from a(1) obtain cs where cs: "serialize_write v = Ok cs" "bs = prefix_u8 POptionalSome # cs"
    by (auto simp: outcome_simps)
  from a(2) obtain s where s: "wf_value v" "type_of v = Ok s" "concrete s" using type_of_wf [of v] by auto
  from a(3) s obtain t where t: "T = OptionalType t" "admits_type t s = Ok True"
    by (auto simp: type_admits_def outcome_simps dest!: new_option_Ok admits_shapes)
  from a(4,5) t have wft: "wf_type t" "concrete t" by (auto simp: admits_iff)
  have h: "holds r (prefix_u8 POptionalSome # cs)" using a(8) cs(2) by simp
  have "type_admits t v = Ok True" using s(2) t(2) by (simp add: type_admits_def)
  moreover have "holds (advance r 1) (cs @ [])" using holds_Cons(2) [OF h] by simp
  moreover have "16 < unat d + Suc (nesting v)" using a(6) by simp
  ultimately have "inner_deserialize_read (advance r 1) (Some t) (d + 1) = too_deep"
    using stops_at_limitD [OF st cs(1) s(1) _ wft] depth_above [OF a(7)] by blast
  with t read_prefix(11) [OF h a(7) refl refl] show "inner_deserialize_read r (Some T) d = too_deep"
    by (simp add: expect_contained_def optional_content_def)
qed

lemma stops_response: "stops_at_limit v \<Longrightarrow> stops_at_limit (VResponse c v)"
proof (rule stops_at_limitI)
  fix T r bs and d :: u8
  let ?p = "if c then PResponseOk else PResponseErr"
  assume st: "stops_at_limit v" and a: "serialize_write (VResponse c v) = Ok bs" "wf_value (VResponse c v)"
    "type_admits T (VResponse c v) = Ok True" "wf_type T" "concrete T"
    "16 < unat d + nesting (VResponse c v)" "\<not> 16 \<le> d" "holds r bs"
  from a(1) obtain cs where cs: "serialize_write v = Ok cs" "bs = prefix_u8 ?p # cs"
    by (auto simp: outcome_simps)
  from a(2) have "wf_value v" by (cases c) auto
  with type_of_wf [of v] obtain s where s: "wf_value v" "type_of v = Ok s" "concrete s" by auto
  from a(3) s(2,3) obtain a' b' where t: "T = ResponseType a' b'" "admits_type (if c then a' else b') s = Ok True"
    by (cases c) (auto simp: type_admits_def outcome_simps dest!: new_response_Ok admits_response_ok)
  let ?t = "if c then a' else b'"
  from a(4,5) t have wft: "wf_type ?t" "concrete ?t" by (auto simp: admits_iff split: if_splits)
  have h: "holds r (prefix_u8 ?p # cs)" using a(8) cs(2) by simp
  have "type_admits ?t v = Ok True" using s(2) t(2) by (simp add: type_admits_def)
  moreover have "holds (advance r 1) (cs @ [])" using holds_Cons(2) [OF h] by simp
  moreover have "16 < unat d + Suc (nesting v)" using a(6) by simp
  ultimately have "inner_deserialize_read (advance r 1) (Some ?t) (d + 1) = too_deep"
    using stops_at_limitD [OF st cs(1) s(1) _ wft] depth_above [OF a(7)] by blast
  with t read_prefix(8,9) [OF h a(7) refl] show "inner_deserialize_read r (Some T) d = too_deep"
    by (cases c) (simp_all add: expect_contained_def response_side_def)
qed

lemma items_stop:
  assumes "serialize_items vs = Ok bs" "wf_type t" "concrete t" "unat (d :: u8) \<le> 16"
    and "\<forall>v \<in> set vs. stops_at_limit v \<and> wf_value v \<and> type_admits t v = Ok True"
    and "\<exists>v \<in> set vs. 16 < unat d + nesting v" and "holds r bs"
  shows "deserialize_items r (Some t) d (length vs) = too_deep"
  using assms(1,5-7)
proof (induction vs arbitrary: bs r)
  case (Cons v vs)
  from Cons.prems(1) obtain b1 b2 where b: "serialize_write v = Ok b1" "serialize_items vs = Ok b2" "bs = b1 @ b2"
    by (auto simp: outcome_simps)
  from Cons.prems(4) b(3) have h: "holds r (b1 @ b2)" by simp
  from Cons.prems(2) have v: "stops_at_limit v" "wf_value v" "type_admits t v = Ok True" by auto
  show ?case
  proof (cases "16 < unat d + nesting v")
    case True
    from stops_at_limitD [OF v(1) b(1) v(2,3) assms(2-4) True h] show ?thesis by simp
  next
    case False
    then have "unat d + nesting v \<le> 16" by simp
    from round_tripsD [OF round_trips_all b(1) v(2,3) assms(2,3) this h] obtain w where
      w: "inner_deserialize_read r (Some t) d = Ok (w, advance r (length b1))" "holds (advance r (length b1)) b2" by blast
    from Cons.IH [OF b(2) _ _ w(2)] Cons.prems(2,3) False w(1) show ?thesis by auto
  qed
qed simp

lemma deep_member:
  assumes "k \<le> 16" "16 < k + fold max (map f xs) 0"
  shows "\<exists>x \<in> set xs. (16 :: nat) < k + f x"
proof (rule ccontr)
  assume "\<not> ?thesis"
  then have "fold max (map f xs) 0 \<le> 16 - k" by (auto simp: fold_max_le)
  with assms show False by simp
qed

lemma stops_list:
  assumes "\<And>v. v \<in> set vs \<Longrightarrow> stops_at_limit v"
  shows "stops_at_limit (VList vs n t)"
proof (rule stops_at_limitI)
  fix T r bs and d :: u8
  assume a: "serialize_write (VList vs n t) = Ok bs" "wf_value (VList vs n t)" "type_admits T (VList vs n t) = Ok True"
    "wf_type T" "concrete T" "16 < unat d + nesting (VList vs n t)" "\<not> 16 \<le> d" "holds r bs"
  from a(1) obtain l cs where l: "unat (l :: u32) = length vs" "serialize_items vs = Ok cs"
    "bs = prefix_u8 PList # (word_to_be l @ cs)"
    by (auto simp: outcome_simps checked_simps unwrap_opt_def split: option.splits)
  from a(3) obtain m t' where T: "T = ListType m t'" "n = 0 \<or> n \<le> m \<and> admits_type t' t = Ok True"
    by (auto simp: type_admits_def dest!: admits_shapes)
  have d: "unat (d + 1) \<le> 16" "16 < unat (d + 1) + fold max (map nesting vs) 0"
    using depth_above [OF a(7), of "fold max (map nesting vs) 0"] a(6) by auto
  then have deep: "\<exists>v \<in> set vs. 16 < unat (d + 1) + nesting v" by (rule deep_member)
  then have "0 < unat n" using a(2) by (cases vs) auto
  with T have t': "admits_type t' t = Ok True" "0 < unat m" "length vs \<le> unat m" using a(2) by (auto simp: word_le_nat_alt)
  with T a(4,5) have wft: "wf_type t'" "concrete t'" by auto
  have each: "\<forall>v \<in> set vs. stops_at_limit v \<and> wf_value v \<and> type_admits t' v = Ok True"
    using a(2) t'(1) assms by (auto intro: type_admits_trans)
  have h: "holds r (prefix_u8 PList # (word_to_be l @ cs))" using a(8) l(3) by simp
  note h1 = holds_read_append [OF holds_Cons(2) [OF h], of 4, simplified]
  from items_stop [OF l(2) wft d(1) each deep h1(2)]
  have "deserialize_items (advance r 5) (Some t') (d + 1) (length vs) = too_deep" by simp
  moreover have "\<not> MAX_VALUE_SIZE < l" "\<not> m < l"
    using l(1) t'(3) a(2) list_length_bound [of n t] by (auto simp: word_less_nat_alt)
  ultimately show "inner_deserialize_read r (Some T) d = too_deep"
    using read_prefix(12) [OF h a(7) refl refl] h1(1) l(1) T(1) by (simp add: list_expected_def)
qed

lemma fields_stop:
  assumes "serialize_fields m = Ok bs" "unat (d :: u8) \<le> 16"
    and "\<forall>p \<in> set m. stops_at_limit (snd p) \<and> wf_value (snd p) \<and> valid_clarity_name (fst p) \<and>
      (\<exists>t. bt_get sig (fst p) = Some t \<and> wf_type t \<and> concrete t \<and> type_admits t (snd p) = Ok True)"
    and "\<exists>p \<in> set m. 16 < unat d + nesting (snd p)" and "holds r bs"
  shows "deserialize_fields r (Some sig) d (length m) = too_deep"
  using assms(1,3-5)
proof (induction m arbitrary: bs r)
  case (Cons p m)
  obtain k v where p: "p = (k, v)" by force
  from Cons.prems(1) p obtain ks b1 b2 where b: "serialize_name k = Ok ks" "serialize_write v = Ok b1"
    "serialize_fields m = Ok b2" "bs = ks @ b1 @ b2"
    by (auto simp: outcome_simps)
  from Cons.prems(2) p obtain t where t: "stops_at_limit v" "wf_value v" "valid_clarity_name k"
    "bt_get sig k = Some t" "wf_type t" "concrete t" "type_admits t v = Ok True" by auto
  have "holds r (ks @ (b1 @ b2))" using Cons.prems(4) b(4) by simp
  note k = deserialize_name_holds [OF _ clarity_name_ascii [OF t(3)] _ b(1) this, of clarity_name_try_from]
  have key: "deserialize_name clarity_name_try_from r = Ok (k, advance r (length ks))"
    and h: "holds (advance r (length ks)) (b1 @ b2)"
    using k t(3) by (simp_all add: valid_clarity_name_def clarity_name_try_from_Ok)
  show ?case
  proof (cases "16 < unat d + nesting v")
    case True
    from stops_at_limitD [OF t(1) b(2) t(2,7,5,6) assms(2) True h] key t(4) show ?thesis
      by (simp add: field_expected_def p)
  next
    case False
    then have "unat d + nesting v \<le> 16" by simp
    from round_tripsD [OF round_trips_all b(2) t(2,7,5,6) this h] obtain w where
      w: "inner_deserialize_read (advance r (length ks)) (Some t) d = Ok (w, advance (advance r (length ks)) (length b1))"
        "holds (advance (advance r (length ks)) (length b1)) b2" by blast
    have "\<exists>q \<in> set m. 16 < unat d + nesting (snd q)" using Cons.prems(3) False p by auto
    from Cons.IH [OF b(3) _ this w(2)] Cons.prems(2) w(1) key t(4) show ?thesis
      by (simp add: field_expected_def p)
  qed
qed simp

lemma stops_tuple:
  assumes "\<And>p. p \<in> set m \<Longrightarrow> stops_at_limit (snd p)"
  shows "stops_at_limit (VTuple sig m)"
proof (rule stops_at_limitI)
  fix T r bs and d :: u8
  let ?deepest = "fold max (map (\<lambda>p. nesting (snd p)) m) 0"
  assume a: "serialize_write (VTuple sig m) = Ok bs" "wf_value (VTuple sig m)" "type_admits T (VTuple sig m) = Ok True"
    "wf_type T" "concrete T" "16 < unat d + nesting (VTuple sig m)" "\<not> 16 \<le> d" "holds r bs"
  from a(1) obtain l cs where l: "unat (l :: u32) = length m" "serialize_fields m = Ok cs"
    "bs = prefix_u8 PTuple # (word_to_be l @ cs)"
    by (auto simp: outcome_simps checked_simps unwrap_opt_def split: option.splits)
  from a(3) have adm: "admits_type T (TupleType sig) = Ok True" by (simp add: type_admits_def)
  then obtain fs where T: "T = TupleType fs" by (cases T) (auto simp: admits_iff)
  from a(2,5) T tuple_admits_keys [of fs sig] adm have keys: "map fst m = map fst fs" by simp
  have d: "unat (d + 1) \<le> 16" "16 < unat (d + 1) + ?deepest" using depth_above [OF a(7), of ?deepest] a(6) by auto
  then have deep: "\<exists>p \<in> set m. 16 < unat (d + 1) + nesting (snd p)" by (rule deep_member)
  have each: "\<forall>p \<in> set m. stops_at_limit (snd p) \<and> wf_value (snd p) \<and> valid_clarity_name (fst p) \<and>
      (\<exists>t. bt_get fs (fst p) = Some t \<and> wf_type t \<and> concrete t \<and> type_admits t (snd p) = Ok True)"
    using assms tuple_field_expected [OF a(2) adm [unfolded T] a(4,5) [unfolded T]] by blast
  have h: "holds r (prefix_u8 PTuple # (word_to_be l @ cs))" using a(8) l(3) by simp
  note h1 = holds_read_append [OF holds_Cons(2) [OF h], of 4, simplified]
  from fields_stop [OF l(2) d(1) each deep h1(2)]
  have "deserialize_fields (advance r 5) (Some fs) (d + 1) (length m) = too_deep" by simp
  moreover have "unat l = length fs" using l(1) keys by (metis length_map)
  moreover from this have "\<not> MAX_VALUE_SIZE < l"
    using tuple_length_bound [of fs] a(4) T by (simp add: word_less_nat_alt)
  ultimately show "inner_deserialize_read r (Some T) d = too_deep"
    using read_prefix(13) [OF h a(7) refl refl] h1(1) l(1) T by (simp add: tuple_expected_def)
qed

lemma stops_at_limit_all: "stops_at_limit v"
  by (induction v rule: val_induct)
    (auto intro: stops_at_limit_flat stops_some stops_response stops_list stops_tuple)

section \<open>Properties\<close>

text \<open>C6: a well-formed value nested at most 16 deep survives the database: serializing it to hexadecimal
  text and reading that text back at any well-formed type that admits the value succeeds and returns
  an equal, well-formed value that the type admits.\<close>

theorem typed_round_trip:
  assumes "wf_value v" and "nesting v \<le> 16" and "wf_type T" and "concrete T" and "type_admits T v = Ok True"
  shows "\<exists>hex w. value_serialize v = Ok hex \<and> value_deserialize hex T = Ok w \<and> value_eq v w \<and>
    wf_value w \<and> type_admits T w = Ok True"
  by (rule value_round_trip [OF assms])

theorem typed_round_trip_witness:
  "\<exists>hex w. value_serialize (VOptional (Some (VInt 7))) = Ok hex \<and>
     value_deserialize hex (OptionalType IntType) = Ok w \<and> value_eq (VOptional (Some (VInt 7))) w"
proof -
  have "wf_value (VOptional (Some (VInt 7)))"
    by (simp add: value_some_def wrap_guard_def value_size_def value_depth_def type_eval)
  moreover have "wf_type (OptionalType IntType)" "concrete (OptionalType IntType)" by (simp_all add: type_eval)
  moreover have "type_admits (OptionalType IntType) (VOptional (Some (VInt 7))) = Ok True"
    by (simp add: type_admits_def admits_iff type_eval)
  ultimately show ?thesis using typed_round_trip [of "VOptional (Some (VInt 7))" "OptionalType IntType"] by auto
qed

text \<open>C26: every well-formed value can be written, and never to more bytes than the reader accepts: at
  most twice the size of any well-formed type that admits it.\<close>

theorem written_form_bounded:
  assumes "wf_value v" and "wf_type T" and "concrete T" and "type_admits T v = Ok True"
  shows "\<exists>bs. serialize_write v = Ok bs \<and> length bs \<le> BOUND_VALUE_SERIALIZATION_BYTES \<and> length bs \<le> 2 * nat_size T"
proof -
  from written_bound [OF assms(1)] obtain bs where bs: "serialize_write v = Ok bs"
    "length bs \<le> BOUND_VALUE_SERIALIZATION_BYTES" by blast
  moreover have "length bs \<le> 2 * nat_size T"
    using written_within_all [of v] assms bs(1) by (auto simp: written_within_def)
  ultimately show ?thesis by blast
qed

theorem written_form_bounded_witness:
  "\<exists>bs. serialize_write (VBuffer [1, 2, 3]) = Ok bs \<and> length bs \<le> 2 * nat_size (BufferType 10)"
proof -
  have "type_admits (BufferType 10) (VBuffer [1, 2, 3]) = Ok True"
    by (simp add: type_admits_def buffer_length_from_usize_def admits_iff)
  moreover have "wf_value (VBuffer [1, 2, 3])" "wf_type (BufferType 10)" "concrete (BufferType 10)"
    by (simp_all add: MAX_VALUE_SIZE_def)
  ultimately show ?thesis using written_form_bounded [of "VBuffer [1, 2, 3]" "BufferType 10"] by blast
qed

text \<open>C32: the reader's nesting limit of 16 is below the 32 levels a type may have. Every well-formed value
  nested deeper than 16 can be written, and at every well-formed type that admits it the reader rejects
  what was written as too deep, so that \<open>Value::deserialize\<close> panics. Such values exist, up to 32 levels:
  the n-fold optionals of an integer.\<close>

theorem deep_values_unreadable:
  assumes "wf_value v" and "16 < nesting v" and "wf_type T" and "concrete T" and "type_admits T v = Ok True"
  shows "\<exists>hex. value_serialize v = Ok hex \<and> try_deserialize_hex hex T = Err (BadTypeError TypeSignatureTooDeep) \<and>
    value_deserialize hex T = Panic"
proof -
  obtain bs where bs: "serialize_write v = Ok bs" "length bs \<le> BOUND_VALUE_SERIALIZATION_BYTES"
    using written_bound [OF assms(1)] by blast
  let ?r = "from_reader bs (word_of_nat BOUND_VALUE_SERIALIZATION_BYTES)"
  have "holds ?r (bs @ [])" using from_reader_holds [OF bs(2), of "[]"] by simp
  with stops_at_limitD [OF stops_at_limit_all bs(1) assms(1,5,3,4), of 0 ?r "[]"] assms(2)
  have "inner_deserialize_read ?r (Some T) 0 = too_deep" by simp
  then have "try_deserialize_hex (to_hex bs) T = Err (BadTypeError TypeSignatureTooDeep)"
    by (simp add: try_deserialize_hex_def try_deserialize_bytes_def deserialize_read_def no_io_error_def)
  then show ?thesis using bs(1) by (simp add: value_serialize_def value_deserialize_def)
qed

theorem deep_values_unreadable_witness:
  "nesting (nested_some 31) = 32 \<and> wf_value (nested_some 31) \<and>
   (\<exists>hex. value_serialize (nested_some 31) = Ok hex \<and> value_deserialize hex (nested_type 31) = Panic) \<and>
   (\<exists>hex. value_serialize (nested_some 16) = Ok hex \<and> value_deserialize hex (nested_type 16) = Panic)"
proof -
  have admits: "type_admits (nested_type n) (nested_some n) = Ok True" if "n \<le> 31" for n
    using nested_some_wf [OF that] nested_type_wf [OF that] by (simp add: type_admits_def admits_type_refl)
  from deep_values_unreadable [of "nested_some 31" "nested_type 31"] deep_values_unreadable [of "nested_some 16" "nested_type 16"]
  show ?thesis
    using nested_some_wf [of 31] nested_some_wf [of 16] nested_type_wf [of 31] nested_type_wf [of 16] admits [of 31] admits [of 16]
    by (auto simp: nested_some_nesting)
qed

text \<open>truncated input is not reported as a deserialization error: when the bytes end early the public
  entry points panic, on the empty input at every expected type, and on an integer prefix without its
  sixteen bytes.\<close>

theorem truncated_input_panics:
  "try_deserialize_bytes [] T = Panic \<and> try_deserialize_bytes_untyped [] = Panic \<and>
   try_deserialize_hex_untyped ''0x00'' = Panic"
proof -
  have eof: "inner_deserialize_read (from_reader [] b) e 0 = Err (IOError UnexpectedEof)" for e b
    using read_exact_eof [of "from_reader [] b" 1]
    by (simp add: inner_deserialize_read.simps read_bytes_def reader_inv_def remaining_def from_reader_def)
  have "hex_bytes ''00'' = Ok [0]" by code_simp
  moreover have "inner_deserialize_read (from_reader [0] (word_of_nat BOUND_VALUE_SERIALIZATION_BYTES)) None 0 =
      Err (IOError UnexpectedEof)"
  proof -
    let ?r = "from_reader [0] (word_of_nat BOUND_VALUE_SERIALIZATION_BYTES)"
    have h: "holds ?r (prefix_u8 PInt # [])"
      using from_reader_holds [of "[0]" "[]"] by (simp add: BOUND_VALUE_SERIALIZATION_BYTES_def prefix_u8.simps)
    have "read_bytes (advance ?r 1) 16 = Err (IOError UnexpectedEof)"
      using read_exact_eof [of "advance ?r 1" 16] holds_Cons(2) [OF h]
      by (simp add: read_bytes_def holds_def remaining_def from_reader_def advance_def)
    then show ?thesis using read_prefix(1) [OF h _ refl refl, of 0 None] by (simp add: check_match_def)
  qed
  ultimately show ?thesis using eof
    by (simp add: try_deserialize_bytes_def try_deserialize_bytes_untyped_def try_deserialize_hex_untyped_def
        deserialize_read_def no_io_error_def)
qed

end
