(* ===== verification/RollbackStore.thy ===== *)
theory RollbackStore
  imports Serialization "HOL-Library.AList_Mapping"
begin

text \<open>
  The nested key-value store of the Clarity VM, \<open>src/src/vm/database/key_value_wrapper.rs\<close>.

  A wrapper keeps, per key, the history of the values written since the outermost \<open>nest\<close>, and a stack of
  contexts that remember which keys each level wrote. The backing store is a trait object in the code:
  here it is a record of operations over a state of any type. The default build has no value checks
  in the edit log, so an edit is just its key.

  The specification is a stack of write logs. \<open>represents\<close> relates a wrapper to its logs, and every
  operation is proved to follow the specification and never to panic inside a nested context.
\<close>

section \<open>Backing stores\<close>

type_synonym metadata_key = "qualified_contract_identifier \<times> string"
type_synonym block_header_hash = "u8 list"

record 's backing_store =
  bs_put_all :: "(string \<times> string) list \<Rightarrow> 's \<Rightarrow> ('s, unit) outcome"
  bs_get :: "'s \<Rightarrow> string \<Rightarrow> string option"
  bs_put_all_metadata :: "(metadata_key \<times> string) list \<Rightarrow> 's \<Rightarrow> ('s, unit) outcome"
  bs_get_metadata :: "'s \<Rightarrow> metadata_key \<Rightarrow> (string option, vm_error) outcome"
  bs_set_block_hash :: "block_header_hash \<Rightarrow> 's \<Rightarrow> (block_header_hash \<times> 's, vm_error) outcome"
  bs_get_block_at_height :: "'s \<Rightarrow> u32 \<Rightarrow> block_header_hash option"
  bs_get_current_block_height :: "'s \<Rightarrow> u32"
  bs_get_open_chain_tip_height :: "'s \<Rightarrow> u32"

text \<open>The default methods \<open>has_entry\<close> and \<open>make_contract_commitment\<close> of the trait.\<close>

definition bs_has_entry :: "'s backing_store \<Rightarrow> 's \<Rightarrow> string \<Rightarrow> bool" where
  "bs_has_entry bs s key \<longleftrightarrow> bs_get bs s key \<noteq> None"

record contract_commitment =
  cc_hash :: "u8 list"
  cc_block_height :: u32

definition commitment_serialize :: "contract_commitment \<Rightarrow> string" where
  "commitment_serialize cc = to_hex (cc_hash cc) @ to_hex (word_to_be (cc_block_height cc))"

definition commitment_deserialize :: "string \<Rightarrow> (contract_commitment, unit) outcome" where
  "commitment_deserialize input =
     (if length input \<noteq> 72 then Panic
      else
        and_then (expect (hex_bytes (take 64 input))) (\<lambda>hash.
        and_then (expect (hex_bytes (drop 64 input))) (\<lambda>height_bytes.
          Ok \<lparr>cc_hash = hash, cc_block_height = word_from_be height_bytes\<rparr>)))"

definition make_contract_commitment :: "'s backing_store \<Rightarrow> 's \<Rightarrow> u8 list \<Rightarrow> string" where
  "make_contract_commitment bs s contract_hash =
     commitment_serialize \<lparr>cc_hash = contract_hash, cc_block_height = bs_get_open_chain_tip_height bs s\<rparr>"

section \<open>The wrapper\<close>

record rollback_context =
  edits :: "string list"
  metadata_edits :: "metadata_key list"

record 's rollback_wrapper =
  store :: 's
  lookup_map :: "(string, string list) mapping"
  metadata_lookup_map :: "(metadata_key, string list) mapping"
  stack :: "rollback_context list"

record rollback_wrapper_persisted_log =
  log_lookup_map :: "(string, string list) mapping"
  log_metadata_lookup_map :: "(metadata_key, string list) mapping"
  log_stack :: "rollback_context list"

definition empty_context :: rollback_context where
  "empty_context = \<lparr>edits = [], metadata_edits = []\<rparr>"

definition wrapper_new :: "'s \<Rightarrow> 's rollback_wrapper" where
  "wrapper_new s = \<lparr>store = s, lookup_map = Mapping.empty, metadata_lookup_map = Mapping.empty, stack = []\<rparr>"

definition persisted_log_of :: "'s rollback_wrapper \<Rightarrow> rollback_wrapper_persisted_log" where
  "persisted_log_of w =
     \<lparr>log_lookup_map = lookup_map w, log_metadata_lookup_map = metadata_lookup_map w, log_stack = stack w\<rparr>"

definition persisted_log_new :: rollback_wrapper_persisted_log where
  "persisted_log_new = \<lparr>log_lookup_map = Mapping.empty, log_metadata_lookup_map = Mapping.empty, log_stack = []\<rparr>"

definition persisted_log_nest :: "rollback_wrapper_persisted_log \<Rightarrow> rollback_wrapper_persisted_log" where
  "persisted_log_nest l = l\<lparr>log_stack := log_stack l @ [empty_context]\<rparr>"

definition from_persisted_log :: "'s \<Rightarrow> rollback_wrapper_persisted_log \<Rightarrow> 's rollback_wrapper" where
  "from_persisted_log s l =
     \<lparr>store = s, lookup_map = log_lookup_map l, metadata_lookup_map = log_metadata_lookup_map l, stack = log_stack l\<rparr>"

definition rollback_lookup_map :: "'k \<Rightarrow> ('k, string list) mapping \<Rightarrow> (string \<times> ('k, string list) mapping, unit) outcome" where
  "rollback_lookup_map key m =
     (case Mapping.lookup m key of
        None \<Rightarrow> Panic
      | Some h \<Rightarrow>
          if h = [] then Panic
          else Ok (last h, if butlast h = [] then Mapping.delete key m else Mapping.update key (butlast h) m))"

fun rollback_keys :: "'k list \<Rightarrow> ('k, string list) mapping \<Rightarrow> (('k, string list) mapping, unit) outcome" where
  "rollback_keys [] m = Ok m"
| "rollback_keys (key # keys) m = and_then (rollback_lookup_map key m) (\<lambda>(v, m'). rollback_keys keys m')"

fun pop_values :: "'k list \<Rightarrow> ('k, string list) mapping \<Rightarrow>
    (('k \<times> string) list \<times> ('k, string list) mapping, unit) outcome" where
  "pop_values [] m = Ok ([], m)"
| "pop_values (key # keys) m =
     and_then (rollback_lookup_map key m) (\<lambda>(v, m').
     and_then (pop_values keys m') (\<lambda>(es, m''). Ok ((key, v) # es, m'')))"

definition rollback_check_pre_bottom_commit :: "'k list \<Rightarrow> ('k, string list) mapping \<Rightarrow>
    (('k \<times> string) list \<times> ('k, string list) mapping, unit) outcome" where
  "rollback_check_pre_bottom_commit es m =
     and_then (pop_values es (Mapping.map_values (\<lambda>_ h. rev h) m)) (\<lambda>(output, m').
       if Mapping.is_empty m' then Ok (output, m') else Panic)"

definition nest :: "'s rollback_wrapper \<Rightarrow> 's rollback_wrapper" where
  "nest w = w\<lparr>stack := stack w @ [empty_context]\<rparr>"

definition rollback :: "'s rollback_wrapper \<Rightarrow> ('s rollback_wrapper, unit) outcome" where
  "rollback w =
     (if stack w = [] then Panic
      else let last_item = last (stack w) in
        and_then (rollback_keys (rev (edits last_item)) (lookup_map w)) (\<lambda>m.
        and_then (rollback_keys (rev (metadata_edits last_item)) (metadata_lookup_map w)) (\<lambda>mm.
          Ok (w\<lparr>lookup_map := m, metadata_lookup_map := mm, stack := butlast (stack w)\<rparr>))))"

definition stack_depth :: "'s rollback_wrapper \<Rightarrow> nat" where
  "stack_depth w = length (stack w)"

definition commit_bottom :: "'s backing_store \<Rightarrow> rollback_context \<Rightarrow> 's rollback_wrapper \<Rightarrow> ('s rollback_wrapper, unit) outcome" where
  "commit_bottom bs last_item w =
     and_then (rollback_check_pre_bottom_commit (edits last_item) (lookup_map w)) (\<lambda>(all_edits, m).
     and_then (if all_edits = [] then Ok (store w) else bs_put_all bs all_edits (store w)) (\<lambda>s1.
     and_then (rollback_check_pre_bottom_commit (metadata_edits last_item) (metadata_lookup_map w)) (\<lambda>(meta, mm).
     and_then (if meta = [] then Ok s1 else bs_put_all_metadata bs meta s1) (\<lambda>s2.
       Ok \<lparr>store = s2, lookup_map = m, metadata_lookup_map = mm, stack = []\<rparr>))))"

definition commit :: "'s backing_store \<Rightarrow> 's rollback_wrapper \<Rightarrow> ('s rollback_wrapper, unit) outcome" where
  "commit bs w =
     (if stack w = [] then Panic
      else let last_item = last (stack w); rest = butlast (stack w) in
        if rest = [] then commit_bottom bs last_item w
        else let next_up = last rest in
          Ok (w\<lparr>stack := butlast rest @
            [\<lparr>edits = edits next_up @ edits last_item,
              metadata_edits = metadata_edits next_up @ metadata_edits last_item\<rparr>]\<rparr>))"

definition inner_put :: "('k, string list) mapping \<Rightarrow> 'k \<Rightarrow> string \<Rightarrow> ('k, string list) mapping" where
  "inner_put m key value =
     Mapping.update key ((case Mapping.lookup m key of None \<Rightarrow> [] | Some h \<Rightarrow> h) @ [value]) m"

definition put :: "string \<Rightarrow> string \<Rightarrow> 's rollback_wrapper \<Rightarrow> ('s rollback_wrapper, unit) outcome" where
  "put key value w =
     (if stack w = [] then Panic
      else let current = last (stack w) in
        Ok (w\<lparr>lookup_map := inner_put (lookup_map w) key value,
              stack := butlast (stack w) @ [current\<lparr>edits := edits current @ [key]\<rparr>]\<rparr>))"

definition insert_metadata :: "metadata_key \<Rightarrow> string \<Rightarrow> 's rollback_wrapper \<Rightarrow> ('s rollback_wrapper, unit) outcome" where
  "insert_metadata key value w =
     (if stack w = [] then Panic
      else let current = last (stack w) in
        Ok (w\<lparr>metadata_lookup_map := inner_put (metadata_lookup_map w) key value,
              stack := butlast (stack w) @ [current\<lparr>metadata_edits := metadata_edits current @ [key]\<rparr>]\<rparr>))"

definition last_write :: "('k, string list) mapping \<Rightarrow> 'k \<Rightarrow> string option" where
  "last_write m key =
     (case Mapping.lookup m key of Some h \<Rightarrow> if h = [] then None else Some (last h) | None \<Rightarrow> None)"

text \<open>\<open>get\<close> for a type with the given \<open>deserialize\<close>, which panics on malformed text.\<close>

definition get_with :: "(string \<Rightarrow> ('a, unit) outcome) \<Rightarrow> 's backing_store \<Rightarrow> 's rollback_wrapper \<Rightarrow> string \<Rightarrow>
    ('a option, unit) outcome" where
  "get_with deserialize bs w key =
     (if stack w = [] then Panic
      else case last_write (lookup_map w) key of
        Some x \<Rightarrow> map_ok Some (deserialize x)
      | None \<Rightarrow> (case bs_get bs (store w) key of Some x \<Rightarrow> map_ok Some (deserialize x) | None \<Rightarrow> Ok None))"

definition get_value :: "'s backing_store \<Rightarrow> 's rollback_wrapper \<Rightarrow> string \<Rightarrow> type_signature \<Rightarrow> (val option, unit) outcome" where
  "get_value bs w key expected = get_with (\<lambda>x. expect (value_deserialize x expected)) bs w key"

definition get_metadata :: "'s backing_store \<Rightarrow> 's rollback_wrapper \<Rightarrow> metadata_key \<Rightarrow> (string option, vm_error) outcome" where
  "get_metadata bs w key =
     (if stack w = [] then Panic
      else case last_write (metadata_lookup_map w) key of
        Some x \<Rightarrow> Ok (Some x)
      | None \<Rightarrow> bs_get_metadata bs (store w) key)"

text \<open>Calls that the wrapper hands on to its store.\<close>

definition set_block_hash :: "'s backing_store \<Rightarrow> block_header_hash \<Rightarrow> 's rollback_wrapper \<Rightarrow>
    (block_header_hash \<times> 's rollback_wrapper, vm_error) outcome" where
  "set_block_hash bs bhh w = map_ok (\<lambda>(prior, s). (prior, w\<lparr>store := s\<rparr>)) (bs_set_block_hash bs bhh (store w))"

definition get_current_block_height :: "'s backing_store \<Rightarrow> 's rollback_wrapper \<Rightarrow> u32" where
  "get_current_block_height bs w = bs_get_current_block_height bs (store w)"

definition get_block_header_hash :: "'s backing_store \<Rightarrow> 's rollback_wrapper \<Rightarrow> u32 \<Rightarrow> block_header_hash option" where
  "get_block_header_hash bs w block_height = bs_get_block_at_height bs (store w) block_height"

definition has_entry :: "'s backing_store \<Rightarrow> 's rollback_wrapper \<Rightarrow> string \<Rightarrow> (bool, unit) outcome" where
  "has_entry bs w key =
     (if stack w = [] then Panic
      else Ok (if Mapping.lookup (lookup_map w) key \<noteq> None then True else bs_has_entry bs (store w) key))"

definition has_metadata_entry :: "'s backing_store \<Rightarrow> 's rollback_wrapper \<Rightarrow> metadata_key \<Rightarrow> (bool, unit) outcome" where
  "has_metadata_entry bs w key =
     (case get_metadata bs w key of Ok (Some _) \<Rightarrow> Ok True | Panic \<Rightarrow> Panic | _ \<Rightarrow> Ok False)"


section \<open>Edit histories\<close>

text \<open>
  \<open>tracks m xs\<close>: the lookup map \<open>m\<close> holds, for every key, exactly the values that the write log \<open>xs\<close>
  gave it, oldest first, and has no entry for a key that was never written.
\<close>

definition writes_of :: "'k \<Rightarrow> ('k \<times> string) list \<Rightarrow> string list" where
  "writes_of k xs = map snd (filter (\<lambda>x. fst x = k) xs)"

definition tracks :: "('k, string list) mapping \<Rightarrow> ('k \<times> string) list \<Rightarrow> bool" where
  "tracks m xs \<longleftrightarrow> (\<forall>k. Mapping.lookup m k = (if writes_of k xs = [] then None else Some (writes_of k xs)))"

lemma writes_of_simps [simp]:
  "writes_of k [] = []"
  "writes_of k ((k', v) # xs) = (if k' = k then v # writes_of k xs else writes_of k xs)"
  "writes_of k (xs @ ys) = writes_of k xs @ writes_of k ys"
  "writes_of k (rev xs) = rev (writes_of k xs)"
  by (simp_all add: writes_of_def rev_filter rev_map)

lemma tracks_unique: "tracks m xs \<Longrightarrow> tracks m' xs \<Longrightarrow> m = m'"
  by (simp add: tracks_def mapping_eqI)

lemma tracks_empty [simp]: "tracks Mapping.empty []"
  by (simp add: tracks_def)

lemma tracks_Nil: "tracks m [] \<longleftrightarrow> m = Mapping.empty"
  using tracks_unique [OF _ tracks_empty] by auto

lemma tracks_inner_put: "tracks m xs \<Longrightarrow> tracks (inner_put m k v) (xs @ [(k, v)])"
  by (auto simp: tracks_def inner_put_def Mapping.lookup_update')

lemma lookup_delete_if: "Mapping.lookup (Mapping.delete k m) k' = (if k' = k then None else Mapping.lookup m k')"
  by (cases "k' = k") auto

lemma tracks_pop:
  assumes "tracks m (xs @ [(k, v)])"
  shows "\<exists>m'. rollback_lookup_map k m = Ok (v, m') \<and> tracks m' xs"
  using assms by (auto simp: rollback_lookup_map_def tracks_def Mapping.lookup_update' lookup_delete_if)

lemma tracks_rollback:
  assumes "tracks m (xs @ ys)"
  shows "\<exists>m'. rollback_keys (rev (map fst ys)) m = Ok m' \<and> tracks m' xs"
  using assms
proof (induction ys arbitrary: m rule: rev_induct)
  case (snoc y ys)
  obtain k v where y: "y = (k, v)" by force
  with snoc.prems obtain m' where "rollback_lookup_map k m = Ok (v, m')" "tracks m' (xs @ ys)"
    using tracks_pop [of m "xs @ ys" k v] by auto
  with snoc.IH [of m'] y show ?case by auto
qed simp

lemma tracks_pop_values:
  assumes "tracks m (rev xs)"
  shows "\<exists>m'. pop_values (map fst xs) m = Ok (xs, m') \<and> tracks m' []"
  using assms
proof (induction xs arbitrary: m)
  case (Cons x xs)
  obtain k v where x: "x = (k, v)" by force
  with Cons.prems obtain m' where m': "rollback_lookup_map k m = Ok (v, m')" "tracks m' (rev xs)"
    using tracks_pop [of m "rev xs" k v] by auto
  obtain m'' where "pop_values (map fst xs) m' = Ok (xs, m'')" "tracks m'' []"
    using Cons.IH [OF m'(2)] by blast
  with m'(1) x show ?case by simp
qed simp

lemma tracks_reversed: "tracks m xs \<Longrightarrow> tracks (Mapping.map_values (\<lambda>_ h. rev h) m) (rev xs)"
  by (auto simp: tracks_def Mapping.lookup_map_values)

lemma tracks_bottom_commit:
  assumes "tracks m xs"
  shows "rollback_check_pre_bottom_commit (map fst xs) m = Ok (xs, Mapping.empty)"
  using tracks_pop_values [OF tracks_reversed [OF assms]]
  by (auto simp: rollback_check_pre_bottom_commit_def tracks_Nil is_empty_empty)

lemma tracks_last_write: "tracks m xs \<Longrightarrow> last_write m k = map_of (rev xs) k"
proof -
  have "map_of (rev xs) k = (if writes_of k xs = [] then None else Some (last (writes_of k xs)))"
    by (induction xs rule: rev_induct) (auto simp: map_add_def)
  then show "tracks m xs \<Longrightarrow> last_write m k = map_of (rev xs) k"
    by (simp add: tracks_def last_write_def)
qed

section \<open>The specification: a stack of write logs\<close>

type_synonym write_logs = "((string \<times> string) list \<times> (metadata_key \<times> string) list) list"

datatype store_op =
    Nest
  | Put string string
  | InsertMetadata metadata_key string
  | Commit
  | Rollback

text \<open>
  The specification keeps the open logs, outermost first, and the committed store. A write goes to the
  innermost log; a rollback forgets the innermost log; a commit appends it to the log below, or hands
  it to the store when it is the last one.
\<close>

fun spec_step :: "'s backing_store \<Rightarrow> store_op \<Rightarrow> write_logs \<times> 's \<Rightarrow> (write_logs \<times> 's, unit) outcome" where
  "spec_step bs Nest (logs, s) = Ok (logs @ [([], [])], s)"
| "spec_step bs (Put k v) (logs, s) =
     (if logs = [] then Panic
      else Ok (butlast logs @ [(fst (last logs) @ [(k, v)], snd (last logs))], s))"
| "spec_step bs (InsertMetadata k v) (logs, s) =
     (if logs = [] then Panic
      else Ok (butlast logs @ [(fst (last logs), snd (last logs) @ [(k, v)])], s))"
| "spec_step bs Rollback (logs, s) = (if logs = [] then Panic else Ok (butlast logs, s))"
| "spec_step bs Commit (logs, s) =
     (case rev logs of
        [] \<Rightarrow> Panic
      | [(xs, ys)] \<Rightarrow>
          and_then (if xs = [] then Ok s else bs_put_all bs xs s) (\<lambda>s1.
          and_then (if ys = [] then Ok s1 else bs_put_all_metadata bs ys s1) (\<lambda>s2. Ok ([], s2)))
      | (xs, ys) # (xs', ys') # rest \<Rightarrow> Ok (rev rest @ [(xs' @ xs, ys' @ ys)], s))"

fun wrapper_step :: "'s backing_store \<Rightarrow> store_op \<Rightarrow> 's rollback_wrapper \<Rightarrow> ('s rollback_wrapper, unit) outcome" where
  "wrapper_step bs Nest w = Ok (nest w)"
| "wrapper_step bs (Put k v) w = put k v w"
| "wrapper_step bs (InsertMetadata k v) w = insert_metadata k v w"
| "wrapper_step bs Rollback w = rollback w"
| "wrapper_step bs Commit w = commit bs w"

text \<open>The wrapper that stands for given logs over a given store.\<close>

definition all_writes :: "write_logs \<Rightarrow> (string \<times> string) list" where
  "all_writes logs = concat (map fst logs)"

definition all_metadata :: "write_logs \<Rightarrow> (metadata_key \<times> string) list" where
  "all_metadata logs = concat (map snd logs)"

definition context_of :: "(string \<times> string) list \<times> (metadata_key \<times> string) list \<Rightarrow> rollback_context" where
  "context_of l = \<lparr>edits = map fst (fst l), metadata_edits = map fst (snd l)\<rparr>"

definition represents :: "'s rollback_wrapper \<Rightarrow> write_logs \<times> 's \<Rightarrow> bool" where
  "represents w sp \<longleftrightarrow>
     store w = snd sp \<and> stack w = map context_of (fst sp) \<and>
     tracks (lookup_map w) (all_writes (fst sp)) \<and>
     tracks (metadata_lookup_map w) (all_metadata (fst sp))"

lemma logs_simps [simp]:
  "all_writes [] = []" "all_metadata [] = []"
  "all_writes (ls @ ls') = all_writes ls @ all_writes ls'"
  "all_metadata (ls @ ls') = all_metadata ls @ all_metadata ls'"
  "all_writes [l] = fst l" "all_metadata [l] = snd l"
  by (simp_all add: all_writes_def all_metadata_def)

lemma represents_new: "represents (wrapper_new s) ([], s)"
  by (simp add: represents_def wrapper_new_def)

lemma represents_unique: "represents w sp \<Longrightarrow> represents w' sp \<Longrightarrow> w = w'"
  using tracks_unique [of "lookup_map w"] tracks_unique [of "metadata_lookup_map w"]
  by (auto simp: represents_def intro!: rollback_wrapper.equality)

lemma represents_stack_empty: "represents w (logs, s) \<Longrightarrow> stack w = [] \<longleftrightarrow> logs = []"
  by (simp add: represents_def)

lemma represents_nest: "represents w (logs, s) \<Longrightarrow> represents (nest w) (logs @ [([], [])], s)"
  by (simp add: represents_def nest_def empty_context_def context_of_def)

lemma represents_put:
  assumes "represents w (logs @ [(xs, ys)], s)"
  shows "\<exists>w'. put k v w = Ok w' \<and> represents w' (logs @ [(xs @ [(k, v)], ys)], s)"
  using assms tracks_inner_put [of "lookup_map w" "all_writes logs @ xs" k v]
  by (simp add: represents_def put_def Let_def context_of_def)

lemma represents_insert_metadata:
  assumes "represents w (logs @ [(xs, ys)], s)"
  shows "\<exists>w'. insert_metadata k v w = Ok w' \<and> represents w' (logs @ [(xs, ys @ [(k, v)])], s)"
  using assms tracks_inner_put [of "metadata_lookup_map w" "all_metadata logs @ ys" k v]
  by (simp add: represents_def insert_metadata_def Let_def context_of_def)

lemma represents_rollback:
  assumes "represents w (logs @ [l], s)"
  shows "\<exists>w'. rollback w = Ok w' \<and> represents w' (logs, s)"
  using assms tracks_rollback [of "lookup_map w" "all_writes logs" "fst l"]
    tracks_rollback [of "metadata_lookup_map w" "all_metadata logs" "snd l"]
  by (auto simp: represents_def rollback_def Let_def context_of_def)

lemma represents_commit_nested:
  assumes "represents w (logs @ [(xs', ys'), (xs, ys)], s)"
  shows "\<exists>w'. commit bs w = Ok w' \<and> represents w' (logs @ [(xs' @ xs, ys' @ ys)], s)"
  using assms by (auto simp: represents_def commit_def Let_def context_of_def all_writes_def all_metadata_def butlast_append)

lemma represents_commit_bottom:
  assumes "represents w ([(xs, ys)], s)"
  shows "commit bs w =
    and_then (if xs = [] then Ok s else bs_put_all bs xs s) (\<lambda>s1.
    and_then (if ys = [] then Ok s1 else bs_put_all_metadata bs ys s1) (\<lambda>s2. Ok (wrapper_new s2)))"
  using assms tracks_bottom_commit [of "lookup_map w" xs] tracks_bottom_commit [of "metadata_lookup_map w" ys]
  by (auto simp: represents_def commit_def commit_bottom_def Let_def context_of_def wrapper_new_def
      all_writes_def all_metadata_def intro!: and_then_cong)

lemma wrapper_simulates_bottom:
  "represents w ([], s) \<Longrightarrow> sim_outcome represents (wrapper_step bs x w) (spec_step bs x ([], s))"
  using represents_stack_empty [of w "[]" s] represents_nest [of w "[]" s]
  by (cases x) (simp_all add: put_def insert_metadata_def rollback_def commit_def)

lemma wrapper_simulates_commit:
  assumes "represents w (logs @ [(xs, ys)], s)"
  shows "sim_outcome represents (commit bs w) (spec_step bs Commit (logs @ [(xs, ys)], s))"
proof (cases logs rule: rev_cases)
  case Nil
  with assms represents_commit_bottom [of w xs ys s bs] show ?thesis
    by (simp add: and_then_def represents_new split: outcome.splits)
next
  case (snoc logs' l')
  with assms represents_commit_nested [of w logs' "fst l'" "snd l'" xs ys s bs] show ?thesis
    by (cases l') (simp add: sim_outcome_Ok_right)
qed

lemma wrapper_simulates_nested:
  assumes "represents w (logs @ [(xs, ys)], s)"
  shows "sim_outcome represents (wrapper_step bs x w) (spec_step bs x (logs @ [(xs, ys)], s))"
proof (cases x)
  case Nest
  then show ?thesis using represents_nest [OF assms] by simp
next
  case (Put k v)
  then show ?thesis using represents_put [OF assms, of k v] by (simp add: sim_outcome_Ok_right)
next
  case (InsertMetadata k v)
  then show ?thesis using represents_insert_metadata [OF assms, of k v] by (simp add: sim_outcome_Ok_right)
next
  case Commit
  then show ?thesis using wrapper_simulates_commit [OF assms] by (simp del: spec_step.simps)
next
  case Rollback
  then show ?thesis using represents_rollback [OF assms] by (simp add: sim_outcome_Ok_right)
qed

lemma wrapper_simulates: "represents w sp \<Longrightarrow> sim_outcome represents (wrapper_step bs x w) (spec_step bs x sp)"
proof (cases "fst sp" rule: rev_cases)
  case Nil
  then show "represents w sp \<Longrightarrow> ?thesis" using wrapper_simulates_bottom [of w "snd sp" bs x] by (cases sp) simp
next
  case (snoc logs l)
  then show "represents w sp \<Longrightarrow> ?thesis"
    using wrapper_simulates_nested [of w logs "fst l" "snd l" "snd sp" bs x] by (cases sp) simp
qed

interpretation wrapper_sim: simulation represents "wrapper_step bs" "spec_step bs"
  by unfold_locales (rule wrapper_simulates)

section \<open>Properties\<close>

text \<open>The read of the specification: the latest open write of the key, or else the committed store.\<close>

definition spec_read :: "'s backing_store \<Rightarrow> write_logs \<times> 's \<Rightarrow> string \<Rightarrow> string option" where
  "spec_read bs sp k =
     (case map_of (rev (all_writes (fst sp))) k of Some v \<Rightarrow> Some v | None \<Rightarrow> bs_get bs (snd sp) k)"

definition spec_read_metadata :: "'s backing_store \<Rightarrow> write_logs \<times> 's \<Rightarrow> metadata_key \<Rightarrow> (string option, vm_error) outcome" where
  "spec_read_metadata bs sp k =
     (case map_of (rev (all_metadata (fst sp))) k of Some v \<Rightarrow> Ok (Some v) | None \<Rightarrow> bs_get_metadata bs (snd sp) k)"

definition reads_agree :: "'s backing_store \<Rightarrow> 's rollback_wrapper \<Rightarrow> write_logs \<times> 's \<Rightarrow> bool" where
  "reads_agree bs w sp \<longleftrightarrow>
     (\<forall>k. get_with Ok bs w k = Ok (spec_read bs sp k)) \<and>
     (\<forall>k. has_entry bs w k = Ok (spec_read bs sp k \<noteq> None)) \<and>
     (\<forall>k. get_metadata bs w k = spec_read_metadata bs sp k)"

lemma represents_reads:
  assumes "represents w sp" "fst sp \<noteq> []"
  shows "reads_agree bs w sp"
proof -
  have l: "last_write (lookup_map w) k = map_of (rev (all_writes (fst sp))) k" for k
    using assms(1) by (simp add: represents_def tracks_last_write)
  have m: "last_write (metadata_lookup_map w) k = map_of (rev (all_metadata (fst sp))) k" for k
    using assms(1) by (simp add: represents_def tracks_last_write)
  have h: "Mapping.lookup (lookup_map w) k = None \<longleftrightarrow> last_write (lookup_map w) k = None" for k
    using assms(1) by (simp add: represents_def tracks_def last_write_def)
  have "stack w \<noteq> []" "store w = snd sp" using assms by (auto simp: represents_def)
  then show ?thesis
    by (simp add: reads_agree_def get_with_def get_metadata_def has_entry_def h l m spec_read_def
        spec_read_metadata_def bs_has_entry_def split: option.split)
qed

lemma represents_observable:
  assumes "represents w sp"
  shows "store w = snd sp \<and> stack_depth w = length (fst sp) \<and> (fst sp = [] \<or> reads_agree bs w sp)"
  using assms represents_reads [OF assms] by (simp add: stack_depth_def) (simp add: represents_def, blast)

text \<open>
  \<open>open_contexts ops d\<close>: the number of contexts open above a given one, \<open>d\<close> of them at first, after
  operations that close none of those below.
\<close>

fun open_contexts :: "store_op list \<Rightarrow> nat \<Rightarrow> nat option" where
  "open_contexts [] d = Some d"
| "open_contexts (Nest # ops) d = open_contexts ops (d + 1)"
| "open_contexts (Put k v # ops) d = open_contexts ops d"
| "open_contexts (InsertMetadata k v # ops) d = open_contexts ops d"
| "open_contexts (Commit # ops) d = (if d = 0 then None else open_contexts ops (d - 1))"
| "open_contexts (Rollback # ops) d = (if d = 0 then None else open_contexts ops (d - 1))"

lemma spec_step_inner:
  assumes "open_contexts (x # ops) d = Some d'" "length inner = d + 1"
  shows "\<exists>e inner'. open_contexts ops e = Some d' \<and> length inner' = e + 1 \<and>
    spec_step bs x (logs @ inner, s) = Ok (logs @ inner', s)"
proof -
  obtain front xs ys where inner: "inner = front @ [(xs, ys)]" "length front = d"
    using assms(2) by (cases inner rule: rev_cases) auto
  show ?thesis
  proof (cases x)
    case Commit
    with assms inner obtain front' xs' ys' where "front = front' @ [(xs', ys')]"
      by (cases front rule: rev_cases) auto
    with Commit assms inner show ?thesis
      by (intro exI [of _ "d - 1"] exI [of _ "front' @ [(xs' @ xs, ys' @ ys)]"]) simp
  next
    case Rollback
    with assms inner show ?thesis by (intro exI [of _ "d - 1"] exI [of _ front]) (auto simp: butlast_append split: if_splits)
  next
    case Nest
    with assms inner show ?thesis by (intro exI [of _ "d + 1"] exI [of _ "inner @ [([], [])]"]) simp
  next
    case (Put k v)
    with assms inner show ?thesis
      by (intro exI [of _ d] exI [of _ "front @ [(xs @ [(k, v)], ys)]"]) (simp add: butlast_append)
  next
    case (InsertMetadata k v)
    with assms inner show ?thesis
      by (intro exI [of _ d] exI [of _ "front @ [(xs, ys @ [(k, v)])]"]) (simp add: butlast_append)
  qed
qed

lemma spec_run_inner:
  assumes "open_contexts ops d = Some d'" "length inner = d + 1"
  shows "\<exists>inner'. length inner' = d' + 1 \<and> run_steps (spec_step bs) ops (logs @ inner, s) = Ok (logs @ inner', s)"
  using assms
proof (induction ops arbitrary: d inner)
  case (Cons x ops)
  obtain e inner' where e: "open_contexts ops e = Some d'" "length inner' = e + 1"
    and step: "spec_step bs x (logs @ inner, s) = Ok (logs @ inner', s)"
    using spec_step_inner [OF Cons.prems] by metis
  from Cons.IH [OF e] show ?case by (simp add: step del: spec_step.simps)
qed simp

lemma spec_transaction_rolled_back:
  assumes "open_contexts ops 0 = Some 0"
  shows "run_steps (spec_step bs) (Nest # ops @ [Rollback]) (logs, s) = Ok (logs, s)"
proof -
  obtain inner' where "length inner' = 1" "run_steps (spec_step bs) ops (logs @ [([], [])], s) = Ok (logs @ inner', s)"
    using spec_run_inner [OF assms, of "[([], [])]" bs logs s] by auto
  then show ?thesis by (simp add: run_steps_append length_Suc_conv)  (auto simp: butlast_append)
qed

text \<open>C9: a wrapper refines the stack of write logs. Any sequence of \<open>nest\<close>, \<open>put\<close>, \<open>insert_metadata\<close>,
  \<open>commit\<close> and \<open>rollback\<close> from a new wrapper panics exactly when the specification does, that is, outside
  a nested context or in the store itself: the histories never run out and the assertion of
  the bottom commit holds. Otherwise both reach the same store and the same depth, and inside a nested context
  \<open>get\<close>, \<open>has_entry\<close> and \<open>get_metadata\<close> return the latest uncommitted write, or what the store has.\<close>

theorem wrapper_refines_logs:
  "sim_outcome (\<lambda>w sp. store w = snd sp \<and> stack_depth w = length (fst sp) \<and>
       (fst sp = [] \<or> reads_agree bs w sp))
     (run_steps (wrapper_step bs) ops (wrapper_new s)) (run_steps (spec_step bs) ops ([], s))"
  by (rule sim_outcome_mono [OF wrapper_sim.run_simulates [OF represents_new]])
    (rule represents_observable)

text \<open>a rolled back transaction leaves no trace. From any wrapper reached by its own operations, \<open>nest\<close>
  followed by any operations that stay inside that context (nested contexts committed or rolled back
  included) and a final \<open>rollback\<close> never panics, and gives back the very same wrapper: the store, both
  lookup maps with their histories, and the stack.\<close>

theorem rollback_restores_wrapper:
  assumes "run_steps (wrapper_step bs) past (wrapper_new s) = Ok w"
    and "open_contexts ops 0 = Some 0"
  shows "run_steps (wrapper_step bs) (Nest # ops @ [Rollback]) w = Ok w"
proof -
  obtain logs s' where rep: "represents w (logs, s')"
    using wrapper_sim.run_simulates [OF represents_new, of bs past s] assms(1)
    by (cases "run_steps (spec_step bs) past ([], s)") auto
  from wrapper_sim.run_simulates [OF rep, of bs "Nest # ops @ [Rollback]"]
  obtain w' where "run_steps (wrapper_step bs) (Nest # ops @ [Rollback]) w = Ok w'" "represents w' (logs, s')"
    unfolding spec_transaction_rolled_back [OF assms(2)] sim_outcome_Ok_right by blast
  with represents_unique [OF rep] show ?thesis by simp
qed

text \<open>A small table store, for concrete runs.\<close>

definition table_store :: "((string \<rightharpoonup> string) \<times> (metadata_key \<rightharpoonup> string)) backing_store" where
  "table_store =
     \<lparr>bs_put_all = (\<lambda>es (t, m). Ok (foldl (\<lambda>t (k, v). t(k \<mapsto> v)) t es, m)),
      bs_get = (\<lambda>(t, m). t),
      bs_put_all_metadata = (\<lambda>es (t, m). Ok (t, foldl (\<lambda>m (k, v). m(k \<mapsto> v)) m es)),
      bs_get_metadata = (\<lambda>(t, m) k. Ok (m k)),
      bs_set_block_hash = (\<lambda>h s. Ok (replicate 32 0, s)),
      bs_get_block_at_height = (\<lambda>s n. Some (replicate 32 0)),
      bs_get_current_block_height = (\<lambda>s. 1),
      bs_get_open_chain_tip_height = (\<lambda>s. 1)\<rparr>"

definition empty_tables :: "(string \<rightharpoonup> string) \<times> (metadata_key \<rightharpoonup> string)" where
  "empty_tables = (\<lambda>_. None, \<lambda>_. None)"

theorem rollback_restores_wrapper_witness:
  "run_steps (wrapper_step table_store)
     (Nest # [Put ''a'' ''2'', Nest, Put ''b'' ''3'', Commit, Put ''a'' ''4''] @ [Rollback])
     \<lparr>store = empty_tables, lookup_map = Mapping.update ''a'' [''1''] Mapping.empty,
      metadata_lookup_map = Mapping.empty, stack = [\<lparr>edits = [''a''], metadata_edits = []\<rparr>]\<rparr> =
   Ok \<lparr>store = empty_tables, lookup_map = Mapping.update ''a'' [''1''] Mapping.empty,
      metadata_lookup_map = Mapping.empty, stack = [\<lparr>edits = [''a''], metadata_edits = []\<rparr>]\<rparr>"
  by (rule rollback_restores_wrapper [where past = "[Nest, Put ''a'' ''1'']" and s = empty_tables])
    (simp_all add: wrapper_new_def nest_def put_def inner_put_def empty_context_def)

end
