(* ===== verification/AssetMaps.thy ===== *)
theory AssetMaps
  imports ClarityData "HOL-Library.AList"
begin

text \<open>
  The record of the assets that a transaction moves, \<open>AssetMap\<close> in \<open>src/src/vm/contexts.rs\<close>.

  The code walks over its hash maps in an unspecified order, so a hash map is here an association list
  with distinct keys, and the theorems hold for every order of the entries.
\<close>

section \<open>Hash maps with iteration\<close>

type_synonym ('k, 'v) hash_map = "('k \<times> 'v) list"

abbreviation hm_get :: "('k, 'v) hash_map \<Rightarrow> 'k \<Rightarrow> 'v option" where
  "hm_get m k \<equiv> map_of m k"

definition hm_insert :: "'k \<Rightarrow> 'v \<Rightarrow> ('k, 'v) hash_map \<Rightarrow> ('k, 'v) hash_map" where
  "hm_insert k v m = AList.update k v m"

definition hm_wf :: "('k, 'v) hash_map \<Rightarrow> bool" where
  "hm_wf m \<longleftrightarrow> distinct (map fst m)"

definition hm_or :: "'v \<Rightarrow> ('k, 'v) hash_map \<Rightarrow> 'k \<Rightarrow> 'v" where
  "hm_or d m k = (case hm_get m k of Some v \<Rightarrow> v | None \<Rightarrow> d)"

lemma hm_get_insert [simp]: "hm_get (hm_insert k v m) k' = (if k' = k then Some v else hm_get m k')"
  by (simp add: hm_insert_def update_conv')

lemma hm_wf_insert [simp]: "hm_wf m \<Longrightarrow> hm_wf (hm_insert k v m)"
  by (simp add: hm_wf_def hm_insert_def distinct_update)

lemma hm_wf_Nil [simp]: "hm_wf []"
  by (simp add: hm_wf_def)

lemma hm_wf_Cons: "hm_wf ((k, v) # m) \<longleftrightarrow> hm_get m k = None \<and> hm_wf m"
  by (auto simp: hm_wf_def map_of_eq_None_iff)

lemma hm_wf_append: "hm_wf (xs @ ys) \<longleftrightarrow> hm_wf xs \<and> hm_wf ys \<and> (\<forall>k. hm_get xs k = None \<or> hm_get ys k = None)"
  by (auto simp: hm_wf_def map_of_eq_None_iff)

lemma hm_or_insert [simp]: "hm_or d (hm_insert k v m) k' = (if k' = k then v else hm_or d m k')"
  by (simp add: hm_or_def)

lemma hm_or_Nil [simp]: "hm_or d [] k = d"
  by (simp add: hm_or_def)

section \<open>The asset map\<close>

datatype asset_map_entry =
    EntrySTX u128
  | EntryBurn u128
  | EntryToken u128
  | EntryAsset "val list"

record asset_map =
  stx_map :: "(principal_data, u128) hash_map"
  burn_map :: "(principal_data, u128) hash_map"
  token_map :: "(principal_data, (asset_identifier, u128) hash_map) hash_map"
  nft_map :: "(principal_data, (asset_identifier, val list) hash_map) hash_map"

definition asset_map_new :: asset_map where
  "asset_map_new = \<lparr>stx_map = [], burn_map = [], token_map = [], nft_map = []\<rparr>"

abbreviation overflow :: vm_error where
  "overflow \<equiv> Runtime ArithmeticOverflow"

definition get_next_stx_amount :: "asset_map \<Rightarrow> principal_data \<Rightarrow> u128 \<Rightarrow> (u128, vm_error) outcome" where
  "get_next_stx_amount m p amount = ok_or overflow (checked_add (hm_or 0 (stx_map m) p) amount)"

definition get_next_stx_burn_amount :: "asset_map \<Rightarrow> principal_data \<Rightarrow> u128 \<Rightarrow> (u128, vm_error) outcome" where
  "get_next_stx_burn_amount m p amount = ok_or overflow (checked_add (hm_or 0 (burn_map m) p) amount)"

definition get_next_amount :: "asset_map \<Rightarrow> principal_data \<Rightarrow> asset_identifier \<Rightarrow> u128 \<Rightarrow> (u128, vm_error) outcome" where
  "get_next_amount m p a amount =
     ok_or overflow (checked_add (case hm_get (token_map m) p of Some pm \<Rightarrow> hm_or 0 pm a | None \<Rightarrow> 0) amount)"

definition add_stx_transfer :: "principal_data \<Rightarrow> u128 \<Rightarrow> asset_map \<Rightarrow> (asset_map, vm_error) outcome" where
  "add_stx_transfer p amount m =
     and_then (get_next_stx_amount m p amount) (\<lambda>next_amount.
       Ok (m\<lparr>stx_map := hm_insert p next_amount (stx_map m)\<rparr>))"

definition add_stx_burn :: "principal_data \<Rightarrow> u128 \<Rightarrow> asset_map \<Rightarrow> (asset_map, vm_error) outcome" where
  "add_stx_burn p amount m =
     and_then (get_next_stx_burn_amount m p amount) (\<lambda>next_amount.
       Ok (m\<lparr>burn_map := hm_insert p next_amount (burn_map m)\<rparr>))"

text \<open>
  Insertion into the inner map of a principal, which is created first when it is missing, and the two
  ways the code fills it: an amount is overwritten, a list of transferred items is extended.
\<close>

definition put_inner :: "'p \<Rightarrow> 'a \<Rightarrow> 'v \<Rightarrow> ('p, ('a, 'v) hash_map) hash_map \<Rightarrow> ('p, ('a, 'v) hash_map) hash_map" where
  "put_inner p a v m = hm_insert p (hm_insert a v (hm_or [] m p)) m"

definition extend_inner :: "'p \<Rightarrow> 'a \<Rightarrow> 'v list \<Rightarrow> ('p, ('a, 'v list) hash_map) hash_map \<Rightarrow> ('p, ('a, 'v list) hash_map) hash_map" where
  "extend_inner p a vs m =
     (let pm = hm_or [] m p in
       hm_insert p (case hm_get pm a of Some old \<Rightarrow> hm_insert a (old @ vs) pm | None \<Rightarrow> hm_insert a vs pm) m)"

definition add_asset_transfer :: "principal_data \<Rightarrow> asset_identifier \<Rightarrow> val \<Rightarrow> asset_map \<Rightarrow> asset_map" where
  "add_asset_transfer p a transfered m = m\<lparr>nft_map := extend_inner p a [transfered] (nft_map m)\<rparr>"

definition add_token_transfer :: "principal_data \<Rightarrow> asset_identifier \<Rightarrow> u128 \<Rightarrow> asset_map \<Rightarrow> (asset_map, vm_error) outcome" where
  "add_token_transfer p a amount m =
     and_then (get_next_amount m p a amount) (\<lambda>next_amount.
       Ok (m\<lparr>token_map := put_inner p a next_amount (token_map m)\<rparr>))"

text \<open>\<open>commit_other\<close>: first every next amount is computed, and only then is the map changed.\<close>

definition token_additions :: "asset_map \<Rightarrow> (principal_data \<times> asset_identifier \<times> u128) list \<Rightarrow>
    ((principal_data \<times> asset_identifier \<times> u128) list, vm_error) outcome" where
  "token_additions m es = collect (\<lambda>(p, a, amount). map_ok (\<lambda>n. (p, a, n)) (get_next_amount m p a amount)) es"

definition flatten :: "('p, ('a, 'v) hash_map) hash_map \<Rightarrow> ('p \<times> 'a \<times> 'v) list" where
  "flatten m = concat (map (\<lambda>(p, pm). map (\<lambda>(a, v). (p, a, v)) pm) m)"

definition insert_all :: "('k \<times> 'v) list \<Rightarrow> ('k, 'v) hash_map \<Rightarrow> ('k, 'v) hash_map" where
  "insert_all es m = foldl (\<lambda>m (k, v). hm_insert k v m) m es"

definition put_all_inner :: "('p \<times> 'a \<times> 'v) list \<Rightarrow> ('p, ('a, 'v) hash_map) hash_map \<Rightarrow> ('p, ('a, 'v) hash_map) hash_map" where
  "put_all_inner es m = foldl (\<lambda>m (p, a, v). put_inner p a v m) m es"

definition extend_all_inner :: "('p \<times> 'a \<times> 'v list) list \<Rightarrow> ('p, ('a, 'v list) hash_map) hash_map \<Rightarrow> ('p, ('a, 'v list) hash_map) hash_map" where
  "extend_all_inner es m = foldl (\<lambda>m (p, a, vs). extend_inner p a vs m) m es"

definition commit_other :: "asset_map \<Rightarrow> asset_map \<Rightarrow> (asset_map, vm_error) outcome" where
  "commit_other m other =
     and_then (token_additions m (flatten (token_map other))) (\<lambda>to_add.
     and_then (collect (\<lambda>(p, amount). map_ok (Pair p) (get_next_stx_amount m p amount)) (stx_map other)) (\<lambda>stx_to_add.
     and_then (collect (\<lambda>(p, amount). map_ok (Pair p) (get_next_stx_burn_amount m p amount)) (burn_map other)) (\<lambda>stx_burn_to_add.
       Ok \<lparr>stx_map = insert_all stx_to_add (stx_map m),
           burn_map = insert_all stx_burn_to_add (burn_map m),
           token_map = put_all_inner to_add (token_map m),
           nft_map = extend_all_inner (flatten (nft_map other)) (nft_map m)\<rparr>)))"

definition get_stx :: "asset_map \<Rightarrow> principal_data \<Rightarrow> u128 option" where
  "get_stx m p = hm_get (stx_map m) p"

definition get_stx_burned :: "asset_map \<Rightarrow> principal_data \<Rightarrow> u128 option" where
  "get_stx_burned m p = hm_get (burn_map m) p"

definition get_stx_burned_total :: "asset_map \<Rightarrow> (u128, vm_error) outcome" where
  "get_stx_burned_total m =
     try_fold_r (\<lambda>total p. unwrap_opt (checked_add total (hm_or 0 (burn_map m) p))) 0 (map fst (burn_map m))"

definition get_fungible_tokens :: "asset_map \<Rightarrow> principal_data \<Rightarrow> asset_identifier \<Rightarrow> u128 option" where
  "get_fungible_tokens m p a = Option.bind (hm_get (token_map m) p) (\<lambda>assets. hm_get assets a)"

definition get_nonfungible_tokens :: "asset_map \<Rightarrow> principal_data \<Rightarrow> asset_identifier \<Rightarrow> val list option" where
  "get_nonfungible_tokens m p a = Option.bind (hm_get (nft_map m) p) (\<lambda>assets. hm_get assets a)"

text \<open>\<open>to_table\<close>: one table per principal, with the entries of all four maps.\<close>

definition to_table :: "asset_map \<Rightarrow> (principal_data, (asset_identifier, asset_map_entry) hash_map) hash_map" where
  "to_table m =
     (let t0 = insert_all (map (\<lambda>(p, pm). (p, insert_all (map (\<lambda>(a, n). (a, EntryToken n)) pm) [])) (token_map m)) [];
          t1 = foldl (\<lambda>t (p, n). put_inner p asset_STX (EntrySTX n) t) t0 (stx_map m);
          t2 = foldl (\<lambda>t (p, n). put_inner p asset_STX_burned (EntryBurn n) t) t1 (burn_map m)
      in foldl (\<lambda>t (p, pm). hm_insert p (insert_all (map (\<lambda>(a, vs). (a, EntryAsset vs)) pm) (hm_or [] t p)) t) t2 (nft_map m))"

section \<open>Lookups in nested maps\<close>

definition inner_get :: "('p, ('a, 'v) hash_map) hash_map \<Rightarrow> 'p \<Rightarrow> 'a \<Rightarrow> 'v option" where
  "inner_get m p a = Option.bind (hm_get m p) (\<lambda>pm. hm_get pm a)"

definition nested_wf :: "('p, ('a, 'v) hash_map) hash_map \<Rightarrow> bool" where
  "nested_wf m \<longleftrightarrow> hm_wf m \<and> list_all (\<lambda>(p, pm). hm_wf pm) m"

definition pair_key :: "'p \<times> 'a \<times> 'v \<Rightarrow> ('p \<times> 'a) \<times> 'v" where
  "pair_key = (\<lambda>(p, a, v). ((p, a), v))"

lemma pair_key_simp [simp]: "pair_key (p, a, v) = ((p, a), v)"
  by (simp add: pair_key_def)

lemma inner_get_hm_or: "inner_get m p a = hm_get (hm_or [] m p) a"
  by (simp add: inner_get_def hm_or_def split: option.split)

lemma inner_get_Cons: "inner_get ((p, pm) # m) p' a = (if p' = p then hm_get pm a else inner_get m p' a)"
  by (simp add: inner_get_def)

lemma inner_get_insert [simp]:
  "inner_get (hm_insert p pm m) p' a = (if p' = p then hm_get pm a else inner_get m p' a)"
  by (simp add: inner_get_def)

lemma inner_get_put [simp]:
  "inner_get (put_inner p a v m) p' a' = (if p' = p \<and> a' = a then Some v else inner_get m p' a')"
  by (auto simp: put_inner_def inner_get_hm_or)

lemma inner_get_extend [simp]:
  "inner_get (extend_inner p a vs m) p' a' =
     (if p' = p \<and> a' = a then Some ((case inner_get m p a of Some old \<Rightarrow> old | None \<Rightarrow> []) @ vs) else inner_get m p' a')"
  by (auto simp: extend_inner_def inner_get_hm_or Let_def split: option.split)

lemma nested_wf_or: "nested_wf m \<Longrightarrow> hm_wf (hm_or [] m p)"
  by (auto simp: nested_wf_def hm_or_def list_all_iff split: option.split dest: map_of_SomeD)

lemma set_hm_insert: "x \<in> set (hm_insert k v m) \<Longrightarrow> x = (k, v) \<or> x \<in> set m"
  unfolding hm_insert_def by (induction m) (auto split: if_splits)

lemma nested_wf_insert: "nested_wf m \<Longrightarrow> hm_wf pm \<Longrightarrow> nested_wf (hm_insert p pm m)"
  unfolding nested_wf_def list_all_iff by (auto dest: set_hm_insert)

lemma nested_wf_put: "nested_wf m \<Longrightarrow> nested_wf (put_inner p a v m)"
  by (simp add: put_inner_def nested_wf_insert nested_wf_or)

lemma nested_wf_extend: "nested_wf m \<Longrightarrow> nested_wf (extend_inner p a vs m)"
  by (simp add: extend_inner_def Let_def nested_wf_insert nested_wf_or split: option.split)

definition tag_key :: "'p \<Rightarrow> ('a, 'v) hash_map \<Rightarrow> ('p \<times> 'a, 'v) hash_map" where
  "tag_key q qm = map (\<lambda>(a, v). ((q, a), v)) qm"

lemma hm_get_tag_key: "hm_get (tag_key q qm) (p, a) = (if p = q then hm_get qm a else None)"
  unfolding tag_key_def by (induction qm) auto

lemma hm_wf_tag_key: "hm_wf qm \<Longrightarrow> hm_wf (tag_key q qm)"
proof (induction qm)
  case (Cons e qm)
  then show ?case
    using hm_get_tag_key [of q qm q] by (cases e) (simp add: hm_wf_Cons tag_key_def)
qed (simp add: tag_key_def)

lemma flatten_Cons: "map pair_key (flatten ((q, qm) # m)) = tag_key q qm @ map pair_key (flatten m)"
  by (auto simp: flatten_def tag_key_def)

lemma flatten_lookup:
  "nested_wf m \<Longrightarrow> hm_wf (map pair_key (flatten m)) \<and>
   (\<forall>p a. hm_get (map pair_key (flatten m)) (p, a) = inner_get m p a)"
proof (induction m)
  case (Cons e m)
  obtain q qm where e: "e = (q, qm)" by force
  have wf: "nested_wf m" "hm_wf qm" and fresh: "hm_get m q = None"
    using Cons.prems by (simp_all add: e nested_wf_def hm_wf_Cons)
  have none: "inner_get m q a = None" for a using fresh by (simp add: inner_get_def)
  have get: "hm_get (tag_key q qm @ map pair_key (flatten m)) (p, a) = inner_get ((q, qm) # m) p a" for p a
    using Cons.IH wf none [of a] by (simp add: inner_get_Cons map_add_def hm_get_tag_key split: option.split)
  have "hm_wf (tag_key q qm @ map pair_key (flatten m))"
    using Cons.IH wf none by (auto simp: hm_wf_append hm_wf_tag_key hm_get_tag_key)
  with get show ?case by (simp add: e flatten_Cons)
qed (simp add: flatten_def inner_get_def)

section \<open>Batches of insertions\<close>

lemma insert_all_get:
  "hm_wf es \<Longrightarrow> hm_get (insert_all es m) k = (case hm_get es k of Some v \<Rightarrow> Some v | None \<Rightarrow> hm_get m k)"
proof (induction es arbitrary: m)
  case (Cons e es)
  then show ?case by (cases e) (simp add: insert_all_def hm_wf_Cons split: option.split)
qed (simp add: insert_all_def)

lemma insert_all_wf: "hm_wf m \<Longrightarrow> hm_wf (insert_all es m)"
  unfolding insert_all_def by (induction es arbitrary: m) auto

lemma put_all_inner_get:
  "hm_wf (map pair_key es) \<Longrightarrow>
   inner_get (put_all_inner es m) p a =
     (case hm_get (map pair_key es) (p, a) of Some v \<Rightarrow> Some v | None \<Rightarrow> inner_get m p a)"
proof (induction es arbitrary: m)
  case (Cons e es)
  then show ?case by (cases e) (auto simp: put_all_inner_def hm_wf_Cons split: option.split)
qed (simp add: put_all_inner_def)

lemma put_all_inner_wf: "nested_wf m \<Longrightarrow> nested_wf (put_all_inner es m)"
  unfolding put_all_inner_def by (induction es arbitrary: m) (auto simp: nested_wf_put)

lemma extend_all_inner_get:
  "hm_wf (map pair_key es) \<Longrightarrow>
   inner_get (extend_all_inner es m) p a =
     (case hm_get (map pair_key es) (p, a) of
        Some vs \<Rightarrow> Some ((case inner_get m p a of Some old \<Rightarrow> old | None \<Rightarrow> []) @ vs)
      | None \<Rightarrow> inner_get m p a)"
proof (induction es arbitrary: m)
  case (Cons e es)
  then show ?case by (cases e) (auto simp: extend_all_inner_def hm_wf_Cons split: option.split)
qed (simp add: extend_all_inner_def)

lemma extend_all_inner_wf: "nested_wf m \<Longrightarrow> nested_wf (extend_all_inner es m)"
  unfolding extend_all_inner_def by (induction es arbitrary: m) (auto simp: nested_wf_extend)

text \<open>A batch of checked additions fails with the overflow error exactly when one of the sums does not fit.\<close>

lemma collect_checked_add:
  fixes f x :: "'e \<Rightarrow> 'w::len word"
  shows "collect (\<lambda>e. map_ok (g e) (ok_or err (checked_add (f e) (x e)))) es =
    (if list_all (\<lambda>e. unat (f e) + unat (x e) < 2 ^ LENGTH('w)) es
     then Ok (map (\<lambda>e. g e (f e + x e)) es) else Err err)"
  by (induction es) (auto simp: checked_add_def)

section \<open>Committing a nested asset map\<close>

definition asset_map_wf :: "asset_map \<Rightarrow> bool" where
  "asset_map_wf m \<longleftrightarrow> hm_wf (stx_map m) \<and> hm_wf (burn_map m) \<and> nested_wf (token_map m) \<and> nested_wf (nft_map m)"

text \<open>The amounts on record, as numbers, and the items on record.\<close>

definition stx_amount :: "asset_map \<Rightarrow> principal_data \<Rightarrow> nat" where
  "stx_amount m p = unat (hm_or 0 (stx_map m) p)"

definition burn_amount :: "asset_map \<Rightarrow> principal_data \<Rightarrow> nat" where
  "burn_amount m p = unat (hm_or 0 (burn_map m) p)"

definition amount_of :: "u128 option \<Rightarrow> u128" where
  "amount_of x = (case x of Some n \<Rightarrow> n | None \<Rightarrow> 0)"

definition token_amount :: "asset_map \<Rightarrow> principal_data \<Rightarrow> asset_identifier \<Rightarrow> nat" where
  "token_amount m p a = unat (amount_of (get_fungible_tokens m p a))"

definition nft_items :: "asset_map \<Rightarrow> principal_data \<Rightarrow> asset_identifier \<Rightarrow> val list" where
  "nft_items m p a = (case get_nonfungible_tokens m p a of Some vs \<Rightarrow> vs | None \<Rightarrow> [])"

lemma get_tokens_inner:
  "get_fungible_tokens m p a = inner_get (token_map m) p a"
  "get_nonfungible_tokens m p a = inner_get (nft_map m) p a"
  by (simp_all add: get_fungible_tokens_def get_nonfungible_tokens_def inner_get_def)

definition sum_fits :: "nat \<Rightarrow> nat \<Rightarrow> bool" where
  "sum_fits a b \<longleftrightarrow> a + b < 2 ^ 128"

lemma additions:
  fixes f :: "'k \<Rightarrow> u128" and key :: "'e \<Rightarrow> 'k" and amt :: "'e \<Rightarrow> u128" and es :: "'e list"
  defines "kv \<equiv> map (\<lambda>x. (key x, amt x)) es"
  assumes "hm_wf kv"
  shows "(\<exists>k. \<not> sum_fits (unat (f k)) (unat (hm_or 0 kv k))) \<and>
      collect (\<lambda>x. map_ok (g x) (ok_or e (checked_add (f (key x)) (amt x)))) es = Err e \<or>
    (\<forall>k. unat (f k + hm_or 0 kv k) = unat (f k) + unat (hm_or 0 kv k)) \<and>
      collect (\<lambda>x. map_ok (g x) (ok_or e (checked_add (f (key x)) (amt x)))) es =
        Ok (map (\<lambda>x. g x (f (key x) + amt x)) es)"
proof (cases "list_all (\<lambda>x. unat (f (key x)) + unat (amt x) < 2 ^ 128) es")
  case True
  have "unat (f k + hm_or 0 kv k) = unat (f k) + unat (hm_or 0 kv k)" for k
  proof (cases "hm_get kv k")
    case None
    then show ?thesis by (simp add: hm_or_def)
  next
    case (Some v)
    then obtain x where "x \<in> set es" "k = key x" "v = amt x" by (auto simp: kv_def dest!: map_of_SomeD)
    with True have "unat (f k) + unat v < 2 ^ LENGTH(128)" by (auto simp: list_all_iff)
    with Some show ?thesis by (simp add: hm_or_def unat_word_ariths)
  qed
  with True show ?thesis by (simp add: collect_checked_add)
next
  case False
  then obtain x where x: "x \<in> set es" "2 ^ 128 \<le> unat (f (key x)) + unat (amt x)"
    by (auto simp: list_all_iff not_less)
  then have "(key x, amt x) \<in> set kv" by (auto simp: kv_def)
  with assms have "hm_or 0 kv (key x) = amt x" by (simp add: hm_or_def hm_wf_def)
  with x have "\<not> sum_fits (unat (f (key x))) (unat (hm_or 0 kv (key x)))" by (simp add: sum_fits_def)
  with False show ?thesis by (auto simp: collect_checked_add)
qed

lemma map_of_map_value: "map_of (map (\<lambda>x. (fst x, h (fst x) (snd x))) es) k = map_option (h k) (map_of es k)"
  by (induction es) auto

lemma flat_additions:
  fixes cur es :: "('k, u128) hash_map"
  assumes "hm_wf es"
  shows "(\<exists>p. \<not> sum_fits (unat (hm_or 0 cur p)) (unat (hm_or 0 es p))) \<and>
      collect (\<lambda>(p, x). map_ok (Pair p) (ok_or e (checked_add (hm_or 0 cur p) x))) es = Err e \<or>
    (\<exists>ys. collect (\<lambda>(p, x). map_ok (Pair p) (ok_or e (checked_add (hm_or 0 cur p) x))) es = Ok ys \<and>
      (\<forall>p. unat (hm_or 0 (insert_all ys cur) p) = unat (hm_or 0 cur p) + unat (hm_or 0 es p)))"
proof -
  let ?ys = "map (\<lambda>x. (fst x, hm_or 0 cur (fst x) + snd x)) es"
  have wf: "hm_wf ?ys" using assms by (simp add: hm_wf_def o_def)
  have "hm_or 0 (insert_all ?ys cur) p = hm_or 0 cur p + hm_or 0 es p" for p
    unfolding hm_or_def [of 0 "insert_all ?ys cur"] hm_or_def [of 0 es] insert_all_get [OF wf]
      map_of_map_value [of "\<lambda>k x. hm_or 0 cur k + x"]
    by (cases "hm_get es p") (simp_all add: hm_or_def)
  then show ?thesis
    using additions [of fst snd es "hm_or 0 cur" "\<lambda>x. Pair (fst x)" e] assms by (auto simp: case_prod_beta')
qed

lemma token_additions_outcome:
  assumes "nested_wf es"
  shows "(\<exists>p a. \<not> sum_fits (unat (amount_of (inner_get (token_map m) p a))) (unat (amount_of (inner_get es p a)))) \<and>
      token_additions m (flatten es) = Err overflow \<or>
    (\<exists>ys. token_additions m (flatten es) = Ok ys \<and>
      (\<forall>p a. unat (amount_of (inner_get (put_all_inner ys (token_map m)) p a)) =
        unat (amount_of (inner_get (token_map m) p a)) + unat (amount_of (inner_get es p a))))"
proof -
  let ?f = "\<lambda>k. amount_of (inner_get (token_map m) (fst k) (snd k))"
  let ?key = "\<lambda>x :: principal_data \<times> asset_identifier \<times> u128. (fst x, fst (snd x))"
  let ?amt = "\<lambda>x :: principal_data \<times> asset_identifier \<times> u128. snd (snd x)"
  let ?g = "\<lambda>(x :: principal_data \<times> asset_identifier \<times> u128) n. (fst x, fst (snd x), n)"
  let ?ys = "map (\<lambda>x. ?g x (?f (?key x) + ?amt x)) (flatten es)"
  have kv: "map (\<lambda>x. (?key x, ?amt x)) (flatten es) = map pair_key (flatten es)"
    by (auto simp: pair_key_def)
  have new: "hm_or 0 (map pair_key (flatten es)) (p, a) = amount_of (inner_get es p a)" for p a
    using flatten_lookup [OF assms] by (simp add: hm_or_def amount_of_def)
  have ys: "map pair_key ?ys = map (\<lambda>x. (fst x, ?f (fst x) + snd x)) (map pair_key (flatten es))"
    by (auto simp: pair_key_def)
  have wf: "hm_wf (map pair_key ?ys)"
    unfolding ys using flatten_lookup [OF assms] by (simp add: hm_wf_def o_def)
  have get: "amount_of (inner_get (put_all_inner ?ys (token_map m)) p a) =
      ?f (p, a) + hm_or 0 (map pair_key (flatten es)) (p, a)" for p a
    unfolding put_all_inner_get [OF wf] ys map_of_map_value [of "\<lambda>k x. ?f k + x"] hm_or_def
    by (simp add: amount_of_def split: option.split)
  have eq: "token_additions m (flatten es) =
      collect (\<lambda>x. map_ok (?g x) (ok_or overflow (checked_add (?f (?key x)) (?amt x)))) (flatten es)"
    unfolding token_additions_def
    by (rule collect_cong) (auto simp: get_next_amount_def inner_get_def hm_or_def amount_of_def split: option.split)
  from additions [of ?key ?amt "flatten es" ?f ?g overflow, unfolded kv] flatten_lookup [OF assms]
  consider k where "\<not> sum_fits (unat (?f k)) (unat (hm_or 0 (map pair_key (flatten es)) k))"
      "token_additions m (flatten es) = Err overflow"
    | "\<forall>k. unat (?f k + hm_or 0 (map pair_key (flatten es)) k) = unat (?f k) + unat (hm_or 0 (map pair_key (flatten es)) k)"
      "token_additions m (flatten es) = Ok ?ys"
    unfolding eq by blast
  then show ?thesis
  proof cases
    case 1
    then show ?thesis by (cases k) (auto simp: new)
  next
    case 2
    have "unat (amount_of (inner_get (put_all_inner ?ys (token_map m)) p a)) =
        unat (amount_of (inner_get (token_map m) p a)) + unat (amount_of (inner_get es p a))" for p a
      using 2(1) [rule_format, of "(p, a)"] unfolding get by (simp add: new)
    with 2(2) show ?thesis by blast
  qed
qed

lemma commit_other_wf: "commit_other m other = Ok r \<Longrightarrow> asset_map_wf m \<Longrightarrow> asset_map_wf r"
  by (auto simp: commit_other_def outcome_simps asset_map_wf_def insert_all_wf put_all_inner_wf extend_all_inner_wf)

lemma collect_not_Panic: "(\<And>x. h x \<noteq> Panic) \<Longrightarrow> collect h es \<noteq> Panic"
  by (induction es) (auto simp: outcome_simps)

lemma commit_other_not_Panic: "commit_other m other \<noteq> Panic"
  by (simp add: commit_other_def outcome_simps token_additions_def case_prod_beta' get_next_stx_amount_def
      get_next_stx_burn_amount_def get_next_amount_def collect_not_Panic)

lemma asset_map_new_wf: "asset_map_wf asset_map_new"
  by (simp add: asset_map_new_def asset_map_wf_def nested_wf_def)

lemma add_transfers_wf:
  "asset_map_wf m \<Longrightarrow> add_stx_transfer p n m = Ok r \<Longrightarrow> asset_map_wf r"
  "asset_map_wf m \<Longrightarrow> add_stx_burn p n m = Ok r \<Longrightarrow> asset_map_wf r"
  "asset_map_wf m \<Longrightarrow> add_token_transfer p a n m = Ok r \<Longrightarrow> asset_map_wf r"
  "asset_map_wf m \<Longrightarrow> asset_map_wf (add_asset_transfer p a v m)"
  by (auto simp: add_stx_transfer_def add_stx_burn_def add_token_transfer_def add_asset_transfer_def outcome_simps
      asset_map_wf_def nested_wf_put nested_wf_extend)

lemma add_transfers_not_Panic:
  "add_stx_transfer p n m \<noteq> Panic" "add_stx_burn p n m \<noteq> Panic" "add_token_transfer p a n m \<noteq> Panic"
  by (simp_all add: add_stx_transfer_def add_stx_burn_def add_token_transfer_def outcome_simps
      get_next_stx_amount_def get_next_stx_burn_amount_def get_next_amount_def)

text \<open>C22: committing a nested asset map adds it up. When every sum fits in 128 bits, \<open>commit_other\<close> succeeds and
  each amount of the result is the sum of the two amounts, with the transferred items appended in order;
  otherwise it reports an arithmetic overflow, some sum really overflows, and nothing was changed. It never panics
  and keeps the maps well formed, in whatever order the hash maps are walked.\<close>

theorem commit_other_adds:
  assumes "asset_map_wf m" "asset_map_wf other"
  shows "case commit_other m other of
    Ok r \<Rightarrow> asset_map_wf r \<and>
      (\<forall>p. stx_amount r p = stx_amount m p + stx_amount other p) \<and>
      (\<forall>p. burn_amount r p = burn_amount m p + burn_amount other p) \<and>
      (\<forall>p a. token_amount r p a = token_amount m p a + token_amount other p a) \<and>
      (\<forall>p a. nft_items r p a = nft_items m p a @ nft_items other p a)
  | Err e \<Rightarrow> e = overflow \<and>
      ((\<exists>p. \<not> sum_fits (stx_amount m p) (stx_amount other p)) \<or>
       (\<exists>p. \<not> sum_fits (burn_amount m p) (burn_amount other p)) \<or>
       (\<exists>p a. \<not> sum_fits (token_amount m p a) (token_amount other p a)))
  | Panic \<Rightarrow> False"
proof -
  note wf = assms [unfolded asset_map_wf_def]
  let ?nft = "extend_all_inner (flatten (nft_map other)) (nft_map m)"
  have nft: "inner_get ?nft p a = (case inner_get (nft_map other) p a of
      Some vs \<Rightarrow> Some ((case inner_get (nft_map m) p a of Some old \<Rightarrow> old | None \<Rightarrow> []) @ vs)
    | None \<Rightarrow> inner_get (nft_map m) p a)" for p a
    using extend_all_inner_get flatten_lookup wf by metis
  have items: "(case inner_get ?nft p a of Some vs \<Rightarrow> vs | None \<Rightarrow> []) =
      (case inner_get (nft_map m) p a of Some vs \<Rightarrow> vs | None \<Rightarrow> []) @
      (case inner_get (nft_map other) p a of Some vs \<Rightarrow> vs | None \<Rightarrow> [])" for p a
    by (simp add: nft split: option.split)
  note stx = flat_additions [of "stx_map other" "stx_map m" overflow]
  note burn = flat_additions [of "burn_map other" "burn_map m" overflow]
  note tok = token_additions_outcome [of "token_map other" m]
  show ?thesis
    using stx burn tok wf
    by (auto simp: commit_other_def get_next_stx_amount_def get_next_stx_burn_amount_def asset_map_wf_def
        insert_all_wf put_all_inner_wf extend_all_inner_wf stx_amount_def burn_amount_def token_amount_def
        nft_items_def get_tokens_inner items)
qed

theorem commit_other_adds_witness:
  "\<exists>r. commit_other
      \<lparr>stx_map = [(Standard standard_transient, 5)], burn_map = [], token_map = [], nft_map = []\<rparr>
      \<lparr>stx_map = [(Standard standard_transient, 7)], burn_map = [],
       token_map = [(Standard standard_transient, [(asset_STX, 3)])], nft_map = []\<rparr> = Ok r \<and>
    asset_map_wf r \<and> stx_amount r (Standard standard_transient) = 5 + 7 \<and>
    token_amount r (Standard standard_transient) asset_STX = 0 + 3"
proof -
  let ?m = "\<lparr>stx_map = [(Standard standard_transient, 5)], burn_map = [], token_map = [], nft_map = []\<rparr>"
  let ?o = "\<lparr>stx_map = [(Standard standard_transient, 7)], burn_map = [],
       token_map = [(Standard standard_transient, [(asset_STX, 3)])], nft_map = []\<rparr>"
  have wf: "asset_map_wf ?m" "asset_map_wf ?o" by code_simp+
  have amounts: "stx_amount ?m (Standard standard_transient) = 5" "stx_amount ?o (Standard standard_transient) = 7"
    "token_amount ?m (Standard standard_transient) asset_STX = 0" "token_amount ?o (Standard standard_transient) asset_STX = 3"
    by code_simp+
  obtain r where r: "commit_other ?m ?o = Ok r"
    by (simp add: commit_other_def token_additions_def flatten_def get_next_amount_def get_next_stx_amount_def
        checked_add_def hm_or_def)
  from commit_other_adds [OF wf] have "asset_map_wf r"
    "stx_amount r (Standard standard_transient) = 5 + 7" "token_amount r (Standard standard_transient) asset_STX = 0 + 3"
    by (simp_all only: r outcome.case amounts)
  with r show ?thesis by blast
qed

end
