(* ===== verification/Contexts.thy ===== *)
theory Contexts
  imports RollbackStore AssetMaps
begin

text \<open>
  The execution contexts of the Clarity VM, \<open>src/src/vm/contexts.rs\<close>: event batches, the global context
  with its stacks of nested asset maps, event batches, read-only flags and database contexts, the call
  stack, and local contexts. Transaction events are those of \<open>src/src/chainstate/stacks/events.rs\<close>.

  The database of the global context is the nested key-value store; the cost tracker is the one of the
  cost model. The main theorems say that the four stacks stay aligned and that a failed execution
  gives back the context it started from.
\<close>

section \<open>Events\<close>

datatype stx_event_type =
    STXTransferEvent (stx_sender: principal_data) (stx_recipient: principal_data) (stx_event_amount: u128)
  | STXMintEvent principal_data u128
  | STXBurnEvent principal_data u128

datatype nft_event_type =
    NFTTransferEvent asset_identifier principal_data principal_data val
  | NFTMintEvent asset_identifier principal_data val

datatype ft_event_type =
    FTTransferEvent asset_identifier principal_data principal_data u128
  | FTMintEvent asset_identifier principal_data u128

datatype stacks_transaction_event =
    SmartContractEvent "qualified_contract_identifier \<times> string" val
  | STXEvent stx_event_type
  | NFTEvent nft_event_type
  | FTEvent ft_event_type

type_synonym event_batch = "stacks_transaction_event list"

section \<open>The global context\<close>

record 's global_context =
  asset_maps :: "asset_map list"
  event_batches :: "event_batch list"
  database :: "'s rollback_wrapper"
  read_only :: "bool list"
  cost_track :: limited_cost_tracker

definition global_new :: "'s rollback_wrapper \<Rightarrow> limited_cost_tracker \<Rightarrow> 's global_context" where
  "global_new db ct = \<lparr>asset_maps = [], event_batches = [], database = db, read_only = [], cost_track = ct\<rparr>"

definition is_top_level :: "'s global_context \<Rightarrow> bool" where
  "is_top_level g \<longleftrightarrow> length (asset_maps g) = 0"

definition is_read_only :: "'s global_context \<Rightarrow> bool" where
  "is_read_only g = (if read_only g = [] then False else last (read_only g))"

definition global_begin :: "'s global_context \<Rightarrow> 's global_context" where
  "global_begin g =
     g\<lparr>asset_maps := asset_maps g @ [asset_map_new], event_batches := event_batches g @ [[]],
       database := nest (database g), read_only := read_only g @ [is_read_only g]\<rparr>"

definition global_begin_read_only :: "'s global_context \<Rightarrow> 's global_context" where
  "global_begin_read_only g =
     g\<lparr>asset_maps := asset_maps g @ [asset_map_new], event_batches := event_batches g @ [[]],
       database := nest (database g), read_only := read_only g @ [True]\<rparr>"

text \<open>A panicking operation of the database, as a step of the global context.\<close>

definition on_database :: "('s rollback_wrapper \<Rightarrow> ('s rollback_wrapper, unit) outcome) \<Rightarrow>
    ('s global_context, unit, vm_error) routine" where
  "on_database f g = (case f (database g) of Ok db \<Rightarrow> (Ok (), g\<lparr>database := db\<rparr>) | _ \<Rightarrow> (Panic, g))"

definition commit_events :: "event_batch \<Rightarrow> event_batch list \<Rightarrow> event_batch option \<times> event_batch list" where
  "commit_events batch rest =
     (if rest = [] then (Some batch, []) else (None, butlast rest @ [last rest @ batch]))"

definition global_commit :: "'s backing_store \<Rightarrow>
    ('s global_context, asset_map option \<times> event_batch option, vm_error) routine" where
  "global_commit bs g =
     (if asset_maps g = [] \<or> event_batches g = [] then (Panic, g)
      else
        let amap = last (asset_maps g); batch = last (event_batches g);
            rest = butlast (asset_maps g);
            g1 = g\<lparr>read_only := butlast (read_only g), asset_maps := rest, event_batches := butlast (event_batches g)\<rparr>;
            finish = (\<lambda>out g2. let (out_batch, batches) = commit_events batch (event_batches g2) in
              seq (on_database (commit bs)) (\<lambda>_. give (out, out_batch)) (g2\<lparr>event_batches := batches\<rparr>))
        in if rest = [] then finish (Some amap) g1
           else case commit_other (last rest) amap of
             Ok tail_back \<Rightarrow> finish None (g1\<lparr>asset_maps := butlast rest @ [tail_back]\<rparr>)
           | Err e \<Rightarrow> seq (on_database rollback) (\<lambda>_. attempt (Err e)) g1
           | Panic \<Rightarrow> (Panic, g1))"

definition global_roll_back :: "('s global_context, unit, vm_error) routine" where
  "global_roll_back g =
     (if asset_maps g = [] \<or> read_only g = [] \<or> event_batches g = [] then (Panic, g)
      else on_database rollback
        (g\<lparr>asset_maps := butlast (asset_maps g), read_only := butlast (read_only g),
           event_batches := butlast (event_batches g)\<rparr>))"

text \<open>\<open>execute\<close>: the closure runs in a context of its own.\<close>

definition global_execute :: "'s backing_store \<Rightarrow> ('s global_context, 'a, vm_error) routine \<Rightarrow>
    ('s global_context, 'a, vm_error) routine" where
  "global_execute bs f g =
     (case f (global_begin g) of
        (Ok x, g') \<Rightarrow> seq (global_commit bs) (\<lambda>_. give x) g'
      | (Err e, g') \<Rightarrow> seq global_roll_back (\<lambda>_. attempt (Err e)) g'
      | (Panic, g') \<Rightarrow> (Panic, g'))"

definition handle_tx_result :: "'s backing_store \<Rightarrow> (val, vm_error) outcome \<Rightarrow>
    ('s global_context, val, vm_error) routine" where
  "handle_tx_result bs result =
     (case result of
        Ok v \<Rightarrow>
          (case v of
             VResponse committed data \<Rightarrow>
               if committed then seq (global_commit bs) (\<lambda>_. give v)
               else seq global_roll_back (\<lambda>_. give v)
           | _ \<Rightarrow> attempt (and_then (expect (type_of v)) (\<lambda>t. Err (Unchecked (PublicFunctionMustReturnResponse t)))))
      | Err e \<Rightarrow> seq global_roll_back (\<lambda>_. attempt (Err e))
      | Panic \<Rightarrow> attempt Panic)"

definition destruct :: "'s global_context \<Rightarrow> ('s rollback_wrapper \<times> limited_cost_tracker) option" where
  "destruct g = (if is_top_level g then Some (database g, cost_track g) else None)"

text \<open>Logging asset movements, in the innermost asset map.\<close>

definition on_asset_map :: "(asset_map \<Rightarrow> (asset_map, vm_error) outcome) \<Rightarrow> ('s global_context, unit, vm_error) routine" where
  "on_asset_map f g =
     (if asset_maps g = [] then (Panic, g)
      else case f (last (asset_maps g)) of
        Ok m \<Rightarrow> (Ok (), g\<lparr>asset_maps := butlast (asset_maps g) @ [m]\<rparr>)
      | Err e \<Rightarrow> (Err e, g)
      | Panic \<Rightarrow> (Panic, g))"

definition log_asset_transfer :: "principal_data \<Rightarrow> qualified_contract_identifier \<Rightarrow> clarity_name \<Rightarrow> val \<Rightarrow>
    ('s global_context, unit, vm_error) routine" where
  "log_asset_transfer sender c name transfered =
     on_asset_map (\<lambda>m. Ok (add_asset_transfer sender (AssetIdentifier c name) transfered m))"

definition log_token_transfer :: "principal_data \<Rightarrow> qualified_contract_identifier \<Rightarrow> clarity_name \<Rightarrow> u128 \<Rightarrow>
    ('s global_context, unit, vm_error) routine" where
  "log_token_transfer sender c name transfered =
     on_asset_map (add_token_transfer sender (AssetIdentifier c name) transfered)"

definition log_stx_transfer :: "principal_data \<Rightarrow> u128 \<Rightarrow> ('s global_context, unit, vm_error) routine" where
  "log_stx_transfer sender transfered = on_asset_map (add_stx_transfer sender transfered)"

definition log_stx_burn :: "principal_data \<Rightarrow> u128 \<Rightarrow> ('s global_context, unit, vm_error) routine" where
  "log_stx_burn sender transfered = on_asset_map (add_stx_burn sender transfered)"

text \<open>Registering an event in the innermost batch, when there is one.\<close>

definition push_event :: "stacks_transaction_event \<Rightarrow> 's global_context \<Rightarrow> 's global_context" where
  "push_event ev g =
     (if event_batches g = [] then g
      else g\<lparr>event_batches := butlast (event_batches g) @ [last (event_batches g) @ [ev]]\<rparr>)"

definition register_print_event :: "qualified_contract_identifier \<Rightarrow> val \<Rightarrow> 's global_context \<Rightarrow> 's global_context" where
  "register_print_event c v = push_event (SmartContractEvent (c, ''print'') v)"

definition register_stx_transfer_event :: "principal_data \<Rightarrow> principal_data \<Rightarrow> u128 \<Rightarrow> 's global_context \<Rightarrow> 's global_context" where
  "register_stx_transfer_event sender recipient amount = push_event (STXEvent (STXTransferEvent sender recipient amount))"

definition register_stx_burn_event :: "principal_data \<Rightarrow> u128 \<Rightarrow> 's global_context \<Rightarrow> 's global_context" where
  "register_stx_burn_event sender amount = push_event (STXEvent (STXBurnEvent sender amount))"

definition register_nft_transfer_event :: "principal_data \<Rightarrow> principal_data \<Rightarrow> val \<Rightarrow> asset_identifier \<Rightarrow>
    's global_context \<Rightarrow> 's global_context" where
  "register_nft_transfer_event sender recipient v a = push_event (NFTEvent (NFTTransferEvent a sender recipient v))"

definition register_nft_mint_event :: "principal_data \<Rightarrow> val \<Rightarrow> asset_identifier \<Rightarrow> 's global_context \<Rightarrow> 's global_context" where
  "register_nft_mint_event recipient v a = push_event (NFTEvent (NFTMintEvent a recipient v))"

definition register_ft_transfer_event :: "principal_data \<Rightarrow> principal_data \<Rightarrow> u128 \<Rightarrow> asset_identifier \<Rightarrow>
    's global_context \<Rightarrow> 's global_context" where
  "register_ft_transfer_event sender recipient amount a = push_event (FTEvent (FTTransferEvent a sender recipient amount))"

definition register_ft_mint_event :: "principal_data \<Rightarrow> u128 \<Rightarrow> asset_identifier \<Rightarrow> 's global_context \<Rightarrow> 's global_context" where
  "register_ft_mint_event recipient amount a = push_event (FTEvent (FTMintEvent a recipient amount))"

section \<open>Transactions\<close>

text \<open>
  \<open>execute_function_as_transaction\<close> around the body of a function, which runs in a context of its own, and the
  commit of an owned environment. Its entry point \<open>execute_in_env\<close> is modelled with the machine, as
  \<open>vm_execute_in_env\<close>.
\<close>

definition execute_function_as_transaction :: "'s backing_store \<Rightarrow> bool \<Rightarrow> ('s global_context, val, vm_error) routine \<Rightarrow>
    ('s global_context, val, vm_error) routine" where
  "execute_function_as_transaction bs make_read_only apply_body g =
     (case apply_body (if make_read_only then global_begin_read_only g else global_begin g) of
        (Panic, g') \<Rightarrow> (Panic, g')
      | (result, g') \<Rightarrow>
          if make_read_only then seq global_roll_back (\<lambda>_. attempt result) g'
          else handle_tx_result bs result g')"

definition owned_commit :: "'s backing_store \<Rightarrow> ('s global_context, asset_map \<times> event_batch, vm_error) routine" where
  "owned_commit bs =
     seq (global_commit bs) (\<lambda>(amap, batch).
     seq (attempt (ok_or (Interpreter FailedToConstructAssetTable) amap)) (\<lambda>amap.
     seq (attempt (ok_or (Interpreter FailedToConstructEventBatch) batch)) (\<lambda>batch.
     give (amap, batch))))"

section \<open>The call stack\<close>

record call_stack =
  cs_stack :: "function_identifier list"
  cs_set :: "function_identifier list"

definition call_stack_new :: call_stack where
  "call_stack_new = \<lparr>cs_stack = [], cs_set = []\<rparr>"

definition call_stack_depth :: "call_stack \<Rightarrow> nat" where
  "call_stack_depth cs = length (cs_stack cs)"

definition call_stack_contains :: "call_stack \<Rightarrow> function_identifier \<Rightarrow> bool" where
  "call_stack_contains cs f \<longleftrightarrow> f \<in> set (cs_set cs)"

definition call_stack_insert :: "function_identifier \<Rightarrow> bool \<Rightarrow> call_stack \<Rightarrow> call_stack" where
  "call_stack_insert f track cs =
     cs\<lparr>cs_stack := cs_stack cs @ [f], cs_set := if track then List.insert f (cs_set cs) else cs_set cs\<rparr>"

definition empty_call_stack :: vm_error where
  "empty_call_stack = Interpreter (InterpreterError ''Tried to remove item from empty call stack.'')"

definition call_stack_remove :: "function_identifier \<Rightarrow> bool \<Rightarrow> (call_stack, unit, vm_error) routine" where
  "call_stack_remove f tracked cs =
     (if cs_stack cs = [] then (Err empty_call_stack, cs)
      else
        let cs' = cs\<lparr>cs_stack := butlast (cs_stack cs)\<rparr> in
        if last (cs_stack cs) \<noteq> f then (Err empty_call_stack, cs')
        else if tracked \<and> f \<notin> set (cs_set cs) then (Panic, cs')
        else (Ok (), if tracked then cs'\<lparr>cs_set := removeAll f (cs_set cs)\<rparr> else cs'))"

section \<open>Local contexts\<close>

definition MAX_CONTEXT_DEPTH :: u16 where
  "MAX_CONTEXT_DEPTH = 256"

datatype local_context = LocalContext
  (lc_parent: "local_context option")
  (lc_variables: "(clarity_name \<times> val) list")
  (lc_callable_contracts: "(clarity_name \<times> (qualified_contract_identifier \<times> trait_identifier)) list")
  (lc_depth: u16)

definition local_new :: local_context where
  "local_new = LocalContext None [] [] 0"

definition local_extend :: "local_context \<Rightarrow> (local_context, vm_error) outcome" where
  "local_extend l =
     (if lc_depth l \<ge> MAX_CONTEXT_DEPTH then Err (Runtime MaxContextDepthReached)
      else Ok (LocalContext (Some l) [] [] (lc_depth l + 1)))"

fun local_lookup_variable :: "local_context \<Rightarrow> clarity_name \<Rightarrow> val option" where
  "local_lookup_variable (LocalContext parent vars contracts d) name =
     (case hm_get vars name of
        Some v \<Rightarrow> Some v
      | None \<Rightarrow> (case parent of Some p \<Rightarrow> local_lookup_variable p name | None \<Rightarrow> None))"

section \<open>Operations inside a context\<close>

text \<open>
  What the VM does with a global context while a transaction runs, as one step type. An operation that
  reports an error leaves a context in which the next one can run.
\<close>

datatype context_op =
    OpBegin
  | OpBeginReadOnly
  | OpCommit
  | OpRollBack
  | OpPut string string
  | OpInsertMetadata metadata_key string
  | OpLogAsset principal_data qualified_contract_identifier clarity_name val
  | OpLogToken principal_data qualified_contract_identifier clarity_name u128
  | OpLogSTX principal_data u128
  | OpLogBurn principal_data u128
  | OpEvent stacks_transaction_event
  | OpCharge execution_cost

fun context_step :: "'s backing_store \<Rightarrow> context_op \<Rightarrow> ('s global_context, unit, vm_error) routine" where
  "context_step bs OpBegin = (\<lambda>g. (Ok (), global_begin g))"
| "context_step bs OpBeginReadOnly = (\<lambda>g. (Ok (), global_begin_read_only g))"
| "context_step bs OpCommit = seq (global_commit bs) (\<lambda>_. give ())"
| "context_step bs OpRollBack = global_roll_back"
| "context_step bs (OpPut k v) = on_database (put k v)"
| "context_step bs (OpInsertMetadata k v) = on_database (insert_metadata k v)"
| "context_step bs (OpLogAsset p c n v) = log_asset_transfer p c n v"
| "context_step bs (OpLogToken p c n v) = log_token_transfer p c n v"
| "context_step bs (OpLogSTX p v) = log_stx_transfer p v"
| "context_step bs (OpLogBurn p v) = log_stx_burn p v"
| "context_step bs (OpEvent ev) = (\<lambda>g. (Ok (), push_event ev g))"
| "context_step bs (OpCharge c) = (\<lambda>g. (Ok (), g\<lparr>cost_track := snd (add_cost (cost_track g) c)\<rparr>))"

fun run_context :: "'s backing_store \<Rightarrow> context_op list \<Rightarrow> 's global_context \<Rightarrow> ('s global_context, unit) outcome" where
  "run_context bs [] g = Ok g"
| "run_context bs (op # ops) g =
     (case context_step bs op g of (Panic, _) \<Rightarrow> Panic | (_, g') \<Rightarrow> run_context bs ops g')"

text \<open>\<open>context_nesting ops d\<close>: the contexts open above a given one after operations that never close it.\<close>

fun context_nesting :: "context_op list \<Rightarrow> nat \<Rightarrow> nat option" where
  "context_nesting [] d = Some d"
| "context_nesting (OpBegin # ops) d = context_nesting ops (d + 1)"
| "context_nesting (OpBeginReadOnly # ops) d = context_nesting ops (d + 1)"
| "context_nesting (OpCommit # ops) d = (if d = 0 then None else context_nesting ops (d - 1))"
| "context_nesting (OpRollBack # ops) d = (if d = 0 then None else context_nesting ops (d - 1))"
| "context_nesting (_ # ops) d = context_nesting ops d"

text \<open>
  \<open>framed base k g\<close>: the four stacks of \<open>g\<close> are those of the context \<open>base\<close> with \<open>k\<close> more entries each, and its
  database stands for the logs of \<open>base\<close> with \<open>k\<close> more.
\<close>

definition context_wf :: "'s global_context \<Rightarrow> bool" where
  "context_wf g \<longleftrightarrow>
     (\<exists>logs s. represents (database g) (logs, s) \<and> length logs = length (asset_maps g)) \<and>
     length (event_batches g) = length (asset_maps g) \<and> length (read_only g) = length (asset_maps g) \<and>
     list_all asset_map_wf (asset_maps g)"

definition framed :: "'s global_context \<Rightarrow> nat \<Rightarrow> 's global_context \<Rightarrow> bool" where
  "framed b k g \<longleftrightarrow>
     (\<exists>maps batches flags logs inner s.
        asset_maps g = asset_maps b @ maps \<and> event_batches g = event_batches b @ batches \<and>
        read_only g = read_only b @ flags \<and>
        represents (database b) (logs, s) \<and> represents (database g) (logs @ inner, s) \<and>
        length maps = k \<and> length batches = k \<and> length flags = k \<and> length inner = k \<and>
        list_all asset_map_wf maps)"

lemma framedI:
  assumes "asset_maps g = asset_maps b @ maps" "event_batches g = event_batches b @ batches"
    "read_only g = read_only b @ flags" "represents (database b) (logs, s)" "represents (database g) (logs @ inner, s)"
    "length maps = k" "length batches = k" "length flags = k" "length inner = k" "list_all asset_map_wf maps"
  shows "framed b k g"
  using assms unfolding framed_def by blast

lemma framedE:
  assumes "framed b (Suc d) g"
  obtains maps m batches batch flags flag logs inner xs ys s where
    "asset_maps g = asset_maps b @ maps @ [m]" "event_batches g = event_batches b @ batches @ [batch]"
    "read_only g = read_only b @ flags @ [flag]" "represents (database b) (logs, s)"
    "represents (database g) (logs @ inner @ [(xs, ys)], s)"
    "length maps = d" "length batches = d" "length flags = d" "length inner = d"
    "list_all asset_map_wf maps" "asset_map_wf m"
  using assms unfolding framed_def
  by (clarsimp simp: length_Suc_conv_rev)

lemma framed_asset_maps:
  assumes "framed b (Suc d) g"
    and "\<And>m. asset_map_wf m \<Longrightarrow> f m \<noteq> Panic \<and> (\<forall>r. f m = Ok r \<longrightarrow> asset_map_wf r)"
  shows "fst (on_asset_map f g) \<noteq> Panic \<and> framed b (Suc d) (snd (on_asset_map f g))"
proof -
  from assms(1) obtain maps m batches batch flags flag logs inner xs ys s where *:
    "asset_maps g = asset_maps b @ maps @ [m]" "event_batches g = event_batches b @ batches @ [batch]"
    "read_only g = read_only b @ flags @ [flag]" "represents (database b) (logs, s)"
    "represents (database g) (logs @ inner @ [(xs, ys)], s)"
    "length maps = d" "length batches = d" "length flags = d" "length inner = d"
    "list_all asset_map_wf maps" "asset_map_wf m"
    by (rule framedE)
  show ?thesis
  proof (cases "f m")
    case (Ok r)
    have "framed b (Suc d) (g\<lparr>asset_maps := asset_maps b @ maps @ [r]\<rparr>)"
      by (rule framedI [where maps = "maps @ [r]" and batches = "batches @ [batch]" and flags = "flags @ [flag]"
            and inner = "inner @ [(xs, ys)]" and logs = logs and s = s]) (use * Ok assms(2) in auto)
    with * Ok show ?thesis by (simp add: on_asset_map_def butlast_append)
  qed (use * assms in \<open>auto simp: on_asset_map_def\<close>)
qed

lemma framed_database:
  assumes "framed b (Suc d) g"
    and "\<And>logs xs ys s. represents (database g) (logs @ [(xs, ys)], s) \<Longrightarrow>
      \<exists>db xs' ys'. f (database g) = Ok db \<and> represents db (logs @ [(xs', ys')], s)"
  shows "fst (on_database f g) \<noteq> Panic \<and> framed b (Suc d) (snd (on_database f g))"
proof -
  from assms(1) obtain maps m batches batch flags flag logs inner xs ys s where *:
    "asset_maps g = asset_maps b @ maps @ [m]" "event_batches g = event_batches b @ batches @ [batch]"
    "read_only g = read_only b @ flags @ [flag]" "represents (database b) (logs, s)"
    "represents (database g) (logs @ inner @ [(xs, ys)], s)"
    "length maps = d" "length batches = d" "length flags = d" "length inner = d"
    "list_all asset_map_wf maps" "asset_map_wf m"
    by (rule framedE)
  obtain db xs' ys' where db: "f (database g) = Ok db" "represents db ((logs @ inner) @ [(xs', ys')], s)"
    using assms(2) [of "logs @ inner" xs ys s] * by auto
  have "framed b (Suc d) (g\<lparr>database := db\<rparr>)"
    by (rule framedI [where maps = "maps @ [m]" and batches = "batches @ [batch]" and flags = "flags @ [flag]"
          and inner = "inner @ [(xs', ys')]" and logs = logs and s = s]) (use * db in auto)
  with db show ?thesis by (simp add: on_database_def)
qed

lemma framed_begin:
  assumes "framed b d g"
  shows "framed b (Suc d) (global_begin g)" "framed b (Suc d) (global_begin_read_only g)"
proof -
  from assms obtain maps batches flags logs inner s where *:
    "asset_maps g = asset_maps b @ maps" "event_batches g = event_batches b @ batches"
    "read_only g = read_only b @ flags" "represents (database b) (logs, s)" "represents (database g) (logs @ inner, s)"
    "length maps = d" "length batches = d" "length flags = d" "length inner = d" "list_all asset_map_wf maps"
    unfolding framed_def by blast
  show "framed b (Suc d) (global_begin g)"
    by (rule framedI [where maps = "maps @ [asset_map_new]" and batches = "batches @ [[]]"
          and flags = "flags @ [is_read_only g]" and inner = "inner @ [([], [])]" and logs = logs and s = s])
      (use * represents_nest [OF *(5)] in \<open>auto simp: global_begin_def asset_map_new_wf\<close>)
  show "framed b (Suc d) (global_begin_read_only g)"
    by (rule framedI [where maps = "maps @ [asset_map_new]" and batches = "batches @ [[]]"
          and flags = "flags @ [True]" and inner = "inner @ [([], [])]" and logs = logs and s = s])
      (use * represents_nest [OF *(5)] in \<open>auto simp: global_begin_read_only_def asset_map_new_wf\<close>)
qed

lemma framed_roll_back:
  assumes "framed b (Suc d) g"
  shows "\<exists>g'. global_roll_back g = (Ok (), g') \<and> framed b d g' \<and> cost_track g' = cost_track g"
proof -
  from assms obtain maps m batches batch flags flag logs inner xs ys s where *:
    "asset_maps g = asset_maps b @ maps @ [m]" "event_batches g = event_batches b @ batches @ [batch]"
    "read_only g = read_only b @ flags @ [flag]" "represents (database b) (logs, s)"
    "represents (database g) (logs @ inner @ [(xs, ys)], s)"
    "length maps = d" "length batches = d" "length flags = d" "length inner = d"
    "list_all asset_map_wf maps" "asset_map_wf m"
    by (rule framedE)
  obtain db where db: "rollback (database g) = Ok db" "represents db (logs @ inner, s)"
    using represents_rollback [of "database g" "logs @ inner" "(xs, ys)" s] * by auto
  let ?g = "g\<lparr>asset_maps := asset_maps b @ maps, read_only := read_only b @ flags,
    event_batches := event_batches b @ batches, database := db\<rparr>"
  have "framed b d ?g"
    by (rule framedI [where maps = maps and batches = batches and flags = flags and inner = inner
          and logs = logs and s = s]) (use * db in auto)
  moreover have "global_roll_back g = (Ok (), ?g)"
    using * db by (simp add: global_roll_back_def on_database_def butlast_append)
  ultimately show ?thesis by simp
qed

lemma global_commit_nested:
  assumes "asset_maps g = M @ [t, m]" "event_batches g = E @ [eb, e2]" "read_only g = R @ [flag]"
    and "represents (database g) (L @ [(xs', ys'), (xs, ys)], s)"
  shows "(\<exists>r db. commit_other t m = Ok r \<and> represents db (L @ [(xs' @ xs, ys' @ ys)], s) \<and>
      global_commit bs g = (Ok (None, None),
        g\<lparr>read_only := R, asset_maps := M @ [r], event_batches := E @ [eb @ e2], database := db\<rparr>)) \<or>
    (\<exists>e db. commit_other t m = Err e \<and> represents db (L @ [(xs', ys')], s) \<and>
      global_commit bs g = (Err e,
        g\<lparr>read_only := R, asset_maps := M @ [t], event_batches := E @ [eb], database := db\<rparr>))"
proof (cases "commit_other t m")
  case (Ok r)
  obtain db where "commit bs (database g) = Ok db" "represents db (L @ [(xs' @ xs, ys' @ ys)], s)"
    using represents_commit_nested [OF assms(4)] by blast
  with Ok assms(1-3) show ?thesis
    by (intro disjI1 exI [of _ r] exI [of _ db]) (simp add: global_commit_def Let_def butlast_append commit_events_def on_database_def seq_def)
next
  case (Err e)
  obtain db where "rollback (database g) = Ok db" "represents db (L @ [(xs', ys')], s)"
    using represents_rollback [of "database g" "L @ [(xs', ys')]" "(xs, ys)" s] assms(4) by auto
  with Err assms(1-3) show ?thesis
    by (intro disjI2 exI [of _ e] exI [of _ db]) (simp add: global_commit_def Let_def butlast_append on_database_def seq_def)
qed (simp add: commit_other_not_Panic)

lemma framed_commit:
  assumes "framed b (Suc (Suc d)) g"
  shows "fst (global_commit bs g) \<noteq> Panic \<and> framed b (Suc d) (snd (global_commit bs g))"
proof -
  from assms obtain maps m batches batch flags flag logs inner xs ys s where *:
    "asset_maps g = asset_maps b @ maps @ [m]" "event_batches g = event_batches b @ batches @ [batch]"
    "read_only g = read_only b @ flags @ [flag]" "represents (database b) (logs, s)"
    "represents (database g) (logs @ inner @ [(xs, ys)], s)"
    "length maps = Suc d" "length batches = Suc d" "length flags = Suc d" "length inner = Suc d"
    "list_all asset_map_wf maps" "asset_map_wf m"
    by (rule framedE)
  then obtain maps' t batches' eb inner' xs' ys' where **:
    "maps = maps' @ [t]" "batches = batches' @ [eb]" "inner = inner' @ [(xs', ys')]"
    by (auto simp: length_Suc_conv_rev)
  from global_commit_nested [of g "asset_maps b @ maps'" t m "event_batches b @ batches'" eb batch
      "read_only b @ flags" flag "logs @ inner'" xs' ys' xs ys s bs] * **
  consider r db where "commit_other t m = Ok r" "represents db (logs @ inner' @ [(xs' @ xs, ys' @ ys)], s)"
      "global_commit bs g = (Ok (None, None), g\<lparr>read_only := read_only b @ flags, asset_maps := asset_maps b @ maps' @ [r],
        event_batches := event_batches b @ batches' @ [eb @ batch], database := db\<rparr>)"
    | e db where "commit_other t m = Err e" "represents db (logs @ inner' @ [(xs', ys')], s)"
      "global_commit bs g = (Err e, g\<lparr>read_only := read_only b @ flags, asset_maps := asset_maps b @ maps' @ [t],
        event_batches := event_batches b @ batches' @ [eb], database := db\<rparr>)"
    by auto
  then show ?thesis
  proof cases
    case 1
    have "framed b (Suc d) (snd (global_commit bs g))"
      by (rule framedI [where flags = flags and batches = "batches' @ [eb @ batch]" and maps = "maps' @ [r]"
            and inner = "inner' @ [(xs' @ xs, ys' @ ys)]" and logs = logs and s = s])
        (use * ** 1 commit_other_wf [OF 1(1)] in auto)
    with 1 show ?thesis by simp
  next
    case 2
    have "framed b (Suc d) (snd (global_commit bs g))"
      by (rule framedI [where flags = flags and batches = "batches' @ [eb]" and maps = "maps' @ [t]"
            and inner = "inner' @ [(xs', ys')]" and logs = logs and s = s])
        (use * ** 2 in auto)
    with 2 show ?thesis by simp
  qed
qed

lemma framed_event: "framed b (Suc d) g \<Longrightarrow> framed b (Suc d) (push_event ev g)"
proof (erule framedE, goal_cases)
  case (1 maps m batches batch flags flag logs inner xs ys s)
  then show ?case
    by (intro framedI [where maps = "maps @ [m]" and batches = "batches @ [batch @ [ev]]" and flags = "flags @ [flag]"
          and inner = "inner @ [(xs, ys)]" and logs = logs and s = s]) (auto simp: push_event_def butlast_append)
qed

lemma framed_cost: "framed b k (g\<lparr>cost_track := ct\<rparr>) \<longleftrightarrow> framed b k g"
  by (simp add: framed_def)

lemma seq_give_result:
  "snd (seq m (\<lambda>_. give x) g) = snd (m g)"
  "fst (seq m (\<lambda>_. give x) g) = Panic \<longleftrightarrow> fst (m g) = Panic"
  by (simp_all add: seq_def split: prod.split outcome.split)

lemma framed_log:
  assumes "framed b (Suc d) g"
  shows "fst (log_asset_transfer p c n v g) \<noteq> Panic \<and> framed b (Suc d) (snd (log_asset_transfer p c n v g))"
    and "fst (log_token_transfer p c n x g) \<noteq> Panic \<and> framed b (Suc d) (snd (log_token_transfer p c n x g))"
    and "fst (log_stx_transfer p x g) \<noteq> Panic \<and> framed b (Suc d) (snd (log_stx_transfer p x g))"
    and "fst (log_stx_burn p x g) \<noteq> Panic \<and> framed b (Suc d) (snd (log_stx_burn p x g))"
proof -
  show "fst (log_asset_transfer p c n v g) \<noteq> Panic \<and> framed b (Suc d) (snd (log_asset_transfer p c n v g))"
    unfolding log_asset_transfer_def by (rule framed_asset_maps [OF assms]) (auto intro: add_transfers_wf(4))
  show "fst (log_token_transfer p c n x g) \<noteq> Panic \<and> framed b (Suc d) (snd (log_token_transfer p c n x g))"
    unfolding log_token_transfer_def by (rule framed_asset_maps [OF assms]) (auto simp: add_transfers_not_Panic dest: add_transfers_wf(1-3))
  show "fst (log_stx_transfer p x g) \<noteq> Panic \<and> framed b (Suc d) (snd (log_stx_transfer p x g))"
    unfolding log_stx_transfer_def by (rule framed_asset_maps [OF assms]) (auto simp: add_transfers_not_Panic dest: add_transfers_wf(1-3))
  show "fst (log_stx_burn p x g) \<noteq> Panic \<and> framed b (Suc d) (snd (log_stx_burn p x g))"
    unfolding log_stx_burn_def by (rule framed_asset_maps [OF assms]) (auto simp: add_transfers_not_Panic dest: add_transfers_wf(1-3))
qed

lemma framed_step:
  assumes "framed b (Suc d) g" "context_nesting (op # ops) d = Some d'"
  shows "\<exists>e. context_nesting ops e = Some d' \<and> fst (context_step bs op g) \<noteq> Panic \<and>
    framed b (Suc e) (snd (context_step bs op g))"
proof (cases op)
  case OpBegin
  with assms framed_begin [OF assms(1)] show ?thesis by (intro exI [of _ "Suc d"]) simp
next
  case OpBeginReadOnly
  with assms framed_begin [OF assms(1)] show ?thesis by (intro exI [of _ "Suc d"]) simp
next
  case OpCommit
  with assms obtain e where "d = Suc e" "context_nesting ops e = Some d'" by (cases d) auto
  with OpCommit assms framed_commit [of b e g bs] show ?thesis by (intro exI [of _ e]) (simp add: seq_give_result)
next
  case OpRollBack
  with assms obtain e where "d = Suc e" "context_nesting ops e = Some d'" by (cases d) auto
  with OpRollBack assms framed_roll_back [of b d g] show ?thesis by (intro exI [of _ e]) auto
next
  case (OpPut k v)
  have "fst (on_database (put k v) g) \<noteq> Panic \<and> framed b (Suc d) (snd (on_database (put k v) g))"
    by (rule framed_database [OF assms(1)]) (drule represents_put [where k = k and v = v], blast)
  with OpPut assms show ?thesis by (intro exI [of _ d]) simp
next
  case (OpInsertMetadata k v)
  have "fst (on_database (insert_metadata k v) g) \<noteq> Panic \<and> framed b (Suc d) (snd (on_database (insert_metadata k v) g))"
    by (rule framed_database [OF assms(1)]) (drule represents_insert_metadata [where k = k and v = v], blast)
  with OpInsertMetadata assms show ?thesis by (intro exI [of _ d]) simp
next
  case (OpEvent ev)
  with assms framed_event [OF assms(1)] show ?thesis by (intro exI [of _ d]) simp
next
  case (OpCharge c)
  with assms show ?thesis by (intro exI [of _ d]) (simp add: framed_cost)
next
  case (OpLogAsset p c n v)
  with assms framed_log(1) [OF assms(1), of p c n v] show ?thesis by (intro exI [of _ d]) simp
next
  case (OpLogToken p c n x)
  with assms framed_log(2) [OF assms(1), of p c n x] show ?thesis by (intro exI [of _ d]) simp
next
  case (OpLogSTX p x)
  with assms framed_log(3) [OF assms(1), of p x] show ?thesis by (intro exI [of _ d]) simp
next
  case (OpLogBurn p x)
  with assms framed_log(4) [OF assms(1), of p x] show ?thesis by (intro exI [of _ d]) simp
qed

lemma framed_run:
  assumes "framed b (Suc d) g" "context_nesting ops d = Some d'"
  shows "\<exists>g'. run_context bs ops g = Ok g' \<and> framed b (Suc d') g'"
  using assms
proof (induction ops arbitrary: d g)
  case (Cons op ops)
  obtain e where e: "context_nesting ops e = Some d'" "fst (context_step bs op g) \<noteq> Panic"
    "framed b (Suc e) (snd (context_step bs op g))"
    using framed_step [OF Cons.prems] by blast
  from Cons.IH [OF e(3,1)] e(2) show ?case
    by (cases "context_step bs op g"; cases "fst (context_step bs op g)") auto
qed simp

section \<open>Contexts reached by the operations\<close>

lemma context_wf_framed:
  "context_wf g \<longleftrightarrow> (\<exists>s ct. framed (global_new (wrapper_new s) ct) (length (asset_maps g)) g)"
proof
  assume "context_wf g"
  then obtain logs s where "represents (database g) (logs, s)" "length logs = length (asset_maps g)"
    and "length (event_batches g) = length (asset_maps g)" "length (read_only g) = length (asset_maps g)"
    "list_all asset_map_wf (asset_maps g)"
    unfolding context_wf_def by blast
  then have "framed (global_new (wrapper_new s) ct) (length (asset_maps g)) g" for ct
    by (intro framedI [where logs = "[]" and inner = logs and s = s]) (auto simp: global_new_def represents_new)
  then show "\<exists>s ct. framed (global_new (wrapper_new s) ct) (length (asset_maps g)) g" by blast
next
  have empty: "logs = []" if "represents (wrapper_new s) (logs, s')" for logs and s s' :: 's
    using that by (simp add: represents_def wrapper_new_def)
  assume "\<exists>s ct. framed (global_new (wrapper_new s) ct) (length (asset_maps g)) g"
  then show "context_wf g"
    unfolding framed_def context_wf_def by (auto simp: global_new_def dest!: empty)
qed

lemma global_commit_bottom:
  assumes "asset_maps g = [m]" "event_batches g = [batch]" "read_only g = [flag]"
    and "represents (database g) ([(xs, ys)], s)" "fst (global_commit bs g) \<noteq> Panic"
  shows "\<exists>s'. global_commit bs g = (Ok (Some m, Some batch),
    g\<lparr>read_only := [], asset_maps := [], event_batches := [], database := wrapper_new s'\<rparr>)"
  using assms(1-3,5) represents_commit_bottom [OF assms(4), of bs]
  by (auto simp: global_commit_def Let_def commit_events_def on_database_def seq_def and_then_def
      split: outcome.splits if_splits)

lemma context_wf_top:
  assumes "context_wf g" "asset_maps g = []"
  shows "event_batches g = [] \<and> read_only g = [] \<and> (\<exists>s. database g = wrapper_new s)"
proof -
  from assms obtain s where "represents (database g) ([], s)" "event_batches g = []" "read_only g = []"
    by (auto simp: context_wf_def)
  moreover from this(1) have "database g = wrapper_new s" by (rule represents_unique [OF _ represents_new])
  ultimately show ?thesis by blast
qed

lemma context_wf_cost: "context_wf (g\<lparr>cost_track := ct\<rparr>) \<longleftrightarrow> context_wf g"
  by (simp add: context_wf_def)

lemma context_wf_new: "context_wf (global_new (wrapper_new s) ct)"
  unfolding context_wf_def using represents_new [of s] by (auto simp: global_new_def)

lemma context_wf_step_top:
  assumes "context_wf g" "asset_maps g = []" "fst (context_step bs op g) \<noteq> Panic"
  shows "context_wf (snd (context_step bs op g))"
proof -
  obtain s where top: "event_batches g = []" "read_only g = []" "database g = wrapper_new s"
    using context_wf_top [OF assms(1,2)] by blast
  have stack: "stack (wrapper_new s) = []" by (simp add: wrapper_new_def)
  have "framed (global_new (wrapper_new s) ct) 0 g" for ct
    using assms(2) top represents_new [of s] by (intro framedI [where logs = "[]" and inner = "[]" and s = s]) (auto simp: global_new_def)
  note begun = framed_begin [OF this]
  show ?thesis
  proof (cases op)
    case OpBegin
    with begun(1) assms(2) show ?thesis by (auto simp: context_wf_framed global_begin_def)
  next
    case OpBeginReadOnly
    with begun(2) assms(2) show ?thesis by (auto simp: context_wf_framed global_begin_read_only_def)
  qed (use assms top stack in \<open>auto simp: global_commit_def global_roll_back_def on_database_def put_def insert_metadata_def
      log_asset_transfer_def log_token_transfer_def log_stx_transfer_def log_stx_burn_def on_asset_map_def
      push_event_def context_wf_cost\<close>)
qed

lemma framed_length: "framed b k g \<Longrightarrow> length (asset_maps g) = length (asset_maps b) + k"
  by (auto simp: framed_def)

lemma framed_context_wf: "framed (global_new (wrapper_new s) ct) k g \<Longrightarrow> context_wf g"
  using framed_length [of "global_new (wrapper_new s) ct" k g] by (auto simp: context_wf_framed global_new_def)

lemma context_wf_commit_last:
  assumes "framed (global_new (wrapper_new s) ct) (Suc 0) g" "fst (global_commit bs g) \<noteq> Panic"
  shows "context_wf (snd (global_commit bs g))"
  using assms(1)
proof (rule framedE, goal_cases)
  case (1 maps m batches batch flags flag logs inner xs ys s')
  then have "logs = []" by (simp add: global_new_def represents_def wrapper_new_def)
  with 1 have bottom: "asset_maps g = [m]" "event_batches g = [batch]" "read_only g = [flag]"
    "represents (database g) ([(xs, ys)], s')"
    by (simp_all add: global_new_def)
  obtain s'' where "global_commit bs g = (Ok (Some m, Some batch),
      g\<lparr>read_only := [], asset_maps := [], event_batches := [], database := wrapper_new s''\<rparr>)"
    using global_commit_bottom [OF bottom assms(2)] by blast
  with represents_new [of s''] show ?case by (auto simp: context_wf_def)
qed

lemma context_wf_step:
  assumes "context_wf g" "fst (context_step bs op g) \<noteq> Panic"
  shows "context_wf (snd (context_step bs op g))"
proof (cases "length (asset_maps g)")
  case 0
  with assms context_wf_step_top show ?thesis by auto
next
  case (Suc d)
  with assms(1) obtain s ct where fr: "framed (global_new (wrapper_new s) ct) (Suc d) g"
    by (auto simp: context_wf_framed)
  show ?thesis
  proof (cases "context_nesting [op] d")
    case (Some d')
    obtain e where "framed (global_new (wrapper_new s) ct) (Suc e) (snd (context_step bs op g))"
      using framed_step [OF fr Some, of bs] by metis
    then show ?thesis by (rule framed_context_wf)
  next
    case None
    then have d: "d = 0" and "op = OpCommit \<or> op = OpRollBack" by (cases op; auto split: if_splits)+
    then consider "op = OpCommit" | "op = OpRollBack" by blast
    then show ?thesis
    proof cases
      case 1
      with context_wf_commit_last [of s ct g bs] fr d assms(2) show ?thesis by (simp add: seq_give_result)
    next
      case 2
      with framed_roll_back [OF fr] framed_context_wf show ?thesis by auto
    qed
  qed
qed

lemma context_wf_run: "run_context bs ops g = Ok g' \<Longrightarrow> context_wf g \<Longrightarrow> context_wf g'"
proof (induction ops arbitrary: g)
  case (Cons op ops)
  obtain r g1 where step: "context_step bs op g = (r, g1)" by force
  with Cons.prems(1) have "r \<noteq> Panic" "run_context bs ops g1 = Ok g'" by (cases r; simp)+
  with Cons.IH [of g1] context_wf_step [OF Cons.prems(2), of bs op] step show ?case by simp
qed simp

text \<open>C33: the stacks of a global context stay aligned. After any sequence of operations (contexts opened, committed
  and rolled back, writes, logged transfers, events and charges, failed ones included), the asset maps, event
  batches, read-only flags and database contexts are equally deep, and every asset map is well formed.\<close>

theorem context_stacks_aligned:
  assumes "run_context bs ops (global_new (wrapper_new s) ct) = Ok g"
  shows "length (event_batches g) = length (asset_maps g) \<and> length (read_only g) = length (asset_maps g) \<and>
    stack_depth (database g) = length (asset_maps g) \<and> list_all asset_map_wf (asset_maps g)"
  using context_wf_run [OF assms context_wf_new]
  by (auto simp: context_wf_def represents_def stack_depth_def)

theorem context_stacks_aligned_witness:
  "\<exists>g. run_context table_store [OpBegin, OpLogSTX (Standard standard_transient) 5, OpBegin, OpPut ''k'' ''v'']
      (global_new (wrapper_new empty_tables) tracker_new_max_limit) = Ok g \<and>
    stack_depth (database g) = length (asset_maps g) \<and> length (asset_maps g) = 2"
proof -
  let ?g0 = "global_new (wrapper_new empty_tables) tracker_new_max_limit"
  let ?ops = "[OpBegin, OpLogSTX (Standard standard_transient) 5, OpBegin, OpPut ''k'' ''v'']"
  obtain g where g: "run_context table_store ?ops ?g0 = Ok g" "length (asset_maps g) = 2"
    by (simp add: global_new_def global_begin_def log_stx_transfer_def on_asset_map_def add_stx_transfer_def
        get_next_stx_amount_def checked_add_def hm_or_def asset_map_new_def on_database_def nest_def put_def wrapper_new_def)
  with context_stacks_aligned [OF g(1)] show ?thesis by auto
qed

section \<open>Failed executions\<close>

lemma framed_self: "context_wf g \<Longrightarrow> framed g 0 g"
  by (auto simp: context_wf_def framed_def)

lemma framed_0_eq:
  assumes "framed b 0 g"
  shows "g = b\<lparr>cost_track := cost_track g\<rparr>"
proof -
  from assms obtain logs s where eqs: "asset_maps g = asset_maps b" "event_batches g = event_batches b"
    "read_only g = read_only b" "represents (database b) (logs, s)" "represents (database g) (logs, s)"
    by (auto simp: framed_def)
  have "database g = database b" by (rule represents_unique [OF eqs(5,4)])
  with eqs(1-3) show ?thesis by (simp add: global_context.equality)
qed

text \<open>Rolling back a number of contexts, whatever they hold, gives back what lies below them.\<close>

primrec rolled_back :: "nat \<Rightarrow> 's global_context \<Rightarrow> 's global_context" where
  "rolled_back 0 g = g"
| "rolled_back (Suc n) g = rolled_back n (snd (global_roll_back g))"

lemma framed_rolled_back: "framed b k g \<Longrightarrow> rolled_back k g = b\<lparr>cost_track := cost_track g\<rparr>"
proof (induction k arbitrary: g)
  case 0
  then show ?case using framed_0_eq by simp
next
  case (Suc k)
  from framed_roll_back [OF Suc.prems] Suc.IH show ?case by force
qed

lemma global_commit_one:
  assumes "framed b (Suc 0) g" "\<not> is_top_level b" "context_wf b"
  shows "(\<exists>e. global_commit bs g = (Err e, b\<lparr>cost_track := cost_track g\<rparr>)) \<or>
    (\<exists>g' r. global_commit bs g = (Ok (None, None), g') \<and> asset_maps g' = butlast (asset_maps b) @ [r] \<and>
      commit_other (last (asset_maps b)) (last (asset_maps g)) = Ok r \<and> read_only g' = read_only b \<and>
      event_batches g' = butlast (event_batches b) @ [last (event_batches b) @ last (event_batches g)])"
  using assms(1)
proof (rule framedE, goal_cases)
  case (1 maps m batches batch flags flag logs inner xs ys s)
  obtain M t where M: "asset_maps b = M @ [t]" using assms(2) by (cases "asset_maps b" rule: rev_cases) (auto simp: is_top_level_def)
  have "length (stack (database b)) = length (asset_maps b)" "length (event_batches b) = length (asset_maps b)"
    using assms(3) by (auto simp: context_wf_def represents_def)
  moreover have "stack (database b) = map context_of logs" using 1(4) by (simp add: represents_def)
  ultimately have "logs \<noteq> []" "event_batches b \<noteq> []" using M by auto
  then obtain L xs' ys' E eb where L: "logs = L @ [(xs', ys')]" "event_batches b = E @ [eb]"
    by (metis rev_exhaust surj_pair)
  have empty: "maps = []" "batches = []" "flags = []" "inner = []" using 1 by auto
  have g: "asset_maps g = M @ [t, m]" "event_batches g = E @ [eb, batch]" "read_only g = read_only b @ [flag]"
    "represents (database g) (L @ [(xs', ys'), (xs, ys)], s)"
    using 1 M L empty by auto
  have db: "represents (database b) (L @ [(xs', ys')], s)" using 1(4) L by simp
  from global_commit_nested [OF g, of bs] show ?case
  proof (elim disjE exE conjE, goal_cases)
    case (1 r db)
    with M L g show ?case by auto
  next
    case (2 e db)
    have "framed b 0 (g\<lparr>read_only := read_only b, asset_maps := M @ [t], event_batches := E @ [eb], database := db\<rparr>)"
      by (rule framedI [where maps = "[]" and batches = "[]" and flags = "[]" and inner = "[]" and s = s])
        (use M L 2(2) db in auto)
    from framed_0_eq [OF this] 2(3) show ?case by simp
  qed
qed

lemma global_commit_top:
  assumes "framed b (Suc 0) g" "is_top_level b" "context_wf b"
  shows "fst (global_commit bs g) = Panic \<or>
    (\<exists>m batch g'. global_commit bs g = (Ok (Some m, Some batch), g') \<and> asset_maps g' = [])"
  using assms(1)
proof (rule framedE, goal_cases)
  case (1 maps m batches batch flags flag logs inner xs ys s)
  have top: "asset_maps b = []" "event_batches b = []" "read_only b = []"
    using assms(2) context_wf_top [OF assms(3)] by (auto simp: is_top_level_def)
  obtain s' where "database b = wrapper_new s'" using context_wf_top [OF assms(3) top(1)] by blast
  with 1(4) have "logs = []" by (simp add: represents_def wrapper_new_def)
  with 1 top have bottom: "asset_maps g = [m]" "event_batches g = [batch]" "read_only g = [flag]"
    "represents (database g) ([(xs, ys)], s)"
    by simp_all
  show ?case using global_commit_bottom [OF bottom, of bs] by (cases "fst (global_commit bs g) = Panic") auto
qed



text \<open>a transaction that must not have effects has none. Let a function run as a transaction, with effects that
  stay inside the context opened for it. A read-only function, a public function that answers with an
  error response, and one that fails all return their result and give back the context as it was,
  apart from the costs charged.\<close>

theorem transaction_without_effects:
  assumes "run_context bs past (global_new (wrapper_new s) ct) = Ok g"
    and "context_nesting ops 0 = Some 0"
    and "run_context bs ops (if make_read_only then global_begin_read_only g else global_begin g) = Ok g'"
    and "apply_body (if make_read_only then global_begin_read_only g else global_begin g) = (r, g')"
    and "r \<noteq> Panic" "make_read_only \<or> (\<exists>e. r = Err e) \<or> (\<exists>d. r = Ok (VResponse False d))"
  shows "execute_function_as_transaction bs make_read_only apply_body g = (r, g\<lparr>cost_track := cost_track g'\<rparr>)"
proof -
  have wf: "context_wf g" by (rule context_wf_run [OF assms(1) context_wf_new])
  have "framed g (Suc 0) (if make_read_only then global_begin_read_only g else global_begin g)"
    using framed_begin [OF framed_self [OF wf]] by simp
  from framed_run [OF this assms(2), of bs] assms(3) have fr: "framed g (Suc 0) g'" by auto
  obtain g1 where undone: "global_roll_back g' = (Ok (), g1)" "framed g 0 g1" "cost_track g1 = cost_track g'"
    using framed_roll_back [OF fr] by blast
  have g1: "g1 = g\<lparr>cost_track := cost_track g'\<rparr>" using framed_0_eq [OF undone(2)] undone(3) by simp
  show ?thesis
  proof (cases make_read_only)
    case True
    with assms(4,5) undone(1) g1 show ?thesis
      by (cases r) (simp_all add: execute_function_as_transaction_def seq_def)
  next
    case False
    with assms(5,6) have "(\<exists>e. r = Err e) \<or> (\<exists>d. r = Ok (VResponse False d))" by blast
    with False assms(4) undone(1) g1 show ?thesis
      by (auto simp: execute_function_as_transaction_def handle_tx_result_def seq_def)
  qed
qed

theorem transaction_without_effects_witness:
  "execute_function_as_transaction table_store True (\<lambda>g. (Ok (VBool True), push_event (STXEvent (STXBurnEvent (Standard standard_transient) 1)) g))
     (global_new (wrapper_new empty_tables) tracker_new_max_limit) =
   (Ok (VBool True), global_new (wrapper_new empty_tables) tracker_new_max_limit)"
proof -
  let ?g = "global_new (wrapper_new empty_tables) tracker_new_max_limit"
  let ?ev = "STXEvent (STXBurnEvent (Standard standard_transient) 1)"
  have "execute_function_as_transaction table_store True (\<lambda>g. (Ok (VBool True), push_event ?ev g)) ?g =
      (Ok (VBool True), ?g\<lparr>cost_track := cost_track (push_event ?ev (global_begin_read_only ?g))\<rparr>)"
    by (rule transaction_without_effects [where past = "[]" and s = empty_tables and ct = tracker_new_max_limit
          and ops = "[OpEvent ?ev]" and g' = "push_event ?ev (global_begin_read_only ?g)"]) simp_all
  then show ?thesis by (simp add: push_event_def global_begin_read_only_def global_new_def)
qed

end
