(* ===== verification/CostTable.thy ===== *)
theory CostTable
  imports TypeSignatures
begin

text \<open>
  The table of charges of the Clarity VM, \<open>src/src/vm/costs/cost_functions.rs\<close> and
  \<open>src/src/vm/costs/constants.rs\<close>: for every operation, how each cost dimension grows with the size of the input.
  The theorem shows that no entry can overflow on inputs of less than 57 bits.
\<close>

section \<open>The table\<close>

text \<open>\<open>def_runtime_cost!\<close>: an operation that costs run time only.\<close>

definition runtime_only :: "cost_function \<Rightarrow> simple_cost_specification" where
  "runtime_only f =
     \<lparr>spec_write_count = Constant 0, spec_write_length = Constant 0,
      spec_read_count = Constant 0, spec_read_length = Constant 0, spec_runtime = f\<rparr>"

definition COST_ANALYSIS_TYPE_ANNOTATE :: simple_cost_specification where
  "COST_ANALYSIS_TYPE_ANNOTATE = runtime_only (Linear 1 1)"

definition COST_ANALYSIS_TYPE_CHECK :: simple_cost_specification where
  "COST_ANALYSIS_TYPE_CHECK = runtime_only (Linear 1 1)"

definition COST_ANALYSIS_TYPE_LOOKUP :: simple_cost_specification where
  "COST_ANALYSIS_TYPE_LOOKUP = runtime_only (Linear 1 1)"

definition COST_ANALYSIS_VISIT :: simple_cost_specification where
  "COST_ANALYSIS_VISIT = runtime_only (Constant 1)"

definition COST_ANALYSIS_ITERABLE_FUNC :: simple_cost_specification where
  "COST_ANALYSIS_ITERABLE_FUNC = runtime_only (Constant 1)"

definition COST_ANALYSIS_OPTION_CONS :: simple_cost_specification where
  "COST_ANALYSIS_OPTION_CONS = runtime_only (Constant 1)"

definition COST_ANALYSIS_OPTION_CHECK :: simple_cost_specification where
  "COST_ANALYSIS_OPTION_CHECK = runtime_only (Constant 1)"

definition COST_ANALYSIS_BIND_NAME :: simple_cost_specification where
  "COST_ANALYSIS_BIND_NAME = runtime_only (Linear 1 1)"

definition COST_ANALYSIS_LIST_ITEMS_CHECK :: simple_cost_specification where
  "COST_ANALYSIS_LIST_ITEMS_CHECK = runtime_only (Linear 1 1)"

definition COST_ANALYSIS_CHECK_TUPLE_GET :: simple_cost_specification where
  "COST_ANALYSIS_CHECK_TUPLE_GET = runtime_only (LogN 1 1)"

definition COST_ANALYSIS_CHECK_TUPLE_CONS :: simple_cost_specification where
  "COST_ANALYSIS_CHECK_TUPLE_CONS = runtime_only (NLogN 1 1)"

definition COST_ANALYSIS_TUPLE_ITEMS_CHECK :: simple_cost_specification where
  "COST_ANALYSIS_TUPLE_ITEMS_CHECK = runtime_only (Linear 1 1)"

definition COST_ANALYSIS_CHECK_LET :: simple_cost_specification where
  "COST_ANALYSIS_CHECK_LET = runtime_only (Linear 1 1)"

definition COST_ANALYSIS_LOOKUP_FUNCTION :: simple_cost_specification where
  "COST_ANALYSIS_LOOKUP_FUNCTION = runtime_only (Constant 1)"

definition COST_ANALYSIS_LOOKUP_FUNCTION_TYPES :: simple_cost_specification where
  "COST_ANALYSIS_LOOKUP_FUNCTION_TYPES = runtime_only (Linear 1 1)"

definition COST_ANALYSIS_LOOKUP_VARIABLE_CONST :: simple_cost_specification where
  "COST_ANALYSIS_LOOKUP_VARIABLE_CONST = runtime_only (Constant 1)"

definition COST_ANALYSIS_LOOKUP_VARIABLE_DEPTH :: simple_cost_specification where
  "COST_ANALYSIS_LOOKUP_VARIABLE_DEPTH = runtime_only (NLogN 1 1)"

definition COST_AST_PARSE :: simple_cost_specification where
  "COST_AST_PARSE = runtime_only (Linear 1 1)"

definition COST_AST_CYCLE_DETECTION :: simple_cost_specification where
  "COST_AST_CYCLE_DETECTION = runtime_only (Linear 1 1)"

definition COST_ANALYSIS_STORAGE :: simple_cost_specification where
  "COST_ANALYSIS_STORAGE =
     \<lparr>spec_write_count = Constant 1, spec_write_length = Linear 1 1,
      spec_read_count = Constant 1, spec_read_length = Constant 1,
      spec_runtime = Linear 1 1\<rparr>"

definition COST_ANALYSIS_USE_TRAIT_ENTRY :: simple_cost_specification where
  "COST_ANALYSIS_USE_TRAIT_ENTRY =
     \<lparr>spec_write_count = Constant 0, spec_write_length = Linear 1 1,
      spec_read_count = Constant 1, spec_read_length = Linear 1 1,
      spec_runtime = Linear 1 1\<rparr>"

definition COST_ANALYSIS_GET_FUNCTION_ENTRY :: simple_cost_specification where
  "COST_ANALYSIS_GET_FUNCTION_ENTRY =
     \<lparr>spec_write_count = Constant 0, spec_write_length = Constant 0,
      spec_read_count = Constant 1, spec_read_length = Linear 1 1,
      spec_runtime = Linear 1 1\<rparr>"

definition COST_ANALYSIS_FETCH_CONTRACT_ENTRY :: simple_cost_specification where
  "COST_ANALYSIS_FETCH_CONTRACT_ENTRY =
     \<lparr>spec_write_count = Constant 0, spec_write_length = Constant 0,
      spec_read_count = Constant 1, spec_read_length = Linear 1 1,
      spec_runtime = Linear 1 1\<rparr>"

definition COST_LOOKUP_VARIABLE_DEPTH :: simple_cost_specification where
  "COST_LOOKUP_VARIABLE_DEPTH = runtime_only (Linear 1 1)"

definition COST_LOOKUP_VARIABLE_SIZE :: simple_cost_specification where
  "COST_LOOKUP_VARIABLE_SIZE = runtime_only (Linear 1 0)"

definition COST_LOOKUP_FUNCTION :: simple_cost_specification where
  "COST_LOOKUP_FUNCTION = runtime_only (Constant 1)"

definition COST_BIND_NAME :: simple_cost_specification where
  "COST_BIND_NAME = runtime_only (Constant 1)"

definition COST_INNER_TYPE_CHECK_COST :: simple_cost_specification where
  "COST_INNER_TYPE_CHECK_COST = runtime_only (Linear 1 1)"

definition COST_USER_FUNCTION_APPLICATION :: simple_cost_specification where
  "COST_USER_FUNCTION_APPLICATION = runtime_only (Linear 1 1)"

definition COST_LET :: simple_cost_specification where
  "COST_LET = runtime_only (Linear 1 1)"

definition COST_IF :: simple_cost_specification where
  "COST_IF = runtime_only (Constant 1)"

definition COST_ASSERTS :: simple_cost_specification where
  "COST_ASSERTS = runtime_only (Constant 1)"

definition COST_MAP :: simple_cost_specification where
  "COST_MAP = runtime_only (Constant 1)"

definition COST_FILTER :: simple_cost_specification where
  "COST_FILTER = runtime_only (Constant 1)"

definition COST_LEN :: simple_cost_specification where
  "COST_LEN = runtime_only (Constant 1)"

definition COST_FOLD :: simple_cost_specification where
  "COST_FOLD = runtime_only (Constant 1)"

definition COST_LIST_CONS :: simple_cost_specification where
  "COST_LIST_CONS = runtime_only (Linear 1 1)"

definition COST_TYPE_PARSE_STEP :: simple_cost_specification where
  "COST_TYPE_PARSE_STEP = runtime_only (Constant 1)"

definition COST_DATA_HASH_COST :: simple_cost_specification where
  "COST_DATA_HASH_COST = runtime_only (Linear 1 1)"

definition COST_TUPLE_GET :: simple_cost_specification where
  "COST_TUPLE_GET = runtime_only (NLogN 1 1)"

definition COST_TUPLE_CONS :: simple_cost_specification where
  "COST_TUPLE_CONS = runtime_only (NLogN 1 1)"

definition COST_ADD :: simple_cost_specification where
  "COST_ADD = runtime_only (Linear 1 1)"

definition COST_SUB :: simple_cost_specification where
  "COST_SUB = runtime_only (Linear 1 1)"

definition COST_MUL :: simple_cost_specification where
  "COST_MUL = runtime_only (Linear 1 1)"

definition COST_DIV :: simple_cost_specification where
  "COST_DIV = runtime_only (Linear 1 1)"

definition COST_GEQ :: simple_cost_specification where
  "COST_GEQ = runtime_only (Constant 1)"

definition COST_LEQ :: simple_cost_specification where
  "COST_LEQ = runtime_only (Constant 1)"

definition COST_LE :: simple_cost_specification where
  "COST_LE = runtime_only (Constant 1)"

definition COST_GE :: simple_cost_specification where
  "COST_GE = runtime_only (Constant 1)"

definition COST_INT_CAST :: simple_cost_specification where
  "COST_INT_CAST = runtime_only (Constant 1)"

definition COST_MOD :: simple_cost_specification where
  "COST_MOD = runtime_only (Constant 1)"

definition COST_POW :: simple_cost_specification where
  "COST_POW = runtime_only (Constant 1)"

definition COST_XOR :: simple_cost_specification where
  "COST_XOR = runtime_only (Constant 1)"

definition COST_NOT :: simple_cost_specification where
  "COST_NOT = runtime_only (Constant 1)"

definition COST_EQ :: simple_cost_specification where
  "COST_EQ = runtime_only (Linear 1 1)"

definition COST_BEGIN :: simple_cost_specification where
  "COST_BEGIN = runtime_only (Constant 1)"

definition COST_HASH160 :: simple_cost_specification where
  "COST_HASH160 = runtime_only (Constant 1)"

definition COST_SHA256 :: simple_cost_specification where
  "COST_SHA256 = runtime_only (Constant 1)"

definition COST_SHA512 :: simple_cost_specification where
  "COST_SHA512 = runtime_only (Constant 1)"

definition COST_SHA512T256 :: simple_cost_specification where
  "COST_SHA512T256 = runtime_only (Constant 1)"

definition COST_KECCAK256 :: simple_cost_specification where
  "COST_KECCAK256 = runtime_only (Constant 1)"

definition COST_PRINT :: simple_cost_specification where
  "COST_PRINT = runtime_only (Linear 1 1)"

definition COST_SOME_CONS :: simple_cost_specification where
  "COST_SOME_CONS = runtime_only (Constant 1)"

definition COST_OK_CONS :: simple_cost_specification where
  "COST_OK_CONS = runtime_only (Constant 1)"

definition COST_ERR_CONS :: simple_cost_specification where
  "COST_ERR_CONS = runtime_only (Constant 1)"

definition COST_DEFAULT_TO :: simple_cost_specification where
  "COST_DEFAULT_TO = runtime_only (Constant 1)"

definition COST_UNWRAP_RET :: simple_cost_specification where
  "COST_UNWRAP_RET = runtime_only (Constant 1)"

definition COST_UNWRAP_ERR_OR_RET :: simple_cost_specification where
  "COST_UNWRAP_ERR_OR_RET = runtime_only (Constant 1)"

definition COST_IS_OKAY :: simple_cost_specification where
  "COST_IS_OKAY = runtime_only (Constant 1)"

definition COST_IS_NONE :: simple_cost_specification where
  "COST_IS_NONE = runtime_only (Constant 1)"

definition COST_IS_ERR :: simple_cost_specification where
  "COST_IS_ERR = runtime_only (Constant 1)"

definition COST_IS_SOME :: simple_cost_specification where
  "COST_IS_SOME = runtime_only (Constant 1)"

definition COST_UNWRAP :: simple_cost_specification where
  "COST_UNWRAP = runtime_only (Constant 1)"

definition COST_UNWRAP_ERR :: simple_cost_specification where
  "COST_UNWRAP_ERR = runtime_only (Constant 1)"

definition COST_TRY_RET :: simple_cost_specification where
  "COST_TRY_RET = runtime_only (Constant 1)"

definition COST_MATCH :: simple_cost_specification where
  "COST_MATCH = runtime_only (Constant 1)"

definition COST_OR :: simple_cost_specification where
  "COST_OR = runtime_only (Linear 1 1)"

definition COST_AND :: simple_cost_specification where
  "COST_AND = runtime_only (Linear 1 1)"

definition COST_APPEND :: simple_cost_specification where
  "COST_APPEND = runtime_only (Linear 1 1)"

definition COST_CONCAT :: simple_cost_specification where
  "COST_CONCAT = runtime_only (Linear 1 1)"

definition COST_AS_MAX_LEN :: simple_cost_specification where
  "COST_AS_MAX_LEN = runtime_only (Constant 1)"

definition COST_CONTRACT_CALL :: simple_cost_specification where
  "COST_CONTRACT_CALL = runtime_only (Constant 1)"

definition COST_AT_BLOCK :: simple_cost_specification where
  "COST_AT_BLOCK =
     \<lparr>spec_write_count = Constant 0, spec_write_length = Constant 0,
      spec_read_count = Constant 1, spec_read_length = Constant 1,
      spec_runtime = Constant 1\<rparr>"

definition COST_LOAD_CONTRACT :: simple_cost_specification where
  "COST_LOAD_CONTRACT =
     \<lparr>spec_write_count = Constant 0, spec_write_length = Constant 0,
      spec_read_count = Constant 1, spec_read_length = Linear 1 1,
      spec_runtime = Linear 1 1\<rparr>"

definition COST_CREATE_MAP :: simple_cost_specification where
  "COST_CREATE_MAP =
     \<lparr>spec_write_count = Constant 1, spec_write_length = Linear 1 1,
      spec_read_count = Constant 0, spec_read_length = Constant 0,
      spec_runtime = Linear 1 1\<rparr>"

definition COST_CREATE_VAR :: simple_cost_specification where
  "COST_CREATE_VAR =
     \<lparr>spec_write_count = Constant 2, spec_write_length = Linear 1 1,
      spec_read_count = Constant 0, spec_read_length = Constant 0,
      spec_runtime = Linear 1 1\<rparr>"

definition COST_CREATE_NFT :: simple_cost_specification where
  "COST_CREATE_NFT =
     \<lparr>spec_write_count = Constant 1, spec_write_length = Linear 1 1,
      spec_read_count = Constant 0, spec_read_length = Constant 0,
      spec_runtime = Linear 1 1\<rparr>"

definition COST_CREATE_FT :: simple_cost_specification where
  "COST_CREATE_FT =
     \<lparr>spec_write_count = Constant 2, spec_write_length = Constant 1,
      spec_read_count = Constant 0, spec_read_length = Constant 0,
      spec_runtime = Constant 1\<rparr>"

definition COST_FETCH_ENTRY :: simple_cost_specification where
  "COST_FETCH_ENTRY =
     \<lparr>spec_write_count = Constant 0, spec_write_length = Constant 0,
      spec_read_count = Constant 1, spec_read_length = Linear 1 1,
      spec_runtime = Linear 1 1\<rparr>"

definition COST_SET_ENTRY :: simple_cost_specification where
  "COST_SET_ENTRY =
     \<lparr>spec_write_count = Constant 1, spec_write_length = Linear 1 1,
      spec_read_count = Constant 1, spec_read_length = Constant 0,
      spec_runtime = Linear 1 1\<rparr>"

definition COST_FETCH_VAR :: simple_cost_specification where
  "COST_FETCH_VAR =
     \<lparr>spec_write_count = Constant 0, spec_write_length = Constant 0,
      spec_read_count = Constant 1, spec_read_length = Linear 1 1,
      spec_runtime = Linear 1 1\<rparr>"

definition COST_SET_VAR :: simple_cost_specification where
  "COST_SET_VAR =
     \<lparr>spec_write_count = Constant 1, spec_write_length = Linear 1 1,
      spec_read_count = Constant 1, spec_read_length = Constant 0,
      spec_runtime = Linear 1 1\<rparr>"

definition COST_CONTRACT_STORAGE :: simple_cost_specification where
  "COST_CONTRACT_STORAGE =
     \<lparr>spec_write_count = Constant 1, spec_write_length = Linear 1 1,
      spec_read_count = Constant 0, spec_read_length = Constant 0,
      spec_runtime = Linear 1 1\<rparr>"

definition COST_BLOCK_INFO :: simple_cost_specification where
  "COST_BLOCK_INFO =
     \<lparr>spec_write_count = Constant 0, spec_write_length = Constant 0,
      spec_read_count = Constant 1, spec_read_length = Constant 1,
      spec_runtime = Constant 1\<rparr>"

definition COST_STX_TRANSFER :: simple_cost_specification where
  "COST_STX_TRANSFER =
     \<lparr>spec_write_count = Constant 1, spec_write_length = Constant 1,
      spec_read_count = Constant 1, spec_read_length = Constant 1,
      spec_runtime = Constant 1\<rparr>"

definition COST_FT_MINT :: simple_cost_specification where
  "COST_FT_MINT =
     \<lparr>spec_write_count = Constant 2, spec_write_length = Constant 1,
      spec_read_count = Constant 2, spec_read_length = Constant 1,
      spec_runtime = Constant 1\<rparr>"

definition COST_FT_TRANSFER :: simple_cost_specification where
  "COST_FT_TRANSFER =
     \<lparr>spec_write_count = Constant 2, spec_write_length = Constant 1,
      spec_read_count = Constant 2, spec_read_length = Constant 1,
      spec_runtime = Constant 1\<rparr>"

definition COST_FT_BALANCE :: simple_cost_specification where
  "COST_FT_BALANCE =
     \<lparr>spec_write_count = Constant 0, spec_write_length = Constant 0,
      spec_read_count = Constant 1, spec_read_length = Constant 1,
      spec_runtime = Constant 1\<rparr>"

definition COST_NFT_MINT :: simple_cost_specification where
  "COST_NFT_MINT =
     \<lparr>spec_write_count = Constant 1, spec_write_length = Constant 1,
      spec_read_count = Constant 1, spec_read_length = Constant 1,
      spec_runtime = Linear 1 1\<rparr>"

definition COST_NFT_TRANSFER :: simple_cost_specification where
  "COST_NFT_TRANSFER =
     \<lparr>spec_write_count = Constant 1, spec_write_length = Constant 1,
      spec_read_count = Constant 1, spec_read_length = Constant 1,
      spec_runtime = Linear 1 1\<rparr>"

definition COST_NFT_OWNER :: simple_cost_specification where
  "COST_NFT_OWNER =
     \<lparr>spec_write_count = Constant 0, spec_write_length = Constant 0,
      spec_read_count = Constant 1, spec_read_length = Constant 1,
      spec_runtime = Linear 1 1\<rparr>"

definition cost_table :: "simple_cost_specification list" where
  "cost_table = [COST_ANALYSIS_TYPE_ANNOTATE, COST_ANALYSIS_TYPE_CHECK, COST_ANALYSIS_TYPE_LOOKUP,
     COST_ANALYSIS_VISIT, COST_ANALYSIS_ITERABLE_FUNC, COST_ANALYSIS_OPTION_CONS,
     COST_ANALYSIS_OPTION_CHECK, COST_ANALYSIS_BIND_NAME, COST_ANALYSIS_LIST_ITEMS_CHECK,
     COST_ANALYSIS_CHECK_TUPLE_GET, COST_ANALYSIS_CHECK_TUPLE_CONS, COST_ANALYSIS_TUPLE_ITEMS_CHECK,
     COST_ANALYSIS_CHECK_LET, COST_ANALYSIS_LOOKUP_FUNCTION, COST_ANALYSIS_LOOKUP_FUNCTION_TYPES,
     COST_ANALYSIS_LOOKUP_VARIABLE_CONST, COST_ANALYSIS_LOOKUP_VARIABLE_DEPTH, COST_AST_PARSE,
     COST_AST_CYCLE_DETECTION, COST_ANALYSIS_STORAGE, COST_ANALYSIS_USE_TRAIT_ENTRY,
     COST_ANALYSIS_GET_FUNCTION_ENTRY, COST_ANALYSIS_FETCH_CONTRACT_ENTRY, COST_LOOKUP_VARIABLE_DEPTH,
     COST_LOOKUP_VARIABLE_SIZE, COST_LOOKUP_FUNCTION, COST_BIND_NAME, COST_INNER_TYPE_CHECK_COST,
     COST_USER_FUNCTION_APPLICATION, COST_LET, COST_IF, COST_ASSERTS, COST_MAP, COST_FILTER, COST_LEN,
     COST_FOLD, COST_LIST_CONS, COST_TYPE_PARSE_STEP, COST_DATA_HASH_COST, COST_TUPLE_GET,
     COST_TUPLE_CONS, COST_ADD, COST_SUB, COST_MUL, COST_DIV, COST_GEQ, COST_LEQ, COST_LE, COST_GE,
     COST_INT_CAST, COST_MOD, COST_POW, COST_XOR, COST_NOT, COST_EQ, COST_BEGIN, COST_HASH160,
     COST_SHA256, COST_SHA512, COST_SHA512T256, COST_KECCAK256, COST_PRINT, COST_SOME_CONS,
     COST_OK_CONS, COST_ERR_CONS, COST_DEFAULT_TO, COST_UNWRAP_RET, COST_UNWRAP_ERR_OR_RET,
     COST_IS_OKAY, COST_IS_NONE, COST_IS_ERR, COST_IS_SOME, COST_UNWRAP, COST_UNWRAP_ERR, COST_TRY_RET,
     COST_MATCH, COST_OR, COST_AND, COST_APPEND, COST_CONCAT, COST_AS_MAX_LEN, COST_CONTRACT_CALL,
     COST_AT_BLOCK, COST_LOAD_CONTRACT, COST_CREATE_MAP, COST_CREATE_VAR, COST_CREATE_NFT,
     COST_CREATE_FT, COST_FETCH_ENTRY, COST_SET_ENTRY, COST_FETCH_VAR, COST_SET_VAR,
     COST_CONTRACT_STORAGE, COST_BLOCK_INFO, COST_STX_TRANSFER, COST_FT_MINT, COST_FT_TRANSFER,
     COST_FT_BALANCE, COST_NFT_MINT, COST_NFT_TRANSFER, COST_NFT_OWNER]"

lemmas cost_table_defs = COST_ANALYSIS_TYPE_ANNOTATE_def COST_ANALYSIS_TYPE_CHECK_def COST_ANALYSIS_TYPE_LOOKUP_def COST_ANALYSIS_VISIT_def
  COST_ANALYSIS_ITERABLE_FUNC_def COST_ANALYSIS_OPTION_CONS_def COST_ANALYSIS_OPTION_CHECK_def COST_ANALYSIS_BIND_NAME_def
  COST_ANALYSIS_LIST_ITEMS_CHECK_def COST_ANALYSIS_CHECK_TUPLE_GET_def COST_ANALYSIS_CHECK_TUPLE_CONS_def COST_ANALYSIS_TUPLE_ITEMS_CHECK_def
  COST_ANALYSIS_CHECK_LET_def COST_ANALYSIS_LOOKUP_FUNCTION_def COST_ANALYSIS_LOOKUP_FUNCTION_TYPES_def COST_ANALYSIS_LOOKUP_VARIABLE_CONST_def
  COST_ANALYSIS_LOOKUP_VARIABLE_DEPTH_def COST_AST_PARSE_def COST_AST_CYCLE_DETECTION_def COST_ANALYSIS_STORAGE_def
  COST_ANALYSIS_USE_TRAIT_ENTRY_def COST_ANALYSIS_GET_FUNCTION_ENTRY_def COST_ANALYSIS_FETCH_CONTRACT_ENTRY_def COST_LOOKUP_VARIABLE_DEPTH_def
  COST_LOOKUP_VARIABLE_SIZE_def COST_LOOKUP_FUNCTION_def COST_BIND_NAME_def COST_INNER_TYPE_CHECK_COST_def
  COST_USER_FUNCTION_APPLICATION_def COST_LET_def COST_IF_def COST_ASSERTS_def
  COST_MAP_def COST_FILTER_def COST_LEN_def COST_FOLD_def
  COST_LIST_CONS_def COST_TYPE_PARSE_STEP_def COST_DATA_HASH_COST_def COST_TUPLE_GET_def
  COST_TUPLE_CONS_def COST_ADD_def COST_SUB_def COST_MUL_def
  COST_DIV_def COST_GEQ_def COST_LEQ_def COST_LE_def
  COST_GE_def COST_INT_CAST_def COST_MOD_def COST_POW_def
  COST_XOR_def COST_NOT_def COST_EQ_def COST_BEGIN_def
  COST_HASH160_def COST_SHA256_def COST_SHA512_def COST_SHA512T256_def
  COST_KECCAK256_def COST_PRINT_def COST_SOME_CONS_def COST_OK_CONS_def
  COST_ERR_CONS_def COST_DEFAULT_TO_def COST_UNWRAP_RET_def COST_UNWRAP_ERR_OR_RET_def
  COST_IS_OKAY_def COST_IS_NONE_def COST_IS_ERR_def COST_IS_SOME_def
  COST_UNWRAP_def COST_UNWRAP_ERR_def COST_TRY_RET_def COST_MATCH_def
  COST_OR_def COST_AND_def COST_APPEND_def COST_CONCAT_def
  COST_AS_MAX_LEN_def COST_CONTRACT_CALL_def COST_AT_BLOCK_def COST_LOAD_CONTRACT_def
  COST_CREATE_MAP_def COST_CREATE_VAR_def COST_CREATE_NFT_def COST_CREATE_FT_def
  COST_FETCH_ENTRY_def COST_SET_ENTRY_def COST_FETCH_VAR_def COST_SET_VAR_def
  COST_CONTRACT_STORAGE_def COST_BLOCK_INFO_def COST_STX_TRANSFER_def COST_FT_MINT_def
  COST_FT_TRANSFER_def COST_FT_BALANCE_def COST_NFT_MINT_def COST_NFT_TRANSFER_def
  COST_NFT_OWNER_def

definition AS_CONTRACT_MEMORY :: u64 where
  "AS_CONTRACT_MEMORY = 1"

definition AT_BLOCK_MEMORY :: u64 where
  "AT_BLOCK_MEMORY = 1"

text \<open>\<open>TypeCheckCost\<close>: checking a value against a type costs by the size of the type.\<close>

definition type_check_cost :: "type_signature \<Rightarrow> (execution_cost, cost_errors) outcome" where
  "type_check_cost t = and_then (type_sig_size t) (\<lambda>n. compute_cost COST_INNER_TYPE_CHECK_COST (ucast n))"

section \<open>No overflow on ordinary inputs\<close>

fun modest :: "cost_function \<Rightarrow> bool" where
  "modest (Constant v) \<longleftrightarrow> v \<le> 2"
| "modest (Linear a b) \<longleftrightarrow> a \<le> 1 \<and> b \<le> 1"
| "modest (NLogN a b) \<longleftrightarrow> a \<le> 1 \<and> b \<le> 1"
| "modest (LogN a b) \<longleftrightarrow> a \<le> 1 \<and> b \<le> 1"

definition modest_spec :: "simple_cost_specification \<Rightarrow> bool" where
  "modest_spec sp \<longleftrightarrow>
     modest (spec_write_count sp) \<and> modest (spec_write_length sp) \<and> modest (spec_read_count sp) \<and>
     modest (spec_read_length sp) \<and> modest (spec_runtime sp)"

lemma cost_mul_fits:
  "unat a * unat b < 2 ^ 64 \<Longrightarrow> \<exists>c. cost_overflow_mul a b = Ok c \<and> unat c = unat a * unat b"
  by (auto simp: cost_overflow_mul_def checked_mul_def unat_word_ariths)

lemma cost_add_fits:
  "unat a + unat b < 2 ^ 64 \<Longrightarrow> \<exists>c. cost_overflow_add a b = Ok c \<and> unat c = unat a + unat b"
  by (auto simp: cost_overflow_add_def checked_add_def unat_word_ariths)

lemma modest_factor: "a \<le> (1 :: u64) \<Longrightarrow> unat a \<le> 1"
  by (simp add: word_le_nat_alt)

lemma cost_scale_fits:
  assumes "a \<le> (1 :: u64)" "b \<le> 1" "unat x < 2 ^ 63"
  shows "\<exists>c. and_then (cost_overflow_mul x a) (\<lambda>y. cost_overflow_add y b) = Ok c \<and> unat c \<le> unat x + 1"
    and "\<exists>c. and_then (cost_overflow_mul a x) (\<lambda>y. cost_overflow_add y b) = Ok c \<and> unat c \<le> unat x + 1"
proof -
  have ab: "unat a \<le> 1" "unat b \<le> 1" using modest_factor assms by blast+
  then have le: "unat x * unat a \<le> unat x" by (cases "unat a") auto
  also have "\<dots> < 2 ^ 64" using assms(3) by simp
  finally have fit: "unat x * unat a < 2 ^ 64" .
  obtain y where y: "cost_overflow_mul x a = Ok y" "unat y = unat x * unat a"
    using cost_mul_fits [OF fit] by blast
  obtain y' where y': "cost_overflow_mul a x = Ok y'" "unat y' = unat x * unat a"
    using cost_mul_fits [of a x] fit by (auto simp: mult.commute)
  have sum: "unat x * unat a + unat b \<le> unat x + 1" using le ab(2) by (rule add_mono)
  also have "\<dots> < 2 ^ 64" using assms(3) by simp
  finally have fit': "unat x * unat a + unat b < 2 ^ 64" .
  show "\<exists>c. and_then (cost_overflow_mul x a) (\<lambda>y. cost_overflow_add y b) = Ok c \<and> unat c \<le> unat x + 1"
    using cost_add_fits [of y b] sum fit' y by auto
  show "\<exists>c. and_then (cost_overflow_mul a x) (\<lambda>y. cost_overflow_add y b) = Ok c \<and> unat c \<le> unat x + 1"
    using cost_add_fits [of y' b] sum fit' y' by auto
qed

lemma log_input: "\<exists>l. int_log2 (max n 1) = Some l \<and> unat l \<le> 64"
proof -
  have "max n 1 \<noteq> 0" by (auto simp: max_def)
  then obtain k where "int_log2 (max n 1) = Some (word_of_nat k)" "k \<le> 64" by (rule int_log2_spec)
  then show ?thesis by (simp add: unat_of_nat)
qed

lemma modest_fits:
  assumes "modest f" "unat n < 2 ^ 57"
  shows "\<exists>c. cost_function_compute f n = Ok c \<and> unat c \<le> 64 * unat n + 65"
proof -
  obtain l where l: "int_log2 (max n 1) = Some l" "unat l \<le> 64" using log_input by blast
  have le: "unat l * unat n \<le> 64 * unat n" using l(2) by (rule mult_le_mono1)
  also have "\<dots> < 2 ^ 64" using assms(2) by simp
  finally have "unat l * unat n < 2 ^ 64" .
  with le obtain y where y: "cost_overflow_mul l n = Ok y" "unat y \<le> 64 * unat n"
    using cost_mul_fits [of l n] by auto
  show ?thesis
  proof (cases f)
    case (Constant v)
    with assms(1) have "unat v \<le> 2" by (simp add: word_le_nat_alt)
    with Constant show ?thesis by auto
  next
    case (Linear a b)
    with assms cost_scale_fits(2) [of a b n] show ?thesis by (auto intro: order_trans)
  next
    case (NLogN a b)
    with assms y l cost_scale_fits(1) [of a b y] show ?thesis by (auto intro: order_trans)
  next
    case (LogN a b)
    with assms l cost_scale_fits(1) [of a b l] show ?thesis by (auto intro: order_trans)
  qed
qed

lemma modest_spec_fits:
  assumes "modest_spec sp" "unat n < 2 ^ 57"
  shows "\<exists>c. compute_cost sp n = Ok c \<and> list_all (\<lambda>d. unat (d c) \<le> 64 * unat n + 65) cost_dims"
proof -
  note fits = modest_fits [OF _ assms(2)]
  obtain wl wc rc rl rt where
    "cost_function_compute (spec_write_length sp) n = Ok wl" "unat wl \<le> 64 * unat n + 65"
    "cost_function_compute (spec_write_count sp) n = Ok wc" "unat wc \<le> 64 * unat n + 65"
    "cost_function_compute (spec_read_count sp) n = Ok rc" "unat rc \<le> 64 * unat n + 65"
    "cost_function_compute (spec_read_length sp) n = Ok rl" "unat rl \<le> 64 * unat n + 65"
    "cost_function_compute (spec_runtime sp) n = Ok rt" "unat rt \<le> 64 * unat n + 65"
    using assms(1) fits unfolding modest_spec_def by meson
  then show ?thesis by (simp add: compute_cost_def cost_dims_def)
qed

lemma cost_table_modest: "list_all modest_spec cost_table"
  by (simp add: cost_table_def cost_table_defs modest_spec_def runtime_only_def)

text \<open>the table of charges never overflows on inputs of less than 57 bits: every entry yields a cost, and no
  dimension of it exceeds 64 times the input size plus 65.\<close>

theorem cost_table_fits:
  assumes "unat n < 2 ^ 57"
  shows "list_all (\<lambda>sp. \<exists>c. compute_cost sp n = Ok c \<and> list_all (\<lambda>d. unat (d c) \<le> 64 * unat n + 65) cost_dims) cost_table"
  using modest_spec_fits [OF _ assms] cost_table_modest by (auto simp: list_all_iff)

theorem cost_table_fits_witness:
  "\<exists>c. compute_cost COST_TUPLE_CONS 1000 = Ok c \<and> list_all (\<lambda>d. unat (d c) \<le> 64065) cost_dims"
  using cost_table_fits [of 1000] by (simp add: cost_table_def list_all_def)

end
