(* ===== verification/Arithmetic_Natives.thy ===== *)
theory Arithmetic_Natives
  imports Values
begin

text \<open>
  The arithmetic functions of Clarity, \<open>src/src/vm/functions/arithmetic.rs\<close>.

  The source instantiates one macro for \<open>u128\<close> and one for \<open>i128\<close>; here the type is an argument. A word
  stands for the number \<open>num t w\<close>, and a checked operation of the Rust library returns the word for the exact
  result when that is in range. The theorems relate the functions to integer arithmetic.
\<close>

section \<open>The two integer types\<close>

datatype int_ops = I128Ops | U128Ops

definition num :: "int_ops \<Rightarrow> 128 word \<Rightarrow> int" where
  "num t w = (case t of I128Ops \<Rightarrow> sint w | U128Ops \<Rightarrow> uint w)"

definition in_range :: "int_ops \<Rightarrow> int \<Rightarrow> bool" where
  "in_range t n = (case t of I128Ops \<Rightarrow> - (2 ^ 127) \<le> n \<and> n < 2 ^ 127 | U128Ops \<Rightarrow> 0 \<le> n \<and> n < 2 ^ 128)"

definition checked :: "int_ops \<Rightarrow> int \<Rightarrow> 128 word option" where
  "checked t n = (if in_range t n then Some (word_of_int n) else None)"

definition make_value :: "int_ops \<Rightarrow> 128 word \<Rightarrow> val" where
  "make_value t w = (case t of I128Ops \<Rightarrow> VInt w | U128Ops \<Rightarrow> VUInt w)"

definition ops_type :: "int_ops \<Rightarrow> type_signature" where
  "ops_type t = (case t of I128Ops \<Rightarrow> IntType | U128Ops \<Rightarrow> UIntType)"

text \<open>Rust's division rounds towards zero; the remainder has the sign of the dividend.\<close>

definition trunc_div :: "int \<Rightarrow> int \<Rightarrow> int" where
  "trunc_div a b = sgn a * sgn b * (\<bar>a\<bar> div \<bar>b\<bar>)"

definition trunc_rem :: "int \<Rightarrow> int \<Rightarrow> int" where
  "trunc_rem a b = a - b * trunc_div a b"

definition checked_div :: "int_ops \<Rightarrow> 128 word \<Rightarrow> 128 word \<Rightarrow> 128 word option" where
  "checked_div t x y = (if y = 0 then None else checked t (trunc_div (num t x) (num t y)))"

text \<open>\<open>checked_rem\<close> also fails when the quotient does not fit, as in \<open>i128::MIN % -1\<close>.\<close>

definition checked_rem :: "int_ops \<Rightarrow> 128 word \<Rightarrow> 128 word \<Rightarrow> 128 word option" where
  "checked_rem t x y =
     (if y = 0 \<or> \<not> in_range t (trunc_div (num t x) (num t y)) then None
      else checked t (trunc_rem (num t x) (num t y)))"

section \<open>The operations\<close>

definition ops_xor :: "int_ops \<Rightarrow> 128 word \<Rightarrow> 128 word \<Rightarrow> (val, vm_error) outcome" where
  "ops_xor t x y = Ok (make_value t (Bit_Operations.xor x y))"

definition ops_leq :: "int_ops \<Rightarrow> 128 word \<Rightarrow> 128 word \<Rightarrow> (val, vm_error) outcome" where
  "ops_leq t x y = Ok (VBool (num t x \<le> num t y))"

definition ops_geq :: "int_ops \<Rightarrow> 128 word \<Rightarrow> 128 word \<Rightarrow> (val, vm_error) outcome" where
  "ops_geq t x y = Ok (VBool (num t x \<ge> num t y))"

definition ops_greater :: "int_ops \<Rightarrow> 128 word \<Rightarrow> 128 word \<Rightarrow> (val, vm_error) outcome" where
  "ops_greater t x y = Ok (VBool (num t x > num t y))"

definition ops_less :: "int_ops \<Rightarrow> 128 word \<Rightarrow> 128 word \<Rightarrow> (val, vm_error) outcome" where
  "ops_less t x y = Ok (VBool (num t x < num t y))"

definition ops_add :: "int_ops \<Rightarrow> 128 word list \<Rightarrow> (val, vm_error) outcome" where
  "ops_add t args =
     and_then (ok_or (Runtime ArithmeticOverflow) (try_fold (\<lambda>acc x. checked t (num t acc + num t x)) 0 args)) (\<lambda>r.
       Ok (make_value t r))"

definition ops_sub :: "int_ops \<Rightarrow> 128 word list \<Rightarrow> (val, vm_error) outcome" where
  "ops_sub t args =
     (case args of
        [] \<Rightarrow> Err (Unchecked (IncorrectArgumentCount 1 0))
      | first # rest \<Rightarrow>
          if rest = [] then
            and_then (ok_or (Runtime ArithmeticUnderflow) (checked t (- num t first))) (\<lambda>r. Ok (make_value t r))
          else
            and_then (ok_or (Runtime ArithmeticUnderflow) (try_fold (\<lambda>acc x. checked t (num t acc - num t x)) first rest)) (\<lambda>r.
              Ok (make_value t r)))"

definition ops_mul :: "int_ops \<Rightarrow> 128 word list \<Rightarrow> (val, vm_error) outcome" where
  "ops_mul t args =
     and_then (ok_or (Runtime ArithmeticOverflow) (try_fold (\<lambda>acc x. checked t (num t acc * num t x)) 1 args)) (\<lambda>r.
       Ok (make_value t r))"

definition ops_div :: "int_ops \<Rightarrow> 128 word list \<Rightarrow> (val, vm_error) outcome" where
  "ops_div t args =
     (case args of
        [] \<Rightarrow> Err (Unchecked (IncorrectArgumentCount 1 0))
      | first # rest \<Rightarrow>
          and_then (ok_or (Runtime DivisionByZero) (try_fold (checked_div t) first rest)) (\<lambda>r.
            Ok (make_value t r)))"

definition ops_modulo :: "int_ops \<Rightarrow> 128 word \<Rightarrow> 128 word \<Rightarrow> (val, vm_error) outcome" where
  "ops_modulo t numerator denominator =
     and_then (ok_or (Runtime DivisionByZero) (checked_rem t numerator denominator)) (\<lambda>r. Ok (make_value t r))"

definition ops_pow :: "int_ops \<Rightarrow> 128 word \<Rightarrow> 128 word \<Rightarrow> (val, vm_error) outcome" where
  "ops_pow t base expo =
     (if num t expo < 0 \<or> num t expo > 2 ^ 32 - 1
      then Err (Runtime (Arithmetic ''Power argument to (pow ...) must be a u32 integer''))
      else and_then (ok_or (Runtime ArithmeticOverflow) (checked t (num t base ^ nat (num t expo)))) (\<lambda>r.
        Ok (make_value t r)))"

section \<open>Dispatch on the arguments\<close>

definition int_or_uint :: "val \<Rightarrow> vm_error" where
  "int_or_uint v = Unchecked (UnionTypeValueError [IntType, UIntType] v)"

definition type_force_binary_arithmetic :: "(int_ops \<Rightarrow> 128 word \<Rightarrow> 128 word \<Rightarrow> (val, vm_error) outcome) \<Rightarrow>
    val \<Rightarrow> val \<Rightarrow> (val, vm_error) outcome" where
  "type_force_binary_arithmetic f a b =
     (case (a, b) of
        (VInt x, VInt y) \<Rightarrow> f I128Ops x y
      | (VUInt x, VUInt y) \<Rightarrow> f U128Ops x y
      | (x, _) \<Rightarrow> Err (int_or_uint x))"

definition typed_arg :: "int_ops \<Rightarrow> val \<Rightarrow> (128 word, vm_error) outcome" where
  "typed_arg t v =
     (case (t, v) of
        (I128Ops, VInt x) \<Rightarrow> Ok x
      | (U128Ops, VUInt x) \<Rightarrow> Ok x
      | _ \<Rightarrow> Err (Unchecked (TypeValueError (ops_type t) v)))"

definition type_force_variadic_arithmetic :: "(int_ops \<Rightarrow> 128 word list \<Rightarrow> (val, vm_error) outcome) \<Rightarrow>
    val list \<Rightarrow> (val, vm_error) outcome" where
  "type_force_variadic_arithmetic f args =
     (case args of
        [] \<Rightarrow> Err (Unchecked (IncorrectArgumentCount 1 0))
      | VInt _ # _ \<Rightarrow> and_then (collect (typed_arg I128Ops) args) (f I128Ops)
      | VUInt _ # _ \<Rightarrow> and_then (collect (typed_arg U128Ops) args) (f U128Ops)
      | first # _ \<Rightarrow> Err (int_or_uint first))"

definition native_xor :: "val \<Rightarrow> val \<Rightarrow> (val, vm_error) outcome" where
  "native_xor = type_force_binary_arithmetic ops_xor"

definition native_geq :: "val \<Rightarrow> val \<Rightarrow> (val, vm_error) outcome" where
  "native_geq = type_force_binary_arithmetic ops_geq"

definition native_leq :: "val \<Rightarrow> val \<Rightarrow> (val, vm_error) outcome" where
  "native_leq = type_force_binary_arithmetic ops_leq"

definition native_ge :: "val \<Rightarrow> val \<Rightarrow> (val, vm_error) outcome" where
  "native_ge = type_force_binary_arithmetic ops_greater"

definition native_le :: "val \<Rightarrow> val \<Rightarrow> (val, vm_error) outcome" where
  "native_le = type_force_binary_arithmetic ops_less"

definition native_add :: "val list \<Rightarrow> (val, vm_error) outcome" where
  "native_add = type_force_variadic_arithmetic ops_add"

definition native_sub :: "val list \<Rightarrow> (val, vm_error) outcome" where
  "native_sub = type_force_variadic_arithmetic ops_sub"

definition native_mul :: "val list \<Rightarrow> (val, vm_error) outcome" where
  "native_mul = type_force_variadic_arithmetic ops_mul"

definition native_div :: "val list \<Rightarrow> (val, vm_error) outcome" where
  "native_div = type_force_variadic_arithmetic ops_div"

definition native_pow :: "val \<Rightarrow> val \<Rightarrow> (val, vm_error) outcome" where
  "native_pow = type_force_binary_arithmetic ops_pow"

definition native_mod :: "val \<Rightarrow> val \<Rightarrow> (val, vm_error) outcome" where
  "native_mod = type_force_binary_arithmetic ops_modulo"

definition native_to_uint :: "val \<Rightarrow> (val, vm_error) outcome" where
  "native_to_uint input =
     (case input of
        VInt i \<Rightarrow> if sint i \<ge> 0 then Ok (VUInt i) else Err (Runtime ArithmeticUnderflow)
      | _ \<Rightarrow> Err (Unchecked (TypeValueError IntType input)))"

definition native_to_int :: "val \<Rightarrow> (val, vm_error) outcome" where
  "native_to_int input =
     (case input of
        VUInt u \<Rightarrow> if uint u < 2 ^ 127 then Ok (VInt u) else Err (Runtime ArithmeticOverflow)
      | _ \<Rightarrow> Err (Unchecked (TypeValueError UIntType input)))"

section \<open>Words and numbers\<close>

lemma in_range_num: "in_range t (num t w)"
proof (cases t)
  case I128Ops
  have "- (2 ^ 127) \<le> sint w \<and> sint w < 2 ^ 127" using sint_range_size [of w] by (simp add: word_size)
  with I128Ops show ?thesis by (simp add: in_range_def num_def)
next
  case U128Ops
  have "uint w < 2 ^ 128" using uint_lt2p [of w] by simp
  with U128Ops show ?thesis by (simp add: in_range_def num_def)
qed

lemma num_word_of_int: "in_range t n \<Longrightarrow> num t (word_of_int n) = n"
  by (cases t) (auto simp: in_range_def num_def sint_sbintrunc' signed_take_bit_int_eq_self
      uint_word_of_int_eq take_bit_int_eq_self)

lemma num_inject: "num t x = num t y \<longleftrightarrow> x = y"
proof (cases t)
  case I128Ops
  have "sint x = sint y \<longleftrightarrow> x = y" by (auto intro: signed_word_eqI)
  with I128Ops show ?thesis by (simp add: num_def)
qed (simp add: num_def word_uint_eq_iff)

lemma word_of_num [simp]: "word_of_int (num t w) = w"
  using num_inject [of t "word_of_int (num t w)" w] num_word_of_int [OF in_range_num, of t w] by (rule iffD1)

lemma num_zero_one [simp]: "num t 0 = 0" "num t 1 = 1"
  by (cases t; simp add: num_def)+

lemma checked_Some: "checked t n = Some w \<longleftrightarrow> in_range t n \<and> num t w = n"
  using num_word_of_int [of t n] num_inject [of t w "word_of_int n"] by (auto simp: checked_def)

text \<open>Every partial result of a fold over the arguments is in range.\<close>

definition partials_fit :: "int_ops \<Rightarrow> (int \<Rightarrow> int \<Rightarrow> int) \<Rightarrow> int \<Rightarrow> 128 word list \<Rightarrow> bool" where
  "partials_fit t f a xs = list_all (\<lambda>k. in_range t (foldl f a (map (num t) (take k xs)))) [0..<length xs + 1]"

lemma partials_fit_iff: "partials_fit t f a xs \<longleftrightarrow> (\<forall>k \<le> length xs. in_range t (foldl f a (map (num t) (take k xs))))"
  by (auto simp: partials_fit_def list_all_iff less_Suc_eq_le)

lemma partials_fit_Nil [simp]: "partials_fit t f a [] \<longleftrightarrow> in_range t a"
  by (simp add: partials_fit_iff)

lemma partials_fit_Cons: "partials_fit t f a (x # xs) \<longleftrightarrow> in_range t a \<and> partials_fit t f (f a (num t x)) xs"
proof
  assume *: "partials_fit t f a (x # xs)"
  have "in_range t (foldl f (f a (num t x)) (map (num t) (take k xs)))" if "k \<le> length xs" for k
    using * [unfolded partials_fit_iff, rule_format, of "Suc k"] that by simp
  moreover have "in_range t a" using * [unfolded partials_fit_iff, rule_format, of 0] by simp
  ultimately show "in_range t a \<and> partials_fit t f (f a (num t x)) xs" by (simp add: partials_fit_iff)
next
  assume *: "in_range t a \<and> partials_fit t f (f a (num t x)) xs"
  have "in_range t (foldl f a (map (num t) (take k (x # xs))))" if "k \<le> length (x # xs)" for k
    using * that by (cases k) (auto simp: partials_fit_iff)
  then show "partials_fit t f a (x # xs)" by (simp add: partials_fit_iff)
qed

lemma try_fold_checked:
  "try_fold (\<lambda>acc x. checked t (f (num t acc) (num t x))) a xs =
     (if partials_fit t f (num t a) xs then Some (word_of_int (foldl f (num t a) (map (num t) xs))) else None)"
proof (induction xs arbitrary: a)
  case Nil
  then show ?case by (simp add: in_range_num)
next
  case (Cons x xs)
  show ?case
  proof (cases "in_range t (f (num t a) (num t x))")
    case True
    then have "num t (word_of_int (f (num t a) (num t x))) = f (num t a) (num t x)" by (rule num_word_of_int)
    with True Cons show ?thesis by (simp add: checked_def partials_fit_Cons in_range_num)
  next
    case False
    then have "\<not> partials_fit t f (f (num t a) (num t x)) xs"
      unfolding partials_fit_iff by (auto intro: exI [of _ 0])
    with False show ?thesis by (simp add: checked_def partials_fit_Cons)
  qed
qed

lemma collect_typed: "collect (typed_arg t) (map (make_value t) xs) = Ok xs"
  by (induction xs) (auto simp: typed_arg_def make_value_def split: int_ops.splits)

lemma variadic_typed:
  "type_force_variadic_arithmetic f (map (make_value t) (x # xs)) = f t (x # xs)"
  using collect_typed [of t "x # xs"]
  by (cases t) (auto simp: type_force_variadic_arithmetic_def make_value_def)

lemma foldl_numbers:
  fixes ns :: "int list"
  shows "foldl (+) a ns = a + sum_list ns" "foldl (-) a ns = a - sum_list ns" "foldl (*) a ns = a * prod_list ns"
  by (induction ns arbitrary: a) (simp_all add: algebra_simps)

section \<open>Properties\<close>

text \<open>C35: sums, differences and products are exact. On one or more arguments of one integer type, the functions
  return the value of the mathematical result when every partial result, from left to right, is in the range
  of the type, and report an overflow or underflow otherwise; a difference with one argument is its negation.\<close>

theorem sums_and_products_exact:
  "native_add (map (make_value t) (x # xs)) =
     (if partials_fit t (+) 0 (x # xs) then Ok (make_value t (word_of_int (sum_list (map (num t) (x # xs)))))
      else Err (Runtime ArithmeticOverflow)) \<and>
   native_mul (map (make_value t) (x # xs)) =
     (if partials_fit t (*) 1 (x # xs) then Ok (make_value t (word_of_int (prod_list (map (num t) (x # xs)))))
      else Err (Runtime ArithmeticOverflow)) \<and>
   native_sub (map (make_value t) (x # y # xs)) =
     (if partials_fit t (-) (num t x) (y # xs)
      then Ok (make_value t (word_of_int (num t x - sum_list (map (num t) (y # xs)))))
      else Err (Runtime ArithmeticUnderflow)) \<and>
   native_sub [make_value t x] =
     (if in_range t (- num t x) then Ok (make_value t (word_of_int (- num t x))) else Err (Runtime ArithmeticUnderflow))"
proof (intro conjI)
  have "native_add (map (make_value t) (x # xs)) = ops_add t (x # xs)"
    unfolding native_add_def by (rule variadic_typed)
  then show "native_add (map (make_value t) (x # xs)) =
     (if partials_fit t (+) 0 (x # xs) then Ok (make_value t (word_of_int (sum_list (map (num t) (x # xs)))))
      else Err (Runtime ArithmeticOverflow))"
    by (simp add: ops_add_def try_fold_checked foldl_numbers del: try_fold.simps)
  have "native_mul (map (make_value t) (x # xs)) = ops_mul t (x # xs)"
    unfolding native_mul_def by (rule variadic_typed)
  then show "native_mul (map (make_value t) (x # xs)) =
     (if partials_fit t (*) 1 (x # xs) then Ok (make_value t (word_of_int (prod_list (map (num t) (x # xs)))))
      else Err (Runtime ArithmeticOverflow))"
    by (simp add: ops_mul_def try_fold_checked foldl_numbers del: try_fold.simps)
  have "native_sub (map (make_value t) (x # y # xs)) = ops_sub t (x # y # xs)"
    unfolding native_sub_def by (rule variadic_typed)
  then show "native_sub (map (make_value t) (x # y # xs)) =
     (if partials_fit t (-) (num t x) (y # xs)
      then Ok (make_value t (word_of_int (num t x - sum_list (map (num t) (y # xs)))))
      else Err (Runtime ArithmeticUnderflow))"
    by (simp add: ops_sub_def try_fold_checked foldl_numbers diff_diff_eq del: try_fold.simps)
  have "native_sub (map (make_value t) [x]) = ops_sub t [x]"
    unfolding native_sub_def by (rule variadic_typed)
  then show "native_sub [make_value t x] =
     (if in_range t (- num t x) then Ok (make_value t (word_of_int (- num t x))) else Err (Runtime ArithmeticUnderflow))"
    by (simp add: ops_sub_def checked_def)
qed

text \<open>Truncated division satisfies the division equation, with a remainder smaller than the divisor.\<close>

lemma trunc_div_rem:
  assumes "b \<noteq> 0"
  shows "a = b * trunc_div a b + trunc_rem a b" "\<bar>trunc_rem a b\<bar> < \<bar>b\<bar>" "trunc_rem a b = 0 \<or> sgn (trunc_rem a b) = sgn a"
proof -
  have eq: "trunc_rem a b = sgn a * (\<bar>a\<bar> mod \<bar>b\<bar>)"
  proof -
    have "b * (sgn a * sgn b * (\<bar>a\<bar> div \<bar>b\<bar>)) = sgn a * (\<bar>b\<bar> * (\<bar>a\<bar> div \<bar>b\<bar>))"
      by (simp add: abs_sgn [of b] algebra_simps)
    moreover have "a = sgn a * \<bar>a\<bar>" by (simp add: sgn_mult_abs)
    ultimately show ?thesis
      by (simp add: trunc_rem_def trunc_div_def minus_mult_div_eq_mod [symmetric] right_diff_distrib)
  qed
  define m where "m = \<bar>a\<bar> mod \<bar>b\<bar>"
  have m: "m < \<bar>b\<bar>" "0 \<le> m" using assms by (simp_all add: m_def)
  have rem: "trunc_rem a b = sgn a * m" by (simp add: eq m_def)
  show "\<bar>trunc_rem a b\<bar> < \<bar>b\<bar>" using m assms by (simp add: rem abs_mult abs_sgn_eq)
  show "trunc_rem a b = 0 \<or> sgn (trunc_rem a b) = sgn a"
    using m(2) by (cases "m = 0") (simp_all add: rem sgn_mult)
  show "a = b * trunc_div a b + trunc_rem a b" by (simp add: trunc_rem_def)
qed

lemma trunc_rem_in_range: "b \<noteq> 0 \<Longrightarrow> in_range t a \<Longrightarrow> in_range t b \<Longrightarrow> in_range t (trunc_rem a b)"
  using trunc_div_rem [of b a] by (cases t) (auto simp: in_range_def sgn_if split: if_splits)

text \<open>The one quotient of nonzero divisor that does not fit: the least \<open>i128\<close> divided by minus one.\<close>

definition quotient_overflows :: "int_ops \<Rightarrow> 128 word \<Rightarrow> 128 word \<Rightarrow> bool" where
  "quotient_overflows t x y \<longleftrightarrow> t = I128Ops \<and> num t x = - (2 ^ 127) \<and> num t y = - 1"

lemma trunc_div_bound:
  assumes "2 \<le> \<bar>b\<bar>"
  shows "\<bar>trunc_div a b\<bar> \<le> \<bar>a\<bar> div 2"
proof -
  have "\<bar>trunc_div a b\<bar> \<le> \<bar>a\<bar> div \<bar>b\<bar>"
    by (simp add: trunc_div_def abs_mult abs_sgn_eq pos_imp_zdiv_nonneg_iff)
  also have "\<bar>a\<bar> div \<bar>b\<bar> \<le> \<bar>a\<bar> div 2" using assms by (intro zdiv_mono2) auto
  finally show ?thesis .
qed

lemma quotient_in_range:
  assumes "y \<noteq> 0"
  shows "in_range t (trunc_div (num t x) (num t y)) \<longleftrightarrow> \<not> quotient_overflows t x y"
proof -
  have nz: "num t y \<noteq> 0" using assms num_inject [of t y 0] by simp
  have rx: "in_range t (num t x)" and ry: "in_range t (num t y)" by (rule in_range_num)+
  show ?thesis
  proof (cases t)
    case U128Ops
    then have nn: "0 \<le> num t x" "0 < num t y" using rx ry nz by (auto simp: in_range_def)
    then have "trunc_div (num t x) (num t y) = num t x div num t y" by (auto simp: trunc_div_def sgn_if)
    moreover have "num t x div num t y \<le> num t x" "0 \<le> num t x div num t y"
      using nn zdiv_mono2 [of "num t x" 1 "num t y"] by (simp_all add: pos_imp_zdiv_nonneg_iff)
    ultimately show ?thesis using rx U128Ops by (simp add: in_range_def quotient_overflows_def)
  next
    case I128Ops
    consider "num t y = 1" | "num t y = - 1" | "2 \<le> \<bar>num t y\<bar>" using nz by linarith
    then show ?thesis
    proof cases
      case 3
      then have "\<bar>trunc_div (num t x) (num t y)\<bar> \<le> \<bar>num t x\<bar> div 2" by (rule trunc_div_bound)
      then show ?thesis using rx I128Ops 3 by (auto simp: in_range_def quotient_overflows_def)
    qed (use rx I128Ops in \<open>auto simp: in_range_def quotient_overflows_def trunc_div_def sgn_if\<close>)
  qed
qed

text \<open>The first example of the reference of \<open>mod\<close> (\<open>vm/docs/mod.rs\<close>) says that \<open>(mod 2 3)\<close> returns 0; it returns 2.\<close>

lemma mod_example: "native_mod (VInt 2) (VInt 3) = Ok (VInt 2)"
  by code_simp

text \<open>C36: division is division with remainder, rounding towards zero. A zero divisor, and the one quotient that does
  not fit, are reported as a division by zero by both functions. Otherwise quotient and remainder
  satisfy the division equation, and the remainder is smaller than the divisor and has the sign of the dividend. This is the remainder that the reference text of
  \<open>mod\<close> describes; its first example gives another result.\<close>

theorem division_exact:
  "if y = 0 \<or> quotient_overflows t x y
   then native_div [make_value t x, make_value t y] = Err (Runtime DivisionByZero) \<and>
     native_mod (make_value t x) (make_value t y) = Err (Runtime DivisionByZero)
   else \<exists>q r. native_div [make_value t x, make_value t y] = Ok (make_value t q) \<and>
     native_mod (make_value t x) (make_value t y) = Ok (make_value t r) \<and>
     num t x = num t y * num t q + num t r \<and> \<bar>num t r\<bar> < \<bar>num t y\<bar> \<and> (num t r = 0 \<or> sgn (num t r) = sgn (num t x))"
proof -
  have div: "native_div [make_value t x, make_value t y] = ops_div t [x, y]"
    using variadic_typed [of ops_div t x "[y]"] by (simp add: native_div_def)
  have mod: "native_mod (make_value t x) (make_value t y) = ops_modulo t x y"
    by (cases t) (simp_all add: native_mod_def type_force_binary_arithmetic_def make_value_def)
  have nz: "num t y \<noteq> 0" if "y \<noteq> 0" using that num_inject [of t y 0] by simp
  show ?thesis
  proof (cases "y = 0 \<or> quotient_overflows t x y")
    case True
    then show ?thesis unfolding div mod
      by (auto simp: ops_div_def ops_modulo_def checked_div_def checked_rem_def checked_def quotient_in_range)
  next
    case False
    then have fit: "in_range t (trunc_div (num t x) (num t y))" by (simp add: quotient_in_range)
    have rem: "in_range t (trunc_rem (num t x) (num t y))"
      using False nz by (auto intro!: trunc_rem_in_range in_range_num)
    have "ops_div t [x, y] = Ok (make_value t (word_of_int (trunc_div (num t x) (num t y))))"
      using False fit by (simp add: ops_div_def checked_div_def checked_def)
    moreover have "ops_modulo t x y = Ok (make_value t (word_of_int (trunc_rem (num t x) (num t y))))"
      using False fit rem by (simp add: ops_modulo_def checked_rem_def checked_def)
    moreover have "num t x = num t y * num t (word_of_int (trunc_div (num t x) (num t y))) + num t (word_of_int (trunc_rem (num t x) (num t y))) \<and>
        \<bar>num t (word_of_int (trunc_rem (num t x) (num t y)))\<bar> < \<bar>num t y\<bar> \<and>
        (num t (word_of_int (trunc_rem (num t x) (num t y))) = 0 \<or>
         sgn (num t (word_of_int (trunc_rem (num t x) (num t y)))) = sgn (num t x))"
      unfolding num_word_of_int [OF fit] num_word_of_int [OF rem]
      using False trunc_div_rem [of "num t y" "num t x"] nz by blast
    ultimately show ?thesis using False unfolding div mod by (simp del: word_of_num) blast
  qed
qed

text \<open>an overflowing division is reported as a division by zero: dividing the least 128-bit integer by minus
  one fails with the error for a zero divisor, although the divisor is not zero.\<close>

theorem overflowing_division_reported_as_zero:
  "native_div [VInt (word_of_int (- (2 ^ 127))), VInt (- 1)] = Err (Runtime DivisionByZero) \<and>
   native_mod (VInt (word_of_int (- (2 ^ 127)))) (VInt (- 1)) = Err (Runtime DivisionByZero)"
proof -
  have "num I128Ops (word_of_int (- (2 ^ 127))) = - (2 ^ 127)" by (rule num_word_of_int) (simp add: in_range_def)
  moreover have "num I128Ops (- 1) = - 1" by (simp add: num_def)
  ultimately show ?thesis
    by (simp add: native_div_def native_mod_def type_force_variadic_arithmetic_def type_force_binary_arithmetic_def
        typed_arg_def ops_div_def ops_modulo_def checked_div_def checked_rem_def checked_def in_range_def trunc_div_def)
qed

text \<open>the conversions between the two integer types keep the number. They succeed exactly on the numbers that
  both types have, undo each other there, and otherwise report an underflow or an overflow.\<close>

theorem conversions_exact:
  "native_to_uint (VInt i) =
     (if num I128Ops i \<ge> 0 then Ok (VUInt (word_of_int (num I128Ops i))) else Err (Runtime ArithmeticUnderflow)) \<and>
   native_to_int (VUInt u) =
     (if num U128Ops u < 2 ^ 127 then Ok (VInt (word_of_int (num U128Ops u))) else Err (Runtime ArithmeticOverflow)) \<and>
   (native_to_uint (VInt i) = Ok (VUInt u) \<longleftrightarrow> native_to_int (VUInt u) = Ok (VInt i)) \<and>
   (native_to_uint (VInt i) = Ok (VUInt u) \<longleftrightarrow> num I128Ops i = num U128Ops u)"
proof -
  have pos: "num U128Ops i = num I128Ops i" if "num I128Ops i \<ge> 0"
    using that in_range_num [of I128Ops i] num_word_of_int [of U128Ops "num I128Ops i"] by (simp add: in_range_def)
  have low: "num I128Ops u = num U128Ops u" if "num U128Ops u < 2 ^ 127"
    using that in_range_num [of U128Ops u] num_word_of_int [of I128Ops "num U128Ops u"] by (simp add: in_range_def)
  have uint: "native_to_uint (VInt i) = (if num I128Ops i \<ge> 0 then Ok (VUInt i) else Err (Runtime ArithmeticUnderflow))"
    by (simp add: native_to_uint_def num_def)
  have int: "native_to_int (VUInt u) = (if num U128Ops u < 2 ^ 127 then Ok (VInt u) else Err (Runtime ArithmeticOverflow))"
    by (simp add: native_to_int_def num_def)
  have "num I128Ops i = num U128Ops u \<longleftrightarrow> i = u \<and> num I128Ops i \<ge> 0"
    using pos in_range_num [of U128Ops u] num_inject [of U128Ops i u] by (auto simp: in_range_def)
  moreover have "i = u \<and> num I128Ops i \<ge> 0 \<longleftrightarrow> i = u \<and> num U128Ops u < 2 ^ 127"
    using pos low in_range_num [of I128Ops i] in_range_num [of U128Ops u] by (auto simp: in_range_def)
  ultimately show ?thesis unfolding uint int by auto
qed

end
