(* ===== verification/Natives.thy ===== *)
theory Natives
  imports Arithmetic_Natives
begin

text \<open>
  The native functions of Clarity that work on values alone: options and responses
  (\<open>src/src/vm/functions/options.rs\<close>), negation (\<open>src/src/vm/functions/boolean.rs\<close>), length
  (\<open>src/src/vm/functions/iterables.rs\<close>), equality, \<open>begin\<close> and hashing (\<open>src/src/vm/functions/mod.rs\<close>), and the
  dispatch on the number of arguments (\<open>NativeHandle\<close> in \<open>src/src/vm/callables.rs\<close>). The hash functions
  come from outside the sources and are arguments.
\<close>

section \<open>Argument counts\<close>

definition check_argument_count :: "nat \<Rightarrow> 'a list \<Rightarrow> (unit, vm_error) outcome" where
  "check_argument_count expected args =
     (if length args \<noteq> expected then Err (Unchecked (IncorrectArgumentCount expected (length args))) else Ok ())"

definition check_arguments_at_least :: "nat \<Rightarrow> 'a list \<Rightarrow> (unit, vm_error) outcome" where
  "check_arguments_at_least expected args =
     (if length args < expected then Err (Unchecked (RequiresAtLeastArguments expected (length args))) else Ok ())"

datatype native_handle =
    SingleArg "val \<Rightarrow> (val, vm_error) outcome"
  | DoubleArg "val \<Rightarrow> val \<Rightarrow> (val, vm_error) outcome"
  | MoreArg "val list \<Rightarrow> (val, vm_error) outcome"

definition native_apply :: "native_handle \<Rightarrow> val list \<Rightarrow> (val, vm_error) outcome" where
  "native_apply h args =
     (case h of
        SingleArg f \<Rightarrow> and_then (check_argument_count 1 args) (\<lambda>_. f (args ! 0))
      | DoubleArg f \<Rightarrow> and_then (check_argument_count 2 args) (\<lambda>_. f (args ! 0) (args ! 1))
      | MoreArg f \<Rightarrow> f args)"

section \<open>Options and responses\<close>

definition inner_unwrap :: "val \<Rightarrow> (val option, vm_error) outcome" where
  "inner_unwrap v =
     (case v of
        VOptional d \<Rightarrow> Ok d
      | VResponse committed d \<Rightarrow> Ok (if committed then Some d else None)
      | _ \<Rightarrow> Err (Unchecked (ExpectedOptionalOrResponseValue v)))"

definition inner_unwrap_err :: "val \<Rightarrow> (val option, vm_error) outcome" where
  "inner_unwrap_err v =
     (case v of
        VResponse committed d \<Rightarrow> Ok (if \<not> committed then Some d else None)
      | _ \<Rightarrow> Err (Unchecked (ExpectedResponseValue v)))"

definition native_unwrap :: "val \<Rightarrow> (val, vm_error) outcome" where
  "native_unwrap input = and_then (inner_unwrap input) (ok_or (Runtime UnwrapFailure))"

definition native_unwrap_or_ret :: "val \<Rightarrow> val \<Rightarrow> (val, vm_error) outcome" where
  "native_unwrap_or_ret input thrown = and_then (inner_unwrap input) (ok_or (ShortReturn (ExpectedValue thrown)))"

definition native_unwrap_err :: "val \<Rightarrow> (val, vm_error) outcome" where
  "native_unwrap_err input = and_then (inner_unwrap_err input) (ok_or (Runtime UnwrapFailure))"

definition native_unwrap_err_or_ret :: "val \<Rightarrow> val \<Rightarrow> (val, vm_error) outcome" where
  "native_unwrap_err_or_ret input thrown = and_then (inner_unwrap_err input) (ok_or (ShortReturn (ExpectedValue thrown)))"

definition native_try_ret :: "val \<Rightarrow> (val, vm_error) outcome" where
  "native_try_ret input =
     (case input of
        VOptional (Some d) \<Rightarrow> Ok d
      | VOptional None \<Rightarrow> Err (ShortReturn (ExpectedValue value_none))
      | VResponse committed d \<Rightarrow> if committed then Ok d else Err (ShortReturn (ExpectedValue d))
      | _ \<Rightarrow> Err (Unchecked (ExpectedOptionalOrResponseValue input)))"

definition native_some :: "val \<Rightarrow> (val, vm_error) outcome" where
  "native_some = value_some"

definition native_okay :: "val \<Rightarrow> (val, vm_error) outcome" where
  "native_okay = value_okay"

definition native_error :: "val \<Rightarrow> (val, vm_error) outcome" where
  "native_error = value_error"

definition is_some :: "val \<Rightarrow> (bool, vm_error) outcome" where
  "is_some input =
     (case input of VOptional d \<Rightarrow> Ok (d \<noteq> None) | _ \<Rightarrow> Err (Unchecked (ExpectedOptionalValue input)))"

definition is_okay :: "val \<Rightarrow> (bool, vm_error) outcome" where
  "is_okay input =
     (case input of VResponse committed d \<Rightarrow> Ok committed | _ \<Rightarrow> Err (Unchecked (ExpectedResponseValue input)))"

definition native_is_some :: "val \<Rightarrow> (val, vm_error) outcome" where
  "native_is_some input = map_ok VBool (is_some input)"

definition native_is_none :: "val \<Rightarrow> (val, vm_error) outcome" where
  "native_is_none input = map_ok (\<lambda>b. VBool (\<not> b)) (is_some input)"

definition native_is_okay :: "val \<Rightarrow> (val, vm_error) outcome" where
  "native_is_okay input = map_ok VBool (is_okay input)"

definition native_is_err :: "val \<Rightarrow> (val, vm_error) outcome" where
  "native_is_err input = map_ok (\<lambda>b. VBool (\<not> b)) (is_okay input)"

definition native_default_to :: "val \<Rightarrow> val \<Rightarrow> (val, vm_error) outcome" where
  "native_default_to dflt input =
     (case input of
        VOptional (Some d) \<Rightarrow> Ok d
      | VOptional None \<Rightarrow> Ok dflt
      | _ \<Rightarrow> Err (Unchecked (ExpectedOptionalValue input)))"

section \<open>Other native functions\<close>

definition type_force_bool :: "val \<Rightarrow> (bool, vm_error) outcome" where
  "type_force_bool v = (case v of VBool b \<Rightarrow> Ok b | _ \<Rightarrow> Err (Unchecked (TypeValueError BoolType v)))"

definition native_not :: "val \<Rightarrow> (val, vm_error) outcome" where
  "native_not input = map_ok (\<lambda>b. VBool (\<not> b)) (type_force_bool input)"

definition list_or_buffer_error :: "val \<Rightarrow> ('a, vm_error) outcome" where
  "list_or_buffer_error v = and_then (expect (type_of v)) (\<lambda>t. Err (Unchecked (ExpectedListOrBuffer t)))"

definition native_len :: "val \<Rightarrow> (val, vm_error) outcome" where
  "native_len iterable =
     (case iterable of
        VList vs n t \<Rightarrow> Ok (VUInt (word_of_nat (length vs)))
      | VBuffer bs \<Rightarrow> Ok (VUInt (word_of_nat (length bs)))
      | _ \<Rightarrow> list_or_buffer_error iterable)"

definition native_begin :: "val list \<Rightarrow> (val, vm_error) outcome" where
  "native_begin args = (if args = [] then Err (Unchecked (RequiresAtLeastArguments 1 0)) else Ok (last args))"

fun native_eq_loop :: "val \<Rightarrow> type_signature \<Rightarrow> val list \<Rightarrow> (val, vm_error) outcome" where
  "native_eq_loop first arg_type [] = Ok (VBool True)"
| "native_eq_loop first arg_type (x # xs) =
     and_then (expect (type_of x)) (\<lambda>t.
     and_then (map_err Unchecked (least_supertype t arg_type)) (\<lambda>arg_type'.
       if \<not> value_eq x first then Ok (VBool False) else native_eq_loop first arg_type' xs))"

definition native_eq :: "val list \<Rightarrow> (val, vm_error) outcome" where
  "native_eq args =
     (if length args < 2 then Ok (VBool True)
      else and_then (expect (type_of (args ! 0))) (\<lambda>t. native_eq_loop (args ! 0) t args))"

text \<open>\<open>native_hash_func!\<close>, for a given hash function.\<close>

definition native_hash :: "(u8 list \<Rightarrow> u8 list) \<Rightarrow> val \<Rightarrow> (val, vm_error) outcome" where
  "native_hash h input =
     and_then
       (case input of
          VInt v \<Rightarrow> Ok (rev (to_be_bytes 16 (unat v)))
        | VUInt v \<Rightarrow> Ok (rev (to_be_bytes 16 (unat v)))
        | VBuffer bs \<Rightarrow> Ok bs
        | _ \<Rightarrow> Err (Unchecked (UnionTypeValueError [IntType, UIntType, BufferType MAX_VALUE_SIZE] input)))
       (\<lambda>bytes. buff_from (h bytes))"

section \<open>Properties\<close>

text \<open>unwrapping undoes wrapping. What the constructors of options and responses build is taken apart again by
  the unwrapping functions, which give the wrapped value or, on the other kind, the documented failure: a run-time
  error, the thrown value as an early return, or the default.\<close>

theorem unwrap_inverts_wrap:
  assumes "value_some v = Ok s" "value_okay v = Ok k" "value_error v = Ok e"
  shows "native_unwrap s = Ok v \<and> native_unwrap k = Ok v \<and> native_unwrap_err e = Ok v \<and>
    native_try_ret s = Ok v \<and> native_try_ret k = Ok v \<and> native_default_to d s = Ok v \<and>
    native_unwrap_or_ret s d = Ok v \<and> native_unwrap_or_ret k d = Ok v \<and> native_unwrap_err_or_ret e d = Ok v \<and>
    native_unwrap e = Err (Runtime UnwrapFailure) \<and> native_unwrap_err k = Err (Runtime UnwrapFailure) \<and>
    native_unwrap_or_ret e d = Err (ShortReturn (ExpectedValue d)) \<and>
    native_unwrap_err_or_ret k d = Err (ShortReturn (ExpectedValue d)) \<and>
    native_default_to d value_none = Ok d \<and>
    native_is_some s = Ok (VBool True) \<and> native_is_none value_none = Ok (VBool True) \<and>
    native_is_okay k = Ok (VBool True) \<and> native_is_err e = Ok (VBool True) \<and> native_is_okay e = Ok (VBool False)"
proof -
  have "s = VOptional (Some v)" "k = VResponse True v" "e = VResponse False v"
    using assms by (auto simp: value_some_def value_okay_def value_error_def wrap_guard_def outcome_simps split: if_splits)
  then show ?thesis
    by (simp add: native_unwrap_def native_unwrap_err_def native_unwrap_or_ret_def native_unwrap_err_or_ret_def
        native_try_ret_def native_default_to_def native_is_some_def native_is_none_def native_is_okay_def native_is_err_def
        inner_unwrap_def inner_unwrap_err_def is_some_def is_okay_def value_none_def)
qed

theorem unwrap_inverts_wrap_witness:
  "native_unwrap (VOptional (Some (VBool True))) = Ok (VBool True) \<and>
   native_unwrap (VResponse False (VBool True)) = Err (Runtime UnwrapFailure)"
proof -
  have "value_some (VBool True) = Ok (VOptional (Some (VBool True)))" "value_okay (VBool True) = Ok (VResponse True (VBool True))"
    "value_error (VBool True) = Ok (VResponse False (VBool True))"
    by code_simp+
  from unwrap_inverts_wrap [OF this] show ?thesis by blast
qed

lemma value_eq_refl: "value_eq v v"
proof (induction v)
  case (VTuple sig m)
  then have "value_eq (snd p) (snd p)" if "p \<in> set m" for p using that by (cases p) auto
  then show ?case by (auto intro: list.rel_refl_strong)
next
  case (VOptional d)
  then show ?case by (cases d) auto
qed (auto intro: list.rel_refl_strong)

lemma native_eq_loop_Ok:
  "native_eq_loop first t xs = Ok r \<Longrightarrow> r = VBool (list_all (\<lambda>x. value_eq x first) xs)"
  by (induction xs arbitrary: t) (auto simp: outcome_simps split: if_splits)

text \<open>\<open>is-eq\<close> decides equality: when it returns, it returns whether all arguments are equal to the first one.\<close>

theorem native_eq_decides:
  assumes "native_eq args = Ok r"
  shows "r = VBool (list_all (\<lambda>x. value_eq x (hd args)) args)"
proof (cases "length args < 2")
  case True
  then consider "args = []" | x where "args = [x]" by (cases args) (auto simp: Suc_le_length_iff less_Suc_eq)
  then show ?thesis using assms True by cases (auto simp: native_eq_def value_eq_refl)
next
  case False
  then have "args ! 0 = hd args" by (cases args) auto
  with False assms show ?thesis by (auto simp: native_eq_def outcome_simps dest: native_eq_loop_Ok)
qed

theorem native_eq_decides_witness:
  "native_eq [VInt 1, VInt 1, VInt 2] = Ok (VBool False) \<and> VBool (list_all (\<lambda>x. value_eq x (VInt 1)) [VInt 1, VInt 1, VInt 2]) = VBool False"
proof -
  have "native_eq [VInt 1, VInt 1, VInt 2] = Ok (VBool False)"
    by (simp add: native_eq_def type_eval)
  with native_eq_decides [OF this] show ?thesis by simp
qed

end
