(* ===== verification/Crockford.thy ===== *)
theory Crockford
  imports Hex
begin

text \<open>
  Addresses in Crockford's base 32 with a checksum, \<open>src/src/address/c32.rs\<close> (the errors are those of
  \<open>src/src/address/mod.rs\<close>). Byte strings are read as numbers by the encoder and the decoder, with a carry
  of a few bits between digits; the carries stay below 32 and \<open>2 ^ 13\<close>, so they are natural numbers here. The
  hash function of the checksum is an argument.

  The main theorem is the round trip of addresses.
\<close>

section \<open>Characters\<close>

datatype address_error =
    InvalidCrockford32
  | InvalidVersion u8
  | EmptyData
  | BadByte u8
  | BadChecksum u32 u32
  | InvalidLength nat
  | TooShort nat
  | OtherError string

definition C32_CHARACTERS :: string where
  "C32_CHARACTERS = ''0123456789ABCDEFGHJKMNPQRSTVWXYZ''"

definition c32_char :: "nat \<Rightarrow> char" where
  "c32_char d = C32_CHARACTERS ! d"

text \<open>\<open>str::find\<close> of a character in the alphabet.\<close>

fun find_index :: "'a \<Rightarrow> 'a list \<Rightarrow> nat option" where
  "find_index x [] = None"
| "find_index x (y # ys) = (if x = y then Some 0 else map_option Suc (find_index x ys))"

definition c32_find :: "char \<Rightarrow> nat option" where
  "c32_find c = find_index c C32_CHARACTERS"

definition to_upper :: "char \<Rightarrow> char" where
  "to_upper c = (if CHR ''a'' \<le> c \<and> c \<le> CHR ''z'' then char_of (of_char c - 32 :: nat) else c)"

definition c32_normalize :: "string \<Rightarrow> string" where
  "c32_normalize s =
     map (\<lambda>c. if c = CHR ''I'' then CHR ''1'' else c)
       (map (\<lambda>c. if c = CHR ''L'' then CHR ''1'' else c)
         (map (\<lambda>c. if c = CHR ''O'' then CHR ''0'' else c) (map to_upper s)))"

section \<open>Encoding and decoding\<close>

text \<open>
  The loops run over the input from its last element. They return what they push, the carry and the
  number of bits of the carry.
\<close>

fun encode_loop :: "nat list \<Rightarrow> nat \<Rightarrow> nat \<Rightarrow> nat list \<times> nat \<times> nat" where
  "encode_loop [] carry carry_bits = ([], carry, carry_bits)"
| "encode_loop (current_value # rest) carry carry_bits =
     (let low_bits_to_take = 5 - carry_bits;
          low_bits = current_value mod 2 ^ low_bits_to_take;
          c32_value = low_bits * 2 ^ carry_bits + carry;
          carry_bits = (8 + carry_bits) - 5;
          carry = current_value div 2 ^ (8 - carry_bits)
      in if carry_bits \<ge> 5 then
           let (ds, c, b) = encode_loop rest (carry div 2 ^ 5) (carry_bits - 5)
           in (c32_value # (carry mod 2 ^ 5) # ds, c, b)
         else
           let (ds, c, b) = encode_loop rest carry carry_bits in (c32_value # ds, c, b))"

text \<open>Popping zeros from the end of a vector.\<close>

definition strip :: "'a \<Rightarrow> 'a list \<Rightarrow> 'a list" where
  "strip z xs = rev (dropWhile (\<lambda>x. x = z) (rev xs))"

definition leading :: "'a \<Rightarrow> 'a list \<Rightarrow> nat" where
  "leading z xs = length (takeWhile (\<lambda>x. x = z) xs)"

definition c32_encode :: "u8 list \<Rightarrow> string" where
  "c32_encode input_bytes =
     (let (ds, carry, carry_bits) = encode_loop (map unat (rev input_bytes)) 0 0;
          result = map c32_char ds;
          result = (if carry_bits > 0 then result @ [c32_char carry] else result)
      in rev (strip (c32_char 0) result @ replicate (leading 0 input_bytes) (c32_char 0)))"

fun decode_loop :: "nat list \<Rightarrow> nat \<Rightarrow> nat \<Rightarrow> nat list \<times> nat \<times> nat" where
  "decode_loop [] carry carry_bits = ([], carry, carry_bits)"
| "decode_loop (current_5bit # rest) carry carry_bits =
     (let carry = carry + current_5bit * 2 ^ carry_bits;
          carry_bits = carry_bits + 5
      in if carry_bits \<ge> 8 then
           let (bs, c, b) = decode_loop rest (carry div 2 ^ 8) (carry_bits - 8) in (carry mod 2 ^ 8 # bs, c, b)
         else decode_loop rest carry carry_bits)"

definition c32_decode :: "string \<Rightarrow> (u8 list, address_error) outcome" where
  "c32_decode input_str =
     (let digits = map c32_find (rev (c32_normalize input_str))
      in if None \<in> set digits then Err InvalidCrockford32
         else
           let (bs, carry, carry_bits) = decode_loop (map the digits) 0 0;
               result = map word_of_nat bs;
               result = (if carry_bits > 0 then result @ [word_of_nat carry] else result)
           in Ok (rev (strip 0 result @ replicate (leading (CHR ''0'') input_str) 0)))"

section \<open>Addresses\<close>

definition double_sha256_checksum :: "(u8 list \<Rightarrow> u8 list) \<Rightarrow> u8 list \<Rightarrow> u8 list" where
  "double_sha256_checksum sha256 data = take 4 (sha256 (sha256 data))"

definition c32_check_encode :: "(u8 list \<Rightarrow> u8 list) \<Rightarrow> u8 \<Rightarrow> u8 list \<Rightarrow> (string, address_error) outcome" where
  "c32_check_encode sha256 version data =
     (if version \<ge> 32 then Err (InvalidVersion version)
      else
        let checksum = double_sha256_checksum sha256 (version # data);
            c32_string = c32_encode (data @ checksum)
        in Ok (c32_char (unat version) # c32_string))"

text \<open>The two checksums of the error message, read as little-endian words.\<close>

definition sum_u32 :: "u8 list \<Rightarrow> u32" where
  "sum_u32 bs = word_of_nat (from_be_bytes (rev bs))"

definition c32_check_decode :: "(u8 list \<Rightarrow> u8 list) \<Rightarrow> string \<Rightarrow> (u8 \<times> u8 list, address_error) outcome" where
  "c32_check_decode sha256 check_data_unsanitized =
     (if length check_data_unsanitized < 2 then Err InvalidCrockford32
      else
        let check_data = c32_normalize check_data_unsanitized;
            version = take 1 check_data; data = drop 1 check_data
        in and_then (c32_decode data) (\<lambda>data_sum_bytes.
          if length data_sum_bytes < 5 then Err InvalidCrockford32
          else
            let data_bytes = take (length data_sum_bytes - 4) data_sum_bytes;
                expected_sum = drop (length data_sum_bytes - 4) data_sum_bytes
            in and_then (c32_decode version) (\<lambda>version_bytes.
              let check_data = version_bytes @ data_bytes;
                  computed_sum = double_sha256_checksum sha256 check_data
              in if computed_sum \<noteq> expected_sum then Err (BadChecksum (sum_u32 computed_sum) (sum_u32 expected_sum))
                 else Ok (check_data ! 0, data_bytes))))"

definition c32_address_decode :: "(u8 list \<Rightarrow> u8 list) \<Rightarrow> string \<Rightarrow> (u8 \<times> u8 list, address_error) outcome" where
  "c32_address_decode sha256 c32_address_str =
     (if length c32_address_str \<le> 5 then Err InvalidCrockford32
      else c32_check_decode sha256 (drop 1 c32_address_str))"

definition c32_address :: "(u8 list \<Rightarrow> u8 list) \<Rightarrow> u8 \<Rightarrow> u8 list \<Rightarrow> (string, address_error) outcome" where
  "c32_address sha256 version data = map_ok (\<lambda>s. CHR ''S'' # s) (c32_check_encode sha256 version data)"

section \<open>Digits and numbers\<close>

text \<open>The number that a list of digits stands for, least significant digit first.\<close>

fun digits_value :: "nat \<Rightarrow> nat list \<Rightarrow> nat" where
  "digits_value b [] = 0"
| "digits_value b (d # ds) = d + b * digits_value b ds"

lemma digits_value_append: "digits_value b (xs @ ys) = digits_value b xs + b ^ length xs * digits_value b ys"
  by (induction xs) (simp_all add: algebra_simps)

lemma digits_value_zeros [simp]: "digits_value b (replicate n 0) = 0"
  by (induction n) simp_all

lemma strip_snoc: "strip z (xs @ [x]) = (if x = z then strip z xs else xs @ [x])"
  by (simp add: strip_def)

lemma strip_Nil [simp]: "strip z [] = []"
  by (simp add: strip_def)

lemma strip_decompose: "\<exists>n. xs = strip z xs @ replicate n z"
proof (induction xs rule: rev_induct)
  case (snoc x xs)
  then obtain n where n: "xs = strip z xs @ replicate n z" by blast
  show ?case
  proof (cases "x = z")
    case True
    have "xs @ [x] = strip z xs @ replicate n z @ [z]" using n True by (metis append_assoc)
    also have "replicate n z @ [z] = replicate (Suc n) z" by (simp add: replicate_append_same)
    finally have "xs @ [x] = strip z xs @ replicate (Suc n) z" .
    moreover have "strip z (xs @ [x]) = strip z xs" using True by (simp add: strip_snoc)
    ultimately show ?thesis by metis
  qed (auto simp: strip_snoc intro: exI [of _ 0])
qed simp

lemma strip_last: "strip z xs = [] \<or> last (strip z xs) \<noteq> z"
  by (induction xs rule: rev_induct) (auto simp: strip_snoc)

lemma digits_value_strip [simp]: "digits_value b (strip 0 ds) = digits_value b ds"
  by (induction ds rule: rev_induct) (auto simp: strip_snoc digits_value_append)

lemma set_strip: "set (strip z xs) \<subseteq> set xs"
  unfolding strip_def using set_dropWhileD by fastforce

lemma digits_value_0:
  "digits_value b ds = 0 \<Longrightarrow> 0 < b \<Longrightarrow> ds = [] \<or> last ds \<noteq> 0 \<Longrightarrow> ds = []"
  by (induction ds) (auto split: if_splits)

lemma digits_value_unique:
  assumes "digits_value b xs = digits_value b ys" "\<forall>d \<in> set xs. d < b" "\<forall>d \<in> set ys. d < b"
    "xs = [] \<or> last xs \<noteq> 0" "ys = [] \<or> last ys \<noteq> 0"
  shows "xs = ys"
  using assms
proof (induction xs arbitrary: ys)
  case Nil
  then show ?case using digits_value_0 [of b ys] by (cases ys) auto
next
  case (Cons x xs)
  have b: "0 < b" using Cons.prems(2) by auto
  have "ys \<noteq> []" using Cons.prems digits_value_0 [of b "x # xs"] b by auto
  then obtain y ys' where ys: "ys = y # ys'" by (cases ys) auto
  have eq: "x + b * digits_value b xs = y + b * digits_value b ys'" using Cons.prems(1) ys by simp
  have lt: "x < b" "y < b" using Cons.prems ys by auto
  have xy: "x = y" using arg_cong [OF eq, of "\<lambda>n. n mod b"] lt by simp
  with eq b have "digits_value b xs = digits_value b ys'" by simp
  with Cons.IH [of ys'] Cons.prems ys xy show ?case by (cases xs; cases ys') auto
qed

section \<open>The loops keep the number\<close>

lemma encode_step:
  fixes v c k :: nat
  assumes "k < 5" "c < 2 ^ k" "v < 256"
  shows "v mod 2 ^ (5 - k) * 2 ^ k + c < 32"
    and "c + 2 ^ k * v = v mod 2 ^ (5 - k) * 2 ^ k + c + 32 * (v div 2 ^ (5 - k))"
    and "v div 2 ^ (5 - k) < 2 ^ (k + 3)"
proof -
  have p: "(2 :: nat) ^ (5 - k) * 2 ^ k = 32" using assms(1) by (simp flip: power_add)
  have "v mod 2 ^ (5 - k) + 1 \<le> 2 ^ (5 - k)" by (simp add: Suc_le_eq)
  then have "(v mod 2 ^ (5 - k) + 1) * 2 ^ k \<le> 32" using mult_le_mono1 [of _ _ "2 ^ k"] p by metis
  then show "v mod 2 ^ (5 - k) * 2 ^ k + c < 32" using assms(2) by (simp add: algebra_simps)
  have split: "c + a * (q * p + r) = r * a + c + (p * a) * q" for a p q r :: nat by (simp add: algebra_simps)
  show "c + 2 ^ k * v = v mod 2 ^ (5 - k) * 2 ^ k + c + 32 * (v div 2 ^ (5 - k))"
    using split [of "2 ^ k" "v div 2 ^ (5 - k)" "2 ^ (5 - k)" "v mod 2 ^ (5 - k)"] unfolding div_mult_mod_eq p .
  have "(2 :: nat) ^ (k + 3) * 2 ^ (5 - k) = 256" using assms(1) by (simp flip: power_add)
  then show "v div 2 ^ (5 - k) < 2 ^ (k + 3)" using assms(3) by (simp add: less_mult_imp_div_less)
qed

lemma encode_loop_value:
  assumes "encode_loop vs c k = (ds, c', k')" "k < 5" "c < 2 ^ k" "\<forall>v \<in> set vs. v < 256"
  shows "digits_value 32 ds + 32 ^ length ds * c' = c + 2 ^ k * digits_value 256 vs \<and>
    (\<forall>d \<in> set ds. d < 32) \<and> k' < 5 \<and> c' < 2 ^ k'"
  using assms
proof (induction vs arbitrary: c k ds)
  case (Cons v vs)
  define d0 where "d0 = v mod 2 ^ (5 - k) * 2 ^ k + c"
  define c1 where "c1 = v div 2 ^ (5 - k)"
  note step = encode_step [OF Cons.prems(2,3), of v, folded d0_def c1_def]
  have k1: "8 + k - 5 = k + 3" "8 - (k + 3) = 5 - k" by auto
  have v: "v < 256" and vs: "\<forall>v \<in> set vs. v < 256" using Cons.prems(4) by simp_all
  define W where "W = digits_value 256 vs"
  have W: "c + 2 ^ k * digits_value 256 (v # vs) = d0 + 32 * (c1 + 2 ^ (k + 3) * W)"
    using step(2) [OF v] by (simp add: W_def power_add algebra_simps)
  show ?case
  proof (cases "k + 3 \<ge> 5")
    case True
    obtain ds' where loop: "encode_loop vs (c1 div 32) (k + 3 - 5) = (ds', c', k')" and ds: "ds = d0 # c1 mod 32 # ds'"
      using Cons.prems(1) True by (auto simp: Let_def k1 d0_def c1_def split: prod.splits)
    have pow: "(2 :: nat) ^ (k + 3) = 2 ^ (k + 3 - 5) * 32" using True power_add [of "2 :: nat" "k + 3 - 5" 5] by (simp add: add.commute)
    then have c: "c1 div 32 < 2 ^ (k + 3 - 5)" using step(3) [OF v] by (simp add: less_mult_imp_div_less)
    have "k + 3 - 5 < 5" using Cons.prems(2) by simp
    note IH = Cons.IH [OF loop this c vs, folded W_def]
    have eq: "c1 + 2 ^ (k + 3) * W = c1 mod 32 + 32 * (c1 div 32 + 2 ^ (k + 3 - 5) * W)"
      unfolding pow using mod_mult_div_eq [of c1 32] by (simp add: algebra_simps)
    have "c + 2 ^ k * digits_value 256 (v # vs) =
        d0 + 32 * (c1 mod 32 + 32 * (digits_value 32 ds' + 32 ^ length ds' * c'))"
      by (simp only: W eq IH [THEN conjunct1])
    then show ?thesis using IH [THEN conjunct2] step(1) [OF v] ds by (simp add: algebra_simps)
  next
    case False
    obtain ds' where loop: "encode_loop vs c1 (k + 3) = (ds', c', k')" and ds: "ds = d0 # ds'"
      using Cons.prems(1) False by (auto simp: Let_def k1 d0_def c1_def split: prod.splits)
    have "k + 3 < 5" using False by simp
    note IH = Cons.IH [OF loop this step(3) [OF v] vs, folded W_def]
    have "c + 2 ^ k * digits_value 256 (v # vs) = d0 + 32 * (digits_value 32 ds' + 32 ^ length ds' * c')"
      by (simp only: W IH [THEN conjunct1])
    then show ?thesis using IH [THEN conjunct2] step(1) [OF v] ds by (simp add: algebra_simps)
  qed
qed simp

lemma decode_loop_value:
  assumes "decode_loop ds c k = (bs, c', k')" "k < 8" "c < 2 ^ k" "\<forall>d \<in> set ds. d < 32"
  shows "digits_value 256 bs + 256 ^ length bs * c' = c + 2 ^ k * digits_value 32 ds \<and>
    (\<forall>b \<in> set bs. b < 256) \<and> k' < 8 \<and> c' < 2 ^ k'"
  using assms
proof (induction ds arbitrary: c k bs)
  case (Cons d ds)
  define c1 where "c1 = c + d * 2 ^ k"
  define W where "W = digits_value 32 ds"
  have W: "c + 2 ^ k * digits_value 32 (d # ds) = c1 + 2 ^ (k + 5) * W"
    by (simp add: W_def c1_def power_add algebra_simps)
  have "d + 1 \<le> 32" and ds: "\<forall>d \<in> set ds. d < 32" using Cons.prems(4) by simp_all
  then have "d * 2 ^ k + 1 * 2 ^ k \<le> 32 * 2 ^ k" unfolding add_mult_distrib [symmetric] by (intro mult_le_mono1)
  then have "c1 < 32 * 2 ^ k" using Cons.prems(3) unfolding c1_def by linarith
  then have c1: "c1 < 2 ^ (k + 5)" by (simp add: power_add)
  show ?case
  proof (cases "k + 5 \<ge> 8")
    case True
    obtain bs' where loop: "decode_loop ds (c1 div 256) (k + 5 - 8) = (bs', c', k')" and bs: "bs = c1 mod 256 # bs'"
      using Cons.prems(1) True by (auto simp: Let_def c1_def split: prod.splits)
    have pow: "(2 :: nat) ^ (k + 5) = 2 ^ (k + 5 - 8) * 256" using True power_add [of "2 :: nat" "k + 5 - 8" 8] by (simp add: add.commute)
    then have c: "c1 div 256 < 2 ^ (k + 5 - 8)" using c1 by (simp add: less_mult_imp_div_less)
    have "k + 5 - 8 < 8" using Cons.prems(2) by simp
    note IH = Cons.IH [OF loop this c ds, folded W_def]
    have eq: "c1 + 2 ^ (k + 5) * W = c1 mod 256 + 256 * (c1 div 256 + 2 ^ (k + 5 - 8) * W)"
      unfolding pow using mod_mult_div_eq [of c1 256] by (simp add: algebra_simps)
    have "c + 2 ^ k * digits_value 32 (d # ds) =
        c1 mod 256 + 256 * (digits_value 256 bs' + 256 ^ length bs' * c')"
      by (simp only: W eq IH [THEN conjunct1])
    then show ?thesis using IH [THEN conjunct2] bs by (simp add: algebra_simps)
  next
    case False
    have "decode_loop ds c1 (k + 5) = (bs, c', k')"
      using Cons.prems(1) False by (simp add: Let_def c1_def)
    then show ?thesis using Cons.IH [OF _ _ c1 ds, folded W_def] False unfolding W by simp
  qed
qed simp


section \<open>Round trip of byte strings\<close>

lemma find_index_nth: "distinct xs \<Longrightarrow> i < length xs \<Longrightarrow> find_index (xs ! i) xs = Some i"
proof (induction xs arbitrary: i)
  case (Cons x xs)
  then show ?case by (cases i) (auto simp: in_set_conv_nth)
qed simp

lemma c32_characters_facts:
  "distinct C32_CHARACTERS" "length C32_CHARACTERS = 32" "c32_normalize C32_CHARACTERS = C32_CHARACTERS"
  by code_simp+

lemma c32_find_char [simp]: "d < 32 \<Longrightarrow> c32_find (c32_char d) = Some d"
  unfolding c32_find_def c32_char_def by (rule find_index_nth) (simp_all add: c32_characters_facts)

lemma c32_char_inject: "d < 32 \<Longrightarrow> e < 32 \<Longrightarrow> c32_char d = c32_char e \<longleftrightarrow> d = e"
  using c32_find_char by (metis option.inject)

lemma c32_char_0: "c32_char 0 = CHR ''0''"
  by code_simp

lemma normalize_map: "c32_normalize s = map (\<lambda>c. hd (c32_normalize [c])) s"
  by (simp add: c32_normalize_def comp_def)

lemma normalize_char: "d < 32 \<Longrightarrow> hd (c32_normalize [c32_char d]) = c32_char d"
  using arg_cong [OF c32_characters_facts(3), of "\<lambda>s. s ! d"] c32_characters_facts(2)
  unfolding normalize_map [of C32_CHARACTERS] by (simp add: c32_char_def)

lemma normalize_alphabet: "\<forall>d \<in> set ds. d < 32 \<Longrightarrow> c32_normalize (map c32_char ds) = map c32_char ds"
  unfolding normalize_map [of "map c32_char ds"] by (simp add: normalize_char)

lemma strip_map:
  assumes "\<forall>x \<in> set xs. f x = f z \<longleftrightarrow> x = z"
  shows "strip (f z) (map f xs) = map f (strip z xs)"
  using assms by (induction xs rule: rev_induct) (auto simp: strip_snoc)

text \<open>What both routines push: the digits of the number, with the last carry as a digit.\<close>

definition pushed :: "nat list \<times> nat \<times> nat \<Rightarrow> nat list" where
  "pushed = (\<lambda>(ds, carry, carry_bits). if carry_bits > 0 then ds @ [carry] else ds)"

lemma pushed_encode:
  assumes "\<forall>v \<in> set vs. v < 256"
  shows "digits_value 32 (pushed (encode_loop vs 0 0)) = digits_value 256 vs \<and>
    (\<forall>d \<in> set (pushed (encode_loop vs 0 0)). d < 32)"
proof -
  obtain ds c k where loop: "encode_loop vs 0 0 = (ds, c, k)" by (cases "encode_loop vs 0 0") auto
  have "(2 :: nat) ^ k \<le> 2 ^ 5" if "k < 5" using that by (intro power_increasing) auto
  with encode_loop_value [OF loop _ _ assms] show ?thesis
    by (cases "k = 0") (auto simp: loop pushed_def digits_value_append)
qed

lemma pushed_decode:
  assumes "\<forall>d \<in> set ds. d < 32"
  shows "digits_value 256 (pushed (decode_loop ds 0 0)) = digits_value 32 ds \<and>
    (\<forall>b \<in> set (pushed (decode_loop ds 0 0)). b < 256)"
proof -
  obtain bs c k where loop: "decode_loop ds 0 0 = (bs, c, k)" by (cases "decode_loop ds 0 0") auto
  have "(2 :: nat) ^ k \<le> 2 ^ 8" if "k < 8" using that by (intro power_increasing) auto
  with decode_loop_value [OF loop _ _ assms] show ?thesis
    by (cases "k = 0") (auto simp: loop pushed_def digits_value_append)
qed

lemma takeWhile_leading: "takeWhile (\<lambda>x. x = z) xs = replicate (leading z xs) z"
  by (induction xs) (auto simp: leading_def)

lemma strip_rev_leading: "rev (strip z (rev xs) @ replicate (leading z xs) z) = xs"
  unfolding strip_def rev_append rev_replicate unfolding takeWhile_leading [symmetric] by simp

lemma leading_strip: "leading z (rev (strip z xs @ replicate n z)) = n"
proof -
  have "takeWhile (\<lambda>x. x = z) (rev (strip z xs)) = []"
    using strip_last [of z xs] by (cases "strip z xs" rule: rev_cases) auto
  then show ?thesis by (simp add: leading_def takeWhile_append)
qed

lemma leading_map:
  assumes "\<forall>x \<in> set xs. f x = f z \<longleftrightarrow> x = z"
  shows "leading (f z) (map f xs) = leading z xs"
  using assms by (induction xs) (auto simp: leading_def)

text \<open>The digits of a byte string in the encoding, with its leading zeros.\<close>

definition c32_digits :: "u8 list \<Rightarrow> nat list" where
  "c32_digits bs = rev (strip 0 (pushed (encode_loop (map unat (rev bs)) 0 0)) @ replicate (leading 0 bs) 0)"

lemma unat_bytes: "\<forall>v \<in> set (map unat (bs :: u8 list)). v < 256"
proof -
  have "unat (b :: u8) < 256" for b using unat_lt2p [of b] by simp
  then show ?thesis by simp
qed

lemmas pushed_bytes = pushed_encode [OF unat_bytes, of "rev bs" for bs]

lemma c32_digits_bound: "\<forall>d \<in> set (c32_digits bs). d < 32"
  using pushed_bytes [of bs] set_strip unfolding c32_digits_def by fastforce

lemma c32_encode_digits: "c32_encode bs = map c32_char (c32_digits bs)"
proof -
  define E where "E = pushed (encode_loop (map unat (rev bs)) 0 0)"
  have "\<forall>d \<in> set E. c32_char d = c32_char 0 \<longleftrightarrow> d = 0"
    using pushed_bytes [of bs] by (simp add: E_def c32_char_inject)
  from strip_map [OF this] show ?thesis
    by (auto simp: c32_encode_def c32_digits_def E_def pushed_def rev_map Let_def split: prod.splits if_splits)
qed

lemma c32_decode_digits:
  assumes "\<forall>d \<in> set ds. d < 32"
  shows "c32_decode (map c32_char ds) =
    Ok (rev (strip 0 (map word_of_nat (pushed (decode_loop (rev ds) 0 0))) @ replicate (leading 0 ds) 0))"
proof -
  have find: "map c32_find (rev (c32_normalize (map c32_char ds))) = map Some (rev ds)"
    unfolding normalize_alphabet [OF assms] rev_map [symmetric] using assms by simp
  have "\<forall>d \<in> set ds. c32_char d = c32_char 0 \<longleftrightarrow> d = 0" using assms by (simp add: c32_char_inject)
  from leading_map [OF this] have "leading (CHR ''0'') (map c32_char ds) = leading 0 ds" by (simp add: c32_char_0)
  then show ?thesis
    unfolding c32_decode_def find Let_def by (auto simp: pushed_def comp_def split: prod.splits)
qed

lemma strip_unique:
  assumes "digits_value b xs = digits_value b ys" "\<forall>d \<in> set xs. d < b" "\<forall>d \<in> set ys. d < b"
  shows "strip 0 xs = strip 0 ys"
proof -
  have "digits_value b (strip 0 xs) = digits_value b (strip 0 ys)" using assms(1) by simp
  moreover have "\<forall>d \<in> set (strip 0 xs). d < b" using assms(2) set_strip [of 0 xs] by blast
  moreover have "\<forall>d \<in> set (strip 0 ys). d < b" using assms(3) set_strip [of 0 ys] by blast
  ultimately show ?thesis by (rule digits_value_unique) (rule strip_last)+
qed

lemma strip_words:
  assumes "\<forall>b \<in> set bs. b < 256"
  shows "strip 0 (map word_of_nat bs) = map (word_of_nat :: nat \<Rightarrow> u8) (strip 0 bs)"
proof -
  have "256 dvd b \<longleftrightarrow> b = 0" if "b < 256" for b :: nat using that by (auto dest: dvd_imp_le)
  then show ?thesis using strip_map [of bs "word_of_nat :: nat \<Rightarrow> u8" 0] assms by (auto simp: word_of_nat_eq_0_iff)
qed

lemma c32_round_trip: "c32_decode (c32_encode bs) = Ok bs"
proof -
  define vs where "vs = map unat (rev bs)"
  define ds where "ds = c32_digits bs"
  define B where "B = pushed (decode_loop (rev ds) 0 0)"
  have ds: "\<forall>d \<in> set (rev ds). d < 32" using c32_digits_bound by (simp add: ds_def)
  have vs: "\<forall>v \<in> set vs. v < 256" unfolding vs_def by (rule unat_bytes)
  have B: "digits_value 256 B = digits_value 32 (rev ds)" "\<forall>b \<in> set B. b < 256"
    using pushed_decode [OF ds] by (auto simp: B_def)
  have "digits_value 32 (rev ds) = digits_value 256 vs"
    using pushed_bytes [of bs] by (simp add: ds_def c32_digits_def digits_value_append vs_def)
  then have "strip 0 B = strip 0 vs" using B vs by (intro strip_unique [of 256]) simp_all
  moreover have "map (word_of_nat :: nat \<Rightarrow> u8) (strip 0 vs) = strip 0 (rev bs)"
    using strip_map [of vs "word_of_nat :: nat \<Rightarrow> u8" 0] by (simp add: vs_def comp_def unat_eq_0)
  moreover have "leading 0 ds = leading 0 bs" unfolding ds_def c32_digits_def by (rule leading_strip)
  ultimately show ?thesis
    using c32_decode_digits [of ds] ds strip_rev_leading [of 0 bs] strip_words [OF B(2)]
    by (simp add: c32_encode_digits ds_def [symmetric] B_def [symmetric])
qed

lemma find_index_Some: "find_index x xs = Some i \<Longrightarrow> i < length xs \<and> xs ! i = x"
  by (induction xs arbitrary: i) (auto split: if_splits)

lemma c32_find_Some: "c32_find c = Some d \<Longrightarrow> d < 32 \<and> c32_char d = c"
  using find_index_Some [of c C32_CHARACTERS d] by (simp add: c32_find_def c32_char_def c32_characters_facts)

lemma c32_decode_text:
  assumes "c32_decode t = Ok bs" "c32_normalize t = t"
  obtains ds where "t = map c32_char ds" "\<forall>d \<in> set ds. d < 32"
proof -
  have "None \<notin> c32_find ` set t" using assms by (auto simp: c32_decode_def rev_map split: if_splits)
  then have some: "c32_find c = Some (the (c32_find c))" if "c \<in> set t" for c
    using that by (metis image_eqI option.collapse)
  have "c32_char (the (c32_find c)) = c" if "c \<in> set t" for c using c32_find_Some [OF some [OF that]] by simp
  then have "map (\<lambda>c. c32_char (the (c32_find c))) t = t" by (rule map_idI)
  then have "t = map c32_char (map (\<lambda>c. the (c32_find c)) t)" by (simp add: comp_def)
  moreover have "\<forall>d \<in> set (map (\<lambda>c. the (c32_find c)) t). d < 32" using c32_find_Some [OF some] by simp
  ultimately show thesis by (rule that)
qed

lemma c32_round_trip_text:
  assumes "c32_decode t = Ok bs" "c32_normalize t = t"
  shows "c32_encode bs = t"
proof -
  obtain ds where t: "t = map c32_char ds" and ds: "\<forall>d \<in> set ds. d < 32" using c32_decode_text [OF assms] .
  define B where "B = pushed (decode_loop (rev ds) 0 0)"
  define E where "E = pushed (encode_loop (map unat (rev bs)) 0 0)"
  have "\<forall>d \<in> set (rev ds). d < 32" using ds by simp
  note B = pushed_decode [OF this, folded B_def]
  have bs: "bs = rev (map word_of_nat (strip 0 B) @ replicate (leading 0 ds) 0)"
    using assms(1) c32_decode_digits [OF ds] B by (simp add: t B_def [symmetric] strip_words)
  have "map (unat \<circ> (word_of_nat :: nat \<Rightarrow> u8)) (strip 0 B) = map id (strip 0 B)"
    using B set_strip [of 0 B] by (intro map_cong) (auto simp: unat_of_nat)
  then have "digits_value 256 (map unat (rev bs)) = digits_value 32 (rev ds)"
    using B by (simp add: bs digits_value_append)
  then have "strip 0 E = strip 0 (rev ds)"
    using pushed_bytes [of bs] ds by (intro strip_unique [of 32]) (simp_all add: E_def)
  moreover have "leading 0 bs = leading 0 ds"
    using B leading_strip [of 0 "map (word_of_nat :: nat \<Rightarrow> u8) B"] by (simp add: bs strip_words)
  ultimately show ?thesis
    using strip_rev_leading [of 0 ds] by (simp add: c32_encode_digits c32_digits_def E_def [symmetric] t)
qed

section \<open>Round trip of addresses\<close>

lemma digits_value_less: "\<forall>d \<in> set ds. d < b \<Longrightarrow> digits_value b ds < b ^ length ds"
proof (induction ds)
  case (Cons d ds)
  then have "digits_value b ds + 1 \<le> b ^ length ds" by simp
  then have "b * (digits_value b ds + 1) \<le> b * b ^ length ds" by (intro mult_le_mono2)
  with Cons.prems show ?case by (simp add: algebra_simps)
qed simp

lemma digits_value_ge: "ds \<noteq> [] \<Longrightarrow> last ds \<noteq> 0 \<Longrightarrow> b ^ (length ds - 1) \<le> digits_value b ds"
proof (induction ds rule: rev_induct)
  case (snoc d ds)
  then have "b ^ length ds * 1 \<le> b ^ length ds * d" by (intro mult_le_mono2) simp
  then have "b ^ length ds \<le> digits_value b ds + b ^ length ds * d" unfolding mult_1_right by (rule trans_le_add2)
  then show ?case by (simp add: digits_value_append)
qed simp

text \<open>An encoding is at least as long as the bytes.\<close>

lemma length_encode: "length bs \<le> length (c32_encode bs)"
proof -
  define E where "E = strip 0 (pushed (encode_loop (map unat (rev bs)) 0 0))"
  define V where "V = strip 0 (map unat (rev bs))"
  have E: "digits_value 32 E = digits_value 256 V" "\<forall>d \<in> set E. d < 32"
    using pushed_bytes [of bs] set_strip by (auto simp: E_def V_def dest: subsetD [OF set_strip])
  have "length V - 1 < length E" if "V \<noteq> []"
  proof -
    have "(32 :: nat) ^ (length V - 1) \<le> 256 ^ (length V - 1)" by (rule power_mono) simp_all
    also have "\<dots> \<le> digits_value 256 V"
      using that strip_last [of 0 "map unat (rev bs)"] by (intro digits_value_ge) (auto simp: V_def)
    also have "\<dots> < 32 ^ length E" using digits_value_less [OF E(2)] E(1) by simp
    finally show ?thesis by simp
  qed
  then have "length V \<le> length E" by (cases V) auto
  moreover have "length V + leading 0 bs = length bs"
    using strip_rev_leading [of 0 bs] strip_map [of "rev bs" unat 0]
    by (simp add: V_def unat_eq_0 del: rev_append) (metis length_append length_replicate length_rev)
  ultimately show ?thesis by (simp add: c32_encode_digits c32_digits_def E_def)
qed

lemma c32_decode_version:
  assumes "v < (32 :: u8)"
  shows "c32_decode [c32_char (unat v)] = Ok [v]"
proof -
  have v: "unat v < 32" using assms by (simp add: word_less_nat_alt)
  have "strip 0 [unat v, 0] @ replicate (leading 0 [v]) 0 = [unat v]"
    by (cases "v = 0") (auto simp: strip_def leading_def unat_eq_0)
  then have "c32_digits [v] = [unat v]" using v by (simp add: c32_digits_def pushed_def)
  then show ?thesis using c32_round_trip [of "[v]"] by (simp add: c32_encode_digits)
qed

lemma c32_encode_normal: "c32_normalize (c32_encode bs) = c32_encode bs"
  by (simp add: c32_encode_digits normalize_alphabet c32_digits_bound)

lemma address_round_trip:
  assumes "\<forall>x. length (sha256 x) = 32" "version < 32" "data \<noteq> []"
  shows "\<exists>s. c32_address sha256 version data = Ok s \<and> c32_address_decode sha256 s = Ok (version, data)"
proof -
  define checksum where "checksum = double_sha256_checksum sha256 (version # data)"
  define t where "t = c32_encode (data @ checksum)"
  have sum: "length checksum = 4" using assms(1) by (simp add: checksum_def double_sha256_checksum_def)
  have "5 \<le> length (data @ checksum)" using sum assms(3) by (cases data) auto
  then have len: "5 \<le> length t" using length_encode [of "data @ checksum"] by (simp add: t_def)
  have v: "unat version < 32" using assms(2) by (simp add: word_less_nat_alt)
  have "c32_normalize (c32_char (unat version) # t) = c32_char (unat version) # t"
    using normalize_char [OF v] c32_encode_normal normalize_map unfolding t_def by (metis list.simps(9))
  moreover have "c32_decode t = Ok (data @ checksum)" unfolding t_def by (rule c32_round_trip)
  ultimately have "c32_check_decode sha256 (c32_char (unat version) # t) = Ok (version, data)"
    using c32_decode_version [OF assms(2)] len sum assms(3)
    by (auto simp: c32_check_decode_def checksum_def [symmetric] Let_def)
  moreover have "c32_address sha256 version data = Ok (CHR ''S'' # c32_char (unat version) # t)"
    using assms(2) by (simp add: c32_address_def c32_check_encode_def t_def checksum_def Let_def)
  ultimately show ?thesis using len by (auto simp: c32_address_decode_def)
qed

text \<open>C23: an address of a version below 32 and a non-empty payload is written, and reading the text back gives the
  version and the payload. The hash function returns 32 bytes.
\<close>

theorem c32_address_round_trip:
  assumes "\<forall>x. length (sha256 x) = 32" "version < 32" "data \<noteq> []"
  shows "\<exists>s. c32_address sha256 version data = Ok s \<and> c32_address_decode sha256 s = Ok (version, data)"
  using assms by (rule address_round_trip)

theorem c32_address_round_trip_witness:
  "\<exists>s. c32_address (\<lambda>x. replicate 32 (word_of_nat (length x))) 22 [7, 0, 255] = Ok s \<and>
    c32_address_decode (\<lambda>x. replicate 32 (word_of_nat (length x))) s = Ok (22, [7, 0, 255])"
  by (rule c32_address_round_trip) simp_all

lemma to_upper_idem [simp]: "to_upper (to_upper c) = to_upper c"
  by (auto simp: to_upper_def less_eq_char_def)

lemma c32_normalize_idem: "c32_normalize (c32_normalize s) = c32_normalize s"
proof -
  have "to_upper CHR ''0'' = CHR ''0''" "to_upper CHR ''1'' = CHR ''1''" by code_simp+
  then show ?thesis by (simp add: c32_normalize_def)
qed

lemma c32_decode_char:
  assumes "c32_decode [c] = Ok bs" "c32_normalize [c] = [c]"
  obtains v where "v < 32" "bs = [v]" "c = c32_char (unat v)"
proof -
  obtain ds where "[c] = map c32_char ds" "\<forall>d \<in> set ds. d < 32" using c32_decode_text [OF assms] .
  then obtain d where d: "c = c32_char d" "d < 32" by auto
  define v where "v = (word_of_nat d :: u8)"
  have "unat v = d" "v < 32" using d(2) by (simp_all add: v_def unat_of_nat word_less_nat_alt)
  then show thesis using assms(1) c32_decode_version [of v] d(1) by (intro that [of v]) simp_all
qed

text \<open>C37: the text of an address is determined by what it decodes to, up to its first character and the
  characters that normalization identifies: writing the decoded version and payload gives the normalized text
  after a leading S. In particular the first character is never looked at.
\<close>

theorem decoded_address_canonical:
  assumes "c32_address_decode sha256 s = Ok (version, data)"
  shows "version < 32 \<and> c32_address sha256 version data = Ok (CHR ''S'' # c32_normalize (drop 1 s))"
proof -
  define t where "t = c32_normalize (drop 1 s)"
  have "\<not> length s \<le> 5" using assms by (auto simp: c32_address_decode_def)
  then have "length t \<noteq> 0" by (simp add: t_def c32_normalize_def)
  then obtain c r where t: "t = c # r" by (cases t) auto
  have "c32_normalize (c # r) = c # r" using t c32_normalize_idem [of "drop 1 s"] by (simp add: t_def)
  then have norm: "c32_normalize [c] = [c]" "c32_normalize r = r" by (simp_all add: c32_normalize_def)
  have s: "c32_normalize (drop (Suc 0) s) = c # r" using t by (simp add: t_def)
  have "c32_check_decode sha256 (drop 1 s) = Ok (version, data)"
    using assms by (simp add: c32_address_decode_def split: if_splits)
  then obtain bs vb where dec: "c32_decode r = Ok bs" "c32_decode [c] = Ok vb" "\<not> length bs < 5"
      "data = take (length bs - 4) bs" "version = (vb @ data) ! 0"
      "double_sha256_checksum sha256 (vb @ data) = drop (length bs - 4) bs"
    by (auto simp: c32_check_decode_def s Let_def and_then_eq_Ok split: if_splits)
  obtain v where v: "v < 32" "vb = [v]" "c = c32_char (unat v)" using c32_decode_char [OF dec(2) norm(1)] .
  have "c32_encode (data @ drop (length bs - 4) bs) = r"
    using c32_round_trip_text [OF dec(1) norm(2)] by (simp add: dec(4))
  then show ?thesis
    using dec(5,6) v by (simp add: c32_address_def c32_check_encode_def s Let_def)
qed

text \<open>With a hash of zero bytes, the payload 1 has the text 4000000.\<close>

theorem decoded_address_canonical_witness:
  "c32_address_decode (\<lambda>x. replicate 32 0) ''xp4oooooo'' = Ok (22, [1]) \<and>
   c32_address (\<lambda>x. replicate 32 0) 22 [1] = Ok ''SP4000000''"
proof -
  have dec: "c32_address_decode (\<lambda>x. replicate 32 0) ''xp4oooooo'' = Ok (22, [1])" by code_simp
  have "c32_normalize ''p4oooooo'' = ''P4000000''" by code_simp
  with decoded_address_canonical [OF dec] dec show ?thesis by simp
qed

end
