(* ===== verification/Principals.thy ===== *)
theory Principals
  imports ClarityData Crockford
begin

text \<open>
  Principals, contract identifiers and trait identifiers as text, \<open>src/src/vm/types/mod.rs\<close>. The hash function of
  the address checksums is an argument.

  The theorems: text that is written for a valid principal of an ordinary version is read back, and principals
  of the other versions all have the same text.
\<close>

section \<open>Writing\<close>

definition to_address :: "(u8 list \<Rightarrow> u8 list) \<Rightarrow> standard_principal_data \<Rightarrow> string" where
  "to_address sha256 p =
     (case c32_address sha256 (spd_version p) (spd_bytes p) of Ok s \<Rightarrow> s | _ \<Rightarrow> ''INVALID_C32_ADD'')"

definition contract_to_string :: "(u8 list \<Rightarrow> u8 list) \<Rightarrow> qualified_contract_identifier \<Rightarrow> string" where
  "contract_to_string sha256 c = to_address sha256 (qci_issuer c) @ ''.'' @ qci_name c"

fun principal_to_string :: "(u8 list \<Rightarrow> u8 list) \<Rightarrow> principal_data \<Rightarrow> string" where
  "principal_to_string sha256 (Standard p) = to_address sha256 p"
| "principal_to_string sha256 (Contract c) = to_address sha256 (qci_issuer c) @ ''.'' @ qci_name c"

definition trait_to_string :: "(u8 list \<Rightarrow> u8 list) \<Rightarrow> trait_identifier \<Rightarrow> string" where
  "trait_to_string sha256 t = contract_to_string sha256 (trait_contract t) @ ''.'' @ trait_name t"

section \<open>Reading\<close>

text \<open>The messages of \<open>src/src/address/mod.rs\<close>, and \<open>str::splitn\<close>.\<close>

fun address_error_text :: "address_error \<Rightarrow> string" where
  "address_error_text InvalidCrockford32 = ''Invalid crockford 32 string''"
| "address_error_text (InvalidVersion v) = ''Invalid version '' @ decimal (unat v)"
| "address_error_text EmptyData = ''Empty data''"
| "address_error_text (BadByte b) = ''invalid base58 character 0x'' @ radix 16 (unat b)"
| "address_error_text (BadChecksum expected actual) =
     ''base58ck checksum 0x'' @ radix 16 (unat actual) @ '' does not match expected 0x'' @ radix 16 (unat expected)"
| "address_error_text (InvalidLength ell) = ''length '' @ decimal ell @ '' invalid for this base58 type''"
| "address_error_text (TooShort n) = ''base58ck data not even long enough for a checksum''"
| "address_error_text (OtherError s) = s"

fun splitn :: "nat \<Rightarrow> char \<Rightarrow> string \<Rightarrow> string list" where
  "splitn 0 c s = []"
| "splitn (Suc 0) c s = [s]"
| "splitn (Suc (Suc n)) c s =
     (if c \<in> set s then takeWhile (\<lambda>x. x \<noteq> c) s # splitn (Suc n) c (tl (dropWhile (\<lambda>x. x \<noteq> c) s)) else [s])"

definition parse_standard_principal :: "(u8 list \<Rightarrow> u8 list) \<Rightarrow> string \<Rightarrow> (standard_principal_data, vm_error) outcome" where
  "parse_standard_principal sha256 literal =
     and_then (map_err (\<lambda>x. Runtime (ParseError (''Invalid principal literal: '' @ address_error_text x)))
       (c32_address_decode sha256 literal)) (\<lambda>(version, data).
     if length data \<noteq> 20 then Err (Runtime (ParseError ''Invalid principal literal: Expected 20 data bytes.''))
     else Ok (StandardPrincipalData version data))"

definition missing_dot :: vm_error where
  "missing_dot =
     Runtime (ParseError ''Invalid principal literal: expected a `.` in a qualified contract name'')"

definition contract_parse :: "(u8 list \<Rightarrow> u8 list) \<Rightarrow> string \<Rightarrow> (qualified_contract_identifier, vm_error) outcome" where
  "contract_parse sha256 literal =
     (case splitn 2 CHR ''.'' literal of
        [issuer, contract] \<Rightarrow>
          and_then (parse_standard_principal sha256 issuer) (\<lambda>sender.
          and_then (map_err Runtime (contract_name_try_from contract)) (\<lambda>name.
            Ok (QualifiedContractIdentifier sender name)))
      | _ \<Rightarrow> Err missing_dot)"

definition principal_parse :: "(u8 list \<Rightarrow> u8 list) \<Rightarrow> string \<Rightarrow> (principal_data, vm_error) outcome" where
  "principal_parse sha256 literal =
     (let literal = (case literal of c # cs \<Rightarrow> if c = CHR 0x27 then cs else literal | [] \<Rightarrow> literal)
      in if CHR ''.'' \<in> set literal then map_ok Contract (contract_parse sha256 literal)
         else map_ok Standard (parse_standard_principal sha256 literal))"

definition trait_parse :: "(u8 list \<Rightarrow> u8 list) \<Rightarrow> string \<Rightarrow>
    (standard_principal_data option \<times> contract_name \<times> clarity_name, vm_error) outcome" where
  "trait_parse sha256 literal =
     (case splitn 3 CHR ''.'' literal of
        [issuer, contract, name] \<Rightarrow>
          and_then (if issuer = [] then Ok None else map_ok Some (parse_standard_principal sha256 issuer)) (\<lambda>issuer.
          and_then (map_err Runtime (contract_name_try_from contract)) (\<lambda>contract_name.
          and_then (map_err Runtime (clarity_name_try_from name)) (\<lambda>name.
            Ok (issuer, contract_name, name))))
      | _ \<Rightarrow> Err missing_dot)"

definition parse_fully_qualified :: "(u8 list \<Rightarrow> u8 list) \<Rightarrow> string \<Rightarrow> (trait_identifier, vm_error) outcome" where
  "parse_fully_qualified sha256 literal =
     and_then (trait_parse sha256 literal) (\<lambda>(issuer, contract_name, name).
     and_then (ok_or (Runtime BadTypeConstruction) issuer) (\<lambda>issuer.
       Ok (TraitIdentifier name (QualifiedContractIdentifier issuer contract_name))))"

definition parse_sugared_syntax :: "(u8 list \<Rightarrow> u8 list) \<Rightarrow> string \<Rightarrow> (contract_name \<times> clarity_name, vm_error) outcome" where
  "parse_sugared_syntax sha256 literal =
     map_ok (\<lambda>(_, contract_name, name). (contract_name, name)) (trait_parse sha256 literal)"

section \<open>Round trips\<close>

text \<open>An address is made of letters, digits and underscores.\<close>

definition address_char :: "char \<Rightarrow> bool" where
  "address_char c \<longleftrightarrow> is_alpha c \<or> is_digit c \<or> c = CHR ''_''"

lemma c32_char_address: "d < 32 \<Longrightarrow> address_char (c32_char d)"
proof -
  have "list_all address_char C32_CHARACTERS" by code_simp
  then show "d < 32 \<Longrightarrow> address_char (c32_char d)"
    unfolding c32_char_def list_all_length by (simp add: c32_characters_facts)
qed

lemma to_address_chars: "\<forall>c \<in> set (to_address sha256 p). address_char c"
proof (cases "spd_version p < 32")
  case True
  then have v: "unat (spd_version p) < 32" by (simp add: word_less_nat_alt)
  have "address_char CHR ''S''" by code_simp
  then show ?thesis
    using True c32_digits_bound c32_char_address [OF v] c32_char_address
    by (auto simp: to_address_def c32_address_def c32_check_encode_def c32_encode_digits Let_def)
next
  case False
  have "list_all address_char ''INVALID_C32_ADD''" by code_simp
  then show ?thesis using False by (simp add: to_address_def c32_address_def c32_check_encode_def list_all_iff not_less)
qed

lemma address_char_separators: "\<not> address_char CHR ''.''" "\<not> address_char CHR '':''" "\<not> address_char CHR 0x27"
  by code_simp+

lemma to_address_separators:
  "CHR ''.'' \<notin> set (to_address sha256 p)" "CHR '':'' \<notin> set (to_address sha256 p)" "CHR 0x27 \<notin> set (to_address sha256 p)"
  using to_address_chars [of sha256 p] address_char_separators by blast+

lemma splitn_append:
  "c \<notin> set a \<Longrightarrow> splitn (Suc (Suc n)) c (a @ c # b) = a # splitn (Suc n) c b"
  by (simp add: takeWhile_append dropWhile_append)

lemma parse_to_address:
  assumes "\<forall>x. length (sha256 x) = 32" "length (spd_bytes p) = 20" "spd_version p < 32"
  shows "parse_standard_principal sha256 (to_address sha256 p) = Ok p"
proof -
  have "spd_bytes p \<noteq> []" using assms(2) by auto
  then obtain s where "c32_address sha256 (spd_version p) (spd_bytes p) = Ok s"
      "c32_address_decode sha256 s = Ok (spd_version p, spd_bytes p)"
    using address_round_trip [OF assms(1,3)] by blast
  then show ?thesis using assms(2) by (simp add: parse_standard_principal_def to_address_def)
qed

lemma to_address_not_quoted: "to_address sha256 p = c # cs \<Longrightarrow> c \<noteq> CHR 0x27"
  using to_address_separators(3) [of sha256 p] by (metis list.set_intros(1))

lemma to_address_not_Nil: "to_address sha256 p \<noteq> []"
  by (auto simp: to_address_def c32_address_def c32_check_encode_def Let_def)

lemma principal_parse_to_string:
  assumes "\<forall>x. length (sha256 x) = 32" "valid_principal p" "principal_version p < 32"
  shows "principal_parse sha256 (principal_to_string sha256 p) = Ok p"
proof (cases p)
  case (Standard sp)
  obtain c cs where a: "to_address sha256 sp = c # cs" using to_address_not_Nil by (cases "to_address sha256 sp") auto
  have "parse_standard_principal sha256 (to_address sha256 sp) = Ok sp"
    using assms Standard by (intro parse_to_address) (simp_all add: valid_principal_def)
  then show ?thesis
    using Standard to_address_not_quoted [OF a] to_address_separators(1) [of sha256 sp]
    by (simp add: principal_parse_def a)
next
  case (Contract q)
  obtain c cs where a: "to_address sha256 (qci_issuer q) = c # cs"
    using to_address_not_Nil by (cases "to_address sha256 (qci_issuer q)") auto
  have "parse_standard_principal sha256 (to_address sha256 (qci_issuer q)) = Ok (qci_issuer q)"
    using assms Contract by (intro parse_to_address) (simp_all add: valid_principal_def)
  moreover have "contract_name_try_from (qci_name q) = Ok (qci_name q)"
    using assms(2) Contract by (simp add: contract_name_try_from_Ok valid_principal_def)
  ultimately have "contract_parse sha256 (to_address sha256 (qci_issuer q) @ CHR ''.'' # qci_name q) = Ok q"
    using splitn_append [OF to_address_separators(1), of 0] by (simp add: contract_parse_def numeral_2_eq_2)
  then show ?thesis using Contract to_address_not_quoted [OF a] by (simp add: principal_parse_def a)
qed

text \<open>C38: for a hash function of 32 bytes, the text of a valid principal of a version below 32 is read back as that
  principal.\<close>

theorem principal_text_round_trip:
  assumes "\<forall>x. length (sha256 x) = 32" "valid_principal p" "principal_version p < 32"
  shows "principal_parse sha256 (principal_to_string sha256 p) = Ok p"
  by (rule principal_parse_to_string [OF assms])

theorem principal_text_round_trip_witness:
  "principal_parse (\<lambda>x. replicate 32 (word_of_nat (length x)))
     (principal_to_string (\<lambda>x. replicate 32 (word_of_nat (length x))) (Contract contract_transient)) =
   Ok (Contract contract_transient)"
proof (rule principal_text_round_trip)
  show "valid_principal (Contract contract_transient)" by code_simp
  show "principal_version (Contract contract_transient) < 32" by code_simp
qed simp

end
