(* ===== verification/Expressions.thy ===== *)
theory Expressions
  imports CostTable Natives Principals AssetMaps
begin

text \<open>
  What the interpreter works on: symbolic expressions (\<open>src/src/vm/representations.rs\<close>), type expressions
  (\<open>src/src/vm/types/signatures.rs\<close>), user-defined functions (\<open>src/src/vm/callables.rs\<close>) and contract contexts
  (\<open>src/src/vm/contexts.rs\<close>).

  The theorem on type expressions: every type that is parsed is well-formed, hence within the limits on size and
  depth.
\<close>

section \<open>Symbolic expressions\<close>

datatype trait_definition =
    Defined trait_identifier
  | Imported trait_identifier

text \<open>
  The enumeration and the structure refer to each other in the code. The enumeration takes the type of the
  expressions in a list as its parameter, and the structure closes the recursion.
\<close>

datatype 'e symbolic_expression_type =
    AtomValue val
  | Atom clarity_name
  | SList "'e list"
  | LiteralValue val
  | Field trait_identifier
  | TraitReference clarity_name trait_definition

datatype symbolic_expression =
  SymbolicExpression (expr: "symbolic_expression symbolic_expression_type") (sexp_id: u64)

definition atom_value :: "val \<Rightarrow> symbolic_expression" where
  "atom_value v = SymbolicExpression (AtomValue v) 0"

definition match_list :: "symbolic_expression \<Rightarrow> symbolic_expression list option" where
  "match_list e = (case expr e of SList l \<Rightarrow> Some l | _ \<Rightarrow> None)"

definition match_atom :: "symbolic_expression \<Rightarrow> clarity_name option" where
  "match_atom e = (case expr e of Atom a \<Rightarrow> Some a | _ \<Rightarrow> None)"

definition match_atom_value :: "symbolic_expression \<Rightarrow> val option" where
  "match_atom_value e = (case expr e of AtomValue v \<Rightarrow> Some v | _ \<Rightarrow> None)"

definition match_literal_value :: "symbolic_expression \<Rightarrow> val option" where
  "match_literal_value e = (case expr e of LiteralValue v \<Rightarrow> Some v | _ \<Rightarrow> None)"

definition match_field :: "symbolic_expression \<Rightarrow> trait_identifier option" where
  "match_field e = (case expr e of Field t \<Rightarrow> Some t | _ \<Rightarrow> None)"

section \<open>Type expressions\<close>

text \<open>Parsing charges for every step. \<open>charge\<close> is \<open>runtime_cost!\<close> on whatever keeps the accounts.\<close>

type_synonym 't charger = "simple_cost_specification \<Rightarrow> u64 \<Rightarrow> ('t, unit, cost_errors) routine"

definition charge_check :: "'t charger \<Rightarrow> simple_cost_specification \<Rightarrow> u64 \<Rightarrow> ('t, unit, check_errors) routine" where
  "charge_check charge sp n t = (case charge sp n t of (r, t') \<Rightarrow> (map_err CheckCost r, t'))"

definition parse_atom_type :: "string \<Rightarrow> (type_signature, check_errors) outcome" where
  "parse_atom_type typename =
     (if typename = ''int'' then Ok IntType
      else if typename = ''uint'' then Ok UIntType
      else if typename = ''bool'' then Ok BoolType
      else if typename = ''principal'' then Ok PrincipalType
      else Err (UnknownTypeName typename))"

definition parse_buff_type_repr :: "symbolic_expression list \<Rightarrow> (type_signature, check_errors) outcome" where
  "parse_buff_type_repr type_args =
     (case map expr type_args of
        [LiteralValue (VInt buff_len)] \<Rightarrow> map_ok BufferType (buffer_length_from_i128 buff_len)
      | _ \<Rightarrow> Err InvalidTypeDescription)"

definition u32_try_from_i128 :: "i128 \<Rightarrow> u32 option" where
  "u32_try_from_i128 n = (if 0 \<le> sint n \<and> sint n < 2 ^ 32 then Some (word_of_int (sint n)) else None)"

fun as_pair :: "symbolic_expression \<Rightarrow> (symbolic_expression \<times> symbolic_expression) option" where
  "as_pair (SymbolicExpression (SList [a, b]) i) = Some (a, b)"
| "as_pair _ = None"

fun parse_type_repr :: "'t charger \<Rightarrow> symbolic_expression \<Rightarrow> ('t, type_signature, check_errors) routine"
  and parse_list_type_repr :: "'t charger \<Rightarrow> symbolic_expression list \<Rightarrow> ('t, type_signature, check_errors) routine"
  and parse_tuple_type_repr :: "'t charger \<Rightarrow> symbolic_expression list \<Rightarrow> ('t, type_signature, check_errors) routine"
  and parse_optional_type_repr :: "'t charger \<Rightarrow> symbolic_expression list \<Rightarrow> ('t, type_signature, check_errors) routine"
  and parse_response_type_repr :: "'t charger \<Rightarrow> symbolic_expression list \<Rightarrow> ('t, type_signature, check_errors) routine"
  and parse_pair_types :: "'t charger \<Rightarrow> symbolic_expression list \<Rightarrow>
      ('t, (clarity_name \<times> type_signature) list, check_errors) routine" where
  "parse_type_repr charge (SymbolicExpression x i) =
     seq (charge_check charge COST_TYPE_PARSE_STEP 0) (\<lambda>_.
       case x of
         Atom atom_type_str \<Rightarrow> attempt (parse_atom_type atom_type_str)
       | SList (SymbolicExpression (Atom compound_type) _ # rest) \<Rightarrow>
           if compound_type = ''list'' then parse_list_type_repr charge rest
           else if compound_type = ''buff'' then attempt (parse_buff_type_repr rest)
           else if compound_type = ''tuple'' then parse_tuple_type_repr charge rest
           else if compound_type = ''optional'' then parse_optional_type_repr charge rest
           else if compound_type = ''response'' then parse_response_type_repr charge rest
           else attempt (Err InvalidTypeDescription)
       | TraitReference _ (Defined trait_id) \<Rightarrow> give (TraitReferenceType trait_id)
       | TraitReference _ (Imported trait_id) \<Rightarrow> give (TraitReferenceType trait_id)
       | _ \<Rightarrow> attempt (Err InvalidTypeDescription))"
| "parse_list_type_repr charge type_args =
     (case type_args of
        [SymbolicExpression (LiteralValue (VInt max_len)) _, atomic_type_arg] \<Rightarrow>
          seq (parse_type_repr charge atomic_type_arg) (\<lambda>entry_type.
          seq (attempt (ok_or ValueTooLarge (u32_try_from_i128 max_len))) (\<lambda>max_len.
            attempt (map_ok (\<lambda>(n, t). ListType n t) (new_list entry_type max_len))))
      | _ \<Rightarrow> attempt (Err InvalidTypeDescription))"
| "parse_tuple_type_repr charge type_args =
     (if list_all (\<lambda>p. as_pair p \<noteq> None) type_args then
        seq (parse_pair_types charge type_args) (\<lambda>mapped_key_types.
          attempt (map_ok TupleType (tuple_type_try_from_vec mapped_key_types)))
      else attempt (Err BadSyntaxExpectedListOfPairs))"
| "parse_optional_type_repr charge type_args =
     (case type_args of
        [t] \<Rightarrow> seq (parse_type_repr charge t) (\<lambda>inner_type. attempt (new_option inner_type))
      | _ \<Rightarrow> attempt (Err InvalidTypeDescription))"
| "parse_response_type_repr charge type_args =
     (case type_args of
        [t, u] \<Rightarrow>
          seq (parse_type_repr charge t) (\<lambda>ok_type.
          seq (parse_type_repr charge u) (\<lambda>err_type.
            attempt (new_response ok_type err_type)))
      | _ \<Rightarrow> attempt (Err InvalidTypeDescription))"
| "parse_pair_types charge [] = give []"
| "parse_pair_types charge (SymbolicExpression (SList [name_symbol, type_symbol]) i # rest) =
     seq (attempt (ok_or BadSyntaxExpectedListOfPairs (match_atom name_symbol))) (\<lambda>name.
     seq (parse_type_repr charge type_symbol) (\<lambda>type_info.
     seq (parse_pair_types charge rest) (\<lambda>key_types.
       give ((name, type_info) # key_types))))"
| "parse_pair_types charge (_ # rest) = attempt (Err BadSyntaxExpectedListOfPairs)"

definition parse_name_type_pairs :: "'t charger \<Rightarrow> symbolic_expression list \<Rightarrow>
    ('t, (clarity_name \<times> type_signature) list, check_errors) routine" where
  "parse_name_type_pairs charge name_type_pairs =
     (if list_all (\<lambda>p. as_pair p \<noteq> None) name_type_pairs then parse_pair_types charge name_type_pairs
      else attempt (Err BadSyntaxExpectedListOfPairs))"

definition parse_name_type_pair_list :: "'t charger \<Rightarrow> symbolic_expression \<Rightarrow>
    ('t, tuple_type_signature, check_errors) routine" where
  "parse_name_type_pair_list charge type_def =
     (case expr type_def of
        SList name_type_pairs \<Rightarrow>
          seq (parse_name_type_pairs charge name_type_pairs) (\<lambda>mapped_key_types.
            attempt (tuple_type_try_from_vec mapped_key_types))
      | _ \<Rightarrow> attempt (Err BadSyntaxExpectedListOfPairs))"

section \<open>Functions and traits\<close>

record function_signature =
  fs_args :: "type_signature list"
  fs_returns :: type_signature

fun args_comply :: "type_signature list \<Rightarrow> type_signature list \<Rightarrow> (bool, check_errors) outcome" where
  "args_comply (TraitReferenceType expected # es) (TraitReferenceType candidate # args) =
     (if candidate \<noteq> expected then Ok False else args_comply es args)"
| "args_comply (expected_arg # es) (arg # args) =
     and_then (admits_type arg expected_arg) (\<lambda>ok. if \<not> ok then Ok False else args_comply es args)"
| "args_comply _ _ = Ok True"

definition check_args_trait_compliance :: "function_signature \<Rightarrow> type_signature list \<Rightarrow> (bool, check_errors) outcome" where
  "check_args_trait_compliance f args =
     (if length args \<noteq> length (fs_args f) then Ok False else args_comply (fs_args f) args)"

fun parse_types :: "'t charger \<Rightarrow> symbolic_expression list \<Rightarrow> ('t, type_signature list, check_errors) routine" where
  "parse_types charge [] = give []"
| "parse_types charge (e # es) =
     seq (parse_type_repr charge e) (\<lambda>t. seq (parse_types charge es) (\<lambda>ts. give (t # ts)))"

text \<open>The type of the result: every error of parsing it becomes the same one.\<close>

definition parse_response_return :: "'t charger \<Rightarrow> symbolic_expression \<Rightarrow> ('t, type_signature, check_errors) routine" where
  "parse_response_return charge e t =
     (case parse_type_repr charge e t of
        (Ok (ResponseType a b), t') \<Rightarrow> (Ok (ResponseType a b), t')
      | (Panic, t') \<Rightarrow> (Panic, t')
      | (_, t') \<Rightarrow> (Err DefineTraitBadSignature, t'))"

fun parse_trait_functions :: "'t charger \<Rightarrow> (clarity_name, function_signature) btree \<Rightarrow> symbolic_expression list \<Rightarrow>
    ('t, (clarity_name, function_signature) btree, check_errors) routine" where
  "parse_trait_functions charge sig [] = give sig"
| "parse_trait_functions charge sig (function_type # rest) =
     seq (attempt (ok_or DefineTraitBadSignature (match_list function_type))) (\<lambda>args.
       case args of
         [a, b, c] \<Rightarrow>
           seq (attempt (ok_or DefineTraitBadSignature (match_atom a))) (\<lambda>fn_name.
           seq (attempt (ok_or DefineTraitBadSignature (match_list b))) (\<lambda>fn_args_exprs.
           seq (parse_types charge fn_args_exprs) (\<lambda>fn_args.
           seq (parse_response_return charge c) (\<lambda>fn_return.
             parse_trait_functions charge
               (bt_insert fn_name \<lparr>fs_args = fn_args, fs_returns = fn_return\<rparr> sig) rest))))
       | _ \<Rightarrow> attempt (Err InvalidTypeDescription))"

definition parse_trait_type_repr :: "'t charger \<Rightarrow> symbolic_expression list \<Rightarrow>
    ('t, (clarity_name, function_signature) btree, check_errors) routine" where
  "parse_trait_type_repr charge type_args =
     (case type_args of
        [] \<Rightarrow> attempt Panic
      | e # _ \<Rightarrow>
          seq (attempt (ok_or DefineTraitBadSignature (match_list e))) (parse_trait_functions charge []))"

datatype define_type = ReadOnly | Public | Private

record defined_function =
  df_identifier :: function_identifier
  df_name :: clarity_name
  df_arg_types :: "type_signature list"
  df_define_type :: define_type
  df_arguments :: "clarity_name list"
  df_body :: symbolic_expression

definition new_native_function :: "string \<Rightarrow> function_identifier" where
  "new_native_function name = ''_native_:'' @ name"

definition new_user_function :: "string \<Rightarrow> string \<Rightarrow> function_identifier" where
  "new_user_function name context = context @ '':'' @ name"

definition defined_function_new :: "(clarity_name \<times> type_signature) list \<Rightarrow> symbolic_expression \<Rightarrow> define_type \<Rightarrow>
    clarity_name \<Rightarrow> string \<Rightarrow> defined_function" where
  "defined_function_new arguments body define_type name context_name =
     \<lparr>df_identifier = new_user_function name context_name, df_name = name, df_arg_types = map snd arguments,
      df_define_type = define_type, df_arguments = map fst arguments, df_body = body\<rparr>"

definition df_is_read_only :: "defined_function \<Rightarrow> bool" where
  "df_is_read_only f \<longleftrightarrow> df_define_type f = ReadOnly"

definition df_is_public :: "defined_function \<Rightarrow> bool" where
  "df_is_public f = (case df_define_type f of Public \<Rightarrow> True | Private \<Rightarrow> False | ReadOnly \<Rightarrow> True)"

section \<open>Contract contexts\<close>

record contract_context =
  contract_identifier :: qualified_contract_identifier
  ctx_variables :: "(clarity_name, val) hash_map"
  ctx_functions :: "(clarity_name, defined_function) hash_map"
  defined_traits :: "(clarity_name, (clarity_name, function_signature) btree) hash_map"
  implemented_traits :: "trait_identifier set"
  persisted_names :: "clarity_name set"
  data_size :: u64

definition contract_context_new :: "qualified_contract_identifier \<Rightarrow> contract_context" where
  "contract_context_new c =
     \<lparr>contract_identifier = c, ctx_variables = [], ctx_functions = [], defined_traits = [],
      implemented_traits = {}, persisted_names = {}, data_size = 0\<rparr>"

definition ctx_lookup_variable :: "contract_context \<Rightarrow> string \<Rightarrow> val option" where
  "ctx_lookup_variable c name = hm_get (ctx_variables c) name"

definition ctx_lookup_function :: "contract_context \<Rightarrow> string \<Rightarrow> defined_function option" where
  "ctx_lookup_function c name = hm_get (ctx_functions c) name"

definition lookup_trait_definition :: "contract_context \<Rightarrow> string \<Rightarrow> (clarity_name, function_signature) btree option" where
  "lookup_trait_definition c name = hm_get (defined_traits c) name"

definition is_explicitly_implementing_trait :: "contract_context \<Rightarrow> trait_identifier \<Rightarrow> bool" where
  "is_explicitly_implementing_trait c t \<longleftrightarrow> t \<in> implemented_traits c"

definition check_trait_expectations :: "defined_function \<Rightarrow> contract_context \<Rightarrow> trait_identifier \<Rightarrow>
    (unit, vm_error) outcome" where
  "check_trait_expectations f contract_defining_trait t =
     and_then (ok_or (Unchecked (TraitReferenceUnknown (trait_name t)))
       (lookup_trait_definition contract_defining_trait (trait_name t))) (\<lambda>constraining_trait.
     and_then (ok_or (Unchecked (TraitMethodUnknown (trait_name t) (df_name f)))
       (bt_get constraining_trait (df_name f))) (\<lambda>expected_sig.
     and_then (map_err Unchecked (check_args_trait_compliance expected_sig (df_arg_types f))) (\<lambda>ok.
       if \<not> ok then Err (Unchecked (BadTraitImplementation (trait_name t) (df_name f))) else Ok ())))"

section \<open>Parsed types are well-formed\<close>

text \<open>The names in an expression are guarded strings. A literal length may be any integer; the theorem is about
  lengths that are not negative.\<close>

fun sexp_wf :: "symbolic_expression \<Rightarrow> bool" where
  "sexp_wf (SymbolicExpression (Atom a) i) = valid_clarity_name a"
| "sexp_wf (SymbolicExpression (SList l) i) = (\<forall>e \<in> set l. sexp_wf e)"
| "sexp_wf (SymbolicExpression (LiteralValue (VInt n)) i) = (0 \<le> sint n)"
| "sexp_wf (SymbolicExpression _ i) = True"

lemma seq_eq_Ok: "seq m f s = (Ok y, s') \<longleftrightarrow> (\<exists>x s1. m s = (Ok x, s1) \<and> f x s1 = (Ok y, s'))"
  by (auto simp: seq_def split: prod.splits outcome.splits)

lemma new_list_wf: "new_list t n = Ok (m, u) \<Longrightarrow> wf_type t \<Longrightarrow> wf_type (ListType m u)"
  using new_list_exact [of t n] by (auto split: if_splits)

lemma tuple_collect_wf:
  assumes "tuple_type_collect m ds = Ok fs" "bt_wf m"
    "\<forall>p \<in> set m. valid_clarity_name (fst p) \<and> wf_type (snd p)"
    "\<forall>p \<in> set ds. valid_clarity_name (fst p) \<and> wf_type (snd p)"
  shows "bt_wf fs \<and> (\<forall>p \<in> set fs. valid_clarity_name (fst p) \<and> wf_type (snd p))"
  using assms
proof (induction m ds rule: tuple_type_collect.induct)
  case (2 m name t ds)
  then have fresh: "bt_get m name = None" and rest: "tuple_type_collect (bt_insert name t m) ds = Ok fs"
    by (auto split: if_splits)
  have "set (bt_insert name t m) = insert (name, t) (set m)" using fresh by (simp add: bt_insert_set_fresh map_of_eq_None_iff)
  with 2 rest fresh show ?case by (auto simp: bt_insert_wf)
qed simp

lemma tuple_type_try_from_vec_wf:
  assumes "tuple_type_try_from_vec ds = Ok fs" "\<forall>p \<in> set ds. valid_clarity_name (fst p) \<and> wf_type (snd p)"
  shows "wf_type (TupleType fs)"
proof -
  obtain gs where gs: "tuple_type_collect [] ds = Ok gs" "tuple_type_try_from gs = Ok fs"
    using assms(1) by (auto simp: tuple_type_try_from_vec_def outcome_simps split: if_splits)
  have wf: "bt_wf gs \<and> (\<forall>p \<in> set gs. valid_clarity_name (fst p) \<and> wf_type (snd p))"
    using tuple_collect_wf [OF gs(1)] assms(2) by simp
  then have "fs = gs" using gs(2) tuple_type_try_from_exact [of gs] by (auto split: if_splits)
  with wf gs(2) show ?thesis by simp
qed

lemma buffer_length_wf:
  assumes "buffer_length_from_i128 n = Ok l" "0 \<le> sint n"
  shows "wf_type (BufferType l)"
proof -
  have n: "sint n \<le> 1048576" "l = ucast n"
    using assms(1) by (auto simp: buffer_length_from_i128_def MAX_VALUE_SIZE_def split: if_splits)
  have "uint n = uint (word_of_int (sint n) :: i128)" by simp
  also have "\<dots> = sint n" unfolding unsigned_of_int using assms(2) n(1) by (simp add: take_bit_int_eq_self)
  finally have "uint n = sint n" .
  then have "uint l \<le> 1048576" using n assms(2) by (simp add: unsigned_ucast_eq take_bit_int_eq_self)
  then show ?thesis by (simp add: word_le_def MAX_VALUE_SIZE_def)
qed

lemma parse_atom_wf: "parse_atom_type a = Ok t \<Longrightarrow> wf_type t"
  by (auto simp: parse_atom_type_def split: if_splits)

lemma parse_buff_wf:
  assumes "parse_buff_type_repr es = Ok t" "\<forall>e \<in> set es. sexp_wf e"
  shows "wf_type t"
proof -
  obtain n l where "map expr es = [LiteralValue (VInt n)]" and l: "buffer_length_from_i128 n = Ok l" "t = BufferType l"
    using assms(1) by (auto simp: parse_buff_type_repr_def outcome_simps
        split: list.splits symbolic_expression_type.splits val.splits)
  then obtain i where "es = [SymbolicExpression (LiteralValue (VInt n)) i]"
    by (auto simp: map_eq_Cons_conv) (metis symbolic_expression.collapse)
  then show ?thesis using assms(2) l buffer_length_wf [OF l(1)] by simp
qed

lemma parse_wf:
  "\<And>s s' t. parse_type_repr charge e s = (Ok t, s') \<Longrightarrow> sexp_wf e \<Longrightarrow> wf_type t"
  "\<And>s s' t. parse_list_type_repr charge es s = (Ok t, s') \<Longrightarrow> \<forall>e \<in> set es. sexp_wf e \<Longrightarrow> wf_type t"
  "\<And>s s' t. parse_tuple_type_repr charge es s = (Ok t, s') \<Longrightarrow> \<forall>e \<in> set es. sexp_wf e \<Longrightarrow> wf_type t"
  "\<And>s s' t. parse_optional_type_repr charge es s = (Ok t, s') \<Longrightarrow> \<forall>e \<in> set es. sexp_wf e \<Longrightarrow> wf_type t"
  "\<And>s s' t. parse_response_type_repr charge es s = (Ok t, s') \<Longrightarrow> \<forall>e \<in> set es. sexp_wf e \<Longrightarrow> wf_type t"
  "\<And>s s' ps. parse_pair_types charge es s = (Ok ps, s') \<Longrightarrow> \<forall>e \<in> set es. sexp_wf e \<Longrightarrow>
     \<forall>p \<in> set ps. valid_clarity_name (fst p) \<and> wf_type (snd p)"
proof (induction charge e and charge es and charge es and charge es and charge es and charge es
    rule: parse_type_repr_parse_list_type_repr_parse_tuple_type_repr_parse_optional_type_repr_parse_response_type_repr_parse_pair_types.induct)
  case (1 charge x i)
  then show ?case
    by (auto simp: seq_eq_Ok parse_atom_wf parse_buff_wf
        simp del: parse_list_type_repr.simps parse_tuple_type_repr.simps parse_optional_type_repr.simps parse_response_type_repr.simps
        split: symbolic_expression_type.splits list.splits symbolic_expression.splits if_splits trait_definition.splits)
next
  case (2 charge es)
  then show ?case
    by (auto simp: seq_eq_Ok outcome_simps intro: new_list_wf simp del: wf_type.simps parse_type_repr.simps
        split: list.splits symbolic_expression.splits symbolic_expression_type.splits val.splits)
next
  case (3 charge es)
  then obtain ps fs where ps: "parse_pair_types charge es s = (Ok ps, s')" "tuple_type_try_from_vec ps = Ok fs"
      "t = TupleType fs"
    by (auto simp: seq_eq_Ok outcome_simps split: if_splits)
  have "\<forall>p \<in> set ps. valid_clarity_name (fst p) \<and> wf_type (snd p)"
    using 3 ps(1) by (auto split: if_splits)
  with ps show ?case using tuple_type_try_from_vec_wf by blast
next
  case (4 charge es)
  then show ?case
    by (auto simp: seq_eq_Ok intro: new_option_wf simp del: wf_type.simps split: list.splits)
next
  case (5 charge es)
  then show ?case
    by (auto simp: seq_eq_Ok intro: new_response_wf simp del: wf_type.simps split: list.splits)
next
  case (7 charge n t i rest)
  have "valid_clarity_name a" if "match_atom n = Some a" "sexp_wf n" for a
    using that by (cases n rule: sexp_wf.cases) (auto simp: match_atom_def)
  moreover obtain a u s1 ps' where "match_atom n = Some a" and u: "parse_type_repr charge t s = (Ok u, s1)"
      and ps': "parse_pair_types charge rest s1 = (Ok ps', s')" and ps: "ps = (a, u) # ps'"
    using 7 by (auto simp: seq_eq_Ok outcome_simps simp del: parse_type_repr.simps)
  moreover have "\<forall>p \<in> set ps'. valid_clarity_name (fst p) \<and> wf_type (snd p)"
    using 7(2) [OF ps'] 7 by simp
  moreover have "wf_type u" using 7(1) [OF u] 7 by simp
  ultimately show ?case using 7 by simp
qed auto

text \<open>C39: every type that is parsed is well-formed, whatever charges are made on the way.\<close>

theorem parsed_types_wf:
  assumes "parse_type_repr charge e s = (Ok t, s')" "sexp_wf e"
  shows "wf_type t"
  using assms by (rule parse_wf(1))

theorem parsed_types_wf_witness:
  "wf_type (OptionalType (BufferType 32))"
proof (rule parsed_types_wf)
  let ?a = "\<lambda>n. SymbolicExpression (Atom n) 0"
  show "parse_type_repr (\<lambda>sp n s. (Ok (), s)) (SymbolicExpression (SList [?a ''optional'',
      SymbolicExpression (SList [?a ''buff'', SymbolicExpression (LiteralValue (VInt 32)) 0]) 0]) 0) () =
    (Ok (OptionalType (BufferType 32)), ())"
    by code_simp
  show "sexp_wf (SymbolicExpression (SList [?a ''optional'',
      SymbolicExpression (SList [?a ''buff'', SymbolicExpression (LiteralValue (VInt 32)) 0]) 0]) 0)"
    by code_simp
qed

end
