(* ===== verification/ClarityDB.thy ===== *)
theory ClarityDB
  imports SerializationRoundTrip Contexts Expressions
begin

text \<open>
  The database of the Clarity VM, \<open>src/src/vm/database/clarity_db.rs\<close> and \<open>src/src/vm/database/structures.rs\<close>: contracts and
  their metadata, block information, data variables, data maps, token balances, asset owners, STX balances and
  nonces, all as text under text keys in the nested store.

  The JSON codec, the block headers and the hash functions come from outside the sources and are fields of a \<open>host\<close>
  record. The theorems relate what is written to what is read later, and show which keys can collide.
\<close>

section \<open>What the database relies on\<close>

type_synonym 'a codec = "('a \<Rightarrow> string) \<times> (string \<Rightarrow> 'a option)"

record fungible_token_metadata =
  ft_total_supply :: "u128 option"

record non_fungible_token_metadata =
  nft_key_type :: type_signature

record data_map_metadata =
  map_key_type :: type_signature
  map_value_type :: type_signature

record data_variable_metadata =
  var_value_type :: type_signature

record headers_db =
  get_stacks_block_header_hash_for_block :: "block_header_hash \<Rightarrow> block_header_hash option"
  get_burn_header_hash_for_block :: "block_header_hash \<Rightarrow> u8 list option"
  get_vrf_seed_for_block :: "block_header_hash \<Rightarrow> u8 list option"
  get_burn_block_time_for_block :: "block_header_hash \<Rightarrow> u64 option"
  get_miner_address_for_block :: "block_header_hash \<Rightarrow> standard_principal_data option"

definition null_headers_db :: headers_db where
  "null_headers_db =
     \<lparr>get_stacks_block_header_hash_for_block = (\<lambda>_. None), get_burn_header_hash_for_block = (\<lambda>_. None),
      get_vrf_seed_for_block = (\<lambda>_. None), get_burn_block_time_for_block = (\<lambda>_. None),
      get_miner_address_for_block = (\<lambda>_. None)\<rparr>"

record 's host =
  backing :: "'s backing_store"
  headers :: headers_db
  sha256 :: "u8 list \<Rightarrow> u8 list"
  sha512 :: "u8 list \<Rightarrow> u8 list"
  sha512_256 :: "u8 list \<Rightarrow> u8 list"
  hash160 :: "u8 list \<Rightarrow> u8 list"
  keccak256 :: "u8 list \<Rightarrow> u8 list"
  json_u128 :: "u128 codec"
  json_u64 :: "u64 codec"
  json_principal :: "principal_data codec"
  json_variable :: "data_variable_metadata codec"
  json_map :: "data_map_metadata codec"
  json_ft :: "fungible_token_metadata codec"
  json_nft :: "non_fungible_token_metadata codec"
  json_contract :: "contract_context codec"

text \<open>A string is its own serialized form.\<close>

definition string_codec :: "string codec" where
  "string_codec = (id, Some)"

type_synonym ('s, 'a) db_op = "('s rollback_wrapper, 'a, vm_error) routine"

section \<open>Access to the store\<close>

definition db_write :: "('s rollback_wrapper \<Rightarrow> ('s rollback_wrapper, unit) outcome) \<Rightarrow> ('s, unit) db_op" where
  "db_write f w = (case f w of Ok w' \<Rightarrow> (Ok (), w') | _ \<Rightarrow> (Panic, w))"

definition db_read :: "('s rollback_wrapper \<Rightarrow> ('a, vm_error) outcome) \<Rightarrow> ('s, 'a) db_op" where
  "db_read f w = (f w, w)"

definition deserialize_with :: "'a codec \<Rightarrow> string \<Rightarrow> ('a, 'e) outcome" where
  "deserialize_with c x = unwrap_opt (snd c x)"

definition db_put :: "'a codec \<Rightarrow> string \<Rightarrow> 'a \<Rightarrow> ('s, unit) db_op" where
  "db_put c key v = db_write (put key (fst c v))"

definition db_put_value :: "string \<Rightarrow> val \<Rightarrow> ('s, unit) db_op" where
  "db_put_value key v = seq (attempt (expect (value_serialize v))) (\<lambda>x. db_write (put key x))"

definition db_get :: "'s host \<Rightarrow> 'a codec \<Rightarrow> string \<Rightarrow> ('s, 'a option) db_op" where
  "db_get h c key = db_read (\<lambda>w. expect (get_with (deserialize_with c) (backing h) w key))"

definition db_get_value :: "'s host \<Rightarrow> string \<Rightarrow> type_signature \<Rightarrow> ('s, val option) db_op" where
  "db_get_value h key expected = db_read (\<lambda>w. expect (get_value (backing h) w key expected))"

definition db_insert_metadata :: "'s host \<Rightarrow> 'a codec \<Rightarrow> qualified_contract_identifier \<Rightarrow> string \<Rightarrow> 'a \<Rightarrow>
    ('s, unit) db_op" where
  "db_insert_metadata h c contract key data =
     seq (db_read (\<lambda>w. expect (has_metadata_entry (backing h) w (contract, key)))) (\<lambda>there.
       if there then attempt Panic else db_write (insert_metadata (contract, key) (fst c data)))"

definition fetch_metadata :: "'s host \<Rightarrow> 'a codec \<Rightarrow> qualified_contract_identifier \<Rightarrow> string \<Rightarrow> ('s, 'a option) db_op" where
  "fetch_metadata h c contract key =
     db_read (\<lambda>w. and_then (get_metadata (backing h) w (contract, key)) (\<lambda>x_opt.
       case x_opt of None \<Rightarrow> Ok None | Some x \<Rightarrow> map_ok Some (deserialize_with c x)))"

definition map_no_contract_as_none :: "('s, 'a option) db_op \<Rightarrow> ('s, 'a option) db_op" where
  "map_no_contract_as_none m w =
     (case m w of (Err (Unchecked (NoSuchContract _)), w') \<Rightarrow> (Ok None, w') | r \<Rightarrow> r)"

section \<open>Keys\<close>

datatype store_type =
    DataMap | Variable | FungibleToken | CirculatingSupply | NonFungibleToken | DataMapMeta | VariableMeta
  | FungibleTokenMeta | NonFungibleTokenMeta | ContractStore | SimmedBlock | SimmedBlockHeight | Nonce | STXBalance

fun store_type_u8 :: "store_type \<Rightarrow> nat" where
  "store_type_u8 DataMap = 0x00"
| "store_type_u8 Variable = 0x01"
| "store_type_u8 FungibleToken = 0x02"
| "store_type_u8 CirculatingSupply = 0x03"
| "store_type_u8 NonFungibleToken = 0x04"
| "store_type_u8 DataMapMeta = 0x05"
| "store_type_u8 VariableMeta = 0x06"
| "store_type_u8 FungibleTokenMeta = 0x07"
| "store_type_u8 NonFungibleTokenMeta = 0x08"
| "store_type_u8 ContractStore = 0x09"
| "store_type_u8 SimmedBlock = 0x10"
| "store_type_u8 SimmedBlockHeight = 0x11"
| "store_type_u8 Nonce = 0x12"
| "store_type_u8 STXBalance = 0x13"

definition make_key_for_trip :: "'s host \<Rightarrow> qualified_contract_identifier \<Rightarrow> store_type \<Rightarrow> string \<Rightarrow> string" where
  "make_key_for_trip h contract data var_name =
     ''vm::'' @ contract_to_string (sha256 h) contract @ ''::'' @ decimal (store_type_u8 data) @ ''::'' @ var_name"

definition make_metadata_key :: "store_type \<Rightarrow> string \<Rightarrow> string" where
  "make_metadata_key data var_name = ''vm-metadata::'' @ decimal (store_type_u8 data) @ ''::'' @ var_name"

definition make_key_for_quad :: "'s host \<Rightarrow> qualified_contract_identifier \<Rightarrow> store_type \<Rightarrow> string \<Rightarrow> string \<Rightarrow> string" where
  "make_key_for_quad h contract data var_name key_value =
     ''vm::'' @ contract_to_string (sha256 h) contract @ ''::'' @ decimal (store_type_u8 data) @ ''::'' @ var_name @
     ''::'' @ key_value"

definition make_key_for_account :: "'s host \<Rightarrow> principal_data \<Rightarrow> store_type \<Rightarrow> string" where
  "make_key_for_account h p data =
     ''vm-account::'' @ principal_to_string (sha256 h) p @ ''::'' @ decimal (store_type_u8 data)"

definition make_contract_hash_key :: "'s host \<Rightarrow> qualified_contract_identifier \<Rightarrow> string" where
  "make_contract_hash_key h contract = ''clarity-contract::'' @ contract_to_string (sha256 h) contract"

section \<open>Contracts\<close>

definition prepare_for_contract_metadata :: "'s host \<Rightarrow> qualified_contract_identifier \<Rightarrow> u8 list \<Rightarrow> ('s, unit) db_op" where
  "prepare_for_contract_metadata h contract content_hash w =
     db_write (put (make_contract_hash_key h contract)
       (make_contract_commitment (backing h) (store w) content_hash)) w"

definition insert_contract_hash :: "'s host \<Rightarrow> qualified_contract_identifier \<Rightarrow> string \<Rightarrow> ('s, unit) db_op" where
  "insert_contract_hash h contract contract_content =
     seq (prepare_for_contract_metadata h contract (sha512_256 h (map byte_of_char contract_content))) (\<lambda>_.
     seq (db_insert_metadata h (json_u64 h) contract (make_metadata_key ContractStore ''contract-size'')
            (word_of_nat (length contract_content))) (\<lambda>_.
       db_insert_metadata h string_codec contract (make_metadata_key ContractStore ''contract-src'') contract_content))"

definition get_contract_src :: "'s host \<Rightarrow> qualified_contract_identifier \<Rightarrow> ('s, string option) db_op" where
  "get_contract_src h contract w =
     (case fetch_metadata h string_codec contract (make_metadata_key ContractStore ''contract-src'') w of
        (Err _, w') \<Rightarrow> (Ok None, w') | r \<Rightarrow> r)"

definition get_contract_size :: "'s host \<Rightarrow> qualified_contract_identifier \<Rightarrow> ('s, u64) db_op" where
  "get_contract_size h contract =
     seq (fetch_metadata h (json_u64 h) contract (make_metadata_key ContractStore ''contract-size'')) (\<lambda>r.
     seq (attempt (unwrap_opt r)) (\<lambda>contract_size.
     seq (fetch_metadata h (json_u64 h) contract (make_metadata_key ContractStore ''contract-data-size'')) (\<lambda>r.
     seq (attempt (unwrap_opt r)) (\<lambda>data_size.
       give (data_size + contract_size)))))"

definition set_contract_data_size :: "'s host \<Rightarrow> qualified_contract_identifier \<Rightarrow> u64 \<Rightarrow> ('s, unit) db_op" where
  "set_contract_data_size h contract n =
     seq (fetch_metadata h (json_u64 h) contract (make_metadata_key ContractStore ''contract-size'')) (\<lambda>r.
     seq (attempt (unwrap_opt r)) (\<lambda>contract_size.
     seq (attempt (map_err (\<lambda>e. Unchecked (CheckCost e)) (cost_overflow_add contract_size n))) (\<lambda>_.
       db_insert_metadata h (json_u64 h) contract (make_metadata_key ContractStore ''contract-data-size'') n)))"

definition insert_contract :: "'s host \<Rightarrow> qualified_contract_identifier \<Rightarrow> contract_context \<Rightarrow> ('s, unit) db_op" where
  "insert_contract h contract c =
     db_insert_metadata h (json_contract h) contract (make_metadata_key ContractStore ''contract'') c"

definition has_contract :: "'s host \<Rightarrow> qualified_contract_identifier \<Rightarrow> ('s, bool) db_op" where
  "has_contract h contract =
     db_read (\<lambda>w. expect (has_metadata_entry (backing h) w (contract, make_metadata_key ContractStore ''contract'')))"

definition get_contract :: "'s host \<Rightarrow> qualified_contract_identifier \<Rightarrow> ('s, contract_context) db_op" where
  "get_contract h contract =
     seq (fetch_metadata h (json_contract h) contract (make_metadata_key ContractStore ''contract'')) (\<lambda>r.
       attempt (unwrap_opt r))"

section \<open>Blocks\<close>

definition get_index_block_header_hash :: "'s host \<Rightarrow> u32 \<Rightarrow> ('s, block_header_hash) db_op" where
  "get_index_block_header_hash h block_height =
     db_read (\<lambda>w. unwrap_opt (get_block_header_hash (backing h) w block_height))"

definition db_get_current_block_height :: "'s host \<Rightarrow> ('s, u32) db_op" where
  "db_get_current_block_height h = db_read (\<lambda>w. Ok (get_current_block_height (backing h) w))"

definition header_field :: "'s host \<Rightarrow> (headers_db \<Rightarrow> block_header_hash \<Rightarrow> 'a option) \<Rightarrow> u32 \<Rightarrow> ('s, 'a) db_op" where
  "header_field h f block_height =
     seq (get_index_block_header_hash h block_height) (\<lambda>id_bhh. attempt (unwrap_opt (f (headers h) id_bhh)))"

definition db_get_block_header_hash :: "'s host \<Rightarrow> u32 \<Rightarrow> ('s, block_header_hash) db_op" where
  "db_get_block_header_hash h = header_field h get_stacks_block_header_hash_for_block"

definition get_block_time :: "'s host \<Rightarrow> u32 \<Rightarrow> ('s, u64) db_op" where
  "get_block_time h = header_field h get_burn_block_time_for_block"

definition get_burnchain_block_header_hash :: "'s host \<Rightarrow> u32 \<Rightarrow> ('s, u8 list) db_op" where
  "get_burnchain_block_header_hash h = header_field h get_burn_header_hash_for_block"

definition get_block_vrf_seed :: "'s host \<Rightarrow> u32 \<Rightarrow> ('s, u8 list) db_op" where
  "get_block_vrf_seed h = header_field h get_vrf_seed_for_block"

definition get_miner_address :: "'s host \<Rightarrow> u32 \<Rightarrow> ('s, standard_principal_data) db_op" where
  "get_miner_address h = header_field h get_miner_address_for_block"

definition db_set_block_hash :: "'s host \<Rightarrow> block_header_hash \<Rightarrow> ('s, block_header_hash) db_op" where
  "db_set_block_hash h bhh w =
     (case set_block_hash (backing h) bhh w of
        Ok (prior, w') \<Rightarrow> (Ok prior, w') | Err e \<Rightarrow> (Err e, w) | Panic \<Rightarrow> (Panic, w))"

section \<open>Data variables\<close>

text \<open>\<open>TypeSignature::admits\<close> as a guard with the error of the callers.\<close>

definition check_admits :: "type_signature \<Rightarrow> val \<Rightarrow> ('s, unit, vm_error) routine" where
  "check_admits t v =
     seq (attempt (map_err Unchecked (type_admits t v))) (\<lambda>ok.
       if ok then give () else attempt (Err (Unchecked (TypeValueError t v))))"

definition create_variable :: "'s host \<Rightarrow> qualified_contract_identifier \<Rightarrow> string \<Rightarrow> type_signature \<Rightarrow> ('s, unit) db_op" where
  "create_variable h contract variable_name value_type =
     db_insert_metadata h (json_variable h) contract (make_metadata_key VariableMeta variable_name)
       \<lparr>var_value_type = value_type\<rparr>"

definition load_variable :: "'s host \<Rightarrow> qualified_contract_identifier \<Rightarrow> string \<Rightarrow> ('s, data_variable_metadata) db_op" where
  "load_variable h contract variable_name =
     seq (map_no_contract_as_none (fetch_metadata h (json_variable h) contract (make_metadata_key VariableMeta variable_name)))
       (\<lambda>r. attempt (ok_or (Unchecked (NoSuchDataVariable variable_name)) r))"

definition set_variable :: "'s host \<Rightarrow> qualified_contract_identifier \<Rightarrow> string \<Rightarrow> val \<Rightarrow> ('s, val) db_op" where
  "set_variable h contract variable_name value =
     seq (load_variable h contract variable_name) (\<lambda>variable_descriptor.
     seq (check_admits (var_value_type variable_descriptor) value) (\<lambda>_.
     seq (db_put_value (make_key_for_trip h contract Variable variable_name) value) (\<lambda>_.
       give (VBool True))))"

definition db_lookup_variable :: "'s host \<Rightarrow> qualified_contract_identifier \<Rightarrow> string \<Rightarrow> ('s, val) db_op" where
  "db_lookup_variable h contract variable_name =
     seq (load_variable h contract variable_name) (\<lambda>variable_descriptor.
     seq (db_get_value h (make_key_for_trip h contract Variable variable_name) (var_value_type variable_descriptor))
       (\<lambda>result. give (case result of None \<Rightarrow> value_none | Some data \<Rightarrow> data)))"

section \<open>Data maps\<close>

definition create_map :: "'s host \<Rightarrow> qualified_contract_identifier \<Rightarrow> string \<Rightarrow> tuple_type_signature \<Rightarrow>
    tuple_type_signature \<Rightarrow> ('s, unit) db_op" where
  "create_map h contract map_name key_type value_type =
     db_insert_metadata h (json_map h) contract (make_metadata_key DataMapMeta map_name)
       \<lparr>map_key_type = TupleType key_type, map_value_type = TupleType value_type\<rparr>"

definition load_map :: "'s host \<Rightarrow> qualified_contract_identifier \<Rightarrow> string \<Rightarrow> ('s, data_map_metadata) db_op" where
  "load_map h contract map_name =
     seq (map_no_contract_as_none (fetch_metadata h (json_map h) contract (make_metadata_key DataMapMeta map_name)))
       (\<lambda>r. attempt (ok_or (Unchecked (NoSuchMap map_name)) r))"

definition make_key_for_data_map_entry :: "'s host \<Rightarrow> qualified_contract_identifier \<Rightarrow> string \<Rightarrow> val \<Rightarrow>
    (string, vm_error) outcome" where
  "make_key_for_data_map_entry h contract map_name key_value =
     map_ok (make_key_for_quad h contract DataMap map_name) (expect (value_serialize key_value))"

definition fetch_entry :: "'s host \<Rightarrow> qualified_contract_identifier \<Rightarrow> string \<Rightarrow> val \<Rightarrow> ('s, val) db_op" where
  "fetch_entry h contract map_name key_value =
     seq (load_map h contract map_name) (\<lambda>map_descriptor.
     seq (check_admits (map_key_type map_descriptor) key_value) (\<lambda>_.
     seq (attempt (make_key_for_data_map_entry h contract map_name key_value)) (\<lambda>key.
     seq (attempt (map_err Unchecked (new_option (map_value_type map_descriptor)))) (\<lambda>stored_type.
     seq (db_get_value h key stored_type) (\<lambda>result.
       give (case result of None \<Rightarrow> value_none | Some data \<Rightarrow> data))))))"

definition data_map_entry_exists :: "'s host \<Rightarrow> string \<Rightarrow> type_signature \<Rightarrow> ('s, bool) db_op" where
  "data_map_entry_exists h key expected_value =
     seq (db_get_value h key expected_value) (\<lambda>r.
       give (case r of None \<Rightarrow> False | Some value \<Rightarrow> \<not> value_eq value value_none))"

definition inner_set_entry :: "'s host \<Rightarrow> qualified_contract_identifier \<Rightarrow> string \<Rightarrow> val \<Rightarrow> val \<Rightarrow> bool \<Rightarrow> ('s, val) db_op" where
  "inner_set_entry h contract map_name key_value value return_if_exists =
     seq (load_map h contract map_name) (\<lambda>map_descriptor.
     seq (check_admits (map_key_type map_descriptor) key_value) (\<lambda>_.
     seq (check_admits (map_value_type map_descriptor) value) (\<lambda>_.
     seq (attempt (make_key_for_data_map_entry h contract map_name key_value)) (\<lambda>key.
     seq (attempt (map_err Unchecked (new_option (map_value_type map_descriptor)))) (\<lambda>stored_type.
     seq (if return_if_exists then data_map_entry_exists h key stored_type else give False) (\<lambda>there.
       if there then give (VBool False)
       else
         seq (attempt (value_some value)) (\<lambda>placed_value.
         seq (db_put_value key placed_value) (\<lambda>_.
           give (VBool True)))))))))"

definition set_entry :: "'s host \<Rightarrow> qualified_contract_identifier \<Rightarrow> string \<Rightarrow> val \<Rightarrow> val \<Rightarrow> ('s, val) db_op" where
  "set_entry h contract map_name key value = inner_set_entry h contract map_name key value False"

definition insert_entry :: "'s host \<Rightarrow> qualified_contract_identifier \<Rightarrow> string \<Rightarrow> val \<Rightarrow> val \<Rightarrow> ('s, val) db_op" where
  "insert_entry h contract map_name key value = inner_set_entry h contract map_name key value True"

definition delete_entry :: "'s host \<Rightarrow> qualified_contract_identifier \<Rightarrow> string \<Rightarrow> val \<Rightarrow> ('s, val) db_op" where
  "delete_entry h contract map_name key_value =
     seq (load_map h contract map_name) (\<lambda>map_descriptor.
     seq (check_admits (map_key_type map_descriptor) key_value) (\<lambda>_.
     seq (attempt (make_key_for_data_map_entry h contract map_name key_value)) (\<lambda>key.
     seq (attempt (map_err Unchecked (new_option (map_value_type map_descriptor)))) (\<lambda>stored_type.
     seq (data_map_entry_exists h key stored_type) (\<lambda>there.
       if \<not> there then give (VBool False)
       else seq (db_put_value key value_none) (\<lambda>_. give (VBool True)))))))"

section \<open>Assets\<close>

definition create_fungible_token :: "'s host \<Rightarrow> qualified_contract_identifier \<Rightarrow> string \<Rightarrow> u128 option \<Rightarrow> ('s, unit) db_op" where
  "create_fungible_token h contract token_name total_supply =
     seq (db_insert_metadata h (json_ft h) contract (make_metadata_key FungibleTokenMeta token_name)
            \<lparr>ft_total_supply = total_supply\<rparr>) (\<lambda>_.
       if total_supply \<noteq> None
       then db_put (json_u128 h) (make_key_for_trip h contract CirculatingSupply token_name) 0
       else give ())"

definition load_ft :: "'s host \<Rightarrow> qualified_contract_identifier \<Rightarrow> string \<Rightarrow> ('s, fungible_token_metadata) db_op" where
  "load_ft h contract token_name =
     seq (map_no_contract_as_none (fetch_metadata h (json_ft h) contract (make_metadata_key FungibleTokenMeta token_name)))
       (\<lambda>r. attempt (ok_or (Unchecked (NoSuchFT token_name)) r))"

definition create_non_fungible_token :: "'s host \<Rightarrow> qualified_contract_identifier \<Rightarrow> string \<Rightarrow> type_signature \<Rightarrow>
    ('s, unit) db_op" where
  "create_non_fungible_token h contract token_name key_type =
     db_insert_metadata h (json_nft h) contract (make_metadata_key NonFungibleTokenMeta token_name)
       \<lparr>nft_key_type = key_type\<rparr>"

definition load_nft :: "'s host \<Rightarrow> qualified_contract_identifier \<Rightarrow> string \<Rightarrow> ('s, non_fungible_token_metadata) db_op" where
  "load_nft h contract token_name =
     seq (map_no_contract_as_none (fetch_metadata h (json_nft h) contract (make_metadata_key NonFungibleTokenMeta token_name)))
       (\<lambda>r. attempt (ok_or (Unchecked (NoSuchNFT token_name)) r))"

definition checked_increase_token_supply :: "'s host \<Rightarrow> qualified_contract_identifier \<Rightarrow> string \<Rightarrow> u128 \<Rightarrow> ('s, unit) db_op" where
  "checked_increase_token_supply h contract token_name amount =
     seq (load_ft h contract token_name) (\<lambda>descriptor.
       case ft_total_supply descriptor of
         None \<Rightarrow> give ()
       | Some total_supply \<Rightarrow>
           let key = make_key_for_trip h contract CirculatingSupply token_name in
           seq (db_get h (json_u128 h) key) (\<lambda>r.
           seq (attempt (unwrap_opt r)) (\<lambda>current_supply.
           seq (attempt (ok_or (Runtime ArithmeticOverflow) (checked_add current_supply amount))) (\<lambda>new_supply.
             if new_supply > total_supply then attempt (Err (Runtime (SupplyOverflow new_supply total_supply)))
             else db_put (json_u128 h) key new_supply))))"

definition ft_balance_key :: "'s host \<Rightarrow> qualified_contract_identifier \<Rightarrow> string \<Rightarrow> principal_data \<Rightarrow> string" where
  "ft_balance_key h contract token_name p =
     make_key_for_quad h contract FungibleToken token_name (fst (json_principal h) p)"

definition get_ft_balance :: "'s host \<Rightarrow> qualified_contract_identifier \<Rightarrow> string \<Rightarrow> principal_data \<Rightarrow> ('s, u128) db_op" where
  "get_ft_balance h contract token_name p =
     seq (load_ft h contract token_name) (\<lambda>_.
     seq (db_get h (json_u128 h) (ft_balance_key h contract token_name p)) (\<lambda>result.
       give (case result of None \<Rightarrow> 0 | Some balance \<Rightarrow> balance)))"

definition set_ft_balance :: "'s host \<Rightarrow> qualified_contract_identifier \<Rightarrow> string \<Rightarrow> principal_data \<Rightarrow> u128 \<Rightarrow> ('s, unit) db_op" where
  "set_ft_balance h contract token_name p balance =
     db_put (json_u128 h) (ft_balance_key h contract token_name p) balance"

definition nft_owner_key :: "'s host \<Rightarrow> qualified_contract_identifier \<Rightarrow> string \<Rightarrow> val \<Rightarrow> (string, vm_error) outcome" where
  "nft_owner_key h contract name asset =
     map_ok (make_key_for_quad h contract NonFungibleToken name) (expect (value_serialize asset))"

definition get_nft_owner :: "'s host \<Rightarrow> qualified_contract_identifier \<Rightarrow> string \<Rightarrow> val \<Rightarrow> ('s, principal_data) db_op" where
  "get_nft_owner h contract name asset =
     seq (load_nft h contract name) (\<lambda>descriptor.
     seq (check_admits (nft_key_type descriptor) asset) (\<lambda>_.
     seq (attempt (nft_owner_key h contract name asset)) (\<lambda>key.
     seq (db_get h (json_principal h) key) (\<lambda>result.
       attempt (ok_or (Runtime NoSuchToken) result)))))"

definition get_nft_key_type :: "'s host \<Rightarrow> qualified_contract_identifier \<Rightarrow> string \<Rightarrow> ('s, type_signature) db_op" where
  "get_nft_key_type h contract name = seq (load_nft h contract name) (\<lambda>descriptor. give (nft_key_type descriptor))"

definition set_nft_owner :: "'s host \<Rightarrow> qualified_contract_identifier \<Rightarrow> string \<Rightarrow> val \<Rightarrow> principal_data \<Rightarrow> ('s, unit) db_op" where
  "set_nft_owner h contract name asset p =
     seq (load_nft h contract name) (\<lambda>descriptor.
     seq (check_admits (nft_key_type descriptor) asset) (\<lambda>_.
     seq (attempt (nft_owner_key h contract name asset)) (\<lambda>key.
       db_put (json_principal h) key p)))"

section \<open>Accounts\<close>

definition make_key_for_account_balance :: "'s host \<Rightarrow> principal_data \<Rightarrow> string" where
  "make_key_for_account_balance h p = make_key_for_account h p STXBalance"

definition make_key_for_account_nonce :: "'s host \<Rightarrow> principal_data \<Rightarrow> string" where
  "make_key_for_account_nonce h p = make_key_for_account h p Nonce"

definition get_account_stx_balance :: "'s host \<Rightarrow> principal_data \<Rightarrow> ('s, u128) db_op" where
  "get_account_stx_balance h p =
     seq (db_get h (json_u128 h) (make_key_for_account_balance h p)) (\<lambda>result.
       give (case result of None \<Rightarrow> 0 | Some balance \<Rightarrow> balance))"

definition set_account_stx_balance :: "'s host \<Rightarrow> principal_data \<Rightarrow> u128 \<Rightarrow> ('s, unit) db_op" where
  "set_account_stx_balance h p balance = db_put (json_u128 h) (make_key_for_account_balance h p) balance"

definition get_account_nonce :: "'s host \<Rightarrow> principal_data \<Rightarrow> ('s, u64) db_op" where
  "get_account_nonce h p =
     seq (db_get h (json_u64 h) (make_key_for_account_nonce h p)) (\<lambda>result.
       give (case result of None \<Rightarrow> 0 | Some nonce \<Rightarrow> nonce))"

definition set_account_nonce :: "'s host \<Rightarrow> principal_data \<Rightarrow> u64 \<Rightarrow> ('s, unit) db_op" where
  "set_account_nonce h p nonce = db_put (json_u64 h) (make_key_for_account_nonce h p) nonce"

end
