(* ===== verification/DatabaseLaws.thy ===== *)
theory DatabaseLaws
  imports ClarityDB
begin

text \<open>
  Laws of the Clarity database: which texts are keys of which data, and what an operation of
  \<open>ClarityDB\<close> reads after another one has written.
\<close>

section \<open>Keys\<close>

text \<open>The keys of the key-value store, and the entries they stand for.\<close>

datatype db_key =
    TripKey qualified_contract_identifier store_type string
  | QuadKey qualified_contract_identifier store_type string string
  | AccountKey principal_data store_type
  | ContractHashKey qualified_contract_identifier

fun key_text :: "'s host \<Rightarrow> db_key \<Rightarrow> string" where
  "key_text h (TripKey c t n) = make_key_for_trip h c t n"
| "key_text h (QuadKey c t n k) = make_key_for_quad h c t n k"
| "key_text h (AccountKey p t) = make_key_for_account h p t"
| "key_text h (ContractHashKey c) = make_contract_hash_key h c"

definition ordinary_contract :: "qualified_contract_identifier \<Rightarrow> bool" where
  "ordinary_contract c \<longleftrightarrow> valid_principal (Contract c) \<and> spd_version (qci_issuer c) < 32"

fun ordinary_key :: "db_key \<Rightarrow> bool" where
  "ordinary_key (TripKey c t n) \<longleftrightarrow> ordinary_contract c \<and> valid_clarity_name n"
| "ordinary_key (QuadKey c t n k) \<longleftrightarrow> ordinary_contract c \<and> valid_clarity_name n"
| "ordinary_key (AccountKey p t) \<longleftrightarrow> valid_principal p \<and> principal_version p < 32"
| "ordinary_key (ContractHashKey c) \<longleftrightarrow> ordinary_contract c"

lemma separated_eq:
  "c \<notin> set a \<Longrightarrow> c \<notin> set a' \<Longrightarrow> a @ c # b = a' @ c # b' \<longleftrightarrow> a = a' \<and> b = b'"
proof (induction a arbitrary: a')
  case Nil
  then show ?case by (cases a') auto
next
  case (Cons x a)
  then show ?case by (cases a') auto
qed

lemma name_char_colon: "\<not> name_char CHR '':''"
  by code_simp

lemma store_type_text:
  "map (\<lambda>t. decimal (store_type_u8 t)) [DataMap, Variable, FungibleToken, CirculatingSupply, NonFungibleToken,
     DataMapMeta, VariableMeta, FungibleTokenMeta, NonFungibleTokenMeta, ContractStore, SimmedBlock,
     SimmedBlockHeight, Nonce, STXBalance] =
   [''0'', ''1'', ''2'', ''3'', ''4'', ''5'', ''6'', ''7'', ''8'', ''9'', ''16'', ''17'', ''18'', ''19'']"
  by code_simp

lemma store_type_text_eq: "decimal (store_type_u8 t) = decimal (store_type_u8 t') \<longleftrightarrow> t = t'"
  using store_type_text by (cases t; cases t') simp_all

lemma store_type_text_colon: "CHR '':'' \<notin> set (decimal (store_type_u8 t))"
  using store_type_text by (cases t) simp_all

lemma principal_text_eq:
  assumes "\<forall>x. length (hash x) = 32" "valid_principal p" "principal_version p < 32"
    "valid_principal q" "principal_version q < 32"
  shows "principal_to_string hash p = principal_to_string hash q \<longleftrightarrow> p = q"
proof
  assume eq: "principal_to_string hash p = principal_to_string hash q"
  have "Ok p = principal_parse hash (principal_to_string hash p)" by (simp only: principal_parse_to_string [OF assms(1-3)])
  also have "\<dots> = Ok q" by (simp only: eq principal_parse_to_string [OF assms(1,4,5)])
  finally show "p = q" by simp
qed simp

lemma contract_text_principal: "contract_to_string hash c = principal_to_string hash (Contract c)"
  by (simp add: contract_to_string_def)

lemma principal_text_colon: "valid_principal p \<Longrightarrow> CHR '':'' \<notin> set (principal_to_string hash p)"
  using to_address_separators(2) contract_name_chars name_char_colon
  by (cases p) (auto simp: valid_principal_def)

lemma clarity_name_colon: "valid_clarity_name n \<Longrightarrow> CHR '':'' \<notin> set n"
  using clarity_name_chars name_char_colon by blast

lemma clarity_name_no_colon: "\<not> valid_clarity_name (n @ CHR '':'' # k)"
  using clarity_name_colon [of "n @ CHR '':'' # k"] by auto

lemmas key_texts = make_key_for_trip_def make_key_for_quad_def make_key_for_account_def make_contract_hash_key_def

lemma key_text_inj:
  assumes "\<forall>x. length (sha256 h x) = 32" "ordinary_key k" "ordinary_key k'" "key_text h k = key_text h k'"
  shows "k = k'"
  using assms(2-4)
  by (cases k; cases k')
    (auto simp: key_texts contract_text_principal ordinary_contract_def separated_eq principal_text_colon
      store_type_text_colon store_type_text_eq principal_text_eq [OF assms(1)] clarity_name_colon clarity_name_no_colon
      simp del: principal_to_string.simps)

section \<open>Reading and writing the store\<close>

text \<open>The text under a key: the last uncommitted write, or what the backing store has.\<close>

definition stored :: "'s host \<Rightarrow> 's rollback_wrapper \<Rightarrow> string \<Rightarrow> string option" where
  "stored h w key =
     (case last_write (lookup_map w) key of Some x \<Rightarrow> Some x | None \<Rightarrow> bs_get (backing h) (store w) key)"

lemma last_write_inner_put: "last_write (inner_put m k v) = (last_write m)(k \<mapsto> v)"
  by (auto simp: fun_eq_iff last_write_def inner_put_def Mapping.lookup_update')

lemma get_with_stored:
  "get_with d (backing h) w key =
     (if stack w = [] then Panic
      else case stored h w key of Some x \<Rightarrow> map_ok Some (d x) | None \<Rightarrow> Ok None)"
  by (simp add: get_with_def stored_def split: option.splits)

text \<open>What a write leaves alone: the metadata, the committed store and the number of open contexts.\<close>

definition same_metadata :: "'s rollback_wrapper \<Rightarrow> 's rollback_wrapper \<Rightarrow> bool" where
  "same_metadata w w' \<longleftrightarrow> metadata_lookup_map w' = metadata_lookup_map w \<and> store w' = store w \<and>
     length (stack w') = length (stack w)"

lemma same_metadata_refl [simp]: "same_metadata w w"
  by (simp add: same_metadata_def)

lemma same_metadata_trans: "same_metadata a b \<Longrightarrow> same_metadata b c \<Longrightarrow> same_metadata a c"
  by (simp add: same_metadata_def)

lemma same_metadata_stack: "same_metadata w w' \<Longrightarrow> stack w' = [] \<longleftrightarrow> stack w = []"
  by (metis same_metadata_def length_0_conv)

lemma db_write_put:
  assumes "stack w \<noteq> []"
  obtains w' where "db_write (put key x) w = (Ok (), w')" "stored h w' = (stored h w)(key \<mapsto> x)" "same_metadata w w'"
proof (rule that)
  let ?c = "last (stack w)"
  let ?w = "w\<lparr>lookup_map := inner_put (lookup_map w) key x,
    stack := butlast (stack w) @ [?c\<lparr>edits := edits ?c @ [key]\<rparr>]\<rparr>"
  show "db_write (put key x) w = (Ok (), ?w)" using assms by (simp add: db_write_def put_def Let_def)
  show "stored h ?w = (stored h w)(key \<mapsto> x)" by (auto simp: stored_def fun_eq_iff last_write_inner_put split: option.splits)
  show "same_metadata w ?w" using assms by (simp add: same_metadata_def)
qed

lemma get_metadata_same: "same_metadata w w' \<Longrightarrow> get_metadata bs w' key = get_metadata bs w key"
  by (auto simp: get_metadata_def same_metadata_def split: option.splits)

lemma fetch_metadata_same:
  "same_metadata w w' \<Longrightarrow> fetch_metadata h c contract key w' = (fst (fetch_metadata h c contract key w), w')"
  by (simp add: fetch_metadata_def db_read_def get_metadata_same)

lemma fetch_metadata_state: "snd (fetch_metadata h c contract key w) = w"
  by (simp add: fetch_metadata_def db_read_def)

lemma map_no_contract_as_none_fetch:
  "map_no_contract_as_none (fetch_metadata h c contract key) w =
     (case fst (fetch_metadata h c contract key w) of
        Err (Unchecked (NoSuchContract _)) \<Rightarrow> Ok None | r \<Rightarrow> r, w)"
  using fetch_metadata_state [of h c contract key w]
  by (auto simp: map_no_contract_as_none_def prod_eq_iff split: prod.splits outcome.splits vm_error.splits check_errors.splits)

section \<open>Data maps\<close>

lemma load_map_state: "snd (load_map h c m w) = w"
  by (simp add: load_map_def map_no_contract_as_none_fetch seq_def attempt_def split: outcome.splits)

lemma load_map_same:
  "same_metadata w w' \<Longrightarrow> load_map h c m w = (Ok d, w) \<Longrightarrow> load_map h c m w' = (Ok d, w')"
  by (auto simp: load_map_def map_no_contract_as_none_fetch fetch_metadata_same seq_def attempt_def split: outcome.splits)

lemma load_map_open: "load_map h c m w = (Ok d, w) \<Longrightarrow> stack w \<noteq> []"
  by (auto simp: load_map_def map_no_contract_as_none_def fetch_metadata_def db_read_def get_metadata_def
      seq_def attempt_def)

lemma check_admits_Ok: "type_admits t v = Ok True \<Longrightarrow> check_admits t v w = (Ok (), w)"
  by (simp add: check_admits_def seq_def attempt_def give_def)

text \<open>A map of a contract whose metadata loads, with a value type that can be stored as an optional.\<close>

definition map_ready :: "'s host \<Rightarrow> qualified_contract_identifier \<Rightarrow> string \<Rightarrow> data_map_metadata \<Rightarrow> 's rollback_wrapper \<Rightarrow> bool" where
  "map_ready h c m d w \<longleftrightarrow> load_map h c m w = (Ok d, w) \<and>
     wf_type (OptionalType (map_value_type d)) \<and> concrete (map_value_type d)"

lemma map_ready_same: "map_ready h c m d w \<Longrightarrow> same_metadata w w' \<Longrightarrow> map_ready h c m d w'"
  by (simp add: map_ready_def load_map_same)

definition entry_key :: "data_map_metadata \<Rightarrow> val \<Rightarrow> string \<Rightarrow> bool" where
  "entry_key d k hex \<longleftrightarrow> type_admits (map_key_type d) k = Ok True \<and> value_serialize k = Ok hex"

text \<open>What is read under the key of an entry.\<close>

definition read_entry :: "'s host \<Rightarrow> qualified_contract_identifier \<Rightarrow> string \<Rightarrow> data_map_metadata \<Rightarrow>
    's rollback_wrapper \<Rightarrow> string \<Rightarrow> (val option, vm_error) outcome" where
  "read_entry h c m d w hex =
     (case stored h w (make_key_for_quad h c DataMap m hex) of
        None \<Rightarrow> Ok None
      | Some x \<Rightarrow> map_ok Some (expect (value_deserialize x (OptionalType (map_value_type d)))))"

lemma expect_map_ok: "expect (map_ok f r) = map_ok f (expect r)" "expect (expect r) = expect r"
  by (cases r; simp)+

lemma db_get_value_entry:
  "map_ready h c m d w \<Longrightarrow>
   db_get_value h (make_key_for_quad h c DataMap m hex) (OptionalType (map_value_type d)) w = (read_entry h c m d w hex, w)"
  using load_map_open [of h c m w d]
  by (auto simp: map_ready_def db_get_value_def db_read_def get_value_def get_with_stored read_entry_def expect_map_ok
      split: option.splits)

lemma fetch_entry_eq:
  assumes "map_ready h c m d w" "entry_key d k hex"
  shows "fetch_entry h c m k w =
    (map_ok (\<lambda>r. case r of None \<Rightarrow> value_none | Some data \<Rightarrow> data) (read_entry h c m d w hex), w)"
proof -
  have "load_map h c m w = (Ok d, w)" "new_option (map_value_type d) = Ok (OptionalType (map_value_type d))"
    using assms(1) by (simp_all add: map_ready_def)
  moreover have "check_admits (map_key_type d) k w = (Ok (), w)" "value_serialize k = Ok hex"
    using assms(2) by (simp_all add: entry_key_def check_admits_Ok)
  ultimately show ?thesis
    using db_get_value_entry [OF assms(1), of hex]
    by (cases "read_entry h c m d w hex")
      (simp_all add: fetch_entry_def make_key_for_data_map_entry_def seq_def attempt_def give_def)
qed

text \<open>Writing under the key of an entry, and what is read afterwards.\<close>

definition entry_value :: "data_map_metadata \<Rightarrow> val \<Rightarrow> bool" where
  "entry_value d v \<longleftrightarrow> wf_value (VOptional (Some v)) \<and> type_admits (map_value_type d) v = Ok True \<and> nesting v \<le> 15"

lemma value_none_round_trip:
  assumes "wf_type (OptionalType t)" "concrete t"
  shows "\<exists>x. value_serialize value_none = Ok x \<and> value_deserialize x (OptionalType t) = Ok (VOptional None)"
proof -
  have "wf_value value_none" "nesting value_none \<le> 16" by (simp_all add: value_none_def)
  moreover have "type_admits (OptionalType t) value_none = Ok True"
    by (simp add: value_none_def type_admits_def admits_iff new_option_def type_eval is_no_type_def)
  ultimately show ?thesis
    using value_round_trip [of value_none "OptionalType t"] assms by (auto simp: value_none_def)
qed

lemma value_some_round_trip:
  assumes "wf_type (OptionalType t)" "concrete t" "wf_value (VOptional (Some v))" "type_admits t v = Ok True" "nesting v \<le> 15"
  shows "\<exists>x u. value_some v = Ok (VOptional (Some v)) \<and> value_serialize (VOptional (Some v)) = Ok x \<and>
    value_deserialize x (OptionalType t) = Ok (VOptional (Some u)) \<and> value_eq v u"
proof -
  from type_of_wf [OF assms(3)] obtain s where s: "type_of v = Ok s" "new_option s = Ok (OptionalType s)"
    by (auto simp: outcome_simps dest: new_option_Ok)
  then have "type_admits (OptionalType t) (VOptional (Some v)) = Ok True"
    using assms(4) by (simp add: type_admits_def admits_iff)
  with assms value_round_trip [of "VOptional (Some v)" "OptionalType t"] obtain x w where
    x: "value_serialize (VOptional (Some v)) = Ok x" "value_deserialize x (OptionalType t) = Ok w"
      "value_eq (VOptional (Some v)) w" by auto
  from x(3) obtain u where "w = VOptional (Some u)" "value_eq v u" by (cases w) (auto split: option.splits)
  with x assms(3) show ?thesis by auto
qed

lemma db_put_value_entry:
  assumes "map_ready h c m d w" "value_serialize u = Ok x" "value_deserialize x (OptionalType (map_value_type d)) = Ok y"
  obtains w' where "db_put_value (make_key_for_quad h c DataMap m hex) u w = (Ok (), w')" "map_ready h c m d w'"
    "read_entry h c m d w' = (read_entry h c m d w)(hex := Ok (Some y))"
proof -
  let ?k = "make_key_for_quad h c DataMap m"
  have "stack w \<noteq> []" using assms(1) load_map_open [of h c m w d] by (simp add: map_ready_def)
  then obtain w' where w': "db_write (put (?k hex) x) w = (Ok (), w')" "stored h w' = (stored h w)(?k hex \<mapsto> x)"
    "same_metadata w w'" by (rule db_write_put [where h = h])
  have "?k hex' = ?k hex \<longleftrightarrow> hex' = hex" for hex' by (simp add: make_key_for_quad_def)
  then have "read_entry h c m d w' = (read_entry h c m d w)(hex := Ok (Some y))"
    using assms(3) by (simp add: fun_eq_iff read_entry_def w'(2))
  moreover have "db_put_value (?k hex) u w = (Ok (), w')"
    using w'(1) assms(2) by (simp add: db_put_value_def seq_def attempt_def)
  ultimately show thesis using that map_ready_same [OF assms(1) w'(3)] by blast
qed

lemma set_entry_eq:
  assumes "map_ready h c m d w" "entry_key d k hex" "entry_value d v"
  obtains w' u where "set_entry h c m k v w = (Ok (VBool True), w')" "map_ready h c m d w'" "value_eq v u"
    "read_entry h c m d w' = (read_entry h c m d w)(hex := Ok (Some (VOptional (Some u))))"
proof -
  have loaded: "load_map h c m w = (Ok d, w)" "new_option (map_value_type d) = Ok (OptionalType (map_value_type d))"
    using assms(1) by (simp_all add: map_ready_def)
  have checks: "check_admits (map_key_type d) k w = (Ok (), w)" "check_admits (map_value_type d) v w = (Ok (), w)"
      "value_serialize k = Ok hex"
    using assms(2,3) by (simp_all add: entry_key_def entry_value_def check_admits_Ok)
  obtain x u where x: "value_some v = Ok (VOptional (Some v))" "value_serialize (VOptional (Some v)) = Ok x"
      "value_deserialize x (OptionalType (map_value_type d)) = Ok (VOptional (Some u))" "value_eq v u"
    using value_some_round_trip [of "map_value_type d" v] assms by (auto simp: map_ready_def entry_value_def)
  obtain w' where w': "db_put_value (make_key_for_quad h c DataMap m hex) (VOptional (Some v)) w = (Ok (), w')"
      "map_ready h c m d w'"
      "read_entry h c m d w' = (read_entry h c m d w)(hex := Ok (Some (VOptional (Some u))))"
    by (rule db_put_value_entry [OF assms(1) x(2,3)])
  have "set_entry h c m k v w = (Ok (VBool True), w')"
    using loaded checks x(1) w'(1)
    by (simp add: set_entry_def inner_set_entry_def make_key_for_data_map_entry_def attempt_def give_def)
  then show thesis using that w'(2,3) x(4) by blast
qed

text \<open>Insertion and deletion look first whether there is an entry.\<close>

definition present :: "val option \<Rightarrow> bool" where
  "present r \<longleftrightarrow> (case r of None \<Rightarrow> False | Some v \<Rightarrow> \<not> value_eq v value_none)"

lemma data_map_entry_exists_eq:
  assumes "map_ready h c m d w" "read_entry h c m d w hex = Ok r"
  shows "data_map_entry_exists h (make_key_for_quad h c DataMap m hex) (OptionalType (map_value_type d)) w = (Ok (present r), w)"
  using db_get_value_entry [OF assms(1), of hex] assms(2)
  by (simp add: data_map_entry_exists_def present_def give_def)

lemma insert_entry_eq:
  assumes "map_ready h c m d w" "entry_key d k hex" "entry_value d v" "read_entry h c m d w hex = Ok r"
  shows "insert_entry h c m k v w = (if present r then (Ok (VBool False), w) else set_entry h c m k v w)"
proof -
  have loaded: "load_map h c m w = (Ok d, w)" "new_option (map_value_type d) = Ok (OptionalType (map_value_type d))"
    using assms(1) by (simp_all add: map_ready_def)
  have checks: "check_admits (map_key_type d) k w = (Ok (), w)" "check_admits (map_value_type d) v w = (Ok (), w)"
      "value_serialize k = Ok hex"
    using assms(2,3) by (simp_all add: entry_key_def entry_value_def check_admits_Ok)
  show ?thesis
    using loaded checks data_map_entry_exists_eq [OF assms(1,4)]
    by (simp add: insert_entry_def set_entry_def inner_set_entry_def make_key_for_data_map_entry_def attempt_def give_def)
qed

lemma delete_entry_eq:
  assumes "map_ready h c m d w" "entry_key d k hex" "read_entry h c m d w hex = Ok r"
  obtains w' where "delete_entry h c m k w = (Ok (VBool (present r)), w')" "map_ready h c m d w'"
    "read_entry h c m d w' = (if present r then (read_entry h c m d w)(hex := Ok (Some value_none)) else read_entry h c m d w)"
proof -
  have loaded: "load_map h c m w = (Ok d, w)" "new_option (map_value_type d) = Ok (OptionalType (map_value_type d))"
    using assms(1) by (simp_all add: map_ready_def)
  have checks: "check_admits (map_key_type d) k w = (Ok (), w)" "value_serialize k = Ok hex"
    using assms(2) by (simp_all add: entry_key_def check_admits_Ok)
  obtain x where x: "value_serialize value_none = Ok x"
      "value_deserialize x (OptionalType (map_value_type d)) = Ok value_none"
    using value_none_round_trip [of "map_value_type d"] assms(1) by (auto simp: map_ready_def value_none_def)
  obtain w' where w': "db_put_value (make_key_for_quad h c DataMap m hex) value_none w = (Ok (), w')"
      "map_ready h c m d w'" "read_entry h c m d w' = (read_entry h c m d w)(hex := Ok (Some value_none))"
    by (rule db_put_value_entry [OF assms(1) x])
  have "delete_entry h c m k w = (Ok (VBool (present r)), if present r then w' else w)"
    using loaded checks w'(1) data_map_entry_exists_eq [OF assms(1,3)]
    by (simp add: delete_entry_def make_key_for_data_map_entry_def attempt_def give_def)
  then show thesis using that [of "if present r then w' else w"] w'(2,3) assms(1) by (simp split: if_splits)
qed

text \<open>The specification of a data map: a partial map from written keys to values.\<close>

datatype map_op = SetEntry val val | InsertEntry val val | DeleteEntry val

fun map_op_run :: "'s host \<Rightarrow> qualified_contract_identifier \<Rightarrow> string \<Rightarrow> map_op \<Rightarrow> ('s, val) db_op" where
  "map_op_run h c m (SetEntry k v) = set_entry h c m k v"
| "map_op_run h c m (InsertEntry k v) = insert_entry h c m k v"
| "map_op_run h c m (DeleteEntry k) = delete_entry h c m k"

primrec map_ops_run :: "'s host \<Rightarrow> qualified_contract_identifier \<Rightarrow> string \<Rightarrow> map_op list \<Rightarrow> ('s, val list) db_op" where
  "map_ops_run h c m [] = give []"
| "map_ops_run h c m (op # ops) =
     seq (map_op_run h c m op) (\<lambda>r. seq (map_ops_run h c m ops) (\<lambda>rs. give (r # rs)))"

definition written_key :: "val \<Rightarrow> string" where
  "written_key k = (case value_serialize k of Ok hex \<Rightarrow> hex | _ \<Rightarrow> [])"

fun spec_map_op :: "map_op \<Rightarrow> (string \<rightharpoonup> val) \<Rightarrow> bool \<times> (string \<rightharpoonup> val)" where
  "spec_map_op (SetEntry k v) M = (True, M(written_key k \<mapsto> v))"
| "spec_map_op (InsertEntry k v) M =
     (if M (written_key k) = None then (True, M(written_key k \<mapsto> v)) else (False, M))"
| "spec_map_op (DeleteEntry k) M = (M (written_key k) \<noteq> None, M(written_key k := None))"

primrec spec_map_ops :: "map_op list \<Rightarrow> (string \<rightharpoonup> val) \<Rightarrow> bool list \<times> (string \<rightharpoonup> val)" where
  "spec_map_ops [] M = ([], M)"
| "spec_map_ops (op # ops) M =
     (let (r, M1) = spec_map_op op M; (rs, M2) = spec_map_ops ops M1 in (r # rs, M2))"

fun map_op_ok :: "data_map_metadata \<Rightarrow> map_op \<Rightarrow> bool" where
  "map_op_ok d (SetEntry k v) \<longleftrightarrow> entry_key d k (written_key k) \<and> entry_value d v"
| "map_op_ok d (InsertEntry k v) \<longleftrightarrow> entry_key d k (written_key k) \<and> entry_value d v"
| "map_op_ok d (DeleteEntry k) \<longleftrightarrow> entry_key d k (written_key k)"

definition entries_of :: "'s host \<Rightarrow> qualified_contract_identifier \<Rightarrow> string \<Rightarrow> data_map_metadata \<Rightarrow>
    's rollback_wrapper \<Rightarrow> (string \<rightharpoonup> val) \<Rightarrow> bool" where
  "entries_of h c m d w M \<longleftrightarrow> map_ready h c m d w \<and>
     (\<forall>k hex. entry_key d k hex \<longrightarrow>
        (\<exists>e. fetch_entry h c m k w = (Ok (VOptional e), w) \<and> rel_option value_eq (M hex) e))"

definition reads_as :: "val option \<Rightarrow> val option \<Rightarrow> bool" where
  "reads_as r e \<longleftrightarrow> (case r of None \<Rightarrow> e = None | Some x \<Rightarrow> x = VOptional e)"

lemma entries_of_read:
  "entries_of h c m d w M \<longleftrightarrow> map_ready h c m d w \<and>
     (\<forall>k hex. entry_key d k hex \<longrightarrow>
        (\<exists>r e. read_entry h c m d w hex = Ok r \<and> reads_as r e \<and> rel_option value_eq (M hex) e))"
proof -
  have "(\<exists>e. fetch_entry h c m k w = (Ok (VOptional e), w) \<and> rel_option value_eq (M hex) e) \<longleftrightarrow>
      (\<exists>r e. read_entry h c m d w hex = Ok r \<and> reads_as r e \<and> rel_option value_eq (M hex) e)"
    if "map_ready h c m d w" "entry_key d k hex" for k hex
  proof (cases "read_entry h c m d w hex")
    case (Ok r)
    then show ?thesis
      by (cases r) (auto simp: fetch_entry_eq [OF that] reads_as_def value_none_def)
  qed (simp_all add: fetch_entry_eq [OF that])
  then show ?thesis by (simp add: entries_of_def cong: conj_cong imp_cong)
qed

lemma present_reads: "reads_as r e \<Longrightarrow> present r \<longleftrightarrow> e \<noteq> None"
  by (cases e) (auto simp: reads_as_def present_def value_none_def split: option.splits)

lemma entries_of_update:
  assumes "entries_of h c m d w M" "map_ready h c m d w'" "reads_as r e" "rel_option value_eq x e"
    "read_entry h c m d w' = (read_entry h c m d w)(hex := Ok r)"
  shows "entries_of h c m d w' (M(hex := x))"
  using assms unfolding entries_of_read by auto

lemma entries_of_reads:
  assumes "entries_of h c m d w M" "entry_key d k hex"
  obtains r where "map_ready h c m d w" "read_entry h c m d w hex = Ok r" "present r \<longleftrightarrow> M hex \<noteq> None"
    "M hex = None \<longrightarrow> reads_as r None"
proof -
  obtain r e where r: "read_entry h c m d w hex = Ok r" "reads_as r e" "rel_option value_eq (M hex) e"
    using assms unfolding entries_of_read by blast
  moreover have "present r \<longleftrightarrow> M hex \<noteq> None" using present_reads [OF r(2)] r(3) by (cases e; cases "M hex") auto
  moreover have "reads_as r None" if "M hex = None" using that r(2,3) by (cases e) auto
  ultimately show thesis using that assms(1) by (auto simp: entries_of_def)
qed

lemma set_entry_refines:
  assumes "entries_of h c m d w M" "entry_key d k hex" "entry_value d v"
  shows "\<exists>w'. set_entry h c m k v w = (Ok (VBool True), w') \<and> entries_of h c m d w' (M(hex \<mapsto> v))"
proof -
  have "map_ready h c m d w" using assms(1) by (simp add: entries_of_def)
  then obtain w' u where w': "set_entry h c m k v w = (Ok (VBool True), w')" "map_ready h c m d w'" "value_eq v u"
      "read_entry h c m d w' = (read_entry h c m d w)(hex := Ok (Some (VOptional (Some u))))"
    using assms(2,3) by (rule set_entry_eq)
  with entries_of_update [OF assms(1) w'(2) _ _ w'(4), of "Some u" "Some v"] show ?thesis by (auto simp: reads_as_def)
qed

lemma delete_entry_refines:
  assumes "entries_of h c m d w M" "entry_key d k hex"
  shows "\<exists>w'. delete_entry h c m k w = (Ok (VBool (M hex \<noteq> None)), w') \<and> entries_of h c m d w' (M(hex := None))"
proof -
  obtain r where r: "map_ready h c m d w" "read_entry h c m d w hex = Ok r" "present r \<longleftrightarrow> M hex \<noteq> None"
      "M hex = None \<longrightarrow> reads_as r None"
    using assms by (rule entries_of_reads)
  obtain w' where w': "delete_entry h c m k w = (Ok (VBool (present r)), w')" "map_ready h c m d w'"
      "read_entry h c m d w' = (if present r then (read_entry h c m d w)(hex := Ok (Some value_none)) else read_entry h c m d w)"
    by (rule delete_entry_eq [OF r(1) assms(2) r(2)])
  let ?r = "if present r then Some value_none else r"
  have "reads_as ?r None" using r(3,4) by (auto simp: reads_as_def value_none_def)
  moreover have "read_entry h c m d w' = (read_entry h c m d w)(hex := Ok ?r)" using w'(3) r(2) by auto
  ultimately have "entries_of h c m d w' (M(hex := None))"
    using entries_of_update [OF assms(1) w'(2), of _ None None hex] by simp
  then show ?thesis using w'(1) r(3) by simp
qed

lemma map_op_refines:
  assumes "entries_of h c m d w M" "map_op_ok d op"
  shows "\<exists>w'. map_op_run h c m op w = (Ok (VBool (fst (spec_map_op op M))), w') \<and>
    entries_of h c m d w' (snd (spec_map_op op M))"
proof (cases op)
  case (InsertEntry k v)
  with assms(2) have ok: "entry_key d k (written_key k)" "entry_value d v" by simp_all
  obtain r where r: "map_ready h c m d w" "read_entry h c m d w (written_key k) = Ok r"
      "present r \<longleftrightarrow> M (written_key k) \<noteq> None"
    using assms(1) ok(1) by (rule entries_of_reads)
  show ?thesis using InsertEntry insert_entry_eq [OF r(1) ok r(2)] r(3) set_entry_refines [OF assms(1) ok] assms(1) by auto
qed (use assms set_entry_refines delete_entry_refines in auto)

text \<open>C13: data maps behave as maps. Let the metadata of a map load, with a value type that can be stored as an
  optional. Any sequence of \<open>set_entry\<close>, \<open>insert_entry\<close> and \<open>delete_entry\<close> with keys
  that the key type admits, and with values that the value type admits, that fit in an optional and that are nested at most 15
  levels deep, runs without error, answers what the specification on partial maps answers
  (true for a set, whether the key was free for an insertion, whether it was there for a deletion), and
  \<open>fetch_entry\<close> then returns for every admitted key a value equal to that of the specification's map, or none. The map of the specification
  is over the written forms of the keys. Values are stored as optionals, one level deeper, and the reader stops at
  16 levels: values nested deeper than 15 are written but cannot be read back.\<close>

theorem data_map_refines:
  assumes "entries_of h c m d w M" "\<forall>op \<in> set ops. map_op_ok d op"
  shows "\<exists>w'. map_ops_run h c m ops w = (Ok (map VBool (fst (spec_map_ops ops M))), w') \<and>
    entries_of h c m d w' (snd (spec_map_ops ops M))"
  using assms
proof (induction ops arbitrary: w M)
  case (Cons op ops)
  obtain w1 where w1: "map_op_run h c m op w = (Ok (VBool (fst (spec_map_op op M))), w1)"
      "entries_of h c m d w1 (snd (spec_map_op op M))"
    using map_op_refines [OF Cons.prems(1), of op] Cons.prems(2) by auto
  from Cons.IH [OF w1(2)] Cons.prems(2) w1(1) show ?case
    by (auto simp: give_def Let_def split: prod.splits)
qed (simp add: give_def)

section \<open>A concrete host\<close>

text \<open>A host with a table as its store and simple codecs, for concrete runs.\<close>

definition hex_codec :: "'a::len word codec" where
  "hex_codec =
     (\<lambda>n. to_hex (word_to_be n), \<lambda>s. case hex_bytes s of Ok bs \<Rightarrow> Some (word_from_be bs) | _ \<Rightarrow> None)"

definition constant_codec :: "'a \<Rightarrow> 'a codec" where
  "constant_codec x = (\<lambda>_. [], \<lambda>_. Some x)"

definition counters_map :: data_map_metadata where
  "counters_map = \<lparr>map_key_type = TupleType [(''id'', UIntType)], map_value_type = TupleType [(''count'', IntType)]\<rparr>"

definition sample_host :: "((string \<rightharpoonup> string) \<times> (metadata_key \<rightharpoonup> string)) host" where
  "sample_host =
     \<lparr>backing = table_store, headers = null_headers_db, sha256 = (\<lambda>x. replicate 32 (word_of_nat (length x))),
      sha512 = (\<lambda>x. replicate 64 0), sha512_256 = (\<lambda>x. replicate 32 0), hash160 = (\<lambda>x. replicate 20 0),
      keccak256 = (\<lambda>x. replicate 32 0), json_u128 = hex_codec, json_u64 = hex_codec,
      json_principal =
        (principal_to_string (\<lambda>x. replicate 32 (word_of_nat (length x))),
         \<lambda>s. case principal_parse (\<lambda>x. replicate 32 (word_of_nat (length x))) s of Ok p \<Rightarrow> Some p | _ \<Rightarrow> None),
      json_variable = constant_codec \<lparr>var_value_type = IntType\<rparr>, json_map = constant_codec counters_map,
      json_ft = constant_codec \<lparr>ft_total_supply = Some 1000\<rparr>, json_nft = constant_codec \<lparr>nft_key_type = UIntType\<rparr>,
      json_contract =
        constant_codec (contract_context_new contract_transient)\<rparr>"

definition sample_wrapper :: "((string \<rightharpoonup> string) \<times> (metadata_key \<rightharpoonup> string)) rollback_wrapper" where
  "sample_wrapper =
     (case create_map sample_host contract_transient ''counters'' [(''id'', UIntType)] [(''count'', IntType)]
        (nest (wrapper_new empty_tables)) of (r, w) \<Rightarrow> w)"

lemma sample_map_loads: "load_map sample_host contract_transient ''counters'' sample_wrapper = (Ok counters_map, sample_wrapper)"
  by (simp add: load_map_def map_no_contract_as_none_def fetch_metadata_def db_read_def get_metadata_def sample_wrapper_def
      create_map_def db_insert_metadata_def has_metadata_entry_def db_write_def insert_metadata_def attempt_def
      last_write_inner_put nest_def wrapper_new_def empty_context_def sample_host_def constant_codec_def deserialize_with_def
      last_write_def table_store_def empty_tables_def seq_def)

lemma sample_map_empty: "stored sample_host sample_wrapper key = None"
  by (simp add: stored_def sample_wrapper_def
      create_map_def db_insert_metadata_def has_metadata_entry_def db_write_def insert_metadata_def attempt_def db_read_def
      nest_def wrapper_new_def empty_context_def sample_host_def get_metadata_def
      last_write_def table_store_def empty_tables_def seq_def)

lemma counters_map_wf: "wf_type (OptionalType (map_value_type counters_map))" "concrete (map_value_type counters_map)"
proof -
  have "valid_clarity_name ''count''" by code_simp
  then show "wf_type (OptionalType (map_value_type counters_map))" "concrete (map_value_type counters_map)"
    by (simp_all add: counters_map_def type_eval bt_wf_def)
qed

lemma sample_map_entries: "entries_of sample_host contract_transient ''counters'' counters_map sample_wrapper Map.empty"
  using sample_map_loads counters_map_wf
  by (auto simp: entries_of_read map_ready_def read_entry_def sample_map_empty reads_as_def)

definition counter_key :: "u128 \<Rightarrow> val" where
  "counter_key n = VTuple [(''id'', UIntType)] [(''id'', VUInt n)]"

definition counter_value :: "i128 \<Rightarrow> val" where
  "counter_value i = VTuple [(''count'', IntType)] [(''count'', VInt i)]"

lemma counter_key_ok: "entry_key counters_map (counter_key n) (written_key (counter_key n))"
  by (simp add: entry_key_def written_key_def counter_key_def counters_map_def type_admits_def admits_iff type_eval
      value_serialize_def serialize_name_def bt_wf_def)

lemma counter_value_ok: "entry_value counters_map (counter_value i)"
proof -
  have "valid_clarity_name ''count''" by code_simp
  then show ?thesis
    by (simp add: entry_value_def counter_value_def counters_map_def type_admits_def admits_iff type_eval bt_wf_def
        value_some_def wrap_guard_def value_size_def value_depth_def)
qed

theorem data_map_refines_witness:
  "\<exists>w'. map_ops_run sample_host contract_transient ''counters''
       [InsertEntry (counter_key 1) (counter_value 10), InsertEntry (counter_key 1) (counter_value 11),
        SetEntry (counter_key 2) (counter_value 20), DeleteEntry (counter_key 1)] sample_wrapper =
     (Ok [VBool True, VBool False, VBool True, VBool True], w')"
proof -
  let ?ops = "[InsertEntry (counter_key 1) (counter_value 10), InsertEntry (counter_key 1) (counter_value 11),
        SetEntry (counter_key 2) (counter_value 20), DeleteEntry (counter_key 1)]"
  have "\<forall>op \<in> set ?ops. map_op_ok counters_map op" by (simp add: counter_key_ok counter_value_ok)
  from data_map_refines [OF sample_map_entries this] obtain w' where
    "map_ops_run sample_host contract_transient ''counters'' ?ops sample_wrapper =
       (Ok (map VBool (fst (spec_map_ops ?ops Map.empty))), w')" by blast
  then show ?thesis by (simp del: map_ops_run.simps)
qed

text \<open>C40: entries of the database do not collide. For a hash of 32 bytes, the texts of two keys are equal only for
  the same entry, whatever text the last part of a four-part key has. The contracts and accounts in the keys are valid
  principals of address versions below 32 and the names are valid names; from version 32 on the text of
  an address no longer tells principals apart, and accounts do share keys.\<close>

theorem database_keys_distinct:
  assumes "\<forall>x. length (sha256 h x) = 32" "ordinary_key k" "ordinary_key k'"
  shows "key_text h k = key_text h k' \<longleftrightarrow> k = k'"
  using key_text_inj [OF assms] by blast

theorem database_keys_distinct_witness:
  "key_text sample_host (TripKey contract_transient Variable ''a'') \<noteq>
   key_text sample_host (AccountKey (Contract contract_transient) Nonce)"
proof -
  have "ordinary_key (TripKey contract_transient Variable ''a'')"
    "ordinary_key (AccountKey (Contract contract_transient) Nonce)" by code_simp+
  moreover have "\<forall>x. length (sha256 sample_host x) = 32" by (simp add: sample_host_def)
  ultimately show ?thesis using database_keys_distinct by blast
qed

text \<open>Principals of versions from 32 on all have the same text, and so share their accounts.\<close>

lemma unusual_versions_share_account:
  assumes "32 \<le> spd_version p" "32 \<le> spd_version q"
  shows "make_key_for_account h (Standard p) t = make_key_for_account h (Standard q) t"
  using assms by (simp add: make_key_for_account_def to_address_def c32_address_def c32_check_encode_def)

end
