(* ===== verification/PostConditions.thy ===== *)
theory PostConditions
  imports AssetMaps Natives
begin

text \<open>
  Post-conditions of transactions: their types in \<open>src/src/chainstate/stacks/mod.rs\<close> and the check
  \<open>check_transaction_postconditions\<close> of \<open>src/src/chainstate/stacks/db/transactions.rs\<close>.

  A transaction lists conditions on what its accounts may send. After it ran, the check goes through the
  conditions, compares each with the asset map and remembers which assets were checked; in deny mode, every
  asset on record must have been checked. The main theorem says what the check decides, in terms of the asset
  map alone.

  The sets of checked assets are hash sets in the code and lists here. Sets of values use the equality of
  values, which ignores the type annotations of lists and tuples; their hash is the hash of the serialized
  value, and serialization never fails on a well-formed value.
\<close>

section \<open>Conditions\<close>

datatype stacks_address = StacksAddress (addr_version: u8) (addr_bytes: "u8 list")

definition standard_of_address :: "stacks_address \<Rightarrow> standard_principal_data" where
  "standard_of_address addr = StandardPrincipalData (addr_version addr) (addr_bytes addr)"

definition principal_of_address :: "stacks_address \<Rightarrow> principal_data" where
  "principal_of_address addr = Standard (standard_of_address addr)"

datatype fungible_condition_code = SentEq | SentGt | SentGe | SentLt | SentLe

definition fungible_condition_from_u8 :: "u8 \<Rightarrow> fungible_condition_code option" where
  "fungible_condition_from_u8 b =
     (if b = 1 then Some SentEq else if b = 2 then Some SentGt else if b = 3 then Some SentGe
      else if b = 4 then Some SentLt else if b = 5 then Some SentLe else None)"

fun fungible_check :: "fungible_condition_code \<Rightarrow> u128 \<Rightarrow> u128 \<Rightarrow> bool" where
  "fungible_check SentEq amount_sent_condition amount_sent = (amount_sent = amount_sent_condition)"
| "fungible_check SentGt amount_sent_condition amount_sent = (amount_sent > amount_sent_condition)"
| "fungible_check SentGe amount_sent_condition amount_sent = (amount_sent \<ge> amount_sent_condition)"
| "fungible_check SentLt amount_sent_condition amount_sent = (amount_sent < amount_sent_condition)"
| "fungible_check SentLe amount_sent_condition amount_sent = (amount_sent \<le> amount_sent_condition)"

datatype nonfungible_condition_code = Sent | NotSent

definition nonfungible_condition_from_u8 :: "u8 \<Rightarrow> nonfungible_condition_code option" where
  "nonfungible_condition_from_u8 b = (if b = 0x10 then Some Sent else if b = 0x11 then Some NotSent else None)"

fun was_sent :: "val \<Rightarrow> val list \<Rightarrow> bool" where
  "was_sent nft_sent_condition [] = False"
| "was_sent nft_sent_condition (asset_sent # nfts_sent) =
     (if value_eq asset_sent nft_sent_condition then True else was_sent nft_sent_condition nfts_sent)"

fun nonfungible_check :: "nonfungible_condition_code \<Rightarrow> val \<Rightarrow> val list \<Rightarrow> bool" where
  "nonfungible_check Sent nft_sent_condition nfts_sent = was_sent nft_sent_condition nfts_sent"
| "nonfungible_check NotSent nft_sent_condition nfts_sent = (\<not> was_sent nft_sent_condition nfts_sent)"

datatype post_condition_principal =
    PCOrigin
  | PCStandard stacks_address
  | PCContract stacks_address contract_name

fun to_principal_data :: "post_condition_principal \<Rightarrow> principal_data \<Rightarrow> principal_data" where
  "to_principal_data PCOrigin origin_principal = origin_principal"
| "to_principal_data (PCStandard addr) origin_principal = Standard (standard_of_address addr)"
| "to_principal_data (PCContract addr contract_name) origin_principal =
     Contract (QualifiedContractIdentifier (standard_of_address addr) contract_name)"

datatype asset_info =
  AssetInfo (ai_contract_address: stacks_address) (ai_contract_name: contract_name) (ai_asset_name: clarity_name)

definition asset_id_of :: "asset_info \<Rightarrow> asset_identifier" where
  "asset_id_of info =
     AssetIdentifier (QualifiedContractIdentifier (standard_of_address (ai_contract_address info)) (ai_contract_name info))
       (ai_asset_name info)"

datatype transaction_post_condition =
    PostSTX post_condition_principal fungible_condition_code u64
  | PostFungible post_condition_principal asset_info fungible_condition_code u64
  | PostNonfungible post_condition_principal asset_info val nonfungible_condition_code

datatype transaction_post_condition_mode = Allow | Deny

section \<open>The check\<close>

record checked_assets =
  checked_fungible_assets :: "(principal_data, asset_identifier list) hash_map"
  checked_nonfungible_assets :: "(principal_data, (asset_identifier, val list) hash_map) hash_map"

definition nothing_checked :: checked_assets where
  "nothing_checked = \<lparr>checked_fungible_assets = [], checked_nonfungible_assets = []\<rparr>"

definition check_fungible_ids :: "principal_data \<Rightarrow> asset_identifier list \<Rightarrow> checked_assets \<Rightarrow> checked_assets" where
  "check_fungible_ids account_principal ids c =
     c\<lparr>checked_fungible_assets :=
         hm_insert account_principal (ids @ hm_or [] (checked_fungible_assets c) account_principal)
           (checked_fungible_assets c)\<rparr>"

definition check_nonfungible_value :: "principal_data \<Rightarrow> asset_identifier \<Rightarrow> val \<Rightarrow> checked_assets \<Rightarrow> checked_assets" where
  "check_nonfungible_value account_principal asset_id asset_value c =
     c\<lparr>checked_nonfungible_assets :=
         (let asset_id_map = hm_or [] (checked_nonfungible_assets c) account_principal in
          hm_insert account_principal (hm_insert asset_id (asset_value # hm_or [] asset_id_map asset_id) asset_id_map)
            (checked_nonfungible_assets c))\<rparr>"

text \<open>One condition: the answer is \<open>None\<close> when it fails, and the checked assets otherwise.\<close>

fun check_postcond :: "principal_data \<Rightarrow> asset_map \<Rightarrow> transaction_post_condition \<Rightarrow> checked_assets \<Rightarrow>
    (checked_assets option, vm_error) outcome" where
  "check_postcond origin m (PostSTX p condition_code amount_sent_condition) c =
     (let account_principal = to_principal_data p origin;
          amount_transferred = (case get_stx m account_principal of Some n \<Rightarrow> n | None \<Rightarrow> 0);
          amount_burned = (case get_stx_burned m account_principal of Some n \<Rightarrow> n | None \<Rightarrow> 0)
      in and_then (unwrap_opt (checked_add amount_transferred amount_burned)) (\<lambda>amount_sent.
           if \<not> fungible_check condition_code (ucast amount_sent_condition) amount_sent then Ok None
           else
             Ok (Some (check_fungible_ids account_principal
               ((if amount_burned > 0 then [asset_STX_burned] else []) @ (if amount_transferred > 0 then [asset_STX] else [])) c))))"
| "check_postcond origin m (PostFungible p info condition_code amount_sent_condition) c =
     (let account_principal = to_principal_data p origin;
          asset_id = asset_id_of info;
          amount_sent = (case get_fungible_tokens m account_principal asset_id of Some n \<Rightarrow> n | None \<Rightarrow> 0)
      in if \<not> fungible_check condition_code (ucast amount_sent_condition) amount_sent then Ok None
         else Ok (Some (check_fungible_ids account_principal [asset_id] c)))"
| "check_postcond origin m (PostNonfungible p info asset_value condition_code) c =
     (let account_principal = to_principal_data p origin;
          asset_id = asset_id_of info;
          assets_sent = (case get_nonfungible_tokens m account_principal asset_id of Some vs \<Rightarrow> vs | None \<Rightarrow> [])
      in if \<not> nonfungible_check condition_code asset_value assets_sent then Ok None
         else Ok (Some (check_nonfungible_value account_principal asset_id asset_value c)))"

fun check_postconds :: "principal_data \<Rightarrow> asset_map \<Rightarrow> transaction_post_condition list \<Rightarrow> checked_assets \<Rightarrow>
    (checked_assets option, vm_error) outcome" where
  "check_postconds origin m [] c = Ok (Some c)"
| "check_postconds origin m (pc # pcs) c =
     and_then (check_postcond origin m pc c) (\<lambda>r.
       case r of None \<Rightarrow> Ok None | Some c' \<Rightarrow> check_postconds origin m pcs c')"

fun entry_checked :: "checked_assets \<Rightarrow> principal_data \<Rightarrow> asset_identifier \<Rightarrow> asset_map_entry \<Rightarrow> bool" where
  "entry_checked c p asset_id (EntryAsset values) =
     (case hm_get (checked_nonfungible_assets c) p of
        None \<Rightarrow> False
      | Some checked_nft_asset_map \<Rightarrow>
          (case hm_get checked_nft_asset_map asset_id of
             None \<Rightarrow> False
           | Some nfts \<Rightarrow> list_all (\<lambda>v. list_ex (\<lambda>w. value_eq v w) nfts) values))"
| "entry_checked c p asset_id e =
     (case hm_get (checked_fungible_assets c) p of
        None \<Rightarrow> False
      | Some checked_ft_asset_ids \<Rightarrow> asset_id \<in> set checked_ft_asset_ids)"

definition check_transaction_postconditions ::
    "transaction_post_condition list \<Rightarrow> transaction_post_condition_mode \<Rightarrow> principal_data \<Rightarrow> asset_map \<Rightarrow> (bool, vm_error) outcome" where
  "check_transaction_postconditions post_conditions post_condition_mode origin m =
     and_then (check_postconds origin m post_conditions nothing_checked) (\<lambda>r.
       case r of
         None \<Rightarrow> Ok False
       | Some c \<Rightarrow>
           if post_condition_mode = Allow then Ok True
           else Ok (list_all (\<lambda>(p, assets). list_all (\<lambda>(asset_id, e). entry_checked c p asset_id e) assets) (to_table m)))"

section \<open>What the check decides\<close>

text \<open>A condition on its own, and what the conditions cover.\<close>

fun condition_holds :: "principal_data \<Rightarrow> asset_map \<Rightarrow> transaction_post_condition \<Rightarrow> bool" where
  "condition_holds origin m (PostSTX p code n) =
     (let a = to_principal_data p origin in
      fungible_check code (ucast n) (amount_of (get_stx m a) + amount_of (get_stx_burned m a)))"
| "condition_holds origin m (PostFungible p info code n) =
     fungible_check code (ucast n) (amount_of (get_fungible_tokens m (to_principal_data p origin) (asset_id_of info)))"
| "condition_holds origin m (PostNonfungible p info v code) =
     (code = Sent \<longleftrightarrow> list_ex (\<lambda>w. value_eq w v) (nft_items m (to_principal_data p origin) (asset_id_of info)))"

definition covers_stx :: "principal_data \<Rightarrow> transaction_post_condition list \<Rightarrow> principal_data \<Rightarrow> bool" where
  "covers_stx origin pcs a \<longleftrightarrow> list_ex (\<lambda>pc. case pc of PostSTX p _ _ \<Rightarrow> to_principal_data p origin = a | _ \<Rightarrow> False) pcs"

definition covers_token :: "principal_data \<Rightarrow> transaction_post_condition list \<Rightarrow> principal_data \<Rightarrow> asset_identifier \<Rightarrow> bool" where
  "covers_token origin pcs a asset_id \<longleftrightarrow>
     list_ex (\<lambda>pc. case pc of PostFungible p info _ _ \<Rightarrow> to_principal_data p origin = a \<and> asset_id_of info = asset_id | _ \<Rightarrow> False) pcs"

definition covers_item :: "principal_data \<Rightarrow> transaction_post_condition list \<Rightarrow> principal_data \<Rightarrow> asset_identifier \<Rightarrow> val \<Rightarrow> bool" where
  "covers_item origin pcs a asset_id v \<longleftrightarrow>
     list_ex (\<lambda>pc. case pc of PostNonfungible p info w _ \<Rightarrow> to_principal_data p origin = a \<and> asset_id_of info = asset_id \<and> value_eq v w
                            | _ \<Rightarrow> False) pcs"

definition covers_kind :: "principal_data \<Rightarrow> transaction_post_condition list \<Rightarrow> principal_data \<Rightarrow> asset_identifier \<Rightarrow> bool" where
  "covers_kind origin pcs a asset_id \<longleftrightarrow>
     list_ex (\<lambda>pc. case pc of PostNonfungible p info w _ \<Rightarrow> to_principal_data p origin = a \<and> asset_id_of info = asset_id | _ \<Rightarrow> False) pcs"

definition all_covered :: "principal_data \<Rightarrow> transaction_post_condition list \<Rightarrow> asset_map \<Rightarrow> bool" where
  "all_covered origin pcs m \<longleftrightarrow>
     list_all (\<lambda>(a, n). n > 0 \<and> covers_stx origin pcs a \<or> covers_token origin pcs a asset_STX) (stx_map m) \<and>
     list_all (\<lambda>(a, n). n > 0 \<and> covers_stx origin pcs a \<or> covers_token origin pcs a asset_STX_burned) (burn_map m) \<and>
     list_all (\<lambda>(a, assets). list_all (\<lambda>(asset_id, n). covers_token origin pcs a asset_id) assets) (token_map m) \<and>
     list_all (\<lambda>(a, assets). list_all (\<lambda>(asset_id, vs).
       covers_kind origin pcs a asset_id \<and> list_all (covers_item origin pcs a asset_id) vs) assets) (nft_map m)"

text \<open>Fungible and non-fungible tokens and STX have different identifiers.\<close>

definition kinds_apart :: "asset_map \<Rightarrow> bool" where
  "kinds_apart m \<longleftrightarrow>
     (\<forall>a asset_id. inner_get (token_map m) a asset_id \<noteq> None \<longrightarrow>
        asset_id \<noteq> asset_STX \<and> asset_id \<noteq> asset_STX_burned \<and> inner_get (nft_map m) a asset_id = None) \<and>
     (\<forall>a asset_id. inner_get (nft_map m) a asset_id \<noteq> None \<longrightarrow> asset_id \<noteq> asset_STX \<and> asset_id \<noteq> asset_STX_burned)"

lemma was_sent_ex: "was_sent v vs = list_ex (\<lambda>w. value_eq w v) vs"
  by (induction vs) auto

lemma nonfungible_check_holds: "nonfungible_check code v vs = (code = Sent \<longleftrightarrow> list_ex (\<lambda>w. value_eq w v) vs)"
  by (cases code) (auto simp: was_sent_ex)

text \<open>What a condition marks as checked.\<close>

fun mark :: "principal_data \<Rightarrow> asset_map \<Rightarrow> transaction_post_condition \<Rightarrow> checked_assets \<Rightarrow> checked_assets" where
  "mark origin m (PostSTX p code n) c =
     (let a = to_principal_data p origin in
      check_fungible_ids a ((if amount_of (get_stx_burned m a) > 0 then [asset_STX_burned] else []) @
        (if amount_of (get_stx m a) > 0 then [asset_STX] else [])) c)"
| "mark origin m (PostFungible p info code n) c = check_fungible_ids (to_principal_data p origin) [asset_id_of info] c"
| "mark origin m (PostNonfungible p info v code) c = check_nonfungible_value (to_principal_data p origin) (asset_id_of info) v c"

definition stx_fits :: "asset_map \<Rightarrow> bool" where
  "stx_fits m \<longleftrightarrow> (\<forall>a. sum_fits (stx_amount m a) (burn_amount m a))"

lemma stx_fits_add:
  "stx_fits m \<Longrightarrow> checked_add (amount_of (get_stx m a)) (amount_of (get_stx_burned m a)) =
     Some (amount_of (get_stx m a) + amount_of (get_stx_burned m a))"
  by (simp add: stx_fits_def checked_add_def amount_of_def get_stx_def get_stx_burned_def stx_amount_def burn_amount_def hm_or_def sum_fits_def)

lemma check_postcond_mark:
  "stx_fits m \<Longrightarrow> check_postcond origin m pc c = Ok (if condition_holds origin m pc then Some (mark origin m pc c) else None)"
  by (cases pc) (simp_all add: Let_def stx_fits_add nonfungible_check_holds nft_items_def
    amount_of_def [symmetric] unwrap_opt_def)

lemma check_postconds_mark:
  "stx_fits m \<Longrightarrow> check_postconds origin m pcs c =
     Ok (if list_all (condition_holds origin m) pcs then Some (fold (mark origin m) pcs c) else None)"
  by (induction pcs arbitrary: c) (auto simp: check_postcond_mark)

text \<open>The marks left by a list of conditions.\<close>

definition checked_ids :: "checked_assets \<Rightarrow> principal_data \<Rightarrow> asset_identifier set" where
  "checked_ids c a = set (hm_or [] (checked_fungible_assets c) a)"

definition checked_values :: "checked_assets \<Rightarrow> principal_data \<Rightarrow> asset_identifier \<Rightarrow> val list option" where
  "checked_values c a asset_id = inner_get (checked_nonfungible_assets c) a asset_id"

fun ids_of :: "principal_data \<Rightarrow> asset_map \<Rightarrow> principal_data \<Rightarrow> transaction_post_condition \<Rightarrow> asset_identifier set" where
  "ids_of origin m a (PostSTX p code n) =
     (if to_principal_data p origin = a
      then (if amount_of (get_stx m a) > 0 then {asset_STX} else {}) \<union>
           (if amount_of (get_stx_burned m a) > 0 then {asset_STX_burned} else {})
      else {})"
| "ids_of origin m a (PostFungible p info code n) = (if to_principal_data p origin = a then {asset_id_of info} else {})"
| "ids_of origin m a (PostNonfungible p info v code) = {}"

fun values_of :: "principal_data \<Rightarrow> principal_data \<Rightarrow> asset_identifier \<Rightarrow> transaction_post_condition \<Rightarrow> val list" where
  "values_of origin a asset_id (PostNonfungible p info v code) =
     (if to_principal_data p origin = a \<and> asset_id_of info = asset_id then [v] else [])"
| "values_of origin a asset_id pc = []"

lemma mark_ids: "checked_ids (mark origin m pc c) a = ids_of origin m a pc \<union> checked_ids c a"
  by (cases pc) (auto simp: checked_ids_def check_fungible_ids_def check_nonfungible_value_def Let_def)

definition recorded_items :: "val list option \<Rightarrow> val list" where
  "recorded_items x = (case x of Some vs \<Rightarrow> vs | None \<Rightarrow> [])"

lemma mark_values:
  "checked_values (mark origin m pc c) a asset_id =
     (if values_of origin a asset_id pc = [] then checked_values c a asset_id
      else Some (values_of origin a asset_id pc @ recorded_items (checked_values c a asset_id)))"
  by (cases pc)
    (auto simp: checked_values_def check_fungible_ids_def check_nonfungible_value_def Let_def recorded_items_def
      inner_get_hm_or hm_or_def split: option.split)

lemma fold_mark_ids: "checked_ids (fold (mark origin m) pcs c) a = (\<Union>pc\<in>set pcs. ids_of origin m a pc) \<union> checked_ids c a"
  by (induction pcs arbitrary: c) (auto simp: mark_ids)

lemma fold_mark_values:
  "let vs = concat (rev (map (values_of origin a asset_id) pcs)) in
   checked_values (fold (mark origin m) pcs c) a asset_id =
     (if vs = [] then checked_values c a asset_id else Some (vs @ recorded_items (checked_values c a asset_id)))"
  by (induction pcs arbitrary: c) (auto simp: mark_values Let_def recorded_items_def)

lemma marked_ids:
  "asset_id \<in> checked_ids (fold (mark origin m) pcs nothing_checked) a \<longleftrightarrow>
     covers_token origin pcs a asset_id \<or>
     (covers_stx origin pcs a \<and>
       (asset_id = asset_STX \<and> amount_of (get_stx m a) > 0 \<or> asset_id = asset_STX_burned \<and> amount_of (get_stx_burned m a) > 0))"
proof -
  have "asset_id \<in> ids_of origin m a pc \<longleftrightarrow>
      (case pc of PostFungible p info _ _ \<Rightarrow> to_principal_data p origin = a \<and> asset_id_of info = asset_id | _ \<Rightarrow> False) \<or>
      ((case pc of PostSTX p _ _ \<Rightarrow> to_principal_data p origin = a | _ \<Rightarrow> False) \<and>
       (asset_id = asset_STX \<and> amount_of (get_stx m a) > 0 \<or> asset_id = asset_STX_burned \<and> amount_of (get_stx_burned m a) > 0))" for pc
    by (cases pc) auto
  moreover have "checked_ids nothing_checked a = {}" by (simp add: checked_ids_def nothing_checked_def)
  ultimately show ?thesis
    unfolding fold_mark_ids covers_token_def covers_stx_def list_ex_iff by auto
qed

definition marked_items :: "principal_data \<Rightarrow> transaction_post_condition list \<Rightarrow> principal_data \<Rightarrow> asset_identifier \<Rightarrow> val list" where
  "marked_items origin pcs a asset_id = concat (rev (map (values_of origin a asset_id) pcs))"

lemma marked_values:
  shows "checked_values (fold (mark origin m) pcs nothing_checked) a asset_id =
      (if covers_kind origin pcs a asset_id then Some (marked_items origin pcs a asset_id) else None)"
    and "list_ex (\<lambda>w. value_eq v w) (marked_items origin pcs a asset_id) = covers_item origin pcs a asset_id v"
proof -
  have ne: "marked_items origin pcs a asset_id \<noteq> [] \<longleftrightarrow> covers_kind origin pcs a asset_id"
  proof -
    have "values_of origin a asset_id pc \<noteq> [] \<longleftrightarrow>
      (case pc of PostNonfungible p info w _ \<Rightarrow> to_principal_data p origin = a \<and> asset_id_of info = asset_id | _ \<Rightarrow> False)" for pc
      by (cases pc) auto
    then show ?thesis by (auto simp: marked_items_def covers_kind_def list_ex_iff)
  qed
  have "checked_values nothing_checked a asset_id = None"
    by (simp add: checked_values_def nothing_checked_def inner_get_def)
  then show "checked_values (fold (mark origin m) pcs nothing_checked) a asset_id =
      (if covers_kind origin pcs a asset_id then Some (marked_items origin pcs a asset_id) else None)"
    using fold_mark_values [of origin a asset_id pcs m nothing_checked] ne by (auto simp: Let_def marked_items_def recorded_items_def)
  have "list_ex (\<lambda>w. value_eq v w) (values_of origin a asset_id pc) \<longleftrightarrow>
    (case pc of PostNonfungible p info w _ \<Rightarrow> to_principal_data p origin = a \<and> asset_id_of info = asset_id \<and> value_eq v w | _ \<Rightarrow> False)"
    for pc by (cases pc) auto
  then show "list_ex (\<lambda>w. value_eq v w) (marked_items origin pcs a asset_id) = covers_item origin pcs a asset_id v"
    by (auto simp: marked_items_def covers_item_def list_ex_iff)
qed

lemma entry_checked_eq:
  "entry_checked c p asset_id e =
     (case e of
        EntryAsset values \<Rightarrow> (case checked_values c p asset_id of None \<Rightarrow> False | Some nfts \<Rightarrow> list_all (\<lambda>v. list_ex (\<lambda>w. value_eq v w) nfts) values)
      | _ \<Rightarrow> asset_id \<in> checked_ids c p)"
  by (cases e) (auto simp: checked_values_def checked_ids_def inner_get_def hm_or_def split: option.split)

section \<open>The table of an asset map\<close>

lemma foldl_put_get:
  "hm_wf es \<Longrightarrow> inner_get (foldl (\<lambda>t (p, n). put_inner p k (e n) t) t0 es) a asset_id =
     (case hm_get es a of Some n \<Rightarrow> if asset_id = k then Some (e n) else inner_get t0 a asset_id | None \<Rightarrow> inner_get t0 a asset_id)"
proof (induction es arbitrary: t0)
  case (Cons x es)
  then show ?case by (cases x) (auto simp: hm_wf_Cons split: option.split)
qed simp

lemma foldl_put_wf: "nested_wf t0 \<Longrightarrow> nested_wf (foldl (\<lambda>t (p, n). put_inner p k (e n) t) t0 es)"
  by (induction es arbitrary: t0) (auto simp: nested_wf_put)

lemma hm_get_map: "hm_get (map (\<lambda>(k, v). (k, f v)) es) k = map_option f (hm_get es k)"
  by (induction es) auto

lemma hm_wf_map: "hm_wf (map (\<lambda>(k, v). (k, f v)) es) = hm_wf es"
  by (induction es) (auto simp: hm_wf_Cons hm_get_map)

lemmas hm_map = hm_get_map hm_wf_map

lemma foldl_items_get:
  "nested_wf es \<Longrightarrow>
   inner_get (foldl (\<lambda>t (p, pm). hm_insert p (insert_all (map (\<lambda>(a, vs). (a, f vs)) pm) (hm_or [] t p)) t) t0 es) a asset_id =
     (case inner_get es a asset_id of Some vs \<Rightarrow> Some (f vs) | None \<Rightarrow> inner_get t0 a asset_id)"
proof (induction es arbitrary: t0)
  case (Cons x es)
  then show ?case
    by (cases x)
      (auto simp: nested_wf_def hm_wf_Cons inner_get_Cons insert_all_get hm_map inner_get_hm_or hm_or_def split: option.split)
qed (simp add: inner_get_def)

lemma foldl_items_wf:
  "nested_wf t0 \<Longrightarrow> nested_wf (foldl (\<lambda>t (p, pm). hm_insert p (insert_all (map (\<lambda>(a, vs). (a, f vs)) pm) (hm_or [] t p)) t) t0 es)"
  by (induction es arbitrary: t0) (auto simp: nested_wf_insert nested_wf_or insert_all_wf)

lemma tokens_table:
  fixes tm :: "('p, ('a, 'v) hash_map) hash_map" and f :: "'v \<Rightarrow> 'w"
  assumes "nested_wf tm"
  defines "t \<equiv> insert_all (map (\<lambda>(p, pm). (p, insert_all (map (\<lambda>(a, n). (a, f n)) pm) [])) tm) []"
  shows "inner_get t a asset_id = map_option f (inner_get tm a asset_id)" and "nested_wf t"
proof -
  let ?g = "\<lambda>pm. insert_all (map (\<lambda>(a, n). (a, f n)) pm) []"
  have wf: "hm_wf tm" using assms by (simp add: nested_wf_def)
  then have get: "hm_get t a = map_option ?g (hm_get tm a)" for a
    by (simp add: t_def insert_all_get hm_map split: option.split)
  have "hm_get (?g pm) x = map_option f (hm_get pm x)" if "hm_get tm a = Some pm" for pm x
    using that assms(1) by (auto simp: nested_wf_def list_all_iff insert_all_get hm_map split: option.split dest!: map_of_SomeD)
  then show "inner_get t a asset_id = map_option f (inner_get tm a asset_id)"
    by (cases "hm_get tm a") (simp_all add: inner_get_def get)
  have "hm_wf t" by (simp add: t_def insert_all_wf)
  then show "nested_wf t"
    using get insert_all_wf [of "[]"] by (fastforce simp: nested_wf_def list_all_iff hm_wf_def dest!: map_of_is_SomeI)
qed

lemma table_get:
  assumes "asset_map_wf m"
  shows "nested_wf (to_table m)"
    and "inner_get (to_table m) a asset_id =
      (case inner_get (nft_map m) a asset_id of
         Some vs \<Rightarrow> Some (EntryAsset vs)
       | None \<Rightarrow>
           if asset_id = asset_STX_burned \<and> hm_get (burn_map m) a \<noteq> None then map_option EntryBurn (hm_get (burn_map m) a)
           else if asset_id = asset_STX \<and> hm_get (stx_map m) a \<noteq> None then map_option EntrySTX (hm_get (stx_map m) a)
           else map_option EntryToken (inner_get (token_map m) a asset_id))"
  using assms tokens_table [of "token_map m" EntryToken]
  by (auto simp: asset_map_wf_def to_table_def Let_def foldl_items_get foldl_items_wf foldl_put_get foldl_put_wf split: option.split)

lemma nested_all:
  assumes "nested_wf t"
  shows "list_all (\<lambda>(p, pm). list_all (\<lambda>(a, e). P p a e) pm) t \<longleftrightarrow> (\<forall>p a e. inner_get t p a = Some e \<longrightarrow> P p a e)"
  using assms by (fastforce simp: nested_wf_def list_all_iff inner_get_def hm_wf_def Option.bind_eq_Some_conv)

lemma flat_all: "hm_wf t \<Longrightarrow> list_all (\<lambda>(p, n). P p n) t \<longleftrightarrow> (\<forall>p n. hm_get t p = Some n \<longrightarrow> P p n)"
  by (auto simp: list_all_iff hm_wf_def)

lemma table_checked:
  assumes wf: "asset_map_wf m" and kinds: "kinds_apart m"
  shows "list_all (\<lambda>(p, assets). list_all (\<lambda>(asset_id, e). entry_checked c p asset_id e) assets) (to_table m) \<longleftrightarrow>
    (\<forall>a n. hm_get (stx_map m) a = Some n \<longrightarrow> asset_STX \<in> checked_ids c a) \<and>
    (\<forall>a n. hm_get (burn_map m) a = Some n \<longrightarrow> asset_STX_burned \<in> checked_ids c a) \<and>
    (\<forall>a asset_id n. inner_get (token_map m) a asset_id = Some n \<longrightarrow> asset_id \<in> checked_ids c a) \<and>
    (\<forall>a asset_id vs. inner_get (nft_map m) a asset_id = Some vs \<longrightarrow> entry_checked c a asset_id (EntryAsset vs))"
proof -
  have ne: "asset_STX \<noteq> asset_STX_burned" by (simp add: asset_STX_def asset_STX_burned_def)
  have none: "inner_get (nft_map m) a asset_STX = None" "inner_get (nft_map m) a asset_STX_burned = None"
    "inner_get (token_map m) a asset_STX = None" "inner_get (token_map m) a asset_STX_burned = None" for a
    using kinds unfolding kinds_apart_def by blast+
  have tok: "inner_get (nft_map m) a asset_id = None \<and> asset_id \<noteq> asset_STX \<and> asset_id \<noteq> asset_STX_burned"
    if "inner_get (token_map m) a asset_id = Some n" for a asset_id n
    using kinds that by (auto simp: kinds_apart_def)
  let ?T = "to_table m"
  have stx: "inner_get ?T a asset_STX = map_option EntrySTX (hm_get (stx_map m) a)"
    and burn: "inner_get ?T a asset_STX_burned = map_option EntryBurn (hm_get (burn_map m) a)" for a
    using table_get(2) [OF wf] none ne tok by (auto split: option.split)
  have tokens: "inner_get ?T a asset_id = Some (EntryToken n)" if "inner_get (token_map m) a asset_id = Some n" for a asset_id n
    using table_get(2) [OF wf] tok [OF that] that by simp
  have nfts: "inner_get ?T a asset_id = Some (EntryAsset vs)" if "inner_get (nft_map m) a asset_id = Some vs" for a asset_id vs
    using table_get(2) [OF wf] that by simp
  show ?thesis (is "?l \<longleftrightarrow> ?r")
  proof
    assume ?l
    then have all: "entry_checked c a asset_id e" if "inner_get ?T a asset_id = Some e" for a asset_id e
      using that by (simp add: nested_all [OF table_get(1) [OF wf]])
    have "asset_STX \<in> checked_ids c a" if "hm_get (stx_map m) a = Some n" for a n
      using all [of a asset_STX "EntrySTX n"] that by (simp add: stx entry_checked_eq)
    moreover have "asset_STX_burned \<in> checked_ids c a" if "hm_get (burn_map m) a = Some n" for a n
      using all [of a asset_STX_burned "EntryBurn n"] that by (simp add: burn entry_checked_eq)
    moreover have "asset_id \<in> checked_ids c a" if "inner_get (token_map m) a asset_id = Some n" for a asset_id n
      using all [OF tokens [OF that]] by (simp add: entry_checked_eq)
    ultimately show ?r using all nfts by blast
  next
    assume r: ?r
    have "entry_checked c a asset_id e" if "inner_get ?T a asset_id = Some e" for a asset_id e
    proof (cases "inner_get (nft_map m) a asset_id")
      case None
      then show ?thesis using r that by (auto simp: table_get(2) [OF wf] entry_checked_eq split: if_splits)
    next
      case (Some vs)
      then show ?thesis using r nfts [OF Some] that by (simp del: entry_checked.simps)
    qed
    then show ?l by (simp add: nested_all [OF table_get(1) [OF wf]])
  qed
qed

text \<open>C4: the check of the post-conditions decides exactly this: every condition holds of the amounts and items
  on record and, in deny mode, every entry on record is named by some condition. An entry of STX must also be
  positive, and an entry of a non-fungible token must have each of its items named. The check never panics as
  long as what each account sent and burned fits in 128 bits.\<close>

theorem postconditions_exact:
  assumes "asset_map_wf m" and "kinds_apart m" and "stx_fits m"
  shows "check_transaction_postconditions pcs mode origin m =
    Ok (list_all (condition_holds origin m) pcs \<and> (mode = Deny \<longrightarrow> all_covered origin pcs m))"
proof -
  let ?c = "fold (mark origin m) pcs nothing_checked"
  have "list_all (\<lambda>(p, assets). list_all (\<lambda>(asset_id, e). entry_checked ?c p asset_id e) assets) (to_table m) = all_covered origin pcs m"
    if "list_all (condition_holds origin m) pcs"
  proof -
    have ne: "asset_STX \<noteq> asset_STX_burned" by (simp add: asset_STX_def asset_STX_burned_def)
    have get: "hm_get (stx_map m) a = Some n \<Longrightarrow> amount_of (get_stx m a) = n"
      "hm_get (burn_map m) a = Some n \<Longrightarrow> amount_of (get_stx_burned m a) = n" for a n
      by (simp_all add: get_stx_def get_stx_burned_def amount_of_def)
    have tok: "asset_id \<noteq> asset_STX \<and> asset_id \<noteq> asset_STX_burned" if "inner_get (token_map m) a asset_id = Some n" for a asset_id n
      using assms(2) that unfolding kinds_apart_def by blast
    have nft: "entry_checked ?c a asset_id (EntryAsset vs) \<longleftrightarrow>
        covers_kind origin pcs a asset_id \<and> list_all (covers_item origin pcs a asset_id) vs" for a asset_id vs
      by (simp add: entry_checked_eq marked_values list_all_iff)
    show ?thesis
      using assms(1) get tok ne unfolding table_checked [OF assms(1,2)] all_covered_def asset_map_wf_def
      by (simp add: nested_all flat_all marked_ids nft disj_commute del: entry_checked.simps) (auto 0 4)
  qed
  then show ?thesis
    by (cases mode) (auto simp: check_transaction_postconditions_def check_postconds_mark [OF assms(3)])
qed

definition sample_account :: principal_data where
  "sample_account = Standard (StandardPrincipalData 22 (replicate 20 7))"

definition sample_assets :: asset_map where
  "sample_assets = \<lparr>stx_map = [(sample_account, 40)], burn_map = [(sample_account, 2)],
     token_map = [(sample_account, [(AssetIdentifier contract_transient ''gold'', 5)])],
     nft_map = [(sample_account, [(AssetIdentifier contract_transient ''deed'', [VInt 1])])]\<rparr>"

lemma sample_assets_meet:
  "asset_map_wf sample_assets" "kinds_apart sample_assets" "stx_fits sample_assets"
  by (auto simp: sample_assets_def asset_map_wf_def nested_wf_def hm_wf_def kinds_apart_def inner_get_def asset_STX_def asset_STX_burned_def
    stx_fits_def sum_fits_def stx_amount_def burn_amount_def hm_or_def)

theorem postconditions_exact_witness:
  "check_transaction_postconditions [PostSTX PCOrigin SentLe 42] Deny sample_account sample_assets = Ok False \<and>
   check_transaction_postconditions [PostSTX PCOrigin SentLe 42] Allow sample_account sample_assets = Ok True"
  unfolding postconditions_exact [OF sample_assets_meet]
  by (simp add: sample_assets_def all_covered_def covers_token_def get_stx_def get_stx_burned_def amount_of_def)
end
