(* ===== verification/Transactions.thy ===== *)
theory Transactions
  imports PostConditions Serialization
begin

text \<open>
  Transactions of the Stacks blockchain: the types of \<open>src/src/chainstate/stacks/mod.rs\<close>, the accessors of
  \<open>src/src/chainstate/stacks/auth.rs\<close> and \<open>transaction.rs\<close>, the addresses of public keys
  (\<open>src/src/address/mod.rs\<close>, \<open>src/src/chainstate/stacks/address.rs\<close>) and the consensus encoding of a
  transaction, with the encoders of \<open>src/src/net/codec.rs\<close> and \<open>src/src/util/strings.rs\<close>.

  Elliptic curve arithmetic and hash functions are third-party libraries: they are the fields of a record that is
  an argument of the functions that use them. A public key of the library is its compressed serialization.
  Errors of the network layer carry no message texts.
\<close>

section \<open>Libraries\<close>

record crypto =
  c_sha256 :: "u8 list \<Rightarrow> u8 list"
  c_sha512_256 :: "u8 list \<Rightarrow> u8 list"
  c_hash160 :: "u8 list \<Rightarrow> u8 list"
  c_recover :: "u8 list \<Rightarrow> u8 list \<Rightarrow> u8 list option"
  c_sign :: "u8 list \<Rightarrow> u8 list \<Rightarrow> u8 list option"
  c_public :: "u8 list \<Rightarrow> u8 list"
  c_uncompressed :: "u8 list \<Rightarrow> u8 list"
  c_valid_key :: "u8 list \<Rightarrow> bool"
  c_valid_signature :: "u8 list \<Rightarrow> bool"

datatype net_error = SerializeError | ReadError | DeserializeError | WriteError | SigningError | VerifyingError

section \<open>Types\<close>

datatype stacks_public_key = StacksPublicKey (pk_key: "u8 list") (pk_compressed: bool)
datatype stacks_private_key = StacksPrivateKey (sk_key: "u8 list") (sk_compress_public: bool)

type_synonym message_signature = "u8 list"

definition signature_empty :: message_signature where
  "signature_empty = replicate 65 0"

datatype transaction_anchor_mode = OnChainOnly | OffChainOnly | AnchorAny
datatype transaction_auth_flags = AuthStandard | AuthSponsored
datatype transaction_public_key_encoding = Compressed | Uncompressed

datatype transaction_auth_field =
    FieldPublicKey stacks_public_key
  | FieldSignature transaction_public_key_encoding message_signature

datatype singlesig_hash_mode = P2PKH | P2WPKH
datatype multisig_hash_mode = P2SH | P2WSH

record multisig_spending_condition =
  ms_hash_mode :: multisig_hash_mode
  ms_signer :: "u8 list"
  ms_nonce :: u64
  ms_fee_rate :: u64
  ms_fields :: "transaction_auth_field list"
  ms_signatures_required :: u16

record singlesig_spending_condition =
  ss_hash_mode :: singlesig_hash_mode
  ss_signer :: "u8 list"
  ss_nonce :: u64
  ss_fee_rate :: u64
  ss_key_encoding :: transaction_public_key_encoding
  ss_signature :: message_signature

datatype transaction_spending_condition =
    Singlesig singlesig_spending_condition
  | Multisig multisig_spending_condition

datatype transaction_auth =
    StandardAuth transaction_spending_condition
  | SponsoredAuth transaction_spending_condition transaction_spending_condition

record transaction_contract_call =
  cc_address :: stacks_address
  cc_contract_name :: contract_name
  cc_function_name :: clarity_name
  cc_function_args :: "val list"

record transaction_smart_contract =
  sc_name :: contract_name
  sc_code_body :: "u8 list"

record stacks_microblock_header =
  mh_version :: u8
  mh_sequence :: u16
  mh_prev_block :: "u8 list"
  mh_tx_merkle_root :: "u8 list"
  mh_signature :: message_signature

datatype transaction_payload =
    TokenTransfer principal_data u64 "u8 list"
  | ContractCall transaction_contract_call
  | SmartContract transaction_smart_contract
  | PoisonMicroblock stacks_microblock_header stacks_microblock_header
  | Coinbase "u8 list"

datatype transaction_version = Mainnet | Testnet

record stacks_transaction =
  tx_version :: transaction_version
  tx_chain_id :: u32
  tx_auth :: transaction_auth
  tx_anchor_mode :: transaction_anchor_mode
  tx_post_condition_mode :: transaction_post_condition_mode
  tx_post_conditions :: "transaction_post_condition list"
  tx_payload :: transaction_payload

section \<open>Spending conditions\<close>

fun is_signature :: "transaction_auth_field \<Rightarrow> bool" where
  "is_signature (FieldSignature _ _) = True"
| "is_signature (FieldPublicKey _) = False"

fun count_signatures :: "transaction_auth_field list \<Rightarrow> u16 \<Rightarrow> (u16, net_error) outcome" where
  "count_signatures [] num_sigs = Ok num_sigs"
| "count_signatures (field # rest) num_sigs =
     (if is_signature field
      then and_then (unwrap_opt (checked_add num_sigs 1)) (\<lambda>n. count_signatures rest n)
      else count_signatures rest num_sigs)"

fun num_signatures :: "transaction_spending_condition \<Rightarrow> (u16, net_error) outcome" where
  "num_signatures (Singlesig data) = Ok (if ss_signature data \<noteq> signature_empty then 1 else 0)"
| "num_signatures (Multisig data) = count_signatures (ms_fields data) 0"

fun signatures_required :: "transaction_spending_condition \<Rightarrow> u16" where
  "signatures_required (Singlesig data) = 1"
| "signatures_required (Multisig data) = ms_signatures_required data"

fun cond_nonce :: "transaction_spending_condition \<Rightarrow> u64" where
  "cond_nonce (Singlesig data) = ss_nonce data"
| "cond_nonce (Multisig data) = ms_nonce data"

fun cond_fee_rate :: "transaction_spending_condition \<Rightarrow> u64" where
  "cond_fee_rate (Singlesig data) = ss_fee_rate data"
| "cond_fee_rate (Multisig data) = ms_fee_rate data"

fun cond_set_nonce :: "u64 \<Rightarrow> transaction_spending_condition \<Rightarrow> transaction_spending_condition" where
  "cond_set_nonce n (Singlesig data) = Singlesig (data\<lparr>ss_nonce := n\<rparr>)"
| "cond_set_nonce n (Multisig data) = Multisig (data\<lparr>ms_nonce := n\<rparr>)"

fun cond_set_fee_rate :: "u64 \<Rightarrow> transaction_spending_condition \<Rightarrow> transaction_spending_condition" where
  "cond_set_fee_rate n (Singlesig data) = Singlesig (data\<lparr>ss_fee_rate := n\<rparr>)"
| "cond_set_fee_rate n (Multisig data) = Multisig (data\<lparr>ms_fee_rate := n\<rparr>)"

fun cond_clear :: "transaction_spending_condition \<Rightarrow> transaction_spending_condition" where
  "cond_clear (Singlesig data) = Singlesig (data\<lparr>ss_fee_rate := 0, ss_nonce := 0, ss_signature := signature_empty\<rparr>)"
| "cond_clear (Multisig data) = Multisig (data\<lparr>ms_fee_rate := 0, ms_nonce := 0, ms_fields := []\<rparr>)"

definition new_initial_sighash :: transaction_spending_condition where
  "new_initial_sighash =
     Singlesig \<lparr>ss_hash_mode = P2PKH, ss_signer = replicate 20 0, ss_nonce = 0, ss_fee_rate = 0,
       ss_key_encoding = Compressed, ss_signature = signature_empty\<rparr>"

definition C32_ADDRESS_VERSION_MAINNET_SINGLESIG :: u8 where "C32_ADDRESS_VERSION_MAINNET_SINGLESIG = 22"
definition C32_ADDRESS_VERSION_MAINNET_MULTISIG :: u8 where "C32_ADDRESS_VERSION_MAINNET_MULTISIG = 20"
definition C32_ADDRESS_VERSION_TESTNET_SINGLESIG :: u8 where "C32_ADDRESS_VERSION_TESTNET_SINGLESIG = 26"
definition C32_ADDRESS_VERSION_TESTNET_MULTISIG :: u8 where "C32_ADDRESS_VERSION_TESTNET_MULTISIG = 21"

fun address_mainnet :: "transaction_spending_condition \<Rightarrow> stacks_address" where
  "address_mainnet (Singlesig data) =
     StacksAddress (case ss_hash_mode data of P2PKH \<Rightarrow> C32_ADDRESS_VERSION_MAINNET_SINGLESIG | P2WPKH \<Rightarrow> C32_ADDRESS_VERSION_MAINNET_MULTISIG)
       (ss_signer data)"
| "address_mainnet (Multisig data) = StacksAddress C32_ADDRESS_VERSION_MAINNET_MULTISIG (ms_signer data)"

fun address_testnet :: "transaction_spending_condition \<Rightarrow> stacks_address" where
  "address_testnet (Singlesig data) =
     StacksAddress (case ss_hash_mode data of P2PKH \<Rightarrow> C32_ADDRESS_VERSION_TESTNET_SINGLESIG | P2WPKH \<Rightarrow> C32_ADDRESS_VERSION_TESTNET_MULTISIG)
       (ss_signer data)"
| "address_testnet (Multisig data) = StacksAddress C32_ADDRESS_VERSION_TESTNET_MULTISIG (ms_signer data)"

section \<open>Authorizations\<close>

fun auth_origin :: "transaction_auth \<Rightarrow> transaction_spending_condition" where
  "auth_origin (StandardAuth s) = s"
| "auth_origin (SponsoredAuth s _) = s"

fun auth_sponsor :: "transaction_auth \<Rightarrow> transaction_spending_condition option" where
  "auth_sponsor (StandardAuth _) = None"
| "auth_sponsor (SponsoredAuth _ s) = Some s"

fun is_sponsored :: "transaction_auth \<Rightarrow> bool" where
  "is_sponsored (StandardAuth _) = False"
| "is_sponsored (SponsoredAuth _ _) = True"

fun into_sponsored :: "transaction_auth \<Rightarrow> transaction_auth \<Rightarrow> transaction_auth option" where
  "into_sponsored (StandardAuth sc) (StandardAuth sp) = Some (SponsoredAuth sc sp)"
| "into_sponsored _ _ = None"

fun set_sponsor :: "transaction_spending_condition \<Rightarrow> transaction_auth \<Rightarrow> transaction_auth option" where
  "set_sponsor sponsor_spending_cond (SponsoredAuth s _) = Some (SponsoredAuth s sponsor_spending_cond)"
| "set_sponsor sponsor_spending_cond (StandardAuth s) = None"

fun into_initial_sighash_auth :: "transaction_auth \<Rightarrow> transaction_auth" where
  "into_initial_sighash_auth (StandardAuth origin) = StandardAuth (cond_clear origin)"
| "into_initial_sighash_auth (SponsoredAuth origin _) = SponsoredAuth (cond_clear origin) new_initial_sighash"

fun auth_fee_rate :: "transaction_auth \<Rightarrow> u64" where
  "auth_fee_rate (StandardAuth s) = cond_fee_rate s"
| "auth_fee_rate (SponsoredAuth _ s) = cond_fee_rate s"

fun auth_set_fee_rate :: "u64 \<Rightarrow> transaction_auth \<Rightarrow> transaction_auth" where
  "auth_set_fee_rate n (StandardAuth s) = StandardAuth (cond_set_fee_rate n s)"
| "auth_set_fee_rate n (SponsoredAuth o' s) = SponsoredAuth o' (cond_set_fee_rate n s)"

fun auth_clear :: "transaction_auth \<Rightarrow> transaction_auth" where
  "auth_clear (StandardAuth origin) = StandardAuth (cond_clear origin)"
| "auth_clear (SponsoredAuth origin sponsor) = SponsoredAuth (cond_clear origin) (cond_clear sponsor)"

section \<open>Transactions\<close>

definition transaction_new :: "transaction_version \<Rightarrow> transaction_auth \<Rightarrow> transaction_payload \<Rightarrow> stacks_transaction" where
  "transaction_new version auth payload =
     \<lparr>tx_version = version, tx_chain_id = 0, tx_auth = auth,
      tx_anchor_mode = (case payload of Coinbase _ \<Rightarrow> OnChainOnly | PoisonMicroblock _ _ \<Rightarrow> OnChainOnly | _ \<Rightarrow> AnchorAny),
      tx_post_condition_mode = Deny, tx_post_conditions = [], tx_payload = payload\<rparr>"

definition get_fee_rate :: "stacks_transaction \<Rightarrow> u64" where
  "get_fee_rate tx = auth_fee_rate (tx_auth tx)"

definition get_origin :: "stacks_transaction \<Rightarrow> transaction_spending_condition" where
  "get_origin tx = auth_origin (tx_auth tx)"

definition get_payer :: "stacks_transaction \<Rightarrow> transaction_spending_condition" where
  "get_payer tx = (case auth_sponsor (tx_auth tx) of Some s \<Rightarrow> s | None \<Rightarrow> auth_origin (tx_auth tx))"

definition origin_address :: "stacks_transaction \<Rightarrow> stacks_address" where
  "origin_address tx =
     (case tx_version tx of
        Mainnet \<Rightarrow> address_mainnet (auth_origin (tx_auth tx))
      | Testnet \<Rightarrow> address_testnet (auth_origin (tx_auth tx)))"

definition sponsor_address :: "stacks_transaction \<Rightarrow> stacks_address option" where
  "sponsor_address tx =
     map_option (case tx_version tx of Mainnet \<Rightarrow> address_mainnet | Testnet \<Rightarrow> address_testnet) (auth_sponsor (tx_auth tx))"

definition to_clarity_contract_id :: "transaction_contract_call \<Rightarrow> qualified_contract_identifier" where
  "to_clarity_contract_id call = QualifiedContractIdentifier (standard_of_address (cc_address call)) (cc_contract_name call)"

section \<open>Addresses of public keys\<close>

text \<open>The script builder of \<open>src/src/deps/bitcoin/blockdata/script.rs\<close>, for the non-negative numbers used here.\<close>

function scriptint_bytes :: "nat \<Rightarrow> u8 list" where
  "scriptint_bytes magnitude =
     (if magnitude > 0xFF then word_of_nat (magnitude mod 256) # scriptint_bytes (magnitude div 256)
      else if magnitude \<ge> 0x80 then [word_of_nat magnitude, 0]
      else [word_of_nat magnitude])"
  by pat_completeness auto
termination
  by (relation "measure id") auto

declare scriptint_bytes.simps [simp del]

definition push_slice :: "u8 list \<Rightarrow> u8 list \<Rightarrow> (u8 list, net_error) outcome" where
  "push_slice data script =
     (let n = length data in
      if n < 0x4c then Ok (script @ [word_of_nat n] @ data)
      else if n < 0x100 then Ok (script @ [0x4c, word_of_nat n] @ data)
      else if n < 0x10000 then Ok (script @ [0x4d, word_of_nat (n mod 0x100), word_of_nat (n div 0x100)] @ data)
      else if n < 0x100000000 then
        Ok (script @ [0x4e, word_of_nat (n mod 0x100), word_of_nat ((n div 0x100) mod 0x100), word_of_nat ((n div 0x10000) mod 0x100),
              word_of_nat (n div 0x1000000)] @ data)
      else Panic)"

definition push_int :: "nat \<Rightarrow> u8 list \<Rightarrow> (u8 list, net_error) outcome" where
  "push_int data script =
     (if 1 \<le> data \<and> data \<le> 16 then Ok (script @ [word_of_nat (data - 1 + 0x51)])
      else if data = 0 then Ok (script @ [0])
      else push_slice (scriptint_bytes data) script)"

definition key_bytes :: "crypto \<Rightarrow> stacks_public_key \<Rightarrow> u8 list" where
  "key_bytes cr pubk = (if pk_compressed pubk then pk_key pubk else c_uncompressed cr (pk_key pubk))"

fun push_keys :: "crypto \<Rightarrow> stacks_public_key list \<Rightarrow> u8 list \<Rightarrow> (u8 list, net_error) outcome" where
  "push_keys cr [] script = Ok script"
| "push_keys cr (pubk # pubkeys) script = and_then (push_slice (key_bytes cr pubk) script) (push_keys cr pubkeys)"

definition multisig_script :: "crypto \<Rightarrow> nat \<Rightarrow> stacks_public_key list \<Rightarrow> (u8 list, net_error) outcome" where
  "multisig_script cr num_sigs pubkeys =
     and_then (push_int num_sigs []) (\<lambda>bldr.
     and_then (push_keys cr pubkeys bldr) (\<lambda>bldr.
     and_then (push_int (length pubkeys) bldr) (\<lambda>bldr. Ok (bldr @ [0xae]))))"

definition to_bits_p2pkh :: "crypto \<Rightarrow> stacks_public_key \<Rightarrow> u8 list" where
  "to_bits_p2pkh cr pubk = c_hash160 cr (key_bytes cr pubk)"

definition to_bits_p2sh :: "crypto \<Rightarrow> nat \<Rightarrow> stacks_public_key list \<Rightarrow> (u8 list, net_error) outcome" where
  "to_bits_p2sh cr num_sigs pubkeys = map_ok (c_hash160 cr) (multisig_script cr num_sigs pubkeys)"

definition to_bits_p2sh_p2wpkh :: "crypto \<Rightarrow> stacks_public_key \<Rightarrow> (u8 list, net_error) outcome" where
  "to_bits_p2sh_p2wpkh cr pubk =
     and_then (push_int 0 []) (\<lambda>bldr. map_ok (c_hash160 cr) (push_slice (c_hash160 cr (key_bytes cr pubk)) bldr))"

definition to_bits_p2sh_p2wsh :: "crypto \<Rightarrow> nat \<Rightarrow> stacks_public_key list \<Rightarrow> (u8 list, net_error) outcome" where
  "to_bits_p2sh_p2wsh cr num_sigs pubkeys =
     and_then (multisig_script cr num_sigs pubkeys) (\<lambda>script.
     and_then (push_int 0 []) (\<lambda>bldr. map_ok (c_hash160 cr) (push_slice (c_sha256 cr script) bldr)))"

datatype address_hash_mode = SerializeP2PKH | SerializeP2SH | SerializeP2WPKH | SerializeP2WSH

fun singlesig_address_hash_mode :: "singlesig_hash_mode \<Rightarrow> address_hash_mode" where
  "singlesig_address_hash_mode P2PKH = SerializeP2PKH"
| "singlesig_address_hash_mode P2WPKH = SerializeP2WPKH"

fun multisig_address_hash_mode :: "multisig_hash_mode \<Rightarrow> address_hash_mode" where
  "multisig_address_hash_mode P2SH = SerializeP2SH"
| "multisig_address_hash_mode P2WSH = SerializeP2WSH"

definition public_keys_to_address_hash :: "crypto \<Rightarrow> address_hash_mode \<Rightarrow> nat \<Rightarrow> stacks_public_key list \<Rightarrow> (u8 list, net_error) outcome" where
  "public_keys_to_address_hash cr hash_flag num_sigs pubkeys =
     (case hash_flag of
        SerializeP2PKH \<Rightarrow> if pubkeys = [] then Panic else Ok (to_bits_p2pkh cr (pubkeys ! 0))
      | SerializeP2SH \<Rightarrow> to_bits_p2sh cr num_sigs pubkeys
      | SerializeP2WPKH \<Rightarrow> if pubkeys = [] then Panic else to_bits_p2sh_p2wpkh cr (pubkeys ! 0)
      | SerializeP2WSH \<Rightarrow> to_bits_p2sh_p2wsh cr num_sigs pubkeys)"

definition from_public_keys :: "crypto \<Rightarrow> u8 \<Rightarrow> address_hash_mode \<Rightarrow> nat \<Rightarrow> stacks_public_key list \<Rightarrow> (stacks_address option, net_error) outcome" where
  "from_public_keys cr version hash_mode num_sigs pubkeys =
     (if length pubkeys < num_sigs then Ok None
      else if hash_mode \<in> {SerializeP2PKH, SerializeP2WPKH} \<and> (num_sigs \<noteq> 1 \<or> length pubkeys \<noteq> 1) then Ok None
      else if hash_mode \<in> {SerializeP2WPKH, SerializeP2WSH} \<and> \<not> list_all pk_compressed pubkeys then Ok None
      else map_ok (\<lambda>hash_bits. Some (StacksAddress version hash_bits)) (public_keys_to_address_hash cr hash_mode num_sigs pubkeys))"

section \<open>Encoding\<close>

text \<open>Sequences of items: their number as a 32-bit integer, then the items.\<close>

fun write_items :: "('a \<Rightarrow> (u8 list, net_error) outcome) \<Rightarrow> 'a list \<Rightarrow> (u8 list, net_error) outcome" where
  "write_items write [] = Ok []"
| "write_items write (x # xs) = and_then (write x) (\<lambda>bs. map_ok (\<lambda>cs. bs @ cs) (write_items write xs))"

definition write_vec :: "('a \<Rightarrow> (u8 list, net_error) outcome) \<Rightarrow> 'a list \<Rightarrow> (u8 list, net_error) outcome" where
  "write_vec write xs = map_ok (\<lambda>bs. word_to_be (word_of_nat (length xs) :: u32) @ bs) (write_items write xs)"

definition CONTRACT_MIN_NAME_LENGTH :: nat where "CONTRACT_MIN_NAME_LENGTH = 5"
definition CONTRACT_MAX_NAME_LENGTH :: nat where "CONTRACT_MAX_NAME_LENGTH = 40"

definition write_clarity_name :: "clarity_name \<Rightarrow> (u8 list, net_error) outcome" where
  "write_clarity_name n =
     (if length n > MAX_STRING_LEN then Err SerializeError
      else Ok (word_of_nat (length n) # map byte_of_char n))"

definition write_contract_name :: "contract_name \<Rightarrow> (u8 list, net_error) outcome" where
  "write_contract_name n =
     (if length n < CONTRACT_MIN_NAME_LENGTH \<or> length n > CONTRACT_MAX_NAME_LENGTH then Err SerializeError
      else Ok (word_of_nat (length n) # map byte_of_char n))"

definition write_address :: "stacks_address \<Rightarrow> (u8 list, net_error) outcome" where
  "write_address a = Ok (addr_version a # addr_bytes a)"

definition write_principal :: "principal_data \<Rightarrow> (u8 list, net_error) outcome" where
  "write_principal p = map_err (\<lambda>_. WriteError) (serialize_principal p)"

definition write_value :: "val \<Rightarrow> (u8 list, net_error) outcome" where
  "write_value v = map_err (\<lambda>_. WriteError) (serialize_write v)"

definition write_string :: "u8 list \<Rightarrow> (u8 list, net_error) outcome" where
  "write_string s = write_vec (\<lambda>b. Ok [b]) s"

text \<open>Writing the fields of a structure one after the other.\<close>

fun write_all :: "(u8 list, net_error) outcome list \<Rightarrow> (u8 list, net_error) outcome" where
  "write_all [] = Ok []"
| "write_all (w # ws) = and_then w (\<lambda>bs. map_ok (\<lambda>cs. bs @ cs) (write_all ws))"

fun auth_field_id :: "transaction_auth_field \<Rightarrow> u8" where
  "auth_field_id (FieldPublicKey pubk) = (if pk_compressed pubk then 0 else 1)"
| "auth_field_id (FieldSignature key_encoding sig) = (if key_encoding = Compressed then 2 else 3)"

fun write_auth_field :: "transaction_auth_field \<Rightarrow> (u8 list, net_error) outcome" where
  "write_auth_field (FieldPublicKey pubk) = Ok (auth_field_id (FieldPublicKey pubk) # pk_key pubk)"
| "write_auth_field (FieldSignature key_encoding sig) = Ok (auth_field_id (FieldSignature key_encoding sig) # sig)"

fun multisig_hash_mode_u8 :: "multisig_hash_mode \<Rightarrow> u8" where
  "multisig_hash_mode_u8 P2SH = 1"
| "multisig_hash_mode_u8 P2WSH = 3"

fun singlesig_hash_mode_u8 :: "singlesig_hash_mode \<Rightarrow> u8" where
  "singlesig_hash_mode_u8 P2PKH = 0"
| "singlesig_hash_mode_u8 P2WPKH = 2"

fun key_encoding_u8 :: "transaction_public_key_encoding \<Rightarrow> u8" where
  "key_encoding_u8 Compressed = 0"
| "key_encoding_u8 Uncompressed = 1"

definition write_multisig :: "multisig_spending_condition \<Rightarrow> (u8 list, net_error) outcome" where
  "write_multisig c =
     write_all [Ok [multisig_hash_mode_u8 (ms_hash_mode c)], Ok (ms_signer c), Ok (word_to_be (ms_nonce c)), Ok (word_to_be (ms_fee_rate c)),
       write_vec write_auth_field (ms_fields c), Ok (word_to_be (ms_signatures_required c))]"

definition write_singlesig :: "singlesig_spending_condition \<Rightarrow> (u8 list, net_error) outcome" where
  "write_singlesig c =
     write_all [Ok [singlesig_hash_mode_u8 (ss_hash_mode c)], Ok (ss_signer c), Ok (word_to_be (ss_nonce c)), Ok (word_to_be (ss_fee_rate c)),
       Ok [key_encoding_u8 (ss_key_encoding c)], Ok (ss_signature c)]"

fun write_spending_condition :: "transaction_spending_condition \<Rightarrow> (u8 list, net_error) outcome" where
  "write_spending_condition (Singlesig data) = write_singlesig data"
| "write_spending_condition (Multisig data) = write_multisig data"

fun auth_flag_u8 :: "transaction_auth_flags \<Rightarrow> u8" where
  "auth_flag_u8 AuthStandard = 4"
| "auth_flag_u8 AuthSponsored = 5"

fun write_auth :: "transaction_auth \<Rightarrow> (u8 list, net_error) outcome" where
  "write_auth (StandardAuth origin) = write_all [Ok [auth_flag_u8 AuthStandard], write_spending_condition origin]"
| "write_auth (SponsoredAuth origin sponsor) =
     write_all [Ok [auth_flag_u8 AuthSponsored], write_spending_condition origin, write_spending_condition sponsor]"

definition write_microblock_header :: "bool \<Rightarrow> stacks_microblock_header \<Rightarrow> (u8 list, net_error) outcome" where
  "write_microblock_header empty_sig mh =
     write_all [Ok [mh_version mh], Ok (word_to_be (mh_sequence mh)), Ok (mh_prev_block mh), Ok (mh_tx_merkle_root mh),
       Ok (if empty_sig then signature_empty else mh_signature mh)]"

definition write_contract_call :: "transaction_contract_call \<Rightarrow> (u8 list, net_error) outcome" where
  "write_contract_call c =
     write_all [write_address (cc_address c), write_contract_name (cc_contract_name c), write_clarity_name (cc_function_name c),
       write_vec write_value (cc_function_args c)]"

definition write_smart_contract :: "transaction_smart_contract \<Rightarrow> (u8 list, net_error) outcome" where
  "write_smart_contract c = write_all [write_contract_name (sc_name c), write_string (sc_code_body c)]"

fun write_payload :: "transaction_payload \<Rightarrow> (u8 list, net_error) outcome" where
  "write_payload (TokenTransfer address amount memo) =
     write_all [Ok [0], write_principal address, Ok (word_to_be amount), Ok memo]"
| "write_payload (ContractCall cc) = write_all [Ok [2], write_contract_call cc]"
| "write_payload (SmartContract sc) = write_all [Ok [1], write_smart_contract sc]"
| "write_payload (PoisonMicroblock h1 h2) = write_all [Ok [3], write_microblock_header False h1, write_microblock_header False h2]"
| "write_payload (Coinbase buf) = write_all [Ok [4], Ok buf]"

definition write_asset_info :: "asset_info \<Rightarrow> (u8 list, net_error) outcome" where
  "write_asset_info info =
     write_all [write_address (ai_contract_address info), write_contract_name (ai_contract_name info), write_clarity_name (ai_asset_name info)]"

fun write_post_condition_principal :: "post_condition_principal \<Rightarrow> (u8 list, net_error) outcome" where
  "write_post_condition_principal PCOrigin = Ok [1]"
| "write_post_condition_principal (PCStandard address) = write_all [Ok [2], write_address address]"
| "write_post_condition_principal (PCContract address contract_name) =
     write_all [Ok [3], write_address address, write_contract_name contract_name]"

fun fungible_condition_u8 :: "fungible_condition_code \<Rightarrow> u8" where
  "fungible_condition_u8 SentEq = 1"
| "fungible_condition_u8 SentGt = 2"
| "fungible_condition_u8 SentGe = 3"
| "fungible_condition_u8 SentLt = 4"
| "fungible_condition_u8 SentLe = 5"

fun nonfungible_condition_u8 :: "nonfungible_condition_code \<Rightarrow> u8" where
  "nonfungible_condition_u8 Sent = 0x10"
| "nonfungible_condition_u8 NotSent = 0x11"

fun write_post_condition :: "transaction_post_condition \<Rightarrow> (u8 list, net_error) outcome" where
  "write_post_condition (PostSTX p code amount) =
     write_all [Ok [0], write_post_condition_principal p, Ok [fungible_condition_u8 code], Ok (word_to_be amount)]"
| "write_post_condition (PostFungible p info code amount) =
     write_all [Ok [1], write_post_condition_principal p, write_asset_info info, Ok [fungible_condition_u8 code], Ok (word_to_be amount)]"
| "write_post_condition (PostNonfungible p info v code) =
     write_all [Ok [2], write_post_condition_principal p, write_asset_info info, write_value v, Ok [nonfungible_condition_u8 code]]"

fun version_u8 :: "transaction_version \<Rightarrow> u8" where
  "version_u8 Mainnet = 0"
| "version_u8 Testnet = 0x80"

fun anchor_mode_u8 :: "transaction_anchor_mode \<Rightarrow> u8" where
  "anchor_mode_u8 OnChainOnly = 1"
| "anchor_mode_u8 OffChainOnly = 2"
| "anchor_mode_u8 AnchorAny = 3"

fun post_condition_mode_u8 :: "transaction_post_condition_mode \<Rightarrow> u8" where
  "post_condition_mode_u8 Allow = 1"
| "post_condition_mode_u8 Deny = 2"

definition write_transaction :: "stacks_transaction \<Rightarrow> (u8 list, net_error) outcome" where
  "write_transaction tx =
     write_all [Ok [version_u8 (tx_version tx)], Ok (word_to_be (tx_chain_id tx)), write_auth (tx_auth tx),
       Ok [anchor_mode_u8 (tx_anchor_mode tx)], Ok [post_condition_mode_u8 (tx_post_condition_mode tx)],
       write_vec write_post_condition (tx_post_conditions tx), write_payload (tx_payload tx)]"

text \<open>The identifier of a transaction: failing to serialize it is a panic.\<close>

definition txid :: "crypto \<Rightarrow> stacks_transaction \<Rightarrow> (u8 list, net_error) outcome" where
  "txid cr tx = map_ok (c_sha512_256 cr) (expect (write_transaction tx))"

lemma write_all_Ok:
  "write_all [] = Ok bs \<longleftrightarrow> bs = []"
  "write_all (w # ws) = Ok bs \<longleftrightarrow> (\<exists>cs ds. w = Ok cs \<and> write_all ws = Ok ds \<and> bs = cs @ ds)"
  by (auto simp: and_then_def map_ok_def split: outcome.splits)
end
