(* ===== verification/TransactionAuth.thy ===== *)
theory TransactionAuth
  imports Transactions
begin

text \<open>
  Signing and verification of transactions: \<open>src/src/chainstate/stacks/auth.rs\<close> and the signer of
  \<open>src/src/chainstate/stacks/transaction.rs\<close>.

  Every signature covers a running hash: the identifier of the transaction with its authorization cleared, then,
  signature by signature, the authorization flag, fee and nonce, and the key encoding and signature before it.
  The main theorem says that a transaction that is signed by its keys in order verifies.
\<close>

section \<open>Running hashes\<close>

definition make_sighash_presign :: "crypto \<Rightarrow> u8 list \<Rightarrow> transaction_auth_flags \<Rightarrow> u64 \<Rightarrow> u64 \<Rightarrow> (u8 list, net_error) outcome" where
  "make_sighash_presign cr cur_sighash cond_code fee_rate nonce =
     (let bits = cur_sighash @ [auth_flag_u8 cond_code] @ word_to_be fee_rate @ word_to_be nonce in
      if length bits = 32 + 1 + 8 + 8 then Ok (c_sha512_256 cr bits) else Panic)"

definition make_sighash_postsign :: "crypto \<Rightarrow> u8 list \<Rightarrow> stacks_public_key \<Rightarrow> message_signature \<Rightarrow> (u8 list, net_error) outcome" where
  "make_sighash_postsign cr cur_sighash pubkey sig =
     (let pubkey_encoding = (if pk_compressed pubkey then Compressed else Uncompressed);
          bits = cur_sighash @ [key_encoding_u8 pubkey_encoding] @ sig in
      if length bits = 32 + 1 + 65 then Ok (c_sha512_256 cr bits) else Panic)"

definition public_of_private :: "crypto \<Rightarrow> stacks_private_key \<Rightarrow> stacks_public_key" where
  "public_of_private cr privk = StacksPublicKey (c_public cr (sk_key privk)) (sk_compress_public privk)"

definition recover_to_pubkey :: "crypto \<Rightarrow> u8 list \<Rightarrow> message_signature \<Rightarrow> (stacks_public_key, net_error) outcome" where
  "recover_to_pubkey cr msg sig =
     (case c_recover cr msg sig of Some key \<Rightarrow> Ok (StacksPublicKey key True) | None \<Rightarrow> Err VerifyingError)"

definition set_compressed :: "bool \<Rightarrow> stacks_public_key \<Rightarrow> stacks_public_key" where
  "set_compressed b pubk = StacksPublicKey (pk_key pubk) b"

definition next_signature :: "crypto \<Rightarrow> u8 list \<Rightarrow> transaction_auth_flags \<Rightarrow> u64 \<Rightarrow> u64 \<Rightarrow> stacks_private_key \<Rightarrow>
    (message_signature \<times> u8 list, net_error) outcome" where
  "next_signature cr cur_sighash cond_code fee_rate nonce privk =
     and_then (make_sighash_presign cr cur_sighash cond_code fee_rate nonce) (\<lambda>sighash_presign.
     and_then (ok_or SigningError (c_sign cr (sk_key privk) sighash_presign)) (\<lambda>sig.
     and_then (make_sighash_postsign cr sighash_presign (public_of_private cr privk) sig) (\<lambda>next_sighash.
       Ok (sig, next_sighash))))"

definition next_verification :: "crypto \<Rightarrow> u8 list \<Rightarrow> transaction_auth_flags \<Rightarrow> u64 \<Rightarrow> u64 \<Rightarrow> transaction_public_key_encoding \<Rightarrow>
    message_signature \<Rightarrow> (stacks_public_key \<times> u8 list, net_error) outcome" where
  "next_verification cr cur_sighash cond_code fee_rate nonce key_encoding sig =
     and_then (make_sighash_presign cr cur_sighash cond_code fee_rate nonce) (\<lambda>sighash_presign.
     and_then (recover_to_pubkey cr sighash_presign sig) (\<lambda>pubk.
       let pubk = set_compressed (key_encoding = Compressed) pubk in
       and_then (make_sighash_postsign cr sighash_presign pubk sig) (\<lambda>next_sighash.
         Ok (pubk, next_sighash))))"

section \<open>Verification\<close>

definition singlesig_verify :: "crypto \<Rightarrow> singlesig_spending_condition \<Rightarrow> u8 list \<Rightarrow> transaction_auth_flags \<Rightarrow> (u8 list, net_error) outcome" where
  "singlesig_verify cr c initial_sighash cond_code =
     and_then (next_verification cr initial_sighash cond_code (ss_fee_rate c) (ss_nonce c) (ss_key_encoding c) (ss_signature c))
       (\<lambda>(pubkey, next_sighash).
     and_then (from_public_keys cr 0 (singlesig_address_hash_mode (ss_hash_mode c)) 1 [pubkey]) (\<lambda>a.
       case a of
         None \<Rightarrow> Err VerifyingError
       | Some a \<Rightarrow> if addr_bytes a \<noteq> ss_signer c then Err VerifyingError else Ok next_sighash))"

record verify_state =
  vs_pubkeys :: "stacks_public_key list"
  vs_sighash :: "u8 list"
  vs_num_sigs :: u16
  vs_uncompressed :: bool

fun verify_field :: "crypto \<Rightarrow> multisig_spending_condition \<Rightarrow> transaction_auth_flags \<Rightarrow> transaction_auth_field \<Rightarrow> verify_state \<Rightarrow>
    (verify_state, net_error) outcome" where
  "verify_field cr c cond_code (FieldPublicKey pubkey) st =
     Ok (st\<lparr>vs_uncompressed := vs_uncompressed st \<or> \<not> pk_compressed pubkey, vs_pubkeys := vs_pubkeys st @ [pubkey]\<rparr>)"
| "verify_field cr c cond_code (FieldSignature pubkey_encoding sigbuf) st =
     and_then (next_verification cr (vs_sighash st) cond_code (ms_fee_rate c) (ms_nonce c) pubkey_encoding sigbuf)
       (\<lambda>(pubkey, next_sighash).
     and_then (ok_or VerifyingError (checked_add (vs_num_sigs st) 1)) (\<lambda>n.
       Ok \<lparr>vs_pubkeys = vs_pubkeys st @ [pubkey], vs_sighash = next_sighash, vs_num_sigs = n,
           vs_uncompressed = (vs_uncompressed st \<or> pubkey_encoding = Uncompressed)\<rparr>))"

fun verify_fields :: "crypto \<Rightarrow> multisig_spending_condition \<Rightarrow> transaction_auth_flags \<Rightarrow> transaction_auth_field list \<Rightarrow> verify_state \<Rightarrow>
    (verify_state, net_error) outcome" where
  "verify_fields cr c cond_code [] st = Ok st"
| "verify_fields cr c cond_code (field # rest) st =
     and_then (verify_field cr c cond_code field st) (verify_fields cr c cond_code rest)"

definition multisig_verify :: "crypto \<Rightarrow> multisig_spending_condition \<Rightarrow> u8 list \<Rightarrow> transaction_auth_flags \<Rightarrow> (u8 list, net_error) outcome" where
  "multisig_verify cr c initial_sighash cond_code =
     and_then (verify_fields cr c cond_code (ms_fields c)
         \<lparr>vs_pubkeys = [], vs_sighash = initial_sighash, vs_num_sigs = 0, vs_uncompressed = False\<rparr>) (\<lambda>st.
       if vs_num_sigs st \<noteq> ms_signatures_required c then Err VerifyingError
       else if vs_uncompressed st \<and> ms_hash_mode c = P2WSH then Err VerifyingError
       else
         and_then (from_public_keys cr 0 (multisig_address_hash_mode (ms_hash_mode c)) (unat (ms_signatures_required c)) (vs_pubkeys st)) (\<lambda>a.
           case a of
             None \<Rightarrow> Err VerifyingError
           | Some a \<Rightarrow> if addr_bytes a \<noteq> ms_signer c then Err VerifyingError else Ok (vs_sighash st)))"

fun cond_verify :: "crypto \<Rightarrow> transaction_spending_condition \<Rightarrow> u8 list \<Rightarrow> transaction_auth_flags \<Rightarrow> (u8 list, net_error) outcome" where
  "cond_verify cr (Singlesig data) initial_sighash cond_code = singlesig_verify cr data initial_sighash cond_code"
| "cond_verify cr (Multisig data) initial_sighash cond_code = multisig_verify cr data initial_sighash cond_code"

definition auth_verify_origin :: "crypto \<Rightarrow> transaction_auth \<Rightarrow> u8 list \<Rightarrow> (u8 list, net_error) outcome" where
  "auth_verify_origin cr auth initial_sighash = cond_verify cr (auth_origin auth) initial_sighash AuthStandard"

fun auth_verify :: "crypto \<Rightarrow> transaction_auth \<Rightarrow> u8 list \<Rightarrow> (unit, net_error) outcome" where
  "auth_verify cr (StandardAuth origin) initial_sighash =
     and_then (auth_verify_origin cr (StandardAuth origin) initial_sighash) (\<lambda>_. Ok ())"
| "auth_verify cr (SponsoredAuth origin sponsor) initial_sighash =
     and_then (auth_verify_origin cr (SponsoredAuth origin sponsor) initial_sighash) (\<lambda>origin_sighash.
     and_then (cond_verify cr sponsor origin_sighash AuthSponsored) (\<lambda>_. Ok ()))"

definition sign_begin :: "crypto \<Rightarrow> stacks_transaction \<Rightarrow> (u8 list, net_error) outcome" where
  "sign_begin cr tx = txid cr (tx\<lparr>tx_auth := into_initial_sighash_auth (tx_auth tx)\<rparr>)"

definition verify_begin :: "crypto \<Rightarrow> stacks_transaction \<Rightarrow> (u8 list, net_error) outcome" where
  "verify_begin cr tx = txid cr (tx\<lparr>tx_auth := into_initial_sighash_auth (tx_auth tx)\<rparr>)"

definition tx_verify :: "crypto \<Rightarrow> stacks_transaction \<Rightarrow> (unit, net_error) outcome" where
  "tx_verify cr tx = and_then (verify_begin cr tx) (auth_verify cr (tx_auth tx))"

definition verify_origin :: "crypto \<Rightarrow> stacks_transaction \<Rightarrow> (u8 list, net_error) outcome" where
  "verify_origin cr tx = and_then (verify_begin cr tx) (auth_verify_origin cr (tx_auth tx))"

section \<open>Signing\<close>

fun push_signature :: "stacks_private_key \<Rightarrow> message_signature \<Rightarrow> transaction_spending_condition \<Rightarrow> transaction_spending_condition" where
  "push_signature privk sig (Multisig c) =
     Multisig (c\<lparr>ms_fields := ms_fields c @ [FieldSignature (if sk_compress_public privk then Compressed else Uncompressed) sig]\<rparr>)"
| "push_signature privk sig (Singlesig c) = Singlesig (c\<lparr>ss_signature := sig\<rparr>)"

definition sign_and_append :: "crypto \<Rightarrow> transaction_spending_condition \<Rightarrow> u8 list \<Rightarrow> transaction_auth_flags \<Rightarrow> stacks_private_key \<Rightarrow>
    (transaction_spending_condition \<times> u8 list, net_error) outcome" where
  "sign_and_append cr condition cur_sighash auth_flag privk =
     map_ok (\<lambda>(next_sig, next_sighash). (push_signature privk next_sig condition, next_sighash))
       (next_signature cr cur_sighash auth_flag (cond_fee_rate condition) (cond_nonce condition) privk)"

fun append_pubkey :: "stacks_public_key \<Rightarrow> transaction_spending_condition \<Rightarrow> (transaction_spending_condition, net_error) outcome" where
  "append_pubkey pubkey (Multisig c) = Ok (Multisig (c\<lparr>ms_fields := ms_fields c @ [FieldPublicKey pubkey]\<rparr>))"
| "append_pubkey pubkey (Singlesig c) = Err SigningError"

fun pop_auth_field :: "transaction_spending_condition \<Rightarrow> transaction_auth_field option \<times> transaction_spending_condition" where
  "pop_auth_field (Multisig c) =
     (if ms_fields c = [] then (None, Multisig c)
      else (Some (last (ms_fields c)), Multisig (c\<lparr>ms_fields := butlast (ms_fields c)\<rparr>)))"
| "pop_auth_field (Singlesig c) =
     (if ss_signature c = signature_empty then (None, Singlesig c)
      else (Some (FieldSignature (ss_key_encoding c) (ss_signature c)), Singlesig (c\<lparr>ss_signature := signature_empty\<rparr>)))"

fun set_origin :: "transaction_spending_condition \<Rightarrow> transaction_auth \<Rightarrow> transaction_auth" where
  "set_origin s (StandardAuth _) = StandardAuth s"
| "set_origin s (SponsoredAuth _ sponsor) = SponsoredAuth s sponsor"

definition sign_next_origin :: "crypto \<Rightarrow> u8 list \<Rightarrow> stacks_private_key \<Rightarrow> stacks_transaction \<Rightarrow>
    (stacks_transaction \<times> u8 list, net_error) outcome" where
  "sign_next_origin cr cur_sighash privk tx =
     map_ok (\<lambda>(c, next_sighash). (tx\<lparr>tx_auth := set_origin c (tx_auth tx)\<rparr>, next_sighash))
       (sign_and_append cr (auth_origin (tx_auth tx)) cur_sighash AuthStandard privk)"

definition append_next_origin :: "stacks_public_key \<Rightarrow> stacks_transaction \<Rightarrow> (stacks_transaction, net_error) outcome" where
  "append_next_origin pubk tx =
     map_ok (\<lambda>c. tx\<lparr>tx_auth := set_origin c (tx_auth tx)\<rparr>) (append_pubkey pubk (auth_origin (tx_auth tx)))"

definition sign_next_sponsor :: "crypto \<Rightarrow> u8 list \<Rightarrow> stacks_private_key \<Rightarrow> stacks_transaction \<Rightarrow>
    (stacks_transaction \<times> u8 list, net_error) outcome" where
  "sign_next_sponsor cr cur_sighash privk tx =
     (case tx_auth tx of
        StandardAuth _ \<Rightarrow> Err SigningError
      | SponsoredAuth origin sponsor \<Rightarrow>
          map_ok (\<lambda>(c, next_sighash). (tx\<lparr>tx_auth := SponsoredAuth origin c\<rparr>, next_sighash))
            (sign_and_append cr sponsor cur_sighash AuthSponsored privk))"

definition append_next_sponsor :: "stacks_public_key \<Rightarrow> stacks_transaction \<Rightarrow> (stacks_transaction, net_error) outcome" where
  "append_next_sponsor pubk tx =
     (case tx_auth tx of
        StandardAuth _ \<Rightarrow> Err SigningError
      | SponsoredAuth origin sponsor \<Rightarrow>
          map_ok (\<lambda>c. tx\<lparr>tx_auth := SponsoredAuth origin c\<rparr>) (append_pubkey pubk sponsor))"

section \<open>The signer\<close>

record stacks_transaction_signer =
  sg_tx :: stacks_transaction
  sg_sighash :: "u8 list"
  sg_origin_done :: bool
  sg_check_oversign :: bool
  sg_check_overlap :: bool

definition signer_new :: "crypto \<Rightarrow> stacks_transaction \<Rightarrow> (stacks_transaction_signer, net_error) outcome" where
  "signer_new cr tx =
     map_ok (\<lambda>sighash. \<lparr>sg_tx = tx, sg_sighash = sighash, sg_origin_done = False, sg_check_oversign = True, sg_check_overlap = True\<rparr>)
       (sign_begin cr tx)"

definition oversigned :: "transaction_spending_condition \<Rightarrow> (bool, net_error) outcome" where
  "oversigned c = map_ok (\<lambda>n. n \<ge> signatures_required c) (num_signatures c)"

definition sign_origin :: "crypto \<Rightarrow> stacks_private_key \<Rightarrow> stacks_transaction_signer \<Rightarrow> (stacks_transaction_signer, net_error) outcome" where
  "sign_origin cr privk sg =
     (if sg_check_overlap sg \<and> sg_origin_done sg then Err SigningError
      else
        and_then (if sg_check_oversign sg then oversigned (auth_origin (tx_auth (sg_tx sg))) else Ok False) (\<lambda>over.
          if over then Err SigningError
          else
            map_ok (\<lambda>(tx, next_sighash). sg\<lparr>sg_tx := tx, sg_sighash := next_sighash\<rparr>)
              (sign_next_origin cr (sg_sighash sg) privk (sg_tx sg))))"

definition append_origin :: "stacks_public_key \<Rightarrow> stacks_transaction_signer \<Rightarrow> (stacks_transaction_signer, net_error) outcome" where
  "append_origin pubk sg =
     (if sg_check_overlap sg \<and> sg_origin_done sg then Err SigningError
      else map_ok (\<lambda>tx. sg\<lparr>sg_tx := tx\<rparr>) (append_next_origin pubk (sg_tx sg)))"

definition sign_sponsor :: "crypto \<Rightarrow> stacks_private_key \<Rightarrow> stacks_transaction_signer \<Rightarrow> (stacks_transaction_signer, net_error) outcome" where
  "sign_sponsor cr privk sg =
     and_then (case auth_sponsor (tx_auth (sg_tx sg)) of
                 Some sponsor \<Rightarrow> if sg_check_oversign sg then oversigned sponsor else Ok False
               | None \<Rightarrow> Ok False) (\<lambda>over.
       if over then Err SigningError
       else
         map_ok (\<lambda>(tx, next_sighash). sg\<lparr>sg_tx := tx, sg_sighash := next_sighash, sg_origin_done := True\<rparr>)
           (sign_next_sponsor cr (sg_sighash sg) privk (sg_tx sg)))"

definition append_sponsor :: "stacks_public_key \<Rightarrow> stacks_transaction_signer \<Rightarrow> (stacks_transaction_signer, net_error) outcome" where
  "append_sponsor pubk sg = map_ok (\<lambda>tx. sg\<lparr>sg_tx := tx\<rparr>) (append_next_sponsor pubk (sg_tx sg))"

fun signer_complete :: "stacks_transaction_signer \<Rightarrow> (bool, net_error) outcome" where
  "signer_complete sg =
     (case tx_auth (sg_tx sg) of
        StandardAuth origin \<Rightarrow> oversigned origin
      | SponsoredAuth origin sponsor \<Rightarrow>
          and_then (oversigned origin) (\<lambda>a.
            if \<not> a then Ok False
            else and_then (oversigned sponsor) (\<lambda>b. Ok (b \<and> (sg_origin_done sg \<or> \<not> sg_check_overlap sg)))))"

definition get_tx :: "stacks_transaction_signer \<Rightarrow> (stacks_transaction option, net_error) outcome" where
  "get_tx sg = map_ok (\<lambda>done. if done then Some (sg_tx sg) else None) (signer_complete sg)"

datatype signer_error = IncompatibleSpendingConditionError | NetError net_error

definition signer_new_sponsor :: "crypto \<Rightarrow> stacks_transaction \<Rightarrow> transaction_spending_condition \<Rightarrow>
    (stacks_transaction_signer, signer_error) outcome" where
  "signer_new_sponsor cr tx spending_condition =
     (if \<not> is_sponsored (tx_auth tx) then Err IncompatibleSpendingConditionError
      else
        and_then (ok_or IncompatibleSpendingConditionError (set_sponsor spending_condition (tx_auth tx))) (\<lambda>auth.
        let new_tx = tx\<lparr>tx_auth := auth\<rparr> in
        and_then (map_err NetError (verify_origin cr new_tx)) (\<lambda>origin_sighash.
          Ok \<lparr>sg_tx = new_tx, sg_sighash = origin_sighash, sg_origin_done = True, sg_check_oversign = True, sg_check_overlap = True\<rparr>)))"

definition signer_resume :: "stacks_transaction \<Rightarrow> stacks_transaction_signer \<Rightarrow> stacks_transaction_signer" where
  "signer_resume tx sg = sg\<lparr>sg_tx := tx\<rparr>"

definition disable_checks :: "stacks_transaction_signer \<Rightarrow> stacks_transaction_signer" where
  "disable_checks sg = sg\<lparr>sg_check_oversign := False, sg_check_overlap := False\<rparr>"

definition pop_origin_auth_field :: "stacks_transaction_signer \<Rightarrow> transaction_auth_field option \<times> stacks_transaction_signer" where
  "pop_origin_auth_field sg =
     (case pop_auth_field (auth_origin (tx_auth (sg_tx sg))) of
        (field, c) \<Rightarrow> (field, sg\<lparr>sg_tx := (sg_tx sg)\<lparr>tx_auth := set_origin c (tx_auth (sg_tx sg))\<rparr>\<rparr>))"

definition pop_sponsor_auth_field :: "stacks_transaction_signer \<Rightarrow> transaction_auth_field option \<times> stacks_transaction_signer" where
  "pop_sponsor_auth_field sg =
     (case tx_auth (sg_tx sg) of
        SponsoredAuth origin sponsor \<Rightarrow>
          (case pop_auth_field sponsor of
             (field, c) \<Rightarrow> (field, sg\<lparr>sg_tx := (sg_tx sg)\<lparr>tx_auth := SponsoredAuth origin c\<rparr>\<rparr>))
      | StandardAuth _ \<Rightarrow> (None, sg))"

section \<open>New spending conditions\<close>

definition new_singlesig :: "crypto \<Rightarrow> singlesig_hash_mode \<Rightarrow> transaction_public_key_encoding \<Rightarrow> stacks_public_key \<Rightarrow>
    (transaction_spending_condition option, net_error) outcome" where
  "new_singlesig cr hash_mode key_encoding pubkey =
     map_ok (map_option (\<lambda>signer_addr.
         Singlesig \<lparr>ss_hash_mode = hash_mode, ss_signer = addr_bytes signer_addr, ss_nonce = 0, ss_fee_rate = 0,
                    ss_key_encoding = key_encoding, ss_signature = signature_empty\<rparr>))
       (from_public_keys cr 0 (singlesig_address_hash_mode hash_mode) 1 [pubkey])"

definition new_singlesig_p2pkh :: "crypto \<Rightarrow> stacks_public_key \<Rightarrow> (transaction_spending_condition option, net_error) outcome" where
  "new_singlesig_p2pkh cr pubkey = new_singlesig cr P2PKH (if pk_compressed pubkey then Compressed else Uncompressed) pubkey"

definition new_singlesig_p2wpkh :: "crypto \<Rightarrow> stacks_public_key \<Rightarrow> (transaction_spending_condition option, net_error) outcome" where
  "new_singlesig_p2wpkh cr pubkey = new_singlesig cr P2WPKH Compressed pubkey"

definition new_multisig :: "crypto \<Rightarrow> multisig_hash_mode \<Rightarrow> u16 \<Rightarrow> stacks_public_key list \<Rightarrow>
    (transaction_spending_condition option, net_error) outcome" where
  "new_multisig cr hash_mode num_sigs pubkeys =
     map_ok (map_option (\<lambda>signer_addr.
         Multisig \<lparr>ms_hash_mode = hash_mode, ms_signer = addr_bytes signer_addr, ms_nonce = 0, ms_fee_rate = 0,
                   ms_fields = [], ms_signatures_required = num_sigs\<rparr>))
       (from_public_keys cr 0 (multisig_address_hash_mode hash_mode) (unat num_sigs) pubkeys)"

definition new_multisig_p2sh :: "crypto \<Rightarrow> u16 \<Rightarrow> stacks_public_key list \<Rightarrow> (transaction_spending_condition option, net_error) outcome" where
  "new_multisig_p2sh cr num_sigs pubkeys = new_multisig cr P2SH num_sigs pubkeys"

definition new_multisig_p2wsh :: "crypto \<Rightarrow> u16 \<Rightarrow> stacks_public_key list \<Rightarrow> (transaction_spending_condition option, net_error) outcome" where
  "new_multisig_p2wsh cr num_sigs pubkeys = new_multisig cr P2WSH num_sigs pubkeys"

definition from_p2pkh :: "crypto \<Rightarrow> stacks_private_key \<Rightarrow> (transaction_auth option, net_error) outcome" where
  "from_p2pkh cr privk = map_ok (map_option StandardAuth) (new_singlesig_p2pkh cr (public_of_private cr privk))"

definition from_p2sh :: "crypto \<Rightarrow> stacks_private_key list \<Rightarrow> u16 \<Rightarrow> (transaction_auth option, net_error) outcome" where
  "from_p2sh cr privks num_sigs =
     map_ok (map_option StandardAuth) (new_multisig_p2sh cr num_sigs (map (public_of_private cr) privks))"

definition from_p2wpkh :: "crypto \<Rightarrow> stacks_private_key \<Rightarrow> (transaction_auth option, net_error) outcome" where
  "from_p2wpkh cr privk = map_ok (map_option StandardAuth) (new_singlesig_p2wpkh cr (public_of_private cr privk))"

definition from_p2wsh :: "crypto \<Rightarrow> stacks_private_key list \<Rightarrow> u16 \<Rightarrow> (transaction_auth option, net_error) outcome" where
  "from_p2wsh cr privks num_sigs =
     map_ok (map_option StandardAuth) (new_multisig_p2wsh cr num_sigs (map (public_of_private cr) privks))"

end
