(* ===== verification/Machine.thy ===== *)
theory Machine
  imports ClarityDB
begin

text \<open>
  The machine of the Clarity interpreter: environments (\<open>src/src/vm/contexts.rs\<close>), callable functions
  (\<open>src/src/vm/callables.rs\<close>), the reserved functions (\<open>src/src/vm/functions/mod.rs\<close>) and variables
  (\<open>src/src/vm/variables.rs\<close>), and the lookups of \<open>src/src/vm/mod.rs\<close>.

  An environment holds mutable references to the global context and the call stack. Those two are the state of an action;
  the rest of the environment is a record that is passed along. An action may run out of fuel, which is the result
  \<open>None\<close>. The stack trace that the code attaches to runtime errors is not part of the error here.
\<close>

section \<open>Actions\<close>

record 's vm =
  vm_global :: "'s global_context"
  vm_calls :: call_stack

record environment =
  env_contract :: contract_context
  env_sender :: "val option"
  env_caller :: "val option"

type_synonym ('s, 'a) action = "'s vm \<Rightarrow> (('a, vm_error) outcome \<times> 's vm) option"

definition result :: "('a, vm_error) outcome \<Rightarrow> ('s, 'a) action" where
  "result r s = Some (r, s)"

abbreviation ret :: "'a \<Rightarrow> ('s, 'a) action" where
  "ret x \<equiv> result (Ok x)"

abbreviation fail :: "check_errors \<Rightarrow> ('s, 'a) action" where
  "fail e \<equiv> result (Err (Unchecked e))"

definition bind :: "('s, 'a) action \<Rightarrow> ('a \<Rightarrow> ('s, 'b) action) \<Rightarrow> ('s, 'b) action" where
  "bind m f s =
     (case m s of
        None \<Rightarrow> None
      | Some (Ok x, s') \<Rightarrow> f x s'
      | Some (Err e, s') \<Rightarrow> Some (Err e, s')
      | Some (Panic, s') \<Rightarrow> Some (Panic, s'))"

text \<open>Keeping an error as a value, for code that cleans up before it returns it. A panic is not caught.\<close>

definition capture :: "('s, 'a) action \<Rightarrow> ('s, ('a, vm_error) outcome) action" where
  "capture m s =
     (case m s of None \<Rightarrow> None | Some (Panic, s') \<Rightarrow> Some (Panic, s') | Some (r, s') \<Rightarrow> Some (Ok r, s'))"

definition finally_do :: "('s, 'a) action \<Rightarrow> ('s, unit) action \<Rightarrow> ('s, 'a) action" where
  "finally_do m cleanup = bind (capture m) (\<lambda>r. bind cleanup (\<lambda>_. result r))"

text \<open>Running a routine on a part of the state.\<close>

definition on_global :: "('s global_context, 'a, vm_error) routine \<Rightarrow> ('s, 'a) action" where
  "on_global f s = (case f (vm_global s) of (r, g) \<Rightarrow> Some (r, s\<lparr>vm_global := g\<rparr>))"

definition on_db :: "('s, 'a) db_op \<Rightarrow> ('s, 'a) action" where
  "on_db f = on_global (\<lambda>g. case f (database g) of (r, db) \<Rightarrow> (r, g\<lparr>database := db\<rparr>))"

definition on_calls :: "(call_stack, 'a, vm_error) routine \<Rightarrow> ('s, 'a) action" where
  "on_calls f s = (case f (vm_calls s) of (r, c) \<Rightarrow> Some (r, s\<lparr>vm_calls := c\<rparr>))"

definition from_global :: "('s global_context \<Rightarrow> 'a) \<Rightarrow> ('s, 'a) action" where
  "from_global f s = Some (Ok (f (vm_global s)), s)"

definition from_calls :: "(call_stack \<Rightarrow> 'a) \<Rightarrow> ('s, 'a) action" where
  "from_calls f s = Some (Ok (f (vm_calls s)), s)"

section \<open>Costs\<close>

text \<open>\<open>CostTracker for Environment\<close> and \<open>CostTracker for GlobalContext\<close>: both hand on to the tracker of the global context.\<close>

definition on_tracker :: "(limited_cost_tracker, 'a, cost_errors) routine \<Rightarrow> ('s, 'a) action" where
  "on_tracker f = on_global (\<lambda>g. case f (cost_track g) of (r, t) \<Rightarrow>
     (map_err (\<lambda>e. Unchecked (CheckCost e)) r, g\<lparr>cost_track := t\<rparr>))"

definition charge :: "simple_cost_specification \<Rightarrow> u64 \<Rightarrow> ('s, unit) action" where
  "charge sp n = on_tracker (runtime_cost sp n)"

definition env_add_memory :: "u64 \<Rightarrow> ('s, unit) action" where
  "env_add_memory n = on_tracker (\<lambda>t. add_memory t n)"

definition env_drop_memory :: "u64 \<Rightarrow> ('s, unit) action" where
  "env_drop_memory n = on_tracker (\<lambda>t. case drop_memory t n of Ok t' \<Rightarrow> (Ok (), t') | Err e \<Rightarrow> (Err e, t) | Panic \<Rightarrow> (Panic, t))"

definition size_of_value :: "val \<Rightarrow> ('s, u64) action" where
  "size_of_value v = result (map_ok ucast (value_size v))"

definition size_of_type :: "type_signature \<Rightarrow> ('s, u64) action" where
  "size_of_type t = result (map_ok ucast (type_sig_size t))"

text \<open>\<open>get_memory_use\<close> of a value is its size.\<close>

definition get_memory_use :: "val \<Rightarrow> ('s, u64) action" where
  "get_memory_use v = size_of_value v"

definition charge_type_check :: "type_signature \<Rightarrow> ('s, unit) action" where
  "charge_type_check t = on_tracker (\<lambda>s. case type_check_cost t of Ok c \<Rightarrow> add_cost s c | Err e \<Rightarrow> (Err e, s) | Panic \<Rightarrow> (Panic, s))"

section \<open>Environments\<close>

definition is_principal :: "val option \<Rightarrow> bool" where
  "is_principal v = (case v of None \<Rightarrow> True | Some (VPrincipal _) \<Rightarrow> True | _ \<Rightarrow> False)"

definition environment_new :: "contract_context \<Rightarrow> val option \<Rightarrow> val option \<Rightarrow> ('s, environment) action" where
  "environment_new c sender caller =
     result (if is_principal sender \<and> is_principal caller
             then Ok \<lparr>env_contract = c, env_sender = sender, env_caller = caller\<rparr> else Panic)"

definition nest_as_principal :: "environment \<Rightarrow> val \<Rightarrow> ('s, environment) action" where
  "nest_as_principal env sender = environment_new (env_contract env) (Some sender) (Some sender)"

definition nest_with_caller :: "environment \<Rightarrow> val \<Rightarrow> ('s, environment) action" where
  "nest_with_caller env caller = environment_new (env_contract env) (env_sender env) (Some caller)"

definition current_contract :: "environment \<Rightarrow> qualified_contract_identifier" where
  "current_contract env = contract_identifier (env_contract env)"

section \<open>Reserved functions\<close>

datatype (plugins only: code size) native_functions =
    AddFn | SubtractFn | MultiplyFn | DivideFn | CmpGeqFn | CmpLeqFn | CmpLessFn | CmpGreaterFn | ToIntFn |
    ToUIntFn | ModuloFn | PowerFn | BitwiseXORFn | AndFn | OrFn | NotFn | EqualsFn | IfFn | LetFn | MapFn |
    FoldFn | AppendFn | ConcatFn | AsMaxLenFn | LenFn | ListConsFn | FetchVarFn | SetVarFn | FetchEntryFn |
    SetEntryFn | InsertEntryFn | DeleteEntryFn | TupleConsFn | TupleGetFn | BeginFn | Hash160Fn | Sha256Fn |
    Sha512Fn | Sha512Trunc256Fn | Keccak256Fn | PrintFn | ContractCallFn | AsContractFn | AtBlockFn |
    GetBlockInfoFn | ConsErrorFn | ConsOkayFn | ConsSomeFn | DefaultToFn | AssertsFn | UnwrapRetFn |
    UnwrapErrRetFn | UnwrapFn | UnwrapErrFn | MatchFn | TryRetFn | IsOkayFn | IsNoneFn | IsErrFn | IsSomeFn |
    FilterFn | GetTokenBalanceFn | GetAssetOwnerFn | TransferTokenFn | TransferAssetFn | MintAssetFn |
    MintTokenFn | StxTransferFn | StxBurnFn

definition native_functions_names :: "(string \<times> native_functions) list" where
  "native_functions_names =
    [(''+'', AddFn), (''-'', SubtractFn), (''*'', MultiplyFn), (''/'', DivideFn), (''>='', CmpGeqFn),
     (''<='', CmpLeqFn), (''<'', CmpLessFn), (''>'', CmpGreaterFn), (''to-int'', ToIntFn),
     (''to-uint'', ToUIntFn), (''mod'', ModuloFn), (''pow'', PowerFn), (''xor'', BitwiseXORFn), (''and'', AndFn),
     (''or'', OrFn), (''not'', NotFn), (''is-eq'', EqualsFn), (''if'', IfFn), (''let'', LetFn), (''map'', MapFn),
     (''fold'', FoldFn), (''append'', AppendFn), (''concat'', ConcatFn), (''as-max-len?'', AsMaxLenFn),
     (''len'', LenFn), (''list'', ListConsFn), (''var-get'', FetchVarFn), (''var-set'', SetVarFn),
     (''map-get?'', FetchEntryFn), (''map-set'', SetEntryFn), (''map-insert'', InsertEntryFn),
     (''map-delete'', DeleteEntryFn), (''tuple'', TupleConsFn), (''get'', TupleGetFn), (''begin'', BeginFn),
     (''hash160'', Hash160Fn), (''sha256'', Sha256Fn), (''sha512'', Sha512Fn), (''sha512/256'', Sha512Trunc256Fn),
     (''keccak256'', Keccak256Fn), (''print'', PrintFn), (''contract-call?'', ContractCallFn),
     (''as-contract'', AsContractFn), (''at-block'', AtBlockFn), (''get-block-info?'', GetBlockInfoFn),
     (''err'', ConsErrorFn), (''ok'', ConsOkayFn), (''some'', ConsSomeFn), (''default-to'', DefaultToFn),
     (''asserts!'', AssertsFn), (''unwrap!'', UnwrapRetFn), (''unwrap-err!'', UnwrapErrRetFn),
     (''unwrap-panic'', UnwrapFn), (''unwrap-err-panic'', UnwrapErrFn), (''match'', MatchFn),
     (''try!'', TryRetFn), (''is-ok'', IsOkayFn), (''is-none'', IsNoneFn), (''is-err'', IsErrFn),
     (''is-some'', IsSomeFn), (''filter'', FilterFn), (''ft-get-balance'', GetTokenBalanceFn),
     (''nft-get-owner?'', GetAssetOwnerFn), (''ft-transfer?'', TransferTokenFn),
     (''nft-transfer?'', TransferAssetFn), (''nft-mint?'', MintAssetFn), (''ft-mint?'', MintTokenFn),
     (''stx-transfer?'', StxTransferFn), (''stx-burn?'', StxBurnFn)]"

definition native_functions_lookup_by_name :: "string \<Rightarrow> native_functions option" where
  "native_functions_lookup_by_name name = map_of native_functions_names name"

text \<open>A special function is named by its enumeration value; the evaluator dispatches on it.\<close>

datatype callable_type =
    UserFunction defined_function
  | NativeFunction string native_handle simple_cost_specification
  | SpecialFunction string native_functions

definition callable_identifier :: "callable_type \<Rightarrow> function_identifier" where
  "callable_identifier f =
     (case f of
        UserFunction f \<Rightarrow> df_identifier f
      | NativeFunction s _ _ \<Rightarrow> new_native_function s
      | SpecialFunction s _ \<Rightarrow> new_native_function s)"

primrec reserved_callable :: "'s host \<Rightarrow> native_functions \<Rightarrow> callable_type" where
  "reserved_callable h AddFn = NativeFunction ''native_add'' (MoreArg native_add) COST_ADD"
| "reserved_callable h SubtractFn = NativeFunction ''native_sub'' (MoreArg native_sub) COST_SUB"
| "reserved_callable h MultiplyFn = NativeFunction ''native_mul'' (MoreArg native_mul) COST_MUL"
| "reserved_callable h DivideFn = NativeFunction ''native_div'' (MoreArg native_div) COST_DIV"
| "reserved_callable h CmpGeqFn = NativeFunction ''native_geq'' (DoubleArg native_geq) COST_GEQ"
| "reserved_callable h CmpLeqFn = NativeFunction ''native_leq'' (DoubleArg native_leq) COST_LEQ"
| "reserved_callable h CmpLessFn = NativeFunction ''native_le'' (DoubleArg native_le) COST_LE"
| "reserved_callable h CmpGreaterFn = NativeFunction ''native_ge'' (DoubleArg native_ge) COST_GE"
| "reserved_callable h ToIntFn = NativeFunction ''native_to_int'' (SingleArg native_to_int) COST_INT_CAST"
| "reserved_callable h ToUIntFn = NativeFunction ''native_to_uint'' (SingleArg native_to_uint) COST_INT_CAST"
| "reserved_callable h ModuloFn = NativeFunction ''native_mod'' (DoubleArg native_mod) COST_MOD"
| "reserved_callable h PowerFn = NativeFunction ''native_pow'' (DoubleArg native_pow) COST_POW"
| "reserved_callable h BitwiseXORFn = NativeFunction ''native_xor'' (DoubleArg native_xor) COST_XOR"
| "reserved_callable h AndFn = SpecialFunction ''special_and'' AndFn"
| "reserved_callable h OrFn = SpecialFunction ''special_or'' OrFn"
| "reserved_callable h NotFn = NativeFunction ''native_not'' (SingleArg native_not) COST_NOT"
| "reserved_callable h EqualsFn = NativeFunction ''native_eq'' (MoreArg native_eq) COST_EQ"
| "reserved_callable h IfFn = SpecialFunction ''special_if'' IfFn"
| "reserved_callable h LetFn = SpecialFunction ''special_let'' LetFn"
| "reserved_callable h MapFn = SpecialFunction ''special_map'' MapFn"
| "reserved_callable h FoldFn = SpecialFunction ''special_fold'' FoldFn"
| "reserved_callable h AppendFn = SpecialFunction ''special_append'' AppendFn"
| "reserved_callable h ConcatFn = SpecialFunction ''special_concat'' ConcatFn"
| "reserved_callable h AsMaxLenFn = SpecialFunction ''special_as_max_len'' AsMaxLenFn"
| "reserved_callable h LenFn = NativeFunction ''native_len'' (SingleArg native_len) COST_LEN"
| "reserved_callable h ListConsFn = SpecialFunction ''special_list_cons'' ListConsFn"
| "reserved_callable h FetchVarFn = SpecialFunction ''special_var-get'' FetchVarFn"
| "reserved_callable h SetVarFn = SpecialFunction ''special_set-var'' SetVarFn"
| "reserved_callable h FetchEntryFn = SpecialFunction ''special_map-get?'' FetchEntryFn"
| "reserved_callable h SetEntryFn = SpecialFunction ''special_set-entry'' SetEntryFn"
| "reserved_callable h InsertEntryFn = SpecialFunction ''special_insert-entry'' InsertEntryFn"
| "reserved_callable h DeleteEntryFn = SpecialFunction ''special_delete-entry'' DeleteEntryFn"
| "reserved_callable h TupleConsFn = SpecialFunction ''special_tuple'' TupleConsFn"
| "reserved_callable h TupleGetFn = SpecialFunction ''special_get-tuple'' TupleGetFn"
| "reserved_callable h BeginFn = NativeFunction ''native_begin'' (MoreArg native_begin) COST_BEGIN"
| "reserved_callable h Hash160Fn = NativeFunction ''native_hash160'' (SingleArg (native_hash (hash160 h))) COST_HASH160"
| "reserved_callable h Sha256Fn = NativeFunction ''native_sha256'' (SingleArg (native_hash (sha256 h))) COST_SHA256"
| "reserved_callable h Sha512Fn = NativeFunction ''native_sha512'' (SingleArg (native_hash (sha512 h))) COST_SHA512"
| "reserved_callable h Sha512Trunc256Fn = NativeFunction ''native_sha512trunc256'' (SingleArg (native_hash (sha512_256 h))) COST_SHA512T256"
| "reserved_callable h Keccak256Fn = NativeFunction ''native_keccak256'' (SingleArg (native_hash (keccak256 h))) COST_KECCAK256"
| "reserved_callable h PrintFn = SpecialFunction ''special_print'' PrintFn"
| "reserved_callable h ContractCallFn = SpecialFunction ''special_contract-call'' ContractCallFn"
| "reserved_callable h AsContractFn = SpecialFunction ''special_as-contract'' AsContractFn"
| "reserved_callable h AtBlockFn = SpecialFunction ''special_at_block'' AtBlockFn"
| "reserved_callable h GetBlockInfoFn = SpecialFunction ''special_get_block_info'' GetBlockInfoFn"
| "reserved_callable h ConsErrorFn = NativeFunction ''native_error'' (SingleArg native_error) COST_ERR_CONS"
| "reserved_callable h ConsOkayFn = NativeFunction ''native_okay'' (SingleArg native_okay) COST_OK_CONS"
| "reserved_callable h ConsSomeFn = NativeFunction ''native_some'' (SingleArg native_some) COST_SOME_CONS"
| "reserved_callable h DefaultToFn = NativeFunction ''native_default_to'' (DoubleArg native_default_to) COST_DEFAULT_TO"
| "reserved_callable h AssertsFn = SpecialFunction ''special_asserts'' AssertsFn"
| "reserved_callable h UnwrapRetFn = NativeFunction ''native_unwrap_ret'' (DoubleArg native_unwrap_or_ret) COST_UNWRAP_RET"
| "reserved_callable h UnwrapErrRetFn = NativeFunction ''native_unwrap_err_ret'' (DoubleArg native_unwrap_err_or_ret) COST_UNWRAP_ERR_OR_RET"
| "reserved_callable h UnwrapFn = NativeFunction ''native_unwrap'' (SingleArg native_unwrap) COST_UNWRAP"
| "reserved_callable h UnwrapErrFn = NativeFunction ''native_unwrap_err'' (SingleArg native_unwrap_err) COST_UNWRAP_ERR"
| "reserved_callable h MatchFn = SpecialFunction ''special_match'' MatchFn"
| "reserved_callable h TryRetFn = NativeFunction ''native_try_ret'' (SingleArg native_try_ret) COST_TRY_RET"
| "reserved_callable h IsOkayFn = NativeFunction ''native_is_okay'' (SingleArg native_is_okay) COST_IS_OKAY"
| "reserved_callable h IsNoneFn = NativeFunction ''native_is_none'' (SingleArg native_is_none) COST_IS_NONE"
| "reserved_callable h IsErrFn = NativeFunction ''native_is_err'' (SingleArg native_is_err) COST_IS_ERR"
| "reserved_callable h IsSomeFn = NativeFunction ''native_is_some'' (SingleArg native_is_some) COST_IS_SOME"
| "reserved_callable h FilterFn = SpecialFunction ''special_filter'' FilterFn"
| "reserved_callable h GetTokenBalanceFn = SpecialFunction ''special_get_balance'' GetTokenBalanceFn"
| "reserved_callable h GetAssetOwnerFn = SpecialFunction ''special_get_owner'' GetAssetOwnerFn"
| "reserved_callable h TransferTokenFn = SpecialFunction ''special_transfer_token'' TransferTokenFn"
| "reserved_callable h TransferAssetFn = SpecialFunction ''special_transfer_asset'' TransferAssetFn"
| "reserved_callable h MintAssetFn = SpecialFunction ''special_mint_asset'' MintAssetFn"
| "reserved_callable h MintTokenFn = SpecialFunction ''special_mint_token'' MintTokenFn"
| "reserved_callable h StxTransferFn = SpecialFunction ''special_stx_transfer'' StxTransferFn"
| "reserved_callable h StxBurnFn = SpecialFunction ''special_stx_burn'' StxBurnFn"

definition lookup_reserved_functions :: "'s host \<Rightarrow> string \<Rightarrow> callable_type option" where
  "lookup_reserved_functions h name = map_option (reserved_callable h) (native_functions_lookup_by_name name)"

section \<open>Reserved variables\<close>

datatype native_variables =
    ContractCallerVar | TxSenderVar | BlockHeightVar | BurnBlockHeightVar | NativeNoneVar | NativeTrueVar | NativeFalseVar

definition native_variables_lookup_by_name :: "string \<Rightarrow> native_variables option" where
  "native_variables_lookup_by_name name =
     map_of [(''contract-caller'', ContractCallerVar), (''tx-sender'', TxSenderVar), (''block-height'', BlockHeightVar),
       (''burn-block-height'', BurnBlockHeightVar), (''none'', NativeNoneVar), (''true'', NativeTrueVar),
       (''false'', NativeFalseVar)] name"

definition is_reserved_name :: "string \<Rightarrow> bool" where
  "is_reserved_name name \<longleftrightarrow> native_variables_lookup_by_name name \<noteq> None"

definition lookup_reserved_variable :: "'s host \<Rightarrow> string \<Rightarrow> environment \<Rightarrow> ('s, val option) action" where
  "lookup_reserved_variable h name env =
     (case native_variables_lookup_by_name name of
        None \<Rightarrow> ret None
      | Some TxSenderVar \<Rightarrow> bind (result (ok_or (Runtime NoSenderInContext) (env_sender env))) (\<lambda>sender. ret (Some sender))
      | Some ContractCallerVar \<Rightarrow> bind (result (ok_or (Runtime NoSenderInContext) (env_caller env))) (\<lambda>sender. ret (Some sender))
      | Some BlockHeightVar \<Rightarrow> bind (on_db (db_get_current_block_height h)) (\<lambda>n. ret (Some (VUInt (ucast n))))
      | Some BurnBlockHeightVar \<Rightarrow> result (Err (Runtime NotImplemented))
      | Some NativeNoneVar \<Rightarrow> ret (Some value_none)
      | Some NativeTrueVar \<Rightarrow> ret (Some (VBool True))
      | Some NativeFalseVar \<Rightarrow> ret (Some (VBool False)))"

section \<open>Lookups\<close>

definition MAX_CALL_STACK_DEPTH :: nat where
  "MAX_CALL_STACK_DEPTH = 64"

definition is_reserved :: "string \<Rightarrow> bool" where
  "is_reserved name \<longleftrightarrow> native_functions_lookup_by_name name \<noteq> None \<or> is_reserved_name name"

definition is_name_used :: "contract_context \<Rightarrow> string \<Rightarrow> bool" where
  "is_name_used c name \<longleftrightarrow> is_reserved name \<or> hm_get (ctx_variables c) name \<noteq> None \<or>
     hm_get (ctx_functions c) name \<noteq> None \<or> name \<in> persisted_names c \<or> hm_get (defined_traits c) name \<noteq> None"

text \<open>Names are ASCII, so that the numeric characters are the digits.\<close>

definition malformed_name :: "string \<Rightarrow> bool" where
  "malformed_name name = (case name of [] \<Rightarrow> False | c # _ \<Rightarrow> is_digit c \<or> c = CHR 0x27)"

definition lookup_variable :: "'s host \<Rightarrow> string \<Rightarrow> local_context \<Rightarrow> environment \<Rightarrow> ('s, val) action" where
  "lookup_variable h name context env =
     (if malformed_name name
      then result (Err (Interpreter (BadSymbolicRepresentation (''Unexpected variable name: '' @ name))))
      else
        bind (lookup_reserved_variable h name env) (\<lambda>reserved.
        case reserved of
          Some v \<Rightarrow> ret v
        | None \<Rightarrow>
            bind (charge COST_LOOKUP_VARIABLE_DEPTH (ucast (lc_depth context))) (\<lambda>_.
            case (case local_lookup_variable context name of Some v \<Rightarrow> Some v | None \<Rightarrow> ctx_lookup_variable (env_contract env) name) of
              Some v \<Rightarrow> bind (size_of_value v) (\<lambda>n. bind (charge COST_LOOKUP_VARIABLE_SIZE n) (\<lambda>_. ret v))
            | None \<Rightarrow>
                (case hm_get (lc_callable_contracts context) name of
                   Some (c, _) \<Rightarrow> ret (VPrincipal (Contract c))
                 | None \<Rightarrow> fail (UndefinedVariable name)))))"

definition lookup_function :: "'s host \<Rightarrow> string \<Rightarrow> environment \<Rightarrow> ('s, callable_type) action" where
  "lookup_function h name env =
     bind (charge COST_LOOKUP_FUNCTION 0) (\<lambda>_.
     case lookup_reserved_functions h name of
       Some f \<Rightarrow> ret f
     | None \<Rightarrow> bind (result (ok_or (Unchecked (UndefinedFunction name)) (ctx_lookup_function (env_contract env) name)))
                 (\<lambda>f. ret (UserFunction f)))"

end
