(* ===== verification/Specials.thy ===== *)
theory Specials
  imports Machine
begin

text \<open>
  The special functions of Clarity that work on expressions: control flow and bindings
  (\<open>src/src/vm/functions/mod.rs\<close>), boolean connectives (\<open>src/src/vm/functions/boolean.rs\<close>), \<open>match\<close>
  (\<open>src/src/vm/functions/options.rs\<close>), tuples (\<open>src/src/vm/functions/tuples.rs\<close>) and lists and buffers
  (\<open>src/src/vm/functions/iterables.rs\<close>).

  They call back into the interpreter, which is an argument here: the record \<open>interp\<close> holds \<open>eval\<close> and \<open>apply\<close>.
\<close>

record 's interp =
  r_eval :: "symbolic_expression \<Rightarrow> environment \<Rightarrow> local_context \<Rightarrow> ('s, val) action"
  r_apply :: "callable_type \<Rightarrow> symbolic_expression list \<Rightarrow> environment \<Rightarrow> local_context \<Rightarrow> ('s, val) action"

type_synonym 's special = "'s interp \<Rightarrow> symbolic_expression list \<Rightarrow> environment \<Rightarrow> local_context \<Rightarrow> ('s, val) action"

text \<open>Evaluating expressions in order, up to the first error.\<close>

primrec eval_list :: "'s interp \<Rightarrow> symbolic_expression list \<Rightarrow> environment \<Rightarrow> local_context \<Rightarrow> ('s, val list) action" where
  "eval_list R [] env context = ret []"
| "eval_list R (x # xs) env context =
     bind (r_eval R x env context) (\<lambda>v. bind (eval_list R xs env context) (\<lambda>vs. ret (v # vs)))"

section \<open>Booleans\<close>

primrec or_loop :: "'s interp \<Rightarrow> symbolic_expression list \<Rightarrow> environment \<Rightarrow> local_context \<Rightarrow> ('s, val) action" where
  "or_loop R [] env context = ret (VBool False)"
| "or_loop R (arg # args) env context =
     bind (r_eval R arg env context) (\<lambda>evaluated.
     bind (result (type_force_bool evaluated)) (\<lambda>b.
       if b then ret (VBool True) else or_loop R args env context))"

definition special_or :: "'s special" where
  "special_or R args env context =
     bind (result (check_arguments_at_least 1 args)) (\<lambda>_.
     bind (charge COST_OR (word_of_nat (length args))) (\<lambda>_.
       or_loop R args env context))"

primrec and_loop :: "'s interp \<Rightarrow> symbolic_expression list \<Rightarrow> environment \<Rightarrow> local_context \<Rightarrow> ('s, val) action" where
  "and_loop R [] env context = ret (VBool True)"
| "and_loop R (arg # args) env context =
     bind (r_eval R arg env context) (\<lambda>evaluated.
     bind (result (type_force_bool evaluated)) (\<lambda>b.
       if \<not> b then ret (VBool False) else and_loop R args env context))"

definition special_and :: "'s special" where
  "special_and R args env context =
     bind (result (check_arguments_at_least 1 args)) (\<lambda>_.
     bind (charge COST_AND (word_of_nat (length args))) (\<lambda>_.
       and_loop R args env context))"

section \<open>Control flow\<close>

definition special_print :: "'s special" where
  "special_print R args env context =
     bind (if args = [] then result Panic else r_eval R (args ! 0) env context) (\<lambda>input.
     bind (size_of_value input) (\<lambda>n.
     bind (charge COST_PRINT n) (\<lambda>_.
     bind (on_global (\<lambda>g. (Ok (), register_print_event (current_contract env) input g))) (\<lambda>_.
       ret input))))"

definition special_if :: "'s special" where
  "special_if R args env context =
     bind (result (check_argument_count 3 args)) (\<lambda>_.
     bind (charge COST_IF 0) (\<lambda>_.
     bind (r_eval R (args ! 0) env context) (\<lambda>conditional.
       case conditional of
         VBool b \<Rightarrow> if b then r_eval R (args ! 1) env context else r_eval R (args ! 2) env context
       | _ \<Rightarrow> fail (TypeValueError BoolType conditional))))"

definition special_asserts :: "'s special" where
  "special_asserts R args env context =
     bind (result (check_argument_count 2 args)) (\<lambda>_.
     bind (charge COST_ASSERTS 0) (\<lambda>_.
     bind (r_eval R (args ! 0) env context) (\<lambda>conditional.
       case conditional of
         VBool b \<Rightarrow>
           if b then ret conditional
           else bind (r_eval R (args ! 1) env context) (\<lambda>thrown. result (Err (ShortReturn (AssertionFailed thrown))))
       | _ \<Rightarrow> fail (TypeValueError BoolType conditional))))"

text \<open>One binding of \<open>handle_binding_list\<close>.\<close>

definition binding_of :: "symbolic_expression \<Rightarrow> (clarity_name \<times> symbolic_expression, vm_error) outcome" where
  "binding_of e =
     and_then (ok_or (Unchecked BadSyntaxBinding) (match_list e)) (\<lambda>binding_expression.
     if length binding_expression \<noteq> 2 then Err (Unchecked BadSyntaxBinding)
     else and_then (ok_or (Unchecked BadSyntaxBinding) (match_atom (binding_expression ! 0))) (\<lambda>var_name.
       Ok (var_name, binding_expression ! 1)))"

primrec parse_eval_bindings :: "'s interp \<Rightarrow> symbolic_expression list \<Rightarrow> environment \<Rightarrow> local_context \<Rightarrow>
    ('s, (clarity_name \<times> val) list) action" where
  "parse_eval_bindings R [] env context = ret []"
| "parse_eval_bindings R (b # bs) env context =
     bind (result (binding_of b)) (\<lambda>(var_name, var_sexp).
     bind (r_eval R var_sexp env context) (\<lambda>v.
     bind (parse_eval_bindings R bs env context) (\<lambda>vs.
       ret ((var_name, v) # vs))))"

definition local_bind :: "clarity_name \<Rightarrow> val \<Rightarrow> local_context \<Rightarrow> local_context" where
  "local_bind name v l =
     LocalContext (lc_parent l) (hm_insert name v (lc_variables l)) (lc_callable_contracts l) (lc_depth l)"

definition name_taken :: "clarity_name \<Rightarrow> environment \<Rightarrow> local_context \<Rightarrow> bool" where
  "name_taken name env inner_context \<longleftrightarrow> is_reserved name \<or> ctx_lookup_function (env_contract env) name \<noteq> None \<or>
     local_lookup_variable inner_context name \<noteq> None"

definition let_binding :: "'s interp \<Rightarrow> environment \<Rightarrow> local_context \<Rightarrow> local_context \<Rightarrow> u64 \<Rightarrow> symbolic_expression \<Rightarrow>
    ('s, local_context \<times> u64) action" where
  "let_binding R env context inner_context memory_use b =
     bind (result (binding_of b)) (\<lambda>(binding_name, var_sexp).
       if name_taken binding_name env inner_context then fail (NameAlreadyUsed binding_name)
       else
         bind (r_eval R var_sexp env context) (\<lambda>binding_value.
         bind (get_memory_use binding_value) (\<lambda>bind_mem_use.
         bind (env_add_memory bind_mem_use) (\<lambda>_.
           ret (local_bind binding_name binding_value inner_context, memory_use + bind_mem_use)))))"

text \<open>The bindings that were made before an error count for the memory to release.\<close>

primrec let_bindings :: "'s interp \<Rightarrow> environment \<Rightarrow> local_context \<Rightarrow> symbolic_expression list \<Rightarrow> local_context \<Rightarrow> u64 \<Rightarrow>
    ('s, (unit, vm_error) outcome \<times> local_context \<times> u64) action" where
  "let_bindings R env context [] inner_context memory_use = ret (Ok (), inner_context, memory_use)"
| "let_bindings R env context (b # bs) inner_context memory_use =
     bind (capture (let_binding R env context inner_context memory_use b)) (\<lambda>r.
       case r of
         Ok (inner_context', memory_use') \<Rightarrow> let_bindings R env context bs inner_context' memory_use'
       | Err e \<Rightarrow> ret (Err e, inner_context, memory_use)
       | Panic \<Rightarrow> result Panic)"

primrec let_bodies :: "'s interp \<Rightarrow> environment \<Rightarrow> symbolic_expression list \<Rightarrow> local_context \<Rightarrow> val option \<Rightarrow> ('s, val option) action" where
  "let_bodies R env [] inner_context last_result = ret last_result"
| "let_bodies R env (body # bodies) inner_context last_result =
     bind (r_eval R body env inner_context) (\<lambda>body_result. let_bodies R env bodies inner_context (Some body_result))"

definition special_let :: "'s special" where
  "special_let R args env context =
     bind (result (check_arguments_at_least 2 args)) (\<lambda>_.
     bind (result (ok_or (Unchecked BadLetSyntax) (match_list (args ! 0)))) (\<lambda>bindings.
     bind (charge COST_LET (word_of_nat (length bindings))) (\<lambda>_.
     bind (result (local_extend context)) (\<lambda>inner_context.
     bind (let_bindings R env context bindings inner_context 0) (\<lambda>(bound, inner_context, memory_use).
       finally_do
         (bind (result bound) (\<lambda>_.
          bind (let_bodies R env (drop 1 args) inner_context None) (\<lambda>last_result. result (unwrap_opt last_result))))
         (env_drop_memory memory_use))))))"

definition special_as_contract :: "'s special" where
  "special_as_contract R args env context =
     bind (result (check_argument_count 1 args)) (\<lambda>_.
     bind (env_add_memory AS_CONTRACT_MEMORY) (\<lambda>_.
     bind (nest_as_principal env (VPrincipal (Contract (current_contract env)))) (\<lambda>nested_env.
       finally_do (r_eval R (args ! 0) nested_env context) (env_drop_memory AS_CONTRACT_MEMORY))))"

section \<open>Matching\<close>

definition eval_with_new_binding :: "'s interp \<Rightarrow> symbolic_expression \<Rightarrow> clarity_name \<Rightarrow> val \<Rightarrow> environment \<Rightarrow> local_context \<Rightarrow>
    ('s, val) action" where
  "eval_with_new_binding R body bind_name bind_value env context =
     bind (result (local_extend context)) (\<lambda>inner_context.
       if name_taken bind_name env inner_context then fail (NameAlreadyUsed bind_name)
       else
         bind (get_memory_use bind_value) (\<lambda>memory_use.
         bind (env_add_memory memory_use) (\<lambda>_.
           finally_do (r_eval R body env (local_bind bind_name bind_value inner_context)) (env_drop_memory memory_use))))"

definition special_match_opt :: "val option \<Rightarrow> 's special" where
  "special_match_opt input R args env context =
     (if length args \<noteq> 3 then fail (BadMatchOptionSyntax (IncorrectArgumentCount 4 (length args + 1)))
      else
        bind (result (ok_or (Unchecked (BadMatchOptionSyntax ExpectedName)) (match_atom (args ! 0)))) (\<lambda>bind_name.
          case input of
            Some data \<Rightarrow> eval_with_new_binding R (args ! 1) bind_name data env context
          | None \<Rightarrow> r_eval R (args ! 2) env context))"

definition special_match_resp :: "bool \<Rightarrow> val \<Rightarrow> 's special" where
  "special_match_resp committed data R args env context =
     (if length args \<noteq> 4 then fail (BadMatchResponseSyntax (IncorrectArgumentCount 5 (length args + 1)))
      else
        bind (result (ok_or (Unchecked (BadMatchResponseSyntax ExpectedName)) (match_atom (args ! 0)))) (\<lambda>ok_bind_name.
        bind (result (ok_or (Unchecked (BadMatchResponseSyntax ExpectedName)) (match_atom (args ! 2)))) (\<lambda>err_bind_name.
          if committed then eval_with_new_binding R (args ! 1) ok_bind_name data env context
          else eval_with_new_binding R (args ! 3) err_bind_name data env context)))"

definition special_match :: "'s special" where
  "special_match R args env context =
     bind (result (check_arguments_at_least 1 args)) (\<lambda>_.
     bind (r_eval R (args ! 0) env context) (\<lambda>input.
     bind (charge COST_MATCH 0) (\<lambda>_.
       case input of
         VResponse committed data \<Rightarrow> special_match_resp committed data R (drop 1 args) env context
       | VOptional data \<Rightarrow> special_match_opt data R (drop 1 args) env context
       | _ \<Rightarrow> bind (result (expect (type_of input))) (\<lambda>t. fail (BadMatchInput t)))))"

section \<open>Tuples\<close>

definition tuple_cons :: "'s special" where
  "tuple_cons R args env context =
     bind (result (check_arguments_at_least 1 args)) (\<lambda>_.
     bind (parse_eval_bindings R args env context) (\<lambda>bindings.
     bind (charge COST_TUPLE_CONS (word_of_nat (length bindings))) (\<lambda>_.
       result (map_ok (\<lambda>(sig, data). VTuple sig data) (tuple_from_data bindings)))))"

definition tuple_get_fn :: "'s special" where
  "tuple_get_fn R args env context =
     bind (result (check_argument_count 2 args)) (\<lambda>_.
     bind (result (ok_or (Unchecked ExpectedName) (match_atom (args ! 0)))) (\<lambda>arg_name.
     bind (r_eval R (args ! 1) env context) (\<lambda>v.
       case v of
         VOptional None \<Rightarrow> ret value_none
       | VOptional (Some data) \<Rightarrow>
           (case data of
              VTuple sig m \<Rightarrow>
                bind (charge COST_TUPLE_GET (word_of_nat (length m))) (\<lambda>_.
                bind (result (tuple_get (sig, m) arg_name)) (\<lambda>x. result (expect (value_some x))))
            | _ \<Rightarrow> bind (result (expect (type_of data))) (\<lambda>t. fail (ExpectedTuple t)))
       | VTuple sig m \<Rightarrow>
           bind (charge COST_TUPLE_GET (word_of_nat (length m))) (\<lambda>_. result (tuple_get (sig, m) arg_name))
       | _ \<Rightarrow> bind (result (expect (type_of v))) (\<lambda>t. fail (ExpectedTuple t)))))"

datatype tuple_definition_type = Implicit "symbolic_expression list" | Explicit

definition get_definition_type_of_tuple_argument :: "symbolic_expression \<Rightarrow> (tuple_definition_type, vm_error) outcome" where
  "get_definition_type_of_tuple_argument e =
     (case expr e of
        SList outer_expr \<Rightarrow>
          (case outer_expr of
             [] \<Rightarrow> Panic
           | x # _ \<Rightarrow> (case expr x of SList _ \<Rightarrow> Ok (Implicit outer_expr) | _ \<Rightarrow> Ok Explicit))
      | _ \<Rightarrow> Ok Explicit)"

definition eval_tuple_argument :: "'s interp \<Rightarrow> symbolic_expression \<Rightarrow> environment \<Rightarrow> local_context \<Rightarrow> ('s, val) action" where
  "eval_tuple_argument R e env context =
     bind (result (get_definition_type_of_tuple_argument e)) (\<lambda>d.
       case d of Implicit es \<Rightarrow> tuple_cons R es env context | Explicit \<Rightarrow> r_eval R e env context)"

section \<open>Lists and buffers\<close>

primrec total_size :: "val list \<Rightarrow> u64 \<Rightarrow> (u64, vm_error) outcome" where
  "total_size [] arg_size = Ok arg_size"
| "total_size (a # as) arg_size =
     and_then (value_size a) (\<lambda>n.
     and_then (map_err (\<lambda>e. Unchecked (CheckCost e)) (cost_overflow_add arg_size (ucast n))) (\<lambda>arg_size.
       total_size as arg_size))"

definition list_cons :: "'s special" where
  "list_cons R args env context =
     bind (eval_list R args env context) (\<lambda>vs.
     bind (result (total_size vs 0)) (\<lambda>arg_size.
     bind (charge COST_LIST_CONS arg_size) (\<lambda>_.
       result (list_from vs))))"

primrec filter_list :: "'s interp \<Rightarrow> callable_type \<Rightarrow> environment \<Rightarrow> local_context \<Rightarrow> val list \<Rightarrow> ('s, val list) action" where
  "filter_list R f env context [] = ret []"
| "filter_list R f env context (x # xs) =
     bind (r_apply R f [atom_value x] env context) (\<lambda>filter_eval.
       case filter_eval of
         VBool include \<Rightarrow> bind (filter_list R f env context xs) (\<lambda>ys. ret (if include then x # ys else ys))
       | _ \<Rightarrow> fail (TypeValueError BoolType filter_eval))"

primrec filter_buffer :: "'s interp \<Rightarrow> callable_type \<Rightarrow> environment \<Rightarrow> local_context \<Rightarrow> u8 list \<Rightarrow> ('s, u8 list) action" where
  "filter_buffer R f env context [] = ret []"
| "filter_buffer R f env context (x # xs) =
     bind (result (buff_from [x])) (\<lambda>v.
     bind (r_apply R f [atom_value v] env context) (\<lambda>filter_eval.
       case filter_eval of
         VBool include \<Rightarrow> bind (filter_buffer R f env context xs) (\<lambda>ys. ret (if include then x # ys else ys))
       | _ \<Rightarrow> fail (TypeValueError BoolType filter_eval)))"

definition special_filter :: "'s host \<Rightarrow> 's special" where
  "special_filter h R args env context =
     bind (result (check_argument_count 2 args)) (\<lambda>_.
     bind (charge COST_FILTER 0) (\<lambda>_.
     bind (result (ok_or (Unchecked ExpectedName) (match_atom (args ! 0)))) (\<lambda>function_name.
     bind (lookup_function h function_name env) (\<lambda>f.
     bind (r_eval R (args ! 1) env context) (\<lambda>iterable.
       case iterable of
         VList vs n t \<Rightarrow> bind (filter_list R f env context vs) (\<lambda>ys. result (list_with_type ys (n, t)))
       | VBuffer bs \<Rightarrow> bind (filter_buffer R f env context bs) (\<lambda>ys. result (buff_from ys))
       | _ \<Rightarrow> result (list_or_buffer_error iterable))))))"

text \<open>The elements of a list or buffer, as the arguments of \<open>map\<close> and \<open>fold\<close>.\<close>

definition iterable_elements :: "val \<Rightarrow> (val list, vm_error) outcome" where
  "iterable_elements v =
     (case v of VList vs n t \<Rightarrow> Ok vs | VBuffer bs \<Rightarrow> Ok (map buff_from_byte bs) | _ \<Rightarrow> list_or_buffer_error v)"

primrec fold_loop :: "'s interp \<Rightarrow> callable_type \<Rightarrow> environment \<Rightarrow> local_context \<Rightarrow> val list \<Rightarrow> val \<Rightarrow> ('s, val) action" where
  "fold_loop R f env context [] acc = ret acc"
| "fold_loop R f env context (x # xs) acc =
     bind (r_apply R f [atom_value x, atom_value acc] env context) (\<lambda>acc. fold_loop R f env context xs acc)"

definition special_fold :: "'s host \<Rightarrow> 's special" where
  "special_fold h R args env context =
     bind (result (check_argument_count 3 args)) (\<lambda>_.
     bind (charge COST_FILTER 0) (\<lambda>_.
     bind (result (ok_or (Unchecked ExpectedName) (match_atom (args ! 0)))) (\<lambda>function_name.
     bind (lookup_function h function_name env) (\<lambda>f.
     bind (r_eval R (args ! 1) env context) (\<lambda>iterable.
     bind (r_eval R (args ! 2) env context) (\<lambda>initial.
     bind (result (iterable_elements iterable)) (\<lambda>mapped_args.
       fold_loop R f env context mapped_args initial)))))))"

primrec map_loop :: "'s interp \<Rightarrow> callable_type \<Rightarrow> environment \<Rightarrow> local_context \<Rightarrow> val list \<Rightarrow> ('s, val list) action" where
  "map_loop R f env context [] = ret []"
| "map_loop R f env context (x # xs) =
     bind (r_apply R f [atom_value x] env context) (\<lambda>y. bind (map_loop R f env context xs) (\<lambda>ys. ret (y # ys)))"

definition special_map :: "'s host \<Rightarrow> 's special" where
  "special_map h R args env context =
     bind (result (check_argument_count 2 args)) (\<lambda>_.
     bind (charge COST_MAP 0) (\<lambda>_.
     bind (result (ok_or (Unchecked ExpectedName) (match_atom (args ! 0)))) (\<lambda>function_name.
     bind (r_eval R (args ! 1) env context) (\<lambda>iterable.
     bind (lookup_function h function_name env) (\<lambda>f.
     bind (result (iterable_elements iterable)) (\<lambda>mapped_args.
     bind (map_loop R f env context mapped_args) (\<lambda>mapped_vec.
       result (list_from mapped_vec))))))))"

definition special_append :: "'s special" where
  "special_append R args env context =
     bind (result (check_argument_count 2 args)) (\<lambda>_.
     bind (r_eval R (args ! 0) env context) (\<lambda>iterable.
       case iterable of
         VList data n_max entry_type \<Rightarrow>
           bind (r_eval R (args ! 1) env context) (\<lambda>element.
           bind (result (expect (type_of element))) (\<lambda>element_type.
           bind (result (type_sig_size entry_type)) (\<lambda>n.
           bind (result (type_sig_size element_type)) (\<lambda>m.
           bind (charge COST_APPEND (ucast (max n m))) (\<lambda>_.
             if is_no_type entry_type
             then (if n_max \<noteq> 0 then result Panic else result (list_from [element]))
             else
               (case least_supertype entry_type element_type of
                  Ok next_entry_type \<Rightarrow>
                    bind (result (map_err Unchecked (new_list next_entry_type (n_max + 1)))) (\<lambda>(n, t).
                      ret (VList (data @ [element]) n t))
                | Err _ \<Rightarrow> fail (TypeValueError entry_type element)
                | Panic \<Rightarrow> result Panic))))))
       | _ \<Rightarrow> fail ExpectedListApplication))"

definition special_concat :: "'s special" where
  "special_concat R args env context =
     bind (result (check_argument_count 2 args)) (\<lambda>_.
     bind (r_eval R (args ! 0) env context) (\<lambda>lhs.
     bind (r_eval R (args ! 1) env context) (\<lambda>rhs.
     bind (size_of_value lhs) (\<lambda>n.
     bind (size_of_value rhs) (\<lambda>m.
     bind (result (map_err (\<lambda>e. Unchecked (CheckCost e)) (cost_overflow_add n m))) (\<lambda>both.
     bind (charge COST_CONCAT both) (\<lambda>_.
       case (lhs, rhs) of
         (VList xs _ _, VList ys _ _) \<Rightarrow> result (list_from (xs @ ys))
       | (VBuffer xs, VBuffer ys) \<Rightarrow> result (buff_from (xs @ ys))
       | _ \<Rightarrow> result (Err (Runtime BadTypeConstruction)))))))))"

definition special_as_max_len :: "'s special" where
  "special_as_max_len R args env context =
     bind (result (check_argument_count 2 args)) (\<lambda>_.
     bind (r_eval R (args ! 0) env context) (\<lambda>iterable.
     bind (charge COST_AS_MAX_LEN 0) (\<lambda>_.
       case match_literal_value (args ! 1) of
         Some (VUInt expected_len) \<Rightarrow>
           bind (result (map_ok length (iterable_elements iterable))) (\<lambda>iterable_len.
             if word_of_nat iterable_len > expected_len then ret value_none else result (value_some iterable))
       | _ \<Rightarrow>
           bind (r_eval R (args ! 1) env context) (\<lambda>actual_len.
           bind (result (expect (type_of actual_len))) (\<lambda>t. fail (TypeError UIntType t))))))"

end
