(* ===== verification/Database_Functions.thy ===== *)
theory Database_Functions
  imports Specials
begin

text \<open>
  Calling user functions (\<open>src/src/vm/callables.rs\<close>, \<open>src/src/vm/contexts.rs\<close>) and the special functions on the
  database (\<open>src/src/vm/functions/database.rs\<close>): contract calls, variables, data maps, block information and
  time-shifted evaluation.
\<close>

section \<open>User functions\<close>

primrec charge_type_checks :: "type_signature list \<Rightarrow> ('s, unit) action" where
  "charge_type_checks [] = ret ()"
| "charge_type_checks (t # ts) = bind (charge_type_check t) (\<lambda>_. charge_type_checks ts)"

definition bind_argument :: "clarity_name \<Rightarrow> type_signature \<Rightarrow> val \<Rightarrow> local_context \<Rightarrow> (local_context, vm_error) outcome" where
  "bind_argument name type_sig v context =
     (case (type_sig, v) of
        (TraitReferenceType trait_identifier, VPrincipal (Contract callee_contract_id)) \<Rightarrow>
          Ok (LocalContext (lc_parent context) (lc_variables context)
                (hm_insert name (callee_contract_id, trait_identifier) (lc_callable_contracts context)) (lc_depth context))
      | _ \<Rightarrow>
          and_then (map_err Unchecked (type_admits type_sig v)) (\<lambda>ok.
            if \<not> ok then Err (Unchecked (TypeValueError type_sig v))
            else if hm_get (lc_variables context) name \<noteq> None then Err (Unchecked (NameAlreadyUsed name))
            else Ok (local_bind name v context)))"

fun bind_arguments :: "((clarity_name \<times> type_signature) \<times> val) list \<Rightarrow> local_context \<Rightarrow> (local_context, vm_error) outcome" where
  "bind_arguments [] context = Ok context"
| "bind_arguments (((name, type_sig), v) # rest) context =
     and_then (bind_argument name type_sig v context) (bind_arguments rest)"

text \<open>A short return is the value of the function.\<close>

definition short_return_value :: "(val, vm_error) outcome \<Rightarrow> (val, vm_error) outcome" where
  "short_return_value r =
     (case r of
        Err (ShortReturn (ExpectedValue v)) \<Rightarrow> Ok v
      | Err (ShortReturn (AssertionFailed v)) \<Rightarrow> Ok v
      | _ \<Rightarrow> r)"

definition execute_apply :: "'s interp \<Rightarrow> defined_function \<Rightarrow> val list \<Rightarrow> environment \<Rightarrow> ('s, val) action" where
  "execute_apply R f args env =
     bind (charge COST_USER_FUNCTION_APPLICATION (word_of_nat (length (df_arguments f)))) (\<lambda>_.
     bind (charge_type_checks (df_arg_types f)) (\<lambda>_.
       if length args \<noteq> length (df_arguments f)
       then fail (IncorrectArgumentCount (length (df_arguments f)) (length args))
       else
         bind (result (bind_arguments (zip (zip (df_arguments f) (df_arg_types f)) args) local_new)) (\<lambda>context.
         bind (capture (r_eval R (df_body f) env context)) (\<lambda>r. result (short_return_value r)))))"

definition run_as_transaction :: "'s host \<Rightarrow> 's interp \<Rightarrow> defined_function \<Rightarrow> val list \<Rightarrow> contract_context option \<Rightarrow> environment \<Rightarrow>
    ('s, val) action" where
  "run_as_transaction h R f args next_contract_context env =
     bind (on_global (\<lambda>g. (Ok (), if df_is_read_only f then global_begin_read_only g else global_begin g))) (\<lambda>_.
     bind (capture
             (bind (environment_new (case next_contract_context of Some c \<Rightarrow> c | None \<Rightarrow> env_contract env)
                      (env_sender env) (env_caller env)) (\<lambda>nested_env.
                execute_apply R f args nested_env))) (\<lambda>r.
       if df_is_read_only f then bind (on_global global_roll_back) (\<lambda>_. result r)
       else on_global (handle_tx_result (backing h) r)))"

definition df_apply :: "'s host \<Rightarrow> 's interp \<Rightarrow> defined_function \<Rightarrow> val list \<Rightarrow> environment \<Rightarrow> ('s, val) action" where
  "df_apply h R f args env =
     (case df_define_type f of
        Private \<Rightarrow> execute_apply R f args env
      | Public \<Rightarrow> run_as_transaction h R f args None env
      | ReadOnly \<Rightarrow> run_as_transaction h R f args None env)"

section \<open>Contract calls\<close>

definition atom_values :: "string \<Rightarrow> symbolic_expression list \<Rightarrow> (val list, vm_error) outcome" where
  "atom_values tx_name args =
     collect (\<lambda>arg. ok_or (Interpreter (InterpreterError (''Passed non-value expression to exec_tx on '' @ tx_name @ ''!'')))
       (match_atom_value arg)) args"

definition execute_contract :: "'s host \<Rightarrow> 's interp \<Rightarrow> qualified_contract_identifier \<Rightarrow> string \<Rightarrow> symbolic_expression list \<Rightarrow> bool \<Rightarrow>
    environment \<Rightarrow> ('s, val) action" where
  "execute_contract h R contract tx_name args ro env =
     bind (on_db (get_contract_size h contract)) (\<lambda>contract_size.
     bind (charge COST_LOAD_CONTRACT contract_size) (\<lambda>_.
     bind (env_add_memory contract_size) (\<lambda>_.
       finally_do
         (bind (on_db (get_contract h contract)) (\<lambda>c.
          bind (result (ok_or (Unchecked (UndefinedFunction tx_name)) (ctx_lookup_function c tx_name))) (\<lambda>func.
            if \<not> df_is_public func
            then fail (NoSuchPublicFunction (contract_to_string (sha256 h) contract) tx_name)
            else if ro \<and> \<not> df_is_read_only func
            then fail (PublicFunctionNotReadOnly (contract_to_string (sha256 h) contract) tx_name)
            else
              bind (result (atom_values tx_name args)) (\<lambda>args.
              bind (from_calls (\<lambda>cs. call_stack_contains cs (df_identifier func))) (\<lambda>circular.
                if circular then fail (CircularReference [df_identifier func])
                else
                  bind (on_calls (\<lambda>cs. (Ok (), call_stack_insert (df_identifier func) True cs))) (\<lambda>_.
                    finally_do (run_as_transaction h R func args (Some c) env)
                      (on_calls (call_stack_remove (df_identifier func) True))))))))
         (env_drop_memory contract_size))))"

text \<open>The contract that a call goes to, and the type that a trait demands of the result.\<close>

definition load_contract_as :: "'s host \<Rightarrow> qualified_contract_identifier \<Rightarrow> ('s, contract_context) action" where
  "load_contract_as h contract =
     bind (capture (on_db (get_contract h contract))) (\<lambda>r.
       result (map_err (\<lambda>_. Unchecked (NoSuchContract (contract_to_string (sha256 h) contract))) r))"

definition dynamic_dispatch :: "'s host \<Rightarrow> clarity_name \<Rightarrow> qualified_contract_identifier \<Rightarrow> trait_identifier \<Rightarrow> environment \<Rightarrow>
    ('s, type_signature option) action" where
  "dynamic_dispatch h function_name contract trait_id env =
     (if contract = current_contract env then fail (CircularReference [qci_name contract])
      else
        bind (load_contract_as h contract) (\<lambda>contract_context_to_check.
          if is_explicitly_implementing_trait contract_context_to_check trait_id then ret None
          else
            bind (load_contract_as h (trait_contract trait_id)) (\<lambda>contract_context_defining_trait.
            bind (result (ok_or (Unchecked (BadTraitImplementation (trait_name trait_id) function_name))
              (ctx_lookup_function contract_context_to_check function_name))) (\<lambda>function_to_check.
            bind (from_global is_read_only) (\<lambda>ro.
              if ro then fail TraitBasedContractCallInReadOnly
              else if df_define_type function_to_check = Private
              then fail (NoSuchPublicFunction (contract_to_string (sha256 h) contract) function_name)
              else
                bind (result (check_trait_expectations function_to_check contract_context_defining_trait trait_id)) (\<lambda>_.
                bind (result (ok_or (Unchecked (TraitReferenceUnknown (trait_name trait_id)))
                  (lookup_trait_definition contract_context_defining_trait (trait_name trait_id)))) (\<lambda>constraining_trait.
                bind (result (ok_or (Unchecked (TraitMethodUnknown (trait_name trait_id) function_name))
                  (bt_get constraining_trait function_name))) (\<lambda>expected_sig.
                  ret (Some (fs_returns expected_sig))))))))))"

definition call_target :: "'s host \<Rightarrow> clarity_name \<Rightarrow> symbolic_expression \<Rightarrow> environment \<Rightarrow> local_context \<Rightarrow>
    ('s, qualified_contract_identifier \<times> type_signature option) action" where
  "call_target h function_name e env context =
     (case expr e of
        LiteralValue (VPrincipal (Contract contract)) \<Rightarrow> ret (contract, None)
      | Atom contract_ref \<Rightarrow>
          (case hm_get (lc_callable_contracts context) contract_ref of
             Some (contract, trait_id) \<Rightarrow>
               bind (dynamic_dispatch h function_name contract trait_id env) (\<lambda>returns. ret (contract, returns))
           | None \<Rightarrow> fail ContractCallExpectName)
      | _ \<Rightarrow> fail ContractCallExpectName)"

definition special_contract_call :: "'s host \<Rightarrow> 's special" where
  "special_contract_call h R args env context =
     bind (result (check_arguments_at_least 2 args)) (\<lambda>_.
     bind (charge COST_CONTRACT_CALL 0) (\<lambda>_.
     bind (result (ok_or (Unchecked ExpectedName) (match_atom (args ! 1)))) (\<lambda>function_name.
     bind (eval_list R (drop 2 args) env context) (\<lambda>rest_args.
     bind (call_target h function_name (args ! 0) env context) (\<lambda>(contract, type_returns_constraint).
     bind (nest_with_caller env (VPrincipal (Contract (current_contract env)))) (\<lambda>nested_env.
     bind (execute_contract h R contract function_name (map atom_value rest_args) False nested_env) (\<lambda>v.
       case type_returns_constraint of
         None \<Rightarrow> ret v
       | Some returns_type_signature \<Rightarrow>
           bind (result (expect (type_of v))) (\<lambda>actual_returns.
           bind (result (map_err Unchecked (admits_type returns_type_signature actual_returns))) (\<lambda>ok.
             if \<not> ok then fail (ReturnTypesMustMatch returns_type_signature actual_returns) else ret v)))))))))"

section \<open>Variables and maps\<close>

definition special_fetch_variable :: "'s host \<Rightarrow> 's special" where
  "special_fetch_variable h R args env context =
     bind (result (check_argument_count 1 args)) (\<lambda>_.
     bind (result (ok_or (Unchecked ExpectedName) (match_atom (args ! 0)))) (\<lambda>var_name.
     bind (on_db (load_variable h (current_contract env) var_name)) (\<lambda>data_types.
     bind (size_of_type (var_value_type data_types)) (\<lambda>n.
     bind (charge COST_FETCH_VAR n) (\<lambda>_.
       on_db (db_lookup_variable h (current_contract env) var_name))))))"

text \<open>The guard of the functions that write.\<close>

definition guard_writable :: "('s, unit) action" where
  "guard_writable = bind (from_global is_read_only) (\<lambda>ro. if ro then fail WriteAttemptedInReadOnly else ret ())"

definition special_set_variable :: "'s host \<Rightarrow> 's special" where
  "special_set_variable h R args env context =
     bind guard_writable (\<lambda>_.
     bind (result (check_argument_count 2 args)) (\<lambda>_.
     bind (r_eval R (args ! 1) env context) (\<lambda>v.
     bind (result (ok_or (Unchecked ExpectedName) (match_atom (args ! 0)))) (\<lambda>var_name.
     bind (on_db (load_variable h (current_contract env) var_name)) (\<lambda>data_types.
     bind (size_of_type (var_value_type data_types)) (\<lambda>n.
     bind (charge COST_SET_VAR n) (\<lambda>_.
     bind (get_memory_use v) (\<lambda>mem.
     bind (env_add_memory mem) (\<lambda>_.
       on_db (set_variable h (current_contract env) var_name v))))))))))"

definition entry_size :: "data_map_metadata \<Rightarrow> ('s, u64) action" where
  "entry_size data_types =
     result (and_then (type_sig_size (map_value_type data_types)) (\<lambda>n.
             and_then (type_sig_size (map_key_type data_types)) (\<lambda>m. Ok (ucast (n + m)))))"

definition special_fetch_entry :: "'s host \<Rightarrow> 's special" where
  "special_fetch_entry h R args env context =
     bind (result (check_argument_count 2 args)) (\<lambda>_.
     bind (result (ok_or (Unchecked ExpectedName) (match_atom (args ! 0)))) (\<lambda>map_name.
     bind (eval_tuple_argument R (args ! 1) env context) (\<lambda>key.
     bind (on_db (load_map h (current_contract env) map_name)) (\<lambda>data_types.
     bind (entry_size data_types) (\<lambda>n.
     bind (charge COST_FETCH_ENTRY n) (\<lambda>_.
       on_db (fetch_entry h (current_contract env) map_name key)))))))"

text \<open>\<open>map-set\<close> and \<open>map-insert\<close> differ in the operation of the database.\<close>

definition write_entry :: "('s host \<Rightarrow> qualified_contract_identifier \<Rightarrow> string \<Rightarrow> val \<Rightarrow> val \<Rightarrow> ('s, val) db_op) \<Rightarrow> 's host \<Rightarrow> 's special" where
  "write_entry op h R args env context =
     bind guard_writable (\<lambda>_.
     bind (result (check_argument_count 3 args)) (\<lambda>_.
     bind (eval_tuple_argument R (args ! 1) env context) (\<lambda>key.
     bind (eval_tuple_argument R (args ! 2) env context) (\<lambda>v.
     bind (result (ok_or (Unchecked ExpectedName) (match_atom (args ! 0)))) (\<lambda>map_name.
     bind (on_db (load_map h (current_contract env) map_name)) (\<lambda>data_types.
     bind (entry_size data_types) (\<lambda>n.
     bind (charge COST_SET_ENTRY n) (\<lambda>_.
     bind (get_memory_use key) (\<lambda>key_mem.
     bind (env_add_memory key_mem) (\<lambda>_.
     bind (get_memory_use v) (\<lambda>value_mem.
     bind (env_add_memory value_mem) (\<lambda>_.
       on_db (op h (current_contract env) map_name key v)))))))))))))"

definition special_set_entry :: "'s host \<Rightarrow> 's special" where
  "special_set_entry = write_entry set_entry"

definition special_insert_entry :: "'s host \<Rightarrow> 's special" where
  "special_insert_entry = write_entry insert_entry"

definition special_delete_entry :: "'s host \<Rightarrow> 's special" where
  "special_delete_entry h R args env context =
     bind guard_writable (\<lambda>_.
     bind (result (check_argument_count 2 args)) (\<lambda>_.
     bind (eval_tuple_argument R (args ! 1) env context) (\<lambda>key.
     bind (result (ok_or (Unchecked ExpectedName) (match_atom (args ! 0)))) (\<lambda>map_name.
     bind (on_db (load_map h (current_contract env) map_name)) (\<lambda>data_types.
     bind (size_of_type (map_key_type data_types)) (\<lambda>n.
     bind (charge COST_SET_ENTRY n) (\<lambda>_.
     bind (get_memory_use key) (\<lambda>key_mem.
     bind (env_add_memory key_mem) (\<lambda>_.
       on_db (delete_entry h (current_contract env) map_name key))))))))))"

section \<open>Blocks\<close>

definition evaluate_at_block :: "'s host \<Rightarrow> 's interp \<Rightarrow> block_header_hash \<Rightarrow> symbolic_expression \<Rightarrow> local_context \<Rightarrow> environment \<Rightarrow>
    ('s, val) action" where
  "evaluate_at_block h R bhh closure local_ctx env =
     bind (on_global (\<lambda>g. (Ok (), global_begin_read_only g))) (\<lambda>_.
       finally_do
         (bind (on_db (db_set_block_hash h bhh)) (\<lambda>prior_bhh.
          bind (capture (r_eval R closure env local_ctx)) (\<lambda>r.
          bind (capture (on_db (db_set_block_hash h prior_bhh))) (\<lambda>restored.
          bind (result (expect restored)) (\<lambda>_. result r)))))
         (on_global global_roll_back))"

definition special_at_block :: "'s host \<Rightarrow> 's special" where
  "special_at_block h R args env context =
     bind (result (check_argument_count 2 args)) (\<lambda>_.
     bind (charge COST_AT_BLOCK 0) (\<lambda>_.
     bind (r_eval R (args ! 0) env context) (\<lambda>v.
     bind (result
       (case v of
          VBuffer data \<Rightarrow> if length data \<noteq> 32 then Err (Runtime (BadBlockHash data)) else Ok data
        | x \<Rightarrow> Err (Unchecked (TypeValueError (BufferType 32) x)))) (\<lambda>bhh.
     bind (env_add_memory AT_BLOCK_MEMORY) (\<lambda>_.
       finally_do (evaluate_at_block h R bhh (args ! 1) context env) (env_drop_memory AT_BLOCK_MEMORY))))))"

datatype block_info_property =
    BlockTime | VrfSeed | HeaderHash | IdentityHeaderHash | BurnchainHeaderHash | MinerAddress

definition block_info_lookup_by_name :: "string \<Rightarrow> block_info_property option" where
  "block_info_lookup_by_name name =
     map_of [(''time'', BlockTime), (''vrf-seed'', VrfSeed), (''header-hash'', HeaderHash),
       (''id-header-hash'', IdentityHeaderHash), (''burnchain-header-hash'', BurnchainHeaderHash),
       (''miner-address'', MinerAddress)] name"

definition block_info_value :: "'s host \<Rightarrow> block_info_property \<Rightarrow> u32 \<Rightarrow> ('s, val) db_op" where
  "block_info_value h prop height =
     (case prop of
        BlockTime \<Rightarrow> seq (get_block_time h height) (\<lambda>block_time. give (VUInt (ucast block_time)))
      | VrfSeed \<Rightarrow> seq (get_block_vrf_seed h height) (\<lambda>x. give (VBuffer x))
      | HeaderHash \<Rightarrow> seq (db_get_block_header_hash h height) (\<lambda>x. give (VBuffer x))
      | BurnchainHeaderHash \<Rightarrow> seq (get_burnchain_block_header_hash h height) (\<lambda>x. give (VBuffer x))
      | IdentityHeaderHash \<Rightarrow> seq (get_index_block_header_hash h height) (\<lambda>x. give (VBuffer x))
      | MinerAddress \<Rightarrow> seq (get_miner_address h height) (\<lambda>p. give (VPrincipal (Standard p))))"

definition special_get_block_info :: "'s host \<Rightarrow> 's special" where
  "special_get_block_info h R args env context =
     bind (charge COST_BLOCK_INFO 0) (\<lambda>_.
     bind (result (check_argument_count 2 args)) (\<lambda>_.
     bind (result (ok_or (Unchecked GetBlockInfoExpectPropertyName) (match_atom (args ! 0)))) (\<lambda>property_name.
     bind (result (ok_or (Unchecked GetBlockInfoExpectPropertyName) (block_info_lookup_by_name property_name))) (\<lambda>block_info_prop.
     bind (r_eval R (args ! 1) env context) (\<lambda>height_eval.
     bind (result (case height_eval of VUInt n \<Rightarrow> Ok n | x \<Rightarrow> Err (Unchecked (TypeValueError UIntType x)))) (\<lambda>height_value.
       if unat height_value \<ge> 2 ^ 32 then ret value_none
       else
         bind (on_db (db_get_current_block_height h)) (\<lambda>current_block_height.
           if ucast height_value \<ge> current_block_height then ret value_none
           else bind (on_db (block_info_value h block_info_prop (ucast height_value))) (\<lambda>v. result (value_some v)))))))))"

end
