(* ===== verification/Asset_Functions.thy ===== *)
theory Asset_Functions
  imports Database_Functions
begin

text \<open>
  The special functions on STX, fungible tokens and non-fungible assets, \<open>src/src/vm/functions/assets.rs\<close>. A refused
  movement is an error response with a number; an accepted one moves the balance or the owner, is logged in the asset
  map of the current context (minting is not) and leaves an event.
\<close>

section \<open>Shared steps\<close>

text \<open>The codes of \<open>StxErrorCodes\<close>, \<open>TransferTokenErrorCodes\<close>, \<open>TransferAssetErrorCodes\<close>, \<open>MintAssetErrorCodes\<close>
  and \<open>MintTokenErrorCodes\<close>.\<close>

definition STX_NOT_ENOUGH_BALANCE :: u128 where "STX_NOT_ENOUGH_BALANCE = 1"
definition STX_SENDER_IS_RECIPIENT :: u128 where "STX_SENDER_IS_RECIPIENT = 2"
definition STX_NON_POSITIVE_AMOUNT :: u128 where "STX_NON_POSITIVE_AMOUNT = 3"
definition STX_SENDER_IS_NOT_TX_SENDER :: u128 where "STX_SENDER_IS_NOT_TX_SENDER = 4"
definition FT_NOT_ENOUGH_BALANCE :: u128 where "FT_NOT_ENOUGH_BALANCE = 1"
definition FT_SENDER_IS_RECIPIENT :: u128 where "FT_SENDER_IS_RECIPIENT = 2"
definition FT_NON_POSITIVE_AMOUNT :: u128 where "FT_NON_POSITIVE_AMOUNT = 3"
definition NFT_NOT_OWNED_BY :: u128 where "NFT_NOT_OWNED_BY = 1"
definition NFT_SENDER_IS_RECIPIENT :: u128 where "NFT_SENDER_IS_RECIPIENT = 2"
definition NFT_DOES_NOT_EXIST :: u128 where "NFT_DOES_NOT_EXIST = 3"
definition MINT_NFT_ALREADY_EXIST :: u128 where "MINT_NFT_ALREADY_EXIST = 1"
definition MINT_FT_NON_POSITIVE_AMOUNT :: u128 where "MINT_FT_NON_POSITIVE_AMOUNT = 1"

definition clarity_ecode :: "u128 \<Rightarrow> ('s, val) action" where
  "clarity_ecode n = ret (value_err_uint n)"

primrec add_memory_for :: "type_signature list \<Rightarrow> ('s, unit) action" where
  "add_memory_for [] = ret ()"
| "add_memory_for (t # ts) = bind (size_of_type t) (\<lambda>n. bind (env_add_memory n) (\<lambda>_. add_memory_for ts))"

definition register :: "('s global_context \<Rightarrow> 's global_context) \<Rightarrow> ('s, unit) action" where
  "register f = on_global (\<lambda>g. (Ok (), f g))"

section \<open>STX\<close>

definition stx_transfer :: "'s host \<Rightarrow> principal_data \<Rightarrow> principal_data \<Rightarrow> u128 \<Rightarrow> environment \<Rightarrow> ('s, val) action" where
  "stx_transfer h from to amount env =
     (if amount \<le> 0 then clarity_ecode STX_NON_POSITIVE_AMOUNT
      else if from = to then clarity_ecode STX_SENDER_IS_RECIPIENT
      else if env_sender env \<noteq> Some (VPrincipal from) then clarity_ecode STX_SENDER_IS_NOT_TX_SENDER
      else
        bind (on_db (get_account_stx_balance h from)) (\<lambda>from_bal.
        bind (on_db (get_account_stx_balance h to)) (\<lambda>to_bal.
          if from_bal < amount then clarity_ecode STX_NOT_ENOUGH_BALANCE
          else
            bind (result (ok_or (Runtime ArithmeticOverflow) (checked_add to_bal amount))) (\<lambda>final_to_bal.
            bind (add_memory_for [PrincipalType, PrincipalType, UIntType, UIntType]) (\<lambda>_.
            bind (on_db (set_account_stx_balance h from (from_bal - amount))) (\<lambda>_.
            bind (on_db (set_account_stx_balance h to final_to_bal)) (\<lambda>_.
            bind (on_global (log_stx_transfer from amount)) (\<lambda>_.
            bind (register (register_stx_transfer_event from to amount)) (\<lambda>_.
              ret value_okay_true)))))))))"

definition special_stx_transfer :: "'s host \<Rightarrow> 's special" where
  "special_stx_transfer h R args env context =
     bind (result (check_argument_count 3 args)) (\<lambda>_.
     bind (charge COST_STX_TRANSFER 0) (\<lambda>_.
     bind (r_eval R (args ! 0) env context) (\<lambda>amount_val.
     bind (r_eval R (args ! 1) env context) (\<lambda>from_val.
     bind (r_eval R (args ! 2) env context) (\<lambda>to_val.
       case (from_val, to_val, amount_val) of
         (VPrincipal from, VPrincipal to, VUInt amount) \<Rightarrow> stx_transfer h from to amount env
       | _ \<Rightarrow> fail BadTransferSTXArguments)))))"

definition stx_burn :: "'s host \<Rightarrow> principal_data \<Rightarrow> u128 \<Rightarrow> environment \<Rightarrow> ('s, val) action" where
  "stx_burn h from amount env =
     (if amount \<le> 0 then clarity_ecode STX_NON_POSITIVE_AMOUNT
      else if env_sender env \<noteq> Some (VPrincipal from) then clarity_ecode STX_SENDER_IS_NOT_TX_SENDER
      else
        bind (on_db (get_account_stx_balance h from)) (\<lambda>from_bal.
          if from_bal < amount then clarity_ecode STX_NOT_ENOUGH_BALANCE
          else
            bind (add_memory_for [PrincipalType, UIntType]) (\<lambda>_.
            bind (on_db (set_account_stx_balance h from (from_bal - amount))) (\<lambda>_.
            bind (on_global (log_stx_burn from amount)) (\<lambda>_.
            bind (register (register_stx_burn_event from amount)) (\<lambda>_.
              ret value_okay_true))))))"

definition special_stx_burn :: "'s host \<Rightarrow> 's special" where
  "special_stx_burn h R args env context =
     bind (result (check_argument_count 2 args)) (\<lambda>_.
     bind (charge COST_STX_TRANSFER 0) (\<lambda>_.
     bind (r_eval R (args ! 0) env context) (\<lambda>amount_val.
     bind (r_eval R (args ! 1) env context) (\<lambda>from_val.
       case (from_val, amount_val) of
         (VPrincipal from, VUInt amount) \<Rightarrow> stx_burn h from amount env
       | _ \<Rightarrow> fail BadTransferSTXArguments))))"

section \<open>Fungible tokens\<close>

definition ft_mint :: "'s host \<Rightarrow> clarity_name \<Rightarrow> u128 \<Rightarrow> principal_data \<Rightarrow> environment \<Rightarrow> ('s, val) action" where
  "ft_mint h token_name amount to_principal env =
     (if amount \<le> 0 then clarity_ecode MINT_FT_NON_POSITIVE_AMOUNT
      else
        bind (on_db (checked_increase_token_supply h (current_contract env) token_name amount)) (\<lambda>_.
        bind (on_db (get_ft_balance h (current_contract env) token_name to_principal)) (\<lambda>to_bal.
        bind (result (ok_or (Runtime ArithmeticOverflow) (checked_add to_bal amount))) (\<lambda>final_to_bal.
        bind (add_memory_for [PrincipalType, UIntType]) (\<lambda>_.
        bind (on_db (set_ft_balance h (current_contract env) token_name to_principal final_to_bal)) (\<lambda>_.
        bind (register (register_ft_mint_event to_principal amount (AssetIdentifier (current_contract env) token_name))) (\<lambda>_.
          ret value_okay_true)))))))"

definition special_mint_token :: "'s host \<Rightarrow> 's special" where
  "special_mint_token h R args env context =
     bind (result (check_argument_count 3 args)) (\<lambda>_.
     bind (charge COST_FT_MINT 0) (\<lambda>_.
     bind (result (ok_or (Unchecked BadTokenName) (match_atom (args ! 0)))) (\<lambda>token_name.
     bind (r_eval R (args ! 1) env context) (\<lambda>amount.
     bind (r_eval R (args ! 2) env context) (\<lambda>to.
       case (amount, to) of
         (VUInt amount, VPrincipal to_principal) \<Rightarrow> ft_mint h token_name amount to_principal env
       | _ \<Rightarrow> fail BadMintFTArguments)))))"

definition ft_transfer :: "'s host \<Rightarrow> clarity_name \<Rightarrow> u128 \<Rightarrow> principal_data \<Rightarrow> principal_data \<Rightarrow> environment \<Rightarrow> ('s, val) action" where
  "ft_transfer h token_name amount from to env =
     (if amount \<le> 0 then clarity_ecode FT_NON_POSITIVE_AMOUNT
      else if from = to then clarity_ecode FT_SENDER_IS_RECIPIENT
      else
        bind (on_db (get_ft_balance h (current_contract env) token_name from)) (\<lambda>from_bal.
          if from_bal < amount then clarity_ecode FT_NOT_ENOUGH_BALANCE
          else
            bind (on_db (get_ft_balance h (current_contract env) token_name to)) (\<lambda>to_bal.
            bind (result (ok_or (Runtime ArithmeticOverflow) (checked_add to_bal amount))) (\<lambda>final_to_bal.
            bind (add_memory_for [PrincipalType, PrincipalType, UIntType, UIntType]) (\<lambda>_.
            bind (on_db (set_ft_balance h (current_contract env) token_name from (from_bal - amount))) (\<lambda>_.
            bind (on_db (set_ft_balance h (current_contract env) token_name to final_to_bal)) (\<lambda>_.
            bind (on_global (log_token_transfer from (current_contract env) token_name amount)) (\<lambda>_.
            bind (register (register_ft_transfer_event from to amount (AssetIdentifier (current_contract env) token_name))) (\<lambda>_.
              ret value_okay_true)))))))))"

definition special_transfer_token :: "'s host \<Rightarrow> 's special" where
  "special_transfer_token h R args env context =
     bind (result (check_argument_count 4 args)) (\<lambda>_.
     bind (charge COST_FT_TRANSFER 0) (\<lambda>_.
     bind (result (ok_or (Unchecked BadTokenName) (match_atom (args ! 0)))) (\<lambda>token_name.
     bind (r_eval R (args ! 1) env context) (\<lambda>amount.
     bind (r_eval R (args ! 2) env context) (\<lambda>from.
     bind (r_eval R (args ! 3) env context) (\<lambda>to.
       case (amount, from, to) of
         (VUInt amount, VPrincipal from_principal, VPrincipal to_principal) \<Rightarrow>
           ft_transfer h token_name amount from_principal to_principal env
       | _ \<Rightarrow> fail BadTransferFTArguments))))))"

definition special_get_balance :: "'s host \<Rightarrow> 's special" where
  "special_get_balance h R args env context =
     bind (result (check_argument_count 2 args)) (\<lambda>_.
     bind (charge COST_FT_BALANCE 0) (\<lambda>_.
     bind (result (ok_or (Unchecked BadTokenName) (match_atom (args ! 0)))) (\<lambda>token_name.
     bind (r_eval R (args ! 1) env context) (\<lambda>owner.
       case owner of
         VPrincipal p \<Rightarrow> bind (on_db (get_ft_balance h (current_contract env) token_name p)) (\<lambda>balance. ret (VUInt balance))
       | _ \<Rightarrow> fail (TypeValueError PrincipalType owner)))))"

section \<open>Non-fungible assets\<close>

text \<open>The owner of an asset; an asset that was never minted has none.\<close>

definition current_owner :: "'s host \<Rightarrow> clarity_name \<Rightarrow> val \<Rightarrow> environment \<Rightarrow> ('s, principal_data option) action" where
  "current_owner h name asset env =
     bind (capture (on_db (get_nft_owner h (current_contract env) name asset))) (\<lambda>r.
       case r of
         Err (Runtime NoSuchToken) \<Rightarrow> ret None
       | _ \<Rightarrow> result (map_ok Some r))"

definition check_asset :: "type_signature \<Rightarrow> val \<Rightarrow> ('s, unit) action" where
  "check_asset expected_asset_type asset =
     bind (result (map_err Unchecked (type_admits expected_asset_type asset))) (\<lambda>ok.
       if ok then ret () else fail (TypeValueError expected_asset_type asset))"

definition nft_mint :: "'s host \<Rightarrow> clarity_name \<Rightarrow> type_signature \<Rightarrow> val \<Rightarrow> principal_data \<Rightarrow> environment \<Rightarrow> ('s, val) action" where
  "nft_mint h name expected_asset_type asset to_principal env =
     bind (current_owner h name asset env) (\<lambda>owner.
       if owner \<noteq> None then clarity_ecode MINT_NFT_ALREADY_EXIST
       else
         bind (add_memory_for [PrincipalType, expected_asset_type]) (\<lambda>_.
         bind (on_db (set_nft_owner h (current_contract env) name asset to_principal)) (\<lambda>_.
         bind (register (register_nft_mint_event to_principal asset (AssetIdentifier (current_contract env) name))) (\<lambda>_.
           ret value_okay_true))))"

definition special_mint_asset :: "'s host \<Rightarrow> 's special" where
  "special_mint_asset h R args env context =
     bind (result (check_argument_count 3 args)) (\<lambda>_.
     bind (result (ok_or (Unchecked BadTokenName) (match_atom (args ! 0)))) (\<lambda>name.
     bind (r_eval R (args ! 1) env context) (\<lambda>asset.
     bind (r_eval R (args ! 2) env context) (\<lambda>to.
     bind (on_db (get_nft_key_type h (current_contract env) name)) (\<lambda>expected_asset_type.
     bind (size_of_type expected_asset_type) (\<lambda>n.
     bind (charge COST_NFT_MINT n) (\<lambda>_.
     bind (check_asset expected_asset_type asset) (\<lambda>_.
       case to of
         VPrincipal to_principal \<Rightarrow> nft_mint h name expected_asset_type asset to_principal env
       | _ \<Rightarrow> fail (TypeValueError PrincipalType to)))))))))"

definition nft_transfer :: "'s host \<Rightarrow> clarity_name \<Rightarrow> type_signature \<Rightarrow> val \<Rightarrow> principal_data \<Rightarrow> principal_data \<Rightarrow> environment \<Rightarrow>
    ('s, val) action" where
  "nft_transfer h name expected_asset_type asset from to env =
     (if from = to then clarity_ecode NFT_SENDER_IS_RECIPIENT
      else
        bind (current_owner h name asset env) (\<lambda>owner.
          case owner of
            None \<Rightarrow> clarity_ecode NFT_DOES_NOT_EXIST
          | Some p \<Rightarrow>
              if p \<noteq> from then clarity_ecode NFT_NOT_OWNED_BY
              else
                bind (add_memory_for [PrincipalType, expected_asset_type]) (\<lambda>_.
                bind (on_db (set_nft_owner h (current_contract env) name asset to)) (\<lambda>_.
                bind (on_global (log_asset_transfer from (current_contract env) name asset)) (\<lambda>_.
                bind (register (register_nft_transfer_event from to asset (AssetIdentifier (current_contract env) name))) (\<lambda>_.
                  ret value_okay_true))))))"

definition special_transfer_asset :: "'s host \<Rightarrow> 's special" where
  "special_transfer_asset h R args env context =
     bind (result (check_argument_count 4 args)) (\<lambda>_.
     bind (result (ok_or (Unchecked BadTokenName) (match_atom (args ! 0)))) (\<lambda>name.
     bind (r_eval R (args ! 1) env context) (\<lambda>asset.
     bind (r_eval R (args ! 2) env context) (\<lambda>from.
     bind (r_eval R (args ! 3) env context) (\<lambda>to.
     bind (on_db (get_nft_key_type h (current_contract env) name)) (\<lambda>expected_asset_type.
     bind (size_of_type expected_asset_type) (\<lambda>n.
     bind (charge COST_NFT_TRANSFER n) (\<lambda>_.
     bind (check_asset expected_asset_type asset) (\<lambda>_.
       case (from, to) of
         (VPrincipal from_principal, VPrincipal to_principal) \<Rightarrow>
           nft_transfer h name expected_asset_type asset from_principal to_principal env
       | _ \<Rightarrow> fail BadTransferNFTArguments)))))))))"

definition special_get_owner :: "'s host \<Rightarrow> 's special" where
  "special_get_owner h R args env context =
     bind (result (check_argument_count 2 args)) (\<lambda>_.
     bind (result (ok_or (Unchecked BadTokenName) (match_atom (args ! 0)))) (\<lambda>name.
     bind (r_eval R (args ! 1) env context) (\<lambda>asset.
     bind (on_db (get_nft_key_type h (current_contract env) name)) (\<lambda>expected_asset_type.
     bind (size_of_type expected_asset_type) (\<lambda>n.
     bind (charge COST_NFT_OWNER n) (\<lambda>_.
     bind (check_asset expected_asset_type asset) (\<lambda>_.
     bind (current_owner h name asset env) (\<lambda>owner.
       case owner of
         Some p \<Rightarrow> result (expect (value_some (VPrincipal p)))
       | None \<Rightarrow> ret value_none))))))))"

end
