(* ===== verification/Evaluator.thy ===== *)
theory Evaluator
  imports Asset_Functions
begin

text \<open>
  The interpreter of Clarity, \<open>src/src/vm/mod.rs\<close>: \<open>apply\<close> and \<open>eval\<close>, which call each other through the special
  functions.

  One step of each function takes the interpreter for the calls inside it. \<open>interpreter h n\<close> nests \<open>n\<close> steps, and
  \<open>vm_eval\<close> takes as many as the limit on the call stack allows: every call of \<open>eval\<close> inside a list goes through \<open>apply\<close>, which
  pushes on the call stack and refuses to work at depth 64.
\<close>

section \<open>Application\<close>

definition special_table :: "'s host \<Rightarrow> (native_functions \<times> 's special) list" where
  "special_table h =
     [(AndFn, special_and), (OrFn, special_or), (IfFn, special_if), (LetFn, special_let),
      (FetchVarFn, special_fetch_variable h), (SetVarFn, special_set_variable h), (MapFn, special_map h),
      (FilterFn, special_filter h), (FoldFn, special_fold h), (ConcatFn, special_concat), (AsMaxLenFn, special_as_max_len),
      (AppendFn, special_append), (ListConsFn, list_cons), (FetchEntryFn, special_fetch_entry h),
      (SetEntryFn, special_set_entry h), (InsertEntryFn, special_insert_entry h), (DeleteEntryFn, special_delete_entry h),
      (TupleConsFn, tuple_cons), (TupleGetFn, tuple_get_fn), (PrintFn, special_print),
      (ContractCallFn, special_contract_call h), (AsContractFn, special_as_contract),
      (GetBlockInfoFn, special_get_block_info h), (AssertsFn, special_asserts), (MatchFn, special_match),
      (MintAssetFn, special_mint_asset h), (MintTokenFn, special_mint_token h), (TransferAssetFn, special_transfer_asset h),
      (TransferTokenFn, special_transfer_token h), (GetTokenBalanceFn, special_get_balance h),
      (GetAssetOwnerFn, special_get_owner h), (AtBlockFn, special_at_block h), (StxTransferFn, special_stx_transfer h),
      (StxBurnFn, special_stx_burn h)]"

definition call_special :: "'s host \<Rightarrow> native_functions \<Rightarrow> 's special" where
  "call_special h f R args env context =
     (case map_of (special_table h) f of Some s \<Rightarrow> s R args env context | None \<Rightarrow> result Panic)"

definition unwind :: "function_identifier \<Rightarrow> bool \<Rightarrow> u64 \<Rightarrow> ('s, unit) action" where
  "unwind identifier track_recursion used_memory =
     bind (env_drop_memory used_memory) (\<lambda>_. on_calls (call_stack_remove identifier track_recursion))"

primrec evaluate_args :: "'s interp \<Rightarrow> function_identifier \<Rightarrow> bool \<Rightarrow> environment \<Rightarrow> local_context \<Rightarrow> symbolic_expression list \<Rightarrow> u64 \<Rightarrow>
    ('s, val list \<times> u64) action" where
  "evaluate_args R identifier track_recursion env context [] used_memory = ret ([], used_memory)"
| "evaluate_args R identifier track_recursion env context (arg_x # args) used_memory =
     bind (capture (r_eval R arg_x env context)) (\<lambda>r.
       case r of
         Ok arg_value \<Rightarrow>
           bind (get_memory_use arg_value) (\<lambda>arg_use.
           bind (capture (env_add_memory arg_use)) (\<lambda>m.
             case m of
               Ok _ \<Rightarrow>
                 bind (evaluate_args R identifier track_recursion env context args (used_memory + arg_use))
                   (\<lambda>(vs, used_memory). ret (arg_value # vs, used_memory))
             | Err e \<Rightarrow> bind (unwind identifier track_recursion used_memory) (\<lambda>_. result (Err e))
             | Panic \<Rightarrow> result Panic))
       | Err e \<Rightarrow> bind (unwind identifier track_recursion used_memory) (\<lambda>_. result (Err e))
       | Panic \<Rightarrow> result Panic)"

definition apply_body :: "'s host \<Rightarrow> 's interp \<Rightarrow> callable_type \<Rightarrow> symbolic_expression list \<Rightarrow> environment \<Rightarrow> local_context \<Rightarrow>
    function_identifier \<Rightarrow> bool \<Rightarrow> ('s, val) action" where
  "apply_body h R f args env context identifier track_recursion =
     (case f of
        SpecialFunction _ sf \<Rightarrow>
          finally_do (call_special h sf R args env context) (on_calls (call_stack_remove identifier track_recursion))
      | NativeFunction _ handle cost_function \<Rightarrow>
          bind (evaluate_args R identifier track_recursion env context args 0) (\<lambda>(evaluated_args, used_memory).
          bind (charge cost_function (word_of_nat (length evaluated_args))) (\<lambda>_.
            finally_do (result (native_apply handle evaluated_args)) (unwind identifier track_recursion used_memory)))
      | UserFunction uf \<Rightarrow>
          bind (evaluate_args R identifier track_recursion env context args 0) (\<lambda>(evaluated_args, used_memory).
            finally_do (df_apply h R uf evaluated_args env) (unwind identifier track_recursion used_memory)))"

definition apply_step :: "'s host \<Rightarrow> 's interp \<Rightarrow> callable_type \<Rightarrow> symbolic_expression list \<Rightarrow> environment \<Rightarrow> local_context \<Rightarrow>
    ('s, val) action" where
  "apply_step h R f args env context =
     (let identifier = callable_identifier f;
          track_recursion = (case f of UserFunction _ \<Rightarrow> True | _ \<Rightarrow> False)
      in bind (from_calls (\<lambda>cs. track_recursion \<and> call_stack_contains cs identifier)) (\<lambda>circular.
           if circular then fail (CircularReference [identifier])
           else
             bind (from_calls call_stack_depth) (\<lambda>d.
               if d \<ge> MAX_CALL_STACK_DEPTH then result (Err (Runtime MaxStackDepthReached))
               else
                 bind (on_calls (\<lambda>cs. (Ok (), call_stack_insert identifier track_recursion cs))) (\<lambda>_.
                   apply_body h R f args env context identifier track_recursion))))"

section \<open>Evaluation\<close>

definition eval_step :: "'s host \<Rightarrow> 's interp \<Rightarrow> symbolic_expression \<Rightarrow> environment \<Rightarrow> local_context \<Rightarrow> ('s, val) action" where
  "eval_step h R e env context =
     (case expr e of
        AtomValue v \<Rightarrow> ret v
      | LiteralValue v \<Rightarrow> ret v
      | Atom name \<Rightarrow> lookup_variable h name context env
      | SList children \<Rightarrow>
          (case children of
             [] \<Rightarrow> fail NonFunctionApplication
           | function_variable # rest \<Rightarrow>
               bind (result (ok_or (Unchecked BadFunctionName) (match_atom function_variable))) (\<lambda>function_name.
               bind (lookup_function h function_name env) (\<lambda>f. apply_step h R f rest env context)))
      | TraitReference _ _ \<Rightarrow> result Panic
      | Field _ \<Rightarrow> result Panic)"

primrec interpreter :: "'s host \<Rightarrow> nat \<Rightarrow> 's interp" where
  "interpreter h 0 = \<lparr>r_eval = \<lambda>_ _ _ _. None, r_apply = \<lambda>_ _ _ _ _. None\<rparr>"
| "interpreter h (Suc n) = \<lparr>r_eval = eval_step h (interpreter h n), r_apply = apply_step h (interpreter h n)\<rparr>"

definition FUEL :: nat where
  "FUEL = 65"

definition vm_eval :: "'s host \<Rightarrow> symbolic_expression \<Rightarrow> environment \<Rightarrow> local_context \<Rightarrow> ('s, val) action" where
  "vm_eval h = r_eval (interpreter h FUEL)"

definition vm_apply :: "'s host \<Rightarrow> callable_type \<Rightarrow> symbolic_expression list \<Rightarrow> environment \<Rightarrow> local_context \<Rightarrow> ('s, val) action" where
  "vm_apply h = r_apply (interpreter h FUEL)"

abbreviation vm_interp :: "'s host \<Rightarrow> 's interp" where
  "vm_interp h \<equiv> \<lparr>r_eval = vm_eval h, r_apply = vm_apply h\<rparr>"

end
