(* ===== verification/Definitions.thy ===== *)
theory Definitions
  imports Evaluator
begin

text \<open>
  Top-level definitions and whole contracts: \<open>src/src/vm/functions/define.rs\<close>, \<open>eval_all\<close> of \<open>src/src/vm/mod.rs\<close>,
  \<open>src/src/vm/contracts.rs\<close>, and the entry points of \<open>src/src/vm/contexts.rs\<close> that initialize a contract and execute a
  transaction. The parsed program is an argument.
\<close>

section \<open>Parsing definitions\<close>

datatype define_functions =
    DefConstant | DefPrivateFunction | DefPublicFunction | DefReadOnlyFunction | DefMap | DefPersistedVariable |
    DefFungibleToken | DefNonFungibleToken | DefTrait | DefUseTrait | DefImplTrait

definition define_functions_lookup_by_name :: "string \<Rightarrow> define_functions option" where
  "define_functions_lookup_by_name name =
     map_of [(''define-constant'', DefConstant), (''define-private'', DefPrivateFunction), (''define-public'', DefPublicFunction),
       (''define-read-only'', DefReadOnlyFunction), (''define-map'', DefMap), (''define-data-var'', DefPersistedVariable),
       (''define-fungible-token'', DefFungibleToken), (''define-non-fungible-token'', DefNonFungibleToken),
       (''define-trait'', DefTrait), (''use-trait'', DefUseTrait), (''impl-trait'', DefImplTrait)] name"

datatype define_functions_parsed =
    ParsedConstant clarity_name symbolic_expression
  | ParsedPrivateFunction "symbolic_expression list" symbolic_expression
  | ParsedReadOnlyFunction "symbolic_expression list" symbolic_expression
  | ParsedPublicFunction "symbolic_expression list" symbolic_expression
  | ParsedNonFungibleToken clarity_name symbolic_expression
  | ParsedBoundedFungibleToken clarity_name symbolic_expression
  | ParsedUnboundedFungibleToken clarity_name
  | ParsedMap clarity_name symbolic_expression symbolic_expression
  | ParsedPersistedVariable clarity_name symbolic_expression symbolic_expression
  | ParsedTrait clarity_name "symbolic_expression list"
  | ParsedUseTrait clarity_name trait_identifier
  | ParsedImplTrait trait_identifier

datatype define_result =
    DefineVariable clarity_name val
  | DefineFunction clarity_name defined_function
  | DefineMap clarity_name tuple_type_signature tuple_type_signature
  | DefinePersistedVariable clarity_name type_signature val
  | DefineFungibleToken clarity_name "u128 option"
  | DefineNonFungibleAsset clarity_name type_signature
  | DefineTrait clarity_name "(clarity_name, function_signature) btree"
  | DefineUseTrait clarity_name trait_identifier
  | DefineImplTrait trait_identifier
  | NoDefine

definition define_functions_try_parse :: "symbolic_expression \<Rightarrow> (define_functions \<times> symbolic_expression list) option" where
  "define_functions_try_parse expression =
     (case match_list expression of
        Some (function_name # args) \<Rightarrow>
          Option.bind (match_atom function_name) (\<lambda>function_name.
          map_option (\<lambda>define_type. (define_type, args)) (define_functions_lookup_by_name function_name))
      | _ \<Rightarrow> None)"

definition with_name :: "symbolic_expression list \<Rightarrow> nat \<Rightarrow> (clarity_name \<Rightarrow> define_functions_parsed) \<Rightarrow>
    (define_functions_parsed, vm_error) outcome" where
  "with_name args n f =
     and_then (check_argument_count n args) (\<lambda>_. map_ok f (ok_or (Unchecked ExpectedName) (match_atom (args ! 0))))"

definition with_signature :: "symbolic_expression list \<Rightarrow> (symbolic_expression list \<Rightarrow> symbolic_expression \<Rightarrow> define_functions_parsed) \<Rightarrow>
    (define_functions_parsed, vm_error) outcome" where
  "with_signature args f =
     and_then (check_argument_count 2 args) (\<lambda>_.
       map_ok (\<lambda>sig. f sig (args ! 1)) (ok_or (Unchecked DefineFunctionBadSignature) (match_list (args ! 0))))"

definition define_parse :: "define_functions \<Rightarrow> symbolic_expression list \<Rightarrow> (define_functions_parsed, vm_error) outcome" where
  "define_parse define_type args =
     (case define_type of
        DefConstant \<Rightarrow> with_name args 2 (\<lambda>name. ParsedConstant name (args ! 1))
      | DefPrivateFunction \<Rightarrow> with_signature args ParsedPrivateFunction
      | DefReadOnlyFunction \<Rightarrow> with_signature args ParsedReadOnlyFunction
      | DefPublicFunction \<Rightarrow> with_signature args ParsedPublicFunction
      | DefNonFungibleToken \<Rightarrow> with_name args 2 (\<lambda>name. ParsedNonFungibleToken name (args ! 1))
      | DefFungibleToken \<Rightarrow>
          if args = [] then Panic
          else and_then (ok_or (Unchecked ExpectedName) (match_atom (args ! 0))) (\<lambda>name.
            if length args = 1 then Ok (ParsedUnboundedFungibleToken name)
            else if length args = 2 then Ok (ParsedBoundedFungibleToken name (args ! 1))
            else Err (Unchecked (IncorrectArgumentCount 1 (length args))))
      | DefMap \<Rightarrow> with_name args 3 (\<lambda>name. ParsedMap name (args ! 1) (args ! 2))
      | DefPersistedVariable \<Rightarrow> with_name args 3 (\<lambda>name. ParsedPersistedVariable name (args ! 1) (args ! 2))
      | DefTrait \<Rightarrow> with_name args 2 (\<lambda>name. ParsedTrait name (drop 1 args))
      | DefUseTrait \<Rightarrow>
          and_then (check_argument_count 2 args) (\<lambda>_.
          and_then (ok_or (Unchecked ExpectedName) (match_atom (args ! 0))) (\<lambda>name.
            map_ok (ParsedUseTrait name) (ok_or (Unchecked ExpectedTraitIdentifier) (match_field (args ! 1)))))
      | DefImplTrait \<Rightarrow>
          and_then (check_argument_count 1 args) (\<lambda>_.
            map_ok ParsedImplTrait (ok_or (Unchecked ExpectedTraitIdentifier) (match_field (args ! 0)))))"

definition try_parse :: "symbolic_expression \<Rightarrow> (define_functions_parsed option, vm_error) outcome" where
  "try_parse expression =
     (case define_functions_try_parse expression of
        None \<Rightarrow> Ok None
      | Some (define_type, args) \<Rightarrow> map_ok Some (define_parse define_type args))"

section \<open>Evaluating definitions\<close>

definition check_legal_define :: "string \<Rightarrow> contract_context \<Rightarrow> (unit, vm_error) outcome" where
  "check_legal_define name c = (if is_name_used c name then Err (Unchecked (NameAlreadyUsed name)) else Ok ())"

text \<open>Parsing type expressions charges the tracker of the environment.\<close>

definition parsing :: "(limited_cost_tracker, 'a, check_errors) routine \<Rightarrow> ('s, 'a) action" where
  "parsing f = on_global (\<lambda>g. case f (cost_track g) of (r, t) \<Rightarrow> (map_err Unchecked r, g\<lparr>cost_track := t\<rparr>))"

definition handle_define_variable :: "'s interp \<Rightarrow> clarity_name \<Rightarrow> symbolic_expression \<Rightarrow> environment \<Rightarrow> ('s, define_result) action" where
  "handle_define_variable R variable expression env =
     bind (result (check_legal_define variable (env_contract env))) (\<lambda>_.
     bind (r_eval R expression env local_new) (\<lambda>v. ret (DefineVariable variable v)))"

definition handle_define_function :: "'s host \<Rightarrow> symbolic_expression list \<Rightarrow> symbolic_expression \<Rightarrow> environment \<Rightarrow> define_type \<Rightarrow>
    ('s, define_result) action" where
  "handle_define_function h signature expression env define_type =
     (case signature of
        [] \<Rightarrow> fail DefineFunctionBadSignature
      | function_symbol # arg_symbols \<Rightarrow>
          bind (result (ok_or (Unchecked ExpectedName) (match_atom function_symbol))) (\<lambda>function_name.
          bind (result (check_legal_define function_name (env_contract env))) (\<lambda>_.
          bind (parsing (parse_name_type_pairs runtime_cost arg_symbols)) (\<lambda>arguments.
          bind (result (collect (\<lambda>(argument, _). check_legal_define argument (env_contract env)) arguments)) (\<lambda>_.
            ret (DefineFunction function_name
              (defined_function_new arguments expression define_type function_name
                (contract_to_string (sha256 h) (current_contract env)))))))))"

definition handle_define_persisted_variable :: "'s interp \<Rightarrow> clarity_name \<Rightarrow> symbolic_expression \<Rightarrow> symbolic_expression \<Rightarrow> environment \<Rightarrow>
    ('s, define_result) action" where
  "handle_define_persisted_variable R variable_str value_type v env =
     bind (result (check_legal_define variable_str (env_contract env))) (\<lambda>_.
     bind (parsing (parse_type_repr runtime_cost value_type)) (\<lambda>value_type_signature.
     bind (r_eval R v env local_new) (\<lambda>v.
       ret (DefinePersistedVariable variable_str value_type_signature v))))"

definition handle_define_nonfungible_asset :: "clarity_name \<Rightarrow> symbolic_expression \<Rightarrow> environment \<Rightarrow> ('s, define_result) action" where
  "handle_define_nonfungible_asset asset_str key_type env =
     bind (result (check_legal_define asset_str (env_contract env))) (\<lambda>_.
     bind (parsing (parse_type_repr runtime_cost key_type)) (\<lambda>key_type_signature.
       ret (DefineNonFungibleAsset asset_str key_type_signature)))"

definition handle_define_fungible_token :: "'s interp \<Rightarrow> clarity_name \<Rightarrow> symbolic_expression option \<Rightarrow> environment \<Rightarrow>
    ('s, define_result) action" where
  "handle_define_fungible_token R asset_str total_supply env =
     bind (result (check_legal_define asset_str (env_contract env))) (\<lambda>_.
       case total_supply of
         None \<Rightarrow> ret (DefineFungibleToken asset_str None)
       | Some total_supply_expr \<Rightarrow>
           bind (r_eval R total_supply_expr env local_new) (\<lambda>total_supply_value.
             case total_supply_value of
               VUInt n \<Rightarrow> ret (DefineFungibleToken asset_str (Some n))
             | _ \<Rightarrow> fail (TypeValueError UIntType total_supply_value)))"

definition handle_define_map :: "clarity_name \<Rightarrow> symbolic_expression \<Rightarrow> symbolic_expression \<Rightarrow> environment \<Rightarrow> ('s, define_result) action" where
  "handle_define_map map_str key_type value_type env =
     bind (result (check_legal_define map_str (env_contract env))) (\<lambda>_.
     bind (parsing (parse_name_type_pair_list runtime_cost key_type)) (\<lambda>key_type_signature.
     bind (parsing (parse_name_type_pair_list runtime_cost value_type)) (\<lambda>value_type_signature.
       ret (DefineMap map_str key_type_signature value_type_signature))))"

definition handle_define_trait :: "clarity_name \<Rightarrow> symbolic_expression list \<Rightarrow> environment \<Rightarrow> ('s, define_result) action" where
  "handle_define_trait name funs env =
     bind (result (check_legal_define name (env_contract env))) (\<lambda>_.
     bind (parsing (parse_trait_type_repr runtime_cost funs)) (\<lambda>trait_signature.
       ret (DefineTrait name trait_signature)))"

definition evaluate_define :: "'s host \<Rightarrow> 's interp \<Rightarrow> symbolic_expression \<Rightarrow> environment \<Rightarrow> ('s, define_result) action" where
  "evaluate_define h R expression env =
     bind (result (try_parse expression)) (\<lambda>parsed.
       case parsed of
         None \<Rightarrow> ret NoDefine
       | Some (ParsedConstant name v) \<Rightarrow> handle_define_variable R name v env
       | Some (ParsedPrivateFunction signature body) \<Rightarrow> handle_define_function h signature body env Private
       | Some (ParsedReadOnlyFunction signature body) \<Rightarrow> handle_define_function h signature body env ReadOnly
       | Some (ParsedPublicFunction signature body) \<Rightarrow> handle_define_function h signature body env Public
       | Some (ParsedNonFungibleToken name nft_type) \<Rightarrow> handle_define_nonfungible_asset name nft_type env
       | Some (ParsedBoundedFungibleToken name max_supply) \<Rightarrow> handle_define_fungible_token R name (Some max_supply) env
       | Some (ParsedUnboundedFungibleToken name) \<Rightarrow> handle_define_fungible_token R name None env
       | Some (ParsedMap name key_type value_type) \<Rightarrow> handle_define_map name key_type value_type env
       | Some (ParsedPersistedVariable name data_type initial) \<Rightarrow> handle_define_persisted_variable R name data_type initial env
       | Some (ParsedTrait name funs) \<Rightarrow> handle_define_trait name funs env
       | Some (ParsedUseTrait name trait_identifier) \<Rightarrow> ret (DefineUseTrait name trait_identifier)
       | Some (ParsedImplTrait trait_identifier) \<Rightarrow> ret (DefineImplTrait trait_identifier))"

section \<open>Evaluating a contract\<close>

text \<open>\<open>GlobalContext::execute\<close> around an action.\<close>

definition vm_execute :: "'s host \<Rightarrow> ('s, 'a) action \<Rightarrow> ('s, 'a) action" where
  "vm_execute h f =
     bind (on_global (\<lambda>g. (Ok (), global_begin g))) (\<lambda>_.
     bind (capture f) (\<lambda>r.
       case r of
         Ok x \<Rightarrow> bind (on_global (global_commit (backing h))) (\<lambda>_. ret x)
       | _ \<Rightarrow> bind (on_global global_roll_back) (\<lambda>_. result r)))"

text \<open>Every top-level expression has a call stack of its own.\<close>

definition with_new_call_stack :: "('s, 'a) action \<Rightarrow> ('s, 'a) action" where
  "with_new_call_stack m s =
     (case m (s\<lparr>vm_calls := call_stack_new\<rparr>) of
        None \<Rightarrow> None
      | Some (r, t) \<Rightarrow> Some (r, t\<lparr>vm_calls := vm_calls s\<rparr>))"

definition type_memory :: "type_signature \<Rightarrow> ('s, unit) action" where
  "type_memory t = bind (result (unwrap_opt (inner_type_size t))) (\<lambda>n. env_add_memory (ucast n))"

record eval_state =
  es_last :: "val option"
  es_contract :: contract_context
  es_memory :: u64

definition persist :: "clarity_name \<Rightarrow> eval_state \<Rightarrow> eval_state" where
  "persist name st =
     st\<lparr>es_contract := (es_contract st)\<lparr>persisted_names := insert name (persisted_names (es_contract st))\<rparr>\<rparr>"

definition apply_define :: "'s host \<Rightarrow> define_result \<Rightarrow> symbolic_expression \<Rightarrow> eval_state \<Rightarrow> ('s, eval_state) action" where
  "apply_define h try_define e st =
     (let c = es_contract st; contract = contract_identifier c
      in case try_define of
        DefineVariable name v \<Rightarrow>
          bind (charge COST_BIND_NAME 0) (\<lambda>_.
          bind (get_memory_use v) (\<lambda>value_memory_use.
          bind (env_add_memory value_memory_use) (\<lambda>_.
            ret (st\<lparr>es_memory := es_memory st + value_memory_use,
                    es_contract := c\<lparr>ctx_variables := hm_insert name v (ctx_variables c)\<rparr>\<rparr>))))
      | DefineFunction name f \<Rightarrow>
          bind (charge COST_BIND_NAME 0) (\<lambda>_.
            ret (st\<lparr>es_contract := c\<lparr>ctx_functions := hm_insert name f (ctx_functions c)\<rparr>\<rparr>))
      | DefinePersistedVariable name value_type v \<Rightarrow>
          bind (size_of_type value_type) (\<lambda>n.
          bind (charge COST_CREATE_VAR n) (\<lambda>_.
          bind (type_memory value_type) (\<lambda>_.
          bind (size_of_value v) (\<lambda>m.
          bind (env_add_memory m) (\<lambda>_.
          bind (on_db (create_variable h contract name value_type)) (\<lambda>_.
          bind (on_db (set_variable h contract name v)) (\<lambda>_.
            ret (persist name st))))))))
      | DefineMap name key_type value_type \<Rightarrow>
          bind (size_of_type (TupleType key_type)) (\<lambda>k.
          bind (size_of_type (TupleType value_type)) (\<lambda>v.
          bind (result (map_err (\<lambda>x. Unchecked (CheckCost x)) (cost_overflow_add k v))) (\<lambda>n.
          bind (charge COST_CREATE_MAP n) (\<lambda>_.
          bind (type_memory (TupleType key_type)) (\<lambda>_.
          bind (type_memory (TupleType value_type)) (\<lambda>_.
          bind (on_db (create_map h contract name key_type value_type)) (\<lambda>_.
            ret (persist name st))))))))
      | DefineFungibleToken name total_supply \<Rightarrow>
          bind (charge COST_CREATE_FT 0) (\<lambda>_.
          bind (type_memory UIntType) (\<lambda>_.
          bind (on_db (create_fungible_token h contract name total_supply)) (\<lambda>_.
            ret (persist name st))))
      | DefineNonFungibleAsset name asset_type \<Rightarrow>
          bind (size_of_type asset_type) (\<lambda>n.
          bind (charge COST_CREATE_NFT n) (\<lambda>_.
          bind (type_memory asset_type) (\<lambda>_.
          bind (on_db (create_non_fungible_token h contract name asset_type)) (\<lambda>_.
            ret (persist name st)))))
      | DefineTrait name trait_type \<Rightarrow>
          ret (st\<lparr>es_contract := c\<lparr>defined_traits := hm_insert name trait_type (defined_traits c)\<rparr>\<rparr>)
      | DefineUseTrait _ _ \<Rightarrow> ret st
      | DefineImplTrait trait_identifier \<Rightarrow>
          ret (st\<lparr>es_contract := c\<lparr>implemented_traits := insert trait_identifier (implemented_traits c)\<rparr>\<rparr>)
      | NoDefine \<Rightarrow>
          vm_execute h (with_new_call_stack
            (bind (environment_new c None None) (\<lambda>env.
             bind (vm_eval h e env local_new) (\<lambda>v. ret (st\<lparr>es_last := Some v\<rparr>))))))"

definition eval_top_level :: "'s host \<Rightarrow> symbolic_expression \<Rightarrow> eval_state \<Rightarrow> ('s, eval_state) action" where
  "eval_top_level h e st =
     bind (vm_execute h (with_new_call_stack
       (bind (environment_new (es_contract st) None None) (\<lambda>env. evaluate_define h (vm_interp h) e env)))) (\<lambda>try_define.
       apply_define h try_define e st)"

text \<open>The loop of \<open>eval_all\<close>. The memory that is to be dropped afterwards is what was counted when the loop stopped.\<close>

primrec eval_expressions :: "'s host \<Rightarrow> symbolic_expression list \<Rightarrow> eval_state \<Rightarrow>
    ('s, (eval_state, vm_error) outcome \<times> u64) action" where
  "eval_expressions h [] st = ret (Ok st, es_memory st)"
| "eval_expressions h (e # es) st =
     bind (capture (eval_top_level h e st)) (\<lambda>r.
       case r of
         Ok st' \<Rightarrow> eval_expressions h es st'
       | Err err \<Rightarrow> ret (Err err, es_memory st)
       | Panic \<Rightarrow> result Panic)"

definition eval_all :: "'s host \<Rightarrow> symbolic_expression list \<Rightarrow> contract_context \<Rightarrow> ('s, val option \<times> contract_context) action" where
  "eval_all h expressions c =
     bind (eval_expressions h expressions \<lparr>es_last = None, es_contract = c, es_memory = 0\<rparr>) (\<lambda>(r, total_memory_use).
     bind (env_drop_memory total_memory_use) (\<lambda>_.
       result (map_ok (\<lambda>st. (es_last st, (es_contract st)\<lparr>data_size := total_memory_use\<rparr>)) r)))"

section \<open>Contracts\<close>

definition initialize_from_ast :: "'s host \<Rightarrow> qualified_contract_identifier \<Rightarrow> symbolic_expression list \<Rightarrow> ('s, contract_context) action" where
  "initialize_from_ast h contract expressions =
     bind (eval_all h expressions (contract_context_new contract)) (\<lambda>(_, c). ret c)"

definition build_contract :: "'s host \<Rightarrow> qualified_contract_identifier \<Rightarrow> symbolic_expression list \<Rightarrow> string \<Rightarrow> ('s, contract_context) action" where
  "build_contract h contract expressions contract_string =
     bind (charge COST_CONTRACT_STORAGE (word_of_nat (length contract_string))) (\<lambda>_.
     bind (on_db (has_contract h contract)) (\<lambda>there.
       if there then fail (ContractAlreadyExists (contract_to_string (sha256 h) contract))
       else
         bind (on_db (insert_contract_hash h contract contract_string)) (\<lambda>_.
         bind (env_add_memory (word_of_nat (length contract_string))) (\<lambda>_.
           finally_do (initialize_from_ast h contract expressions) (env_drop_memory (word_of_nat (length contract_string)))))))"

definition initialize_contract_from_ast :: "'s host \<Rightarrow> qualified_contract_identifier \<Rightarrow> symbolic_expression list \<Rightarrow> string \<Rightarrow>
    ('s, unit) action" where
  "initialize_contract_from_ast h contract expressions contract_string =
     bind (on_global (\<lambda>g. (Ok (), global_begin g))) (\<lambda>_.
     bind (capture (build_contract h contract expressions contract_string)) (\<lambda>r.
       case r of
         Ok c \<Rightarrow>
           bind (on_db (insert_contract h contract c)) (\<lambda>_.
           bind (on_db (set_contract_data_size h contract (data_size c))) (\<lambda>_.
           bind (on_global (global_commit (backing h))) (\<lambda>_. ret ())))
       | Err e \<Rightarrow> bind (on_global global_roll_back) (\<lambda>_. result (Err e))
       | Panic \<Rightarrow> result Panic))"

text \<open>\<open>execute_in_env\<close> around an action, and the two entry points of an owned environment that use it.\<close>

definition vm_execute_in_env :: "'s host \<Rightarrow> val \<Rightarrow> (environment \<Rightarrow> ('s, 'a) action) \<Rightarrow> ('s, 'a \<times> asset_map \<times> event_batch) action" where
  "vm_execute_in_env h sender f =
     bind (from_global is_top_level) (\<lambda>top.
       if \<not> top then result Panic
       else
         bind (on_global (\<lambda>g. (Ok (), global_begin g))) (\<lambda>_.
         bind (capture (bind (environment_new (contract_context_new contract_transient) (Some sender) (Some sender)) f)) (\<lambda>r.
           case r of
             Ok x \<Rightarrow> bind (on_global (owned_commit (backing h))) (\<lambda>(amap, events). ret (x, amap, events))
           | Err e \<Rightarrow> bind (on_global global_roll_back) (\<lambda>_. result (Err e))
           | Panic \<Rightarrow> result Panic)))"

definition owned_initialize_contract_from_ast :: "'s host \<Rightarrow> qualified_contract_identifier \<Rightarrow> symbolic_expression list \<Rightarrow> string \<Rightarrow>
    ('s, unit \<times> asset_map \<times> event_batch) action" where
  "owned_initialize_contract_from_ast h contract expressions contract_string =
     vm_execute_in_env h (VPrincipal (Standard (qci_issuer contract)))
       (\<lambda>_. initialize_contract_from_ast h contract expressions contract_string)"

definition execute_transaction :: "'s host \<Rightarrow> val \<Rightarrow> qualified_contract_identifier \<Rightarrow> string \<Rightarrow> symbolic_expression list \<Rightarrow>
    ('s, val \<times> asset_map \<times> event_batch) action" where
  "execute_transaction h sender contract tx_name args =
     vm_execute_in_env h sender (execute_contract h (vm_interp h) contract tx_name args False)"

section \<open>Read-only evaluation\<close>

definition empty_program :: vm_error where
  "empty_program = Runtime (ParseError ''Expected a program of at least length 1'')"

definition eval_read_only :: "'s host \<Rightarrow> qualified_contract_identifier \<Rightarrow> symbolic_expression list \<Rightarrow> environment \<Rightarrow> ('s, val) action" where
  "eval_read_only h contract parsed env =
     (if parsed = [] then result (Err empty_program)
      else
        bind (on_global (\<lambda>g. (Ok (), global_begin g))) (\<lambda>_.
        bind (on_db (get_contract h contract)) (\<lambda>c.
        bind (capture (bind (environment_new c (env_sender env) (env_caller env)) (\<lambda>nested_env.
           vm_eval h (parsed ! 0) nested_env local_new))) (\<lambda>r.
        bind (on_global global_roll_back) (\<lambda>_. result r)))))"

definition eval_raw :: "'s host \<Rightarrow> symbolic_expression list \<Rightarrow> environment \<Rightarrow> ('s, val) action" where
  "eval_raw h parsed env =
     (if parsed = [] then result (Err empty_program) else vm_eval h (parsed ! 0) env local_new)"

end
