(* ===== verification/Processing.thy ===== *)
theory Processing
  imports TransactionAuth Definitions
begin

text \<open>
  Processing of transactions: the connection to the virtual machine within a transaction of
  \<open>src/src/vm/clarity.rs\<close>, the accounts of \<open>src/src/chainstate/stacks/db/accounts.rs\<close>, and the processing of
  \<open>src/src/chainstate/stacks/db/transactions.rs\<close>.

  A connection owns the edit log of its transaction, detached from the store between calls. The parser and the static
  analysis of contracts are an argument, the record \<open>analyzer\<close>. Messages of errors are left out.
\<close>

section \<open>Connections\<close>

datatype clarity_error =
    ClarityAnalysis check_errors
  | ClarityParse
  | ClarityInterpreter vm_error
  | BadTransaction
  | ClarityCostError execution_cost execution_cost

fun clarity_error_of :: "vm_error \<Rightarrow> clarity_error" where
  "clarity_error_of (Unchecked (CheckCost (CostBalanceExceeded a b))) = ClarityCostError a b"
| "clarity_error_of (Unchecked (CheckCost CostOverflow)) = ClarityCostError cost_max_value cost_max_value"
| "clarity_error_of e = ClarityInterpreter e"

record 's connection =
  cn_log :: rollback_wrapper_persisted_log
  cn_store :: 's
  cn_cost :: limited_cost_tracker

type_synonym ('s, 'a) conn_routine = "('s connection, 'a, clarity_error) routine"

definition conn_db :: "'s connection \<Rightarrow> 's rollback_wrapper" where
  "conn_db c = from_persisted_log (cn_store c) (cn_log c)"

definition with_db :: "'s rollback_wrapper \<Rightarrow> 's connection \<Rightarrow> 's connection" where
  "with_db w c = c\<lparr>cn_log := persisted_log_of w, cn_store := store w\<rparr>"

definition close_db :: "('a, 'e) outcome \<Rightarrow> ('s rollback_wrapper, unit) outcome \<Rightarrow> 's connection \<Rightarrow> ('a, 'e) outcome \<times> 's connection" where
  "close_db r closed c = (case closed of Ok w \<Rightarrow> (r, with_db w c) | _ \<Rightarrow> (Panic, c))"

definition start_transaction_processing :: "'s \<Rightarrow> limited_cost_tracker \<Rightarrow> 's connection" where
  "start_transaction_processing s ct = \<lparr>cn_log = persisted_log_nest persisted_log_new, cn_store = s, cn_cost = ct\<rparr>"

definition with_clarity_db_readonly :: "('s rollback_wrapper, 'a, 'e) routine \<Rightarrow> ('s connection, 'a, 'e) routine" where
  "with_clarity_db_readonly to_do c =
     (case to_do (nest (conn_db c)) of
        (Panic, w) \<Rightarrow> (Panic, c)
      | (r, w) \<Rightarrow> close_db r (rollback w) c)"

definition with_clarity_db :: "'s host \<Rightarrow> ('s rollback_wrapper, 'a, clarity_error) routine \<Rightarrow> ('s, 'a) conn_routine" where
  "with_clarity_db h to_do c =
     (case to_do (nest (conn_db c)) of
        (Ok x, w) \<Rightarrow> close_db (Ok x) (commit (backing h) w) c
      | (Err e, w) \<Rightarrow> close_db (Err e) (rollback w) c
      | (Panic, w) \<Rightarrow> (Panic, c))"

definition lift_db :: "('s, 'a) db_op \<Rightarrow> ('s rollback_wrapper, 'a, clarity_error) routine" where
  "lift_db m w = (case m w of (r, w') \<Rightarrow> (map_err ClarityInterpreter r, w'))"

definition with_abort_callback :: "'s host \<Rightarrow> ('s, 'a \<times> asset_map \<times> event_batch) action \<Rightarrow> (asset_map \<Rightarrow> (bool, vm_error) outcome) \<Rightarrow>
    's connection \<Rightarrow> (('a \<times> asset_map \<times> event_batch, clarity_error) outcome \<times> 's connection) option" where
  "with_abort_callback h to_do abort_call_back c =
     (case to_do \<lparr>vm_global = global_new (nest (conn_db c)) (cn_cost c), vm_calls = call_stack_new\<rparr> of
        None \<Rightarrow> None
      | Some (Panic, t) \<Rightarrow> Some (Panic, c)
      | Some (r, t) \<Rightarrow>
          (case destruct (vm_global t) of
             None \<Rightarrow> Some (Panic, c)
           | Some (db, ct) \<Rightarrow>
               let c' = c\<lparr>cn_cost := ct\<rparr> in
               Some (case r of
                  Ok (x, amap, events) \<Rightarrow>
                    (case abort_call_back amap of
                       Ok aborts \<Rightarrow> close_db (Ok (x, amap, events)) (if aborts then rollback db else commit (backing h) db) c'
                     | _ \<Rightarrow> (Panic, c))
                | Err e \<Rightarrow> close_db (Err (clarity_error_of e)) (rollback db) c'
                | Panic \<Rightarrow> (Panic, c))))"

definition run_contract_call :: "'s host \<Rightarrow> principal_data \<Rightarrow> qualified_contract_identifier \<Rightarrow> string \<Rightarrow> val list \<Rightarrow>
    (asset_map \<Rightarrow> (bool, vm_error) outcome) \<Rightarrow> 's connection \<Rightarrow>
    ((val \<times> asset_map \<times> event_batch, clarity_error) outcome \<times> 's connection) option" where
  "run_contract_call h sender contract public_function args =
     with_abort_callback h (execute_transaction h (VPrincipal sender) contract public_function (map atom_value args))"

definition initialize_smart_contract :: "'s host \<Rightarrow> qualified_contract_identifier \<Rightarrow> symbolic_expression list \<Rightarrow> string \<Rightarrow>
    (asset_map \<Rightarrow> (bool, vm_error) outcome) \<Rightarrow> 's connection \<Rightarrow>
    ((asset_map \<times> event_batch, clarity_error) outcome \<times> 's connection) option" where
  "initialize_smart_contract h identifier contract_ast contract_str abort_call_back c =
     map_option (\<lambda>(r, c'). (map_ok snd r, c'))
       (with_abort_callback h (owned_initialize_contract_from_ast h identifier contract_ast contract_str) abort_call_back c)"

definition conn_commit :: "'s host \<Rightarrow> 's connection \<Rightarrow> ('s \<times> limited_cost_tracker, unit) outcome" where
  "conn_commit h c =
     (if length (stack (conn_db c)) \<noteq> 1 then Panic
      else map_ok (\<lambda>w. (store w, reset_memory (cn_cost c))) (commit (backing h) (conn_db c)))"

section \<open>Analysis\<close>

record ('s, 'an) analyzer =
  an_analyze :: "qualified_contract_identifier \<Rightarrow> string \<Rightarrow> 's rollback_wrapper \<Rightarrow> limited_cost_tracker \<Rightarrow>
    (symbolic_expression list \<times> 'an, clarity_error) outcome \<times> 's rollback_wrapper \<times> limited_cost_tracker"
  an_serialize :: "'an \<Rightarrow> string"

definition analyze_smart_contract :: "('s, 'an) analyzer \<Rightarrow> qualified_contract_identifier \<Rightarrow> string \<Rightarrow>
    ('s, symbolic_expression list \<times> 'an) conn_routine" where
  "analyze_smart_contract an identifier contract_content c =
     (case an_analyze an identifier contract_content (conn_db c) (cn_cost c) of
        (r, w, ct) \<Rightarrow> (r, with_db w (c\<lparr>cn_cost := ct\<rparr>)))"

definition analysis_insert_contract :: "'s host \<Rightarrow> qualified_contract_identifier \<Rightarrow> string \<Rightarrow> ('s rollback_wrapper, unit, check_errors) routine" where
  "analysis_insert_contract h identifier serialized w =
     (case has_metadata_entry (backing h) w (identifier, ''analysis'') of
        Ok True \<Rightarrow> (Err (ContractAlreadyExists (contract_to_string (sha256 h) identifier)), w)
      | Ok False \<Rightarrow>
          (case insert_metadata (identifier, ''analysis'') serialized w of Ok w' \<Rightarrow> (Ok (), w') | _ \<Rightarrow> (Panic, w))
      | _ \<Rightarrow> (Panic, w))"

definition save_analysis :: "'s host \<Rightarrow> ('s, 'an) analyzer \<Rightarrow> qualified_contract_identifier \<Rightarrow> 'an \<Rightarrow> ('s connection, unit, check_errors) routine" where
  "save_analysis h an identifier contract_analysis c =
     (case analysis_insert_contract h identifier (an_serialize an contract_analysis) (nest (conn_db c)) of
        (Ok x, w) \<Rightarrow> close_db (Ok x) (commit (backing h) w) c
      | (Err e, w) \<Rightarrow> close_db (Err e) (rollback w) c
      | (Panic, w) \<Rightarrow> (Panic, c))"

section \<open>Accounts\<close>

record stacks_account =
  ac_principal :: principal_data
  ac_nonce :: u64
  ac_stx_balance :: u128

definition get_account :: "'s host \<Rightarrow> principal_data \<Rightarrow> ('s, stacks_account) conn_routine" where
  "get_account h p =
     with_clarity_db_readonly
       (seq (lift_db (get_account_stx_balance h p)) (\<lambda>stx_balance.
        seq (lift_db (get_account_nonce h p)) (\<lambda>nonce.
          give \<lparr>ac_principal = p, ac_nonce = nonce, ac_stx_balance = stx_balance\<rparr>)))"

definition expect_conn :: "('s, 'a) conn_routine \<Rightarrow> ('s, 'a) conn_routine" where
  "expect_conn m c = (case m c of (Err e, c') \<Rightarrow> (Panic, c') | r \<Rightarrow> r)"

definition account_debit :: "'s host \<Rightarrow> principal_data \<Rightarrow> u64 \<Rightarrow> ('s, unit) conn_routine" where
  "account_debit h p amount =
     expect_conn (with_clarity_db h
       (seq (lift_db (get_account_stx_balance h p)) (\<lambda>cur_balance.
          if cur_balance < ucast amount then attempt Panic
          else lift_db (set_account_stx_balance h p (cur_balance - ucast amount)))))"

definition account_credit :: "'s host \<Rightarrow> principal_data \<Rightarrow> u64 \<Rightarrow> ('s, unit) conn_routine" where
  "account_credit h p amount =
     expect_conn (with_clarity_db h
       (seq (lift_db (get_account_stx_balance h p)) (\<lambda>cur_balance.
        seq (attempt (unwrap_opt (checked_add cur_balance (ucast amount)))) (\<lambda>final_balance.
          lift_db (set_account_stx_balance h p final_balance)))))"

definition update_account_nonce :: "'s host \<Rightarrow> stacks_account \<Rightarrow> ('s, unit) conn_routine" where
  "update_account_nonce h account =
     expect_conn (with_clarity_db h
       (seq (attempt (unwrap_opt (checked_add (ac_nonce account) 1))) (\<lambda>next_nonce.
          lift_db (set_account_nonce h (ac_principal account) next_nonce))))"

section \<open>Processing\<close>

datatype chain_error =
    InvalidFee
  | InvalidStacksTransaction
  | ClarityError clarity_error
  | ChainNetError net_error

type_synonym ('s, 'a) chain_action = "'s connection \<Rightarrow> (('a, chain_error) outcome \<times> 's connection) option"

definition chain_bind :: "('s, 'a) chain_action \<Rightarrow> ('a \<Rightarrow> ('s, 'b) chain_action) \<Rightarrow> ('s, 'b) chain_action" where
  "chain_bind m f c =
     (case m c of
        None \<Rightarrow> None
      | Some (Ok x, c') \<Rightarrow> f x c'
      | Some (Err e, c') \<Rightarrow> Some (Err e, c')
      | Some (Panic, c') \<Rightarrow> Some (Panic, c'))"

definition chain_result :: "('a, chain_error) outcome \<Rightarrow> ('s, 'a) chain_action" where
  "chain_result r c = Some (r, c)"

definition chain_db :: "('s, 'a) conn_routine \<Rightarrow> ('s, 'a) chain_action" where
  "chain_db m c = (case m c of (r, c') \<Rightarrow> Some (map_err ClarityError r, c'))"

text \<open>Errors whose message names the identifier of the transaction, which is computed first.\<close>

definition invalid_transaction :: "crypto \<Rightarrow> stacks_transaction \<Rightarrow> ('a, chain_error) outcome" where
  "invalid_transaction cr tx = and_then (map_err ChainNetError (txid cr tx)) (\<lambda>_. Err InvalidStacksTransaction)"

definition check_transaction_nonces :: "'s host \<Rightarrow> crypto \<Rightarrow> stacks_transaction \<Rightarrow> ('s, stacks_account \<times> stacks_account) chain_action" where
  "check_transaction_nonces h cr tx =
     chain_bind (chain_db (get_account h (principal_of_address (origin_address tx)))) (\<lambda>origin_account.
     chain_bind
       (case sponsor_address tx of
          Some sponsor \<Rightarrow>
            chain_bind (chain_db (get_account h (principal_of_address sponsor))) (\<lambda>payer_account.
              if cond_nonce (get_payer tx) \<noteq> ac_nonce payer_account then chain_result (invalid_transaction cr tx)
              else chain_result (Ok payer_account))
        | None \<Rightarrow> chain_result (Ok origin_account)) (\<lambda>payer_account.
       if cond_nonce (get_origin tx) \<noteq> ac_nonce origin_account then chain_result (invalid_transaction cr tx)
       else chain_result (Ok (origin_account, payer_account))))"

definition pay_transaction_fee :: "'s host \<Rightarrow> stacks_transaction \<Rightarrow> stacks_account \<Rightarrow> ('s, u64) chain_action" where
  "pay_transaction_fee h tx payer_account =
     (if ac_stx_balance payer_account < ucast (get_fee_rate tx) then chain_result (Err InvalidFee)
      else
        chain_bind (chain_db (account_debit h (ac_principal payer_account) (get_fee_rate tx))) (\<lambda>_.
          chain_result (Ok (get_fee_rate tx))))"

record db_config =
  cfg_mainnet :: bool
  cfg_chain_id :: u32

definition process_transaction_precheck :: "crypto \<Rightarrow> db_config \<Rightarrow> stacks_transaction \<Rightarrow> (unit, chain_error) outcome" where
  "process_transaction_precheck cr config tx =
     and_then (map_err ChainNetError (tx_verify cr tx)) (\<lambda>_.
       if cfg_chain_id config \<noteq> tx_chain_id tx then invalid_transaction cr tx
       else case tx_version tx of
         Mainnet \<Rightarrow> if \<not> cfg_mainnet config then invalid_transaction cr tx else Ok ()
       | Testnet \<Rightarrow> if cfg_mainnet config then invalid_transaction cr tx else Ok ())"

definition token_transfer :: "'s host \<Rightarrow> principal_data \<Rightarrow> u64 \<Rightarrow> principal_data \<Rightarrow> ('s rollback_wrapper, unit, clarity_error) routine" where
  "token_transfer h recipient amount sender =
     seq (lift_db (get_account_stx_balance h sender)) (\<lambda>cur_balance.
     seq (lift_db (get_account_stx_balance h recipient)) (\<lambda>recipient_balance.
     seq (attempt (ok_or BadTransaction (checked_sub cur_balance (ucast amount)))) (\<lambda>new_balance.
     seq (attempt (ok_or BadTransaction (checked_add recipient_balance (ucast amount)))) (\<lambda>new_recipient_balance.
     seq (lift_db (set_account_stx_balance h sender new_balance)) (\<lambda>_.
       lift_db (set_account_stx_balance h recipient new_recipient_balance))))))"

definition process_transaction_token_transfer :: "'s host \<Rightarrow> principal_data \<Rightarrow> u64 \<Rightarrow> stacks_account \<Rightarrow> ('s, unit) chain_action" where
  "process_transaction_token_transfer h recipient_principal amount origin_account c =
     (if ac_principal origin_account = recipient_principal then Some (Err InvalidStacksTransaction, c)
      else case with_clarity_db h (token_transfer h recipient_principal amount (ac_principal origin_account)) c of
        (Err BadTransaction, c') \<Rightarrow> Some (Err InvalidStacksTransaction, c')
      | (Err _, c') \<Rightarrow> Some (Panic, c')
      | (Ok x, c') \<Rightarrow> Some (Ok x, c')
      | (Panic, c') \<Rightarrow> Some (Panic, c'))"

record 'an stacks_transaction_receipt =
  rc_transaction :: stacks_transaction
  rc_events :: event_batch
  rc_result :: val
  rc_stx_burned :: u128
  rc_contract_analysis :: "'an option"

definition receipt :: "stacks_transaction \<Rightarrow> event_batch \<Rightarrow> val \<Rightarrow> asset_map \<Rightarrow> 'an option \<Rightarrow> ('an stacks_transaction_receipt, chain_error) outcome" where
  "receipt tx events v amap contract_analysis =
     (case get_stx_burned_total amap of
        Ok burned \<Rightarrow> Ok \<lparr>rc_transaction = tx, rc_events = events, rc_result = v, rc_stx_burned = burned, rc_contract_analysis = contract_analysis\<rparr>
      | _ \<Rightarrow> Panic)"

definition plain_receipt :: "stacks_transaction \<Rightarrow> event_batch \<Rightarrow> val \<Rightarrow> 'an stacks_transaction_receipt" where
  "plain_receipt tx events v =
     \<lparr>rc_transaction = tx, rc_events = events, rc_result = v, rc_stx_burned = 0, rc_contract_analysis = None\<rparr>"

text \<open>The callback aborts when the post-conditions do not hold.\<close>

definition postconditions_abort :: "stacks_transaction \<Rightarrow> stacks_account \<Rightarrow> asset_map \<Rightarrow> (bool, vm_error) outcome" where
  "postconditions_abort tx origin_account amap =
     map_ok Not (check_transaction_postconditions (tx_post_conditions tx) (tx_post_condition_mode tx) (ac_principal origin_account) amap)"

text \<open>Runtime errors keep the transaction valid, with nothing moved.\<close>

fun accept_runtime_error :: "'a \<Rightarrow> ('a, clarity_error) outcome \<Rightarrow> ('a, chain_error) outcome" where
  "accept_runtime_error x (Err (ClarityInterpreter (Runtime e))) = Ok x"
| "accept_runtime_error x (Err e) = Err (ClarityError e)"
| "accept_runtime_error x (Ok y) = Ok y"
| "accept_runtime_error x Panic = Panic"

definition process_contract_call :: "'s host \<Rightarrow> stacks_transaction \<Rightarrow> transaction_contract_call \<Rightarrow> stacks_account \<Rightarrow>
    ('s, 'an stacks_transaction_receipt) chain_action" where
  "process_contract_call h tx contract_call origin_account =
     chain_bind
       (\<lambda>c. map_option (\<lambda>(r, c'). (accept_runtime_error (value_err_none, asset_map_new, []) r, c'))
          (run_contract_call h (ac_principal origin_account) (to_clarity_contract_id contract_call) (cc_function_name contract_call)
             (cc_function_args contract_call) (postconditions_abort tx origin_account) c))
       (\<lambda>(v, amap, events). chain_result (receipt tx events v amap None))"

definition no_such_contract :: "vm_error \<Rightarrow> bool" where
  "no_such_contract e = (case e of Unchecked (NoSuchContract _) \<Rightarrow> True | _ \<Rightarrow> False)"

definition chain_get_contract :: "'s host \<Rightarrow> qualified_contract_identifier \<Rightarrow> ('s, contract_context option) chain_action" where
  "chain_get_contract h contract_id =
     chain_db (with_clarity_db_readonly (\<lambda>w.
       case get_contract h contract_id w of
         (Ok ct, w') \<Rightarrow> (Ok (Some ct), w')
       | (Err e, w') \<Rightarrow> (if no_such_contract e then Ok None else Err (ClarityInterpreter e), w')
       | (Panic, w') \<Rightarrow> (Panic, w')))"

definition publish_contract :: "'s host \<Rightarrow> ('s, 'an) analyzer \<Rightarrow> stacks_transaction \<Rightarrow> stacks_account \<Rightarrow> qualified_contract_identifier \<Rightarrow>
    string \<Rightarrow> symbolic_expression list \<Rightarrow> 'an \<Rightarrow> ('s, 'an stacks_transaction_receipt) chain_action" where
  "publish_contract h an tx origin_account contract_id contract_code contract_ast contract_analysis =
     chain_bind
       (\<lambda>c. map_option (\<lambda>(r, c'). (accept_runtime_error (asset_map_new, []) r, c'))
          (initialize_smart_contract h contract_id contract_ast contract_code (postconditions_abort tx origin_account) c))
       (\<lambda>(amap, events).
     chain_bind
       (\<lambda>c. case save_analysis h an contract_id contract_analysis c of
          (Ok x, c') \<Rightarrow> Some (Ok x, c') | (_, c') \<Rightarrow> Some (Panic, c'))
       (\<lambda>_. chain_result (receipt tx events value_okay_true amap (Some contract_analysis))))"

definition process_smart_contract :: "'s host \<Rightarrow> ('s, 'an) analyzer \<Rightarrow> stacks_transaction \<Rightarrow> transaction_smart_contract \<Rightarrow> stacks_account \<Rightarrow>
    ('s, 'an stacks_transaction_receipt) chain_action" where
  "process_smart_contract h an tx smart_contract origin_account =
     (case ac_principal origin_account of
        Standard issuer_principal \<Rightarrow>
          let contract_id = QualifiedContractIdentifier issuer_principal (sc_name smart_contract);
              contract_code = map char_of_byte (sc_code_body smart_contract) in
          chain_bind (chain_get_contract h contract_id) (\<lambda>present.
            if present \<noteq> None then chain_result (Err InvalidStacksTransaction)
            else (\<lambda>c.
              case analyze_smart_contract an contract_id contract_code c of
                (Ok (contract_ast, contract_analysis), c') \<Rightarrow>
                  publish_contract h an tx origin_account contract_id contract_code contract_ast contract_analysis c'
              | (Err e, c') \<Rightarrow> Some (Ok (plain_receipt tx [] value_err_none), c')
              | (Panic, c') \<Rightarrow> Some (Panic, c')))
      | _ \<Rightarrow> chain_result Panic)"

fun process_transaction_payload :: "'s host \<Rightarrow> crypto \<Rightarrow> ('s, 'an) analyzer \<Rightarrow> stacks_transaction \<Rightarrow> stacks_account \<Rightarrow> transaction_payload \<Rightarrow>
    ('s, 'an stacks_transaction_receipt) chain_action" where
  "process_transaction_payload h cr an tx origin_account (TokenTransfer addr amount memo) =
     (if tx_post_conditions tx \<noteq> [] then chain_result (Err InvalidStacksTransaction)
      else
        chain_bind (chain_result (map_err ChainNetError (txid cr tx))) (\<lambda>_.
        chain_bind (process_transaction_token_transfer h addr amount origin_account) (\<lambda>_.
          chain_result (Ok (plain_receipt tx
            [STXEvent (STXTransferEvent (ac_principal origin_account) addr (ucast amount))] value_okay_true)))))"
| "process_transaction_payload h cr an tx origin_account (ContractCall contract_call) =
     process_contract_call h tx contract_call origin_account"
| "process_transaction_payload h cr an tx origin_account (SmartContract smart_contract) =
     process_smart_contract h an tx smart_contract origin_account"
| "process_transaction_payload h cr an tx origin_account (PoisonMicroblock h1 h2) =
     (if tx_post_conditions tx \<noteq> [] then chain_result (Err InvalidStacksTransaction) else chain_result Panic)"
| "process_transaction_payload h cr an tx origin_account (Coinbase buf) =
     chain_result (Ok (plain_receipt tx [] value_okay_true))"

text \<open>What happens within the connection, up to its commit.\<close>

definition transaction_body :: "'s host \<Rightarrow> crypto \<Rightarrow> ('s, 'an) analyzer \<Rightarrow> stacks_transaction \<Rightarrow>
    ('s, u64 \<times> 'an stacks_transaction_receipt) chain_action" where
  "transaction_body h cr an tx =
     chain_bind (check_transaction_nonces h cr tx) (\<lambda>(origin_account, payer_account).
     chain_bind (pay_transaction_fee h tx payer_account) (\<lambda>fee.
     chain_bind (process_transaction_payload h cr an tx origin_account (tx_payload tx)) (\<lambda>tx_receipt.
     chain_bind (chain_db (update_account_nonce h origin_account)) (\<lambda>_.
     chain_bind (if origin_account \<noteq> payer_account then chain_db (update_account_nonce h payer_account) else chain_result (Ok ())) (\<lambda>_.
       chain_result (Ok (fee, tx_receipt)))))))"

text \<open>
  A block is its store and its cost tracker. An error drops the connection and with it the log, and resets the memory
  in use.
\<close>

definition process_transaction :: "'s host \<Rightarrow> crypto \<Rightarrow> ('s, 'an) analyzer \<Rightarrow> db_config \<Rightarrow> stacks_transaction \<Rightarrow> 's \<times> limited_cost_tracker \<Rightarrow>
    ((u64 \<times> 'an stacks_transaction_receipt, chain_error) outcome \<times> 's \<times> limited_cost_tracker) option" where
  "process_transaction h cr an config tx b =
     (case process_transaction_precheck cr config tx of
        Err e \<Rightarrow> Some (Err e, b)
      | Panic \<Rightarrow> Some (Panic, b)
      | Ok _ \<Rightarrow>
          (case transaction_body h cr an tx (start_transaction_processing (fst b) (snd b)) of
             None \<Rightarrow> None
           | Some (Ok x, c) \<Rightarrow>
               Some (case conn_commit h c of Ok b' \<Rightarrow> (Ok x, b') | _ \<Rightarrow> (Panic, b))
           | Some (Err e, c) \<Rightarrow> Some (Err e, cn_store c, reset_memory (cn_cost c))
           | Some (Panic, c) \<Rightarrow> Some (Panic, b)))"

end
