(* ===== verification/Effects.thy ===== *)
theory Effects
  imports Evaluator
begin

text \<open>
  What evaluation can do to the machine. An effect is a relation between the machine before and after that is kept by the
  primitive actions and by the brackets that the interpreter puts around calls, transactions and time-shifted
  evaluation. For any effect the locale shows that evaluation ends, that its result does not depend on the fuel once there is
  enough of it, and that it has the effect.
\<close>

section \<open>Writes to the database\<close>

text \<open>The operations of the database only read, and write through \<open>put\<close> and \<open>insert_metadata\<close>.\<close>

inductive db_steps :: "'s rollback_wrapper \<Rightarrow> 's rollback_wrapper \<Rightarrow> bool" where
  db_none: "db_steps w w"
| db_put: "db_steps w w1 \<Longrightarrow> put key x w1 = Ok w2 \<Longrightarrow> db_steps w w2"
| db_metadata: "db_steps w w1 \<Longrightarrow> insert_metadata key x w1 = Ok w2 \<Longrightarrow> db_steps w w2"

lemma db_steps_trans: "db_steps b c \<Longrightarrow> db_steps a b \<Longrightarrow> db_steps a c"
  by (induction rule: db_steps.induct) (auto intro: db_steps.intros)

definition writes_only :: "('s, 'a) db_op \<Rightarrow> bool" where
  "writes_only f \<longleftrightarrow> (\<forall>w. db_steps w (snd (f w)))"

named_theorems writes_intros

lemma writes_only_seq [writes_intros]: "writes_only m \<Longrightarrow> (\<And>x. writes_only (f x)) \<Longrightarrow> writes_only (seq m f)"
  unfolding writes_only_def
proof
  fix w
  assume m: "\<forall>w. db_steps w (snd (m w))" and f: "\<And>x. \<forall>w. db_steps w (snd (f x w))"
  obtain r w1 where r: "m w = (r, w1)" by force
  with m have "db_steps w w1" by (metis snd_conv)
  with f show "db_steps w (snd (seq m f w))" by (cases r) (auto simp: seq_def r intro: db_steps_trans)
qed

lemma writes_only_read [writes_intros]: "writes_only (db_read f)" "writes_only (attempt r)" "writes_only (give x)"
  by (simp_all add: writes_only_def db_read_def attempt_def give_def db_none)

lemma writes_only_write [writes_intros]:
  "writes_only (db_write (put key x))" "writes_only (db_write (insert_metadata mkey x))"
  by (auto simp: writes_only_def db_write_def intro: db_none db_put [OF db_none] db_metadata [OF db_none] split: outcome.splits)

lemma writes_only_if [writes_intros]: "writes_only m \<Longrightarrow> writes_only m' \<Longrightarrow> writes_only (if b then m else m')"
  by simp

lemma writes_only_case_option [writes_intros]:
  "writes_only m \<Longrightarrow> (\<And>x. writes_only (f x)) \<Longrightarrow> writes_only (case r of None \<Rightarrow> m | Some x \<Rightarrow> f x)"
  by (cases r) auto

lemma writes_only_none [writes_intros]: "writes_only m \<Longrightarrow> writes_only (map_no_contract_as_none m)"
  unfolding writes_only_def
proof
  fix w assume m: "\<forall>w. db_steps w (snd (m w))"
  have "snd (map_no_contract_as_none m w) = snd (m w)"
    by (auto simp: map_no_contract_as_none_def split: prod.splits outcome.splits vm_error.splits check_errors.splits)
  with m show "db_steps w (snd (map_no_contract_as_none m w))" by simp
qed

lemma writes_only_access [writes_intros]:
  "writes_only (db_put c key v)" "writes_only (db_put_value key u)" "writes_only (db_get h c' key)"
  "writes_only (db_get_value h key t)" "writes_only (fetch_metadata h c'' contract key)" "writes_only (check_admits t u)"
  unfolding db_put_def db_put_value_def db_get_def db_get_value_def fetch_metadata_def check_admits_def
  by (intro writes_intros)+

lemmas load_defs = load_variable_def load_map_def load_ft_def load_nft_def get_contract_def get_contract_size_def

lemma writes_only_loads [writes_intros]:
  "writes_only (load_variable h c n)" "writes_only (load_map h c n)" "writes_only (load_ft h c n)"
  "writes_only (load_nft h c n)" "writes_only (get_contract h c)" "writes_only (get_contract_size h c)"
  unfolding load_defs by (intro writes_intros)+

lemma writes_only_exists [writes_intros]: "writes_only (data_map_entry_exists h key t)"
  unfolding data_map_entry_exists_def by (intro writes_intros)

lemma writes_only_data [writes_intros]:
  "writes_only (set_variable h c n v)" "writes_only (db_lookup_variable h c n)" "writes_only (fetch_entry h c n k)"
  "writes_only (set_entry h c n k v)" "writes_only (insert_entry h c n k v)" "writes_only (delete_entry h c n k)"
  unfolding set_variable_def db_lookup_variable_def fetch_entry_def set_entry_def insert_entry_def inner_set_entry_def
    delete_entry_def
  by (intro writes_intros)+

lemma writes_only_assets [writes_intros]:
  "writes_only (checked_increase_token_supply h c n amount)" "writes_only (get_ft_balance h c n p)"
  "writes_only (set_ft_balance h c n p amount)" "writes_only (get_nft_owner h c n v)" "writes_only (get_nft_key_type h c n)"
  "writes_only (set_nft_owner h c n v p)" "writes_only (get_account_stx_balance h p)" "writes_only (set_account_stx_balance h p amount)"
  unfolding checked_increase_token_supply_def get_ft_balance_def set_ft_balance_def get_nft_owner_def get_nft_key_type_def
    set_nft_owner_def get_account_stx_balance_def set_account_stx_balance_def Let_def
  by (intro writes_intros)+

lemma writes_only_header [writes_intros]: "writes_only (header_field h f n)"
  unfolding header_field_def get_index_block_header_hash_def by (intro writes_intros)

lemmas block_defs = get_block_time_def get_block_vrf_seed_def db_get_block_header_hash_def get_burnchain_block_header_hash_def
  get_miner_address_def get_index_block_header_hash_def

lemma writes_only_blocks [writes_intros]:
  "writes_only (db_get_current_block_height h)" "writes_only (block_info_value h bp n)"
  unfolding db_get_current_block_height_def block_info_value_def block_defs
  by (cases bp; simp add: writes_intros)+

section \<open>Effects\<close>

definition depth_of :: "'s vm \<Rightarrow> nat" where
  "depth_of s = call_stack_depth (vm_calls s)"

definition pushed :: "function_identifier \<Rightarrow> bool \<Rightarrow> 's vm \<Rightarrow> 's vm" where
  "pushed f track s = s\<lparr>vm_calls := call_stack_insert f track (vm_calls s)\<rparr>"

definition started :: "bool \<Rightarrow> 's vm \<Rightarrow> 's vm" where
  "started ro s = s\<lparr>vm_global := (if ro then global_begin_read_only else global_begin) (vm_global s)\<rparr>"

definition with_database :: "'s rollback_wrapper \<Rightarrow> 's vm \<Rightarrow> 's vm" where
  "with_database w s = s\<lparr>vm_global := (vm_global s)\<lparr>database := w\<rparr>\<rparr>"

definition with_tracker :: "limited_cost_tracker \<Rightarrow> 's vm \<Rightarrow> 's vm" where
  "with_tracker t s = s\<lparr>vm_global := (vm_global s)\<lparr>cost_track := t\<rparr>\<rparr>"

locale vm_effect =
  fixes h :: "'s host"
    and K :: "'s vm \<Rightarrow> 's vm \<Rightarrow> bool"
  assumes K_refl: "K s s"
    and K_trans: "K s s1 \<Longrightarrow> K s1 s2 \<Longrightarrow> K s s2"
    and K_depth: "K s s1 \<Longrightarrow> depth_of s \<le> depth_of s1"
    and K_charge: "K s (with_tracker (snd (add_cost (cost_track (vm_global s)) c)) s)"
    and K_add_memory: "K s (with_tracker (snd (add_memory (cost_track (vm_global s)) n)) s)"
    and K_drop_memory: "drop_memory (cost_track (vm_global s)) n = (Ok tr :: (limited_cost_tracker, cost_errors) outcome) \<Longrightarrow> K s (with_tracker tr s)"
    and K_database: "db_steps (database (vm_global s)) w \<Longrightarrow> K s (with_database w s)"
    and K_log_asset: "K s (s\<lparr>vm_global := snd (log_asset_transfer p q name v (vm_global s))\<rparr>)"
    and K_log_token: "K s (s\<lparr>vm_global := snd (log_token_transfer p q name amount (vm_global s))\<rparr>)"
    and K_log_stx: "K s (s\<lparr>vm_global := snd (log_stx_transfer p amount (vm_global s))\<rparr>)"
    and K_log_burn: "K s (s\<lparr>vm_global := snd (log_stx_burn p amount (vm_global s))\<rparr>)"
    and K_event: "K s (s\<lparr>vm_global := push_event ev (vm_global s)\<rparr>)"
    and K_push: "K s (pushed f track s)"
    and K_pop: "K (pushed f track s) t \<Longrightarrow> call_stack_remove f track (vm_calls t) = (rc, cs) \<Longrightarrow> rc \<noteq> Panic \<Longrightarrow>
      K s (t\<lparr>vm_calls := cs\<rparr>)"
    and K_begin: "K s (started ro s)"
    and K_commit: "K (started False s) t \<Longrightarrow> global_commit (backing h) (vm_global t) = (rg, g) \<Longrightarrow> rg \<noteq> Panic \<Longrightarrow>
      K s (t\<lparr>vm_global := g\<rparr>)"
    and K_roll_back: "K (started ro s) t \<Longrightarrow> global_roll_back (vm_global t) = (r, g) \<Longrightarrow> r \<noteq> Panic \<Longrightarrow>
      K s (t\<lparr>vm_global := g\<rparr>)"
    and K_at_block: "db_set_block_hash h bhh (database (vm_global (started True s))) = (Ok prior, w1) \<Longrightarrow>
      K (with_database w1 (started True s)) t \<Longrightarrow>
      db_set_block_hash h prior (database (vm_global t)) = (Ok x, w2) \<Longrightarrow>
      global_roll_back (vm_global (with_database w2 t)) = (r, g) \<Longrightarrow> r \<noteq> Panic \<Longrightarrow> K s (t\<lparr>vm_global := g\<rparr>)"
begin

text \<open>Two actions agree from a call depth on: both end, with the same result and machine, and have the effect.\<close>

definition agree :: "nat \<Rightarrow> ('s, 'a) action \<Rightarrow> ('s, 'a) action \<Rightarrow> bool" where
  "agree d m m' \<longleftrightarrow>
     (\<forall>s. d \<le> depth_of s \<longrightarrow> (\<exists>r t. m s = Some (r, t) \<and> m' s = Some (r, t) \<and> (r \<noteq> Panic \<longrightarrow> K s t)))"

lemma agreeI: "(\<And>s. d \<le> depth_of s \<Longrightarrow> \<exists>r t. m s = Some (r, t) \<and> m' s = Some (r, t) \<and> (r \<noteq> Panic \<longrightarrow> K s t)) \<Longrightarrow> agree d m m'"
  by (simp add: agree_def)

lemma agreeE:
  assumes "agree d m m'" "d \<le> depth_of s"
  obtains r t where "m s = Some (r, t)" "m' s = Some (r, t)" "r \<noteq> Panic \<longrightarrow> K s t"
  using assms unfolding agree_def by blast

lemma agree_mono: "agree d m m' \<Longrightarrow> d \<le> d' \<Longrightarrow> agree d' m m'"
  by (auto simp: agree_def)

lemma agree_result: "agree d (result r) (result r)"
  by (auto simp: agree_def result_def K_refl)

lemma agree_bind:
  assumes "agree d m m'" "\<And>x. agree d (f x) (f' x)"
  shows "agree d (bind m f) (bind m' f')"
proof (rule agreeI)
  fix s :: "'s vm" assume d: "d \<le> depth_of s"
  from assms(1) d obtain r t where m: "m s = Some (r, t)" "m' s = Some (r, t)" "r \<noteq> Panic \<longrightarrow> K s t" by (rule agreeE)
  show "\<exists>r t. bind m f s = Some (r, t) \<and> bind m' f' s = Some (r, t) \<and> (r \<noteq> Panic \<longrightarrow> K s t)"
  proof (cases r)
    case (Ok x)
    with m(3) have k: "K s t" by simp
    then have "d \<le> depth_of t" using K_depth d order_trans by blast
    with assms(2) obtain r' u where "f x t = Some (r', u)" "f' x t = Some (r', u)" "r' \<noteq> Panic \<longrightarrow> K t u" by (rule agreeE)
    then show ?thesis using m Ok k K_trans by (auto simp: bind_def)
  qed (use m in \<open>auto simp: bind_def\<close>)
qed

lemma agree_capture: "agree d m m' \<Longrightarrow> agree d (capture m) (capture m')"
  unfolding agree_def capture_def by (fastforce split: outcome.splits)

lemma agree_finally: "agree d m m' \<Longrightarrow> agree d c c' \<Longrightarrow> agree d (finally_do m c) (finally_do m' c')"
  unfolding finally_do_def by (intro agree_bind agree_capture agree_result)

lemma agree_pure: "(\<And>s. \<exists>r t. m s = Some (r, t) \<and> (r \<noteq> Panic \<longrightarrow> K s t)) \<Longrightarrow> agree d m m"
  unfolding agree_def by blast

lemma agree_from: "agree d (from_global f) (from_global f)" "agree d (from_calls f') (from_calls f')"
  by (auto simp: agree_def from_global_def from_calls_def K_refl)

lemma agree_db: "writes_only f \<Longrightarrow> agree d (on_db f) (on_db f)"
proof (rule agree_pure)
  fix s :: "'s vm" assume f: "writes_only f"
  obtain r w where r: "f (database (vm_global s)) = (r, w)" by force
  with f have "db_steps (database (vm_global s)) w" unfolding writes_only_def by (metis snd_conv)
  with K_database r show "\<exists>r t. on_db f s = Some (r, t) \<and> (r \<noteq> Panic \<longrightarrow> K s t)"
    by (auto simp: on_db_def on_global_def with_database_def)
qed

lemma agree_tracker:
  "(\<And>s r t. f (cost_track (vm_global s)) = (r, t) \<Longrightarrow> r \<noteq> Panic \<Longrightarrow> K s (with_tracker t s)) \<Longrightarrow>
   agree d (on_tracker f) (on_tracker f)"
proof (rule agree_pure)
  fix s :: "'s vm"
  assume f: "\<And>s r t. f (cost_track (vm_global s)) = (r, t) \<Longrightarrow> r \<noteq> Panic \<Longrightarrow> K s (with_tracker t s)"
  obtain r t where r: "f (cost_track (vm_global s)) = (r, t)" by force
  with f [OF r] show "\<exists>r t. on_tracker f s = Some (r, t) \<and> (r \<noteq> Panic \<longrightarrow> K s t)"
    by (cases r) (auto simp: on_tracker_def on_global_def with_tracker_def)
qed

lemma with_tracker_same: "with_tracker (cost_track (vm_global s)) s = s"
  by (simp add: with_tracker_def)

lemma agree_add_cost: "(\<And>t. \<exists>c. snd (f t) = snd (add_cost t c) \<or> snd (f t) = t) \<Longrightarrow> agree d (on_tracker f) (on_tracker f)"
  by (rule agree_tracker) (metis K_charge K_refl snd_conv with_tracker_same)

lemma agree_charge: "agree d (charge sp n) (charge sp n)"
  unfolding charge_def by (rule agree_add_cost) (auto simp: runtime_cost_def split: outcome.splits)

lemma agree_type_check: "agree d (charge_type_check ty) (charge_type_check ty)"
  unfolding charge_type_check_def by (rule agree_add_cost) (auto split: outcome.splits)

lemma agree_memory: "agree d (env_add_memory n) (env_add_memory n)" "agree d (env_drop_memory n) (env_drop_memory n)"
proof -
  show "agree d (env_add_memory n) (env_add_memory n)"
    unfolding env_add_memory_def by (rule agree_tracker) (metis K_add_memory snd_conv)
  show "agree d (env_drop_memory n) (env_drop_memory n)"
    unfolding env_drop_memory_def
    by (rule agree_tracker) (auto simp: with_tracker_same K_refl intro: K_drop_memory split: outcome.splits)
qed

lemma agree_global: "(\<And>s. K s (s\<lparr>vm_global := snd (f (vm_global s))\<rparr>)) \<Longrightarrow> agree d (on_global f) (on_global f)"
  by (rule agree_pure) (auto simp: on_global_def split: prod.splits, metis snd_conv)

lemma agree_logs:
  "agree d (on_global (log_asset_transfer p c name v)) (on_global (log_asset_transfer p c name v))"
  "agree d (on_global (log_token_transfer p c name amount)) (on_global (log_token_transfer p c name amount))"
  "agree d (on_global (log_stx_transfer p amount)) (on_global (log_stx_transfer p amount))"
  "agree d (on_global (log_stx_burn p amount)) (on_global (log_stx_burn p amount))"
  by (rule agree_global, rule K_log_asset K_log_token K_log_stx K_log_burn)+

lemma agree_events: "agree d (on_global (\<lambda>g. (Ok (), push_event ev g))) (on_global (\<lambda>g. (Ok (), push_event ev g)))"
  by (rule agree_global) (simp add: K_event)

text \<open>Case distinctions on the same value.\<close>

lemma agree_if: "agree d m m' \<Longrightarrow> agree d n n' \<Longrightarrow> agree d (if b then m else n) (if b then m' else n')"
  by simp

lemma agree_prod: "(\<And>x y. agree d (f x y) (f' x y)) \<Longrightarrow> agree d (case p of (x, y) \<Rightarrow> f x y) (case p of (x, y) \<Rightarrow> f' x y)"
  by (cases p) simp

lemma agree_option:
  "agree d m m' \<Longrightarrow> (\<And>x. agree d (f x) (f' x)) \<Longrightarrow>
   agree d (case r of None \<Rightarrow> m | Some x \<Rightarrow> f x) (case r of None \<Rightarrow> m' | Some x \<Rightarrow> f' x)"
  by (cases r) simp_all

lemma agree_outcome:
  "(\<And>x. agree d (f x) (f' x)) \<Longrightarrow> (\<And>e. agree d (g e) (g' e)) \<Longrightarrow> agree d p p' \<Longrightarrow>
   agree d (case_outcome f g p r) (case_outcome f' g' p' r)"
  by (cases r) simp_all

lemma agree_val:
  assumes "\<And>x. agree d (f1 x) (g1 x)" "\<And>x. agree d (f2 x) (g2 x)" "\<And>x. agree d (f3 x) (g3 x)" "\<And>x. agree d (f4 x) (g4 x)"
    "\<And>x y z. agree d (f5 x y z) (g5 x y z)" "\<And>x. agree d (f6 x) (g6 x)" "\<And>x y. agree d (f7 x y) (g7 x y)"
    "\<And>x. agree d (f8 x) (g8 x)" "\<And>x y. agree d (f9 x y) (g9 x y)"
  shows "agree d (case_val f1 f2 f3 f4 f5 f6 f7 f8 f9 v) (case_val g1 g2 g3 g4 g5 g6 g7 g8 g9 v)"
  using assms by (cases v) simp_all

lemmas agree_intros = agree_result agree_bind agree_capture agree_finally agree_from agree_db agree_charge agree_type_check
  agree_memory agree_logs agree_events agree_if agree_prod agree_option agree_outcome agree_val writes_intros

definition interp_agree :: "nat \<Rightarrow> 's interp \<Rightarrow> 's interp \<Rightarrow> bool" where
  "interp_agree d R R' \<longleftrightarrow>
     (\<forall>e env context. agree d (r_eval R e env context) (r_eval R' e env context)) \<and>
     (\<forall>f args env context. agree d (r_apply R f args env context) (r_apply R' f args env context))"

lemma interp_agreeD:
  "interp_agree d R R' \<Longrightarrow> agree d (r_eval R e env context) (r_eval R' e env context)"
  "interp_agree d R R' \<Longrightarrow> agree d (r_apply R f args env context) (r_apply R' f args env context)"
  by (simp_all add: interp_agree_def)

lemma interp_agree_mono: "interp_agree d R R' \<Longrightarrow> d \<le> d' \<Longrightarrow> interp_agree d' R R'"
  unfolding interp_agree_def using agree_mono by blast

end

section \<open>The special functions\<close>

context vm_effect
begin

lemma agree_sizes [intro]: "agree d (size_of_value v) (size_of_value v)" "agree d (size_of_type ty) (size_of_type ty)"
    "agree d (get_memory_use v) (get_memory_use v)"
  unfolding size_of_value_def size_of_type_def get_memory_use_def by (rule agree_result)+

lemma agree_environments: "agree d (environment_new c sender caller) (environment_new c sender caller)"
    "agree d (nest_as_principal env v) (nest_as_principal env v)" "agree d (nest_with_caller env v) (nest_with_caller env v)"
  unfolding nest_as_principal_def nest_with_caller_def environment_new_def by (rule agree_result)+

lemma agree_lookup_function: "agree d (lookup_function h' name env) (lookup_function h' name env)"
  unfolding lookup_function_def by (intro agree_intros)

lemma agree_lookup_variable: "agree d (lookup_variable h' name context env) (lookup_variable h' name context env)"
proof -
  have "agree d (lookup_reserved_variable h' name env) (lookup_reserved_variable h' name env)"
    unfolding lookup_reserved_variable_def
    by (auto intro!: agree_intros split: option.splits native_variables.splits)
  then show ?thesis unfolding lookup_variable_def by (intro agree_intros agree_sizes)
qed

lemmas special_intros = agree_intros agree_sizes agree_environments agree_lookup_function interp_agreeD

lemma agree_loops:
  assumes R: "interp_agree d R R'"
  shows "agree d (eval_list R args env context) (eval_list R' args env context)"
    "agree d (or_loop R args env context) (or_loop R' args env context)"
    "agree d (and_loop R args env context) (and_loop R' args env context)"
    "agree d (parse_eval_bindings R args env context) (parse_eval_bindings R' args env context)"
    "agree d (filter_list R f env context vs) (filter_list R' f env context vs)"
    "agree d (map_loop R f env context vs) (map_loop R' f env context vs)"
  by (induction args; simp; intro special_intros R; assumption)+
    (induction vs; simp; intro special_intros R; assumption)+

lemma agree_state_loops:
  assumes R: "interp_agree d R R'"
  shows "agree d (filter_buffer R f env context bs) (filter_buffer R' f env context bs)"
    "agree d (fold_loop R f env context vs acc) (fold_loop R' f env context vs acc)"
    "agree d (let_bodies R env args inner last_result) (let_bodies R' env args inner last_result)"
    "agree d (let_bindings R env context args inner mem) (let_bindings R' env context args inner mem)"
proof -
  show "agree d (filter_buffer R f env context bs) (filter_buffer R' f env context bs)"
    by (induction bs; simp; intro special_intros R; assumption)
  show "agree d (fold_loop R f env context vs acc) (fold_loop R' f env context vs acc)"
    by (induction vs arbitrary: acc; simp; intro special_intros R; assumption)
  show "agree d (let_bodies R env args inner last_result) (let_bodies R' env args inner last_result)"
    by (induction args arbitrary: last_result; simp; intro special_intros R; assumption)
  show "agree d (let_bindings R env context args inner mem) (let_bindings R' env context args inner mem)"
  proof (induction args arbitrary: inner mem)
    case (Cons b bs)
    have "agree d (let_binding R env context inner mem b) (let_binding R' env context inner mem b)"
      unfolding let_binding_def by (intro special_intros R)
    with Cons.IH show ?case unfolding let_bindings.simps by (intro special_intros)
  qed (simp add: agree_result)
qed

lemmas loop_intros = special_intros agree_loops agree_state_loops

lemma agree_control:
  assumes R: "interp_agree d R R'"
  shows "agree d (special_or R args env context) (special_or R' args env context)"
    "agree d (special_and R args env context) (special_and R' args env context)"
    "agree d (special_if R args env context) (special_if R' args env context)"
    "agree d (special_asserts R args env context) (special_asserts R' args env context)"
    "agree d (special_let R args env context) (special_let R' args env context)"
    "agree d (special_as_contract R args env context) (special_as_contract R' args env context)"
    "agree d (tuple_cons R args env context) (tuple_cons R' args env context)"
    "agree d (tuple_get_fn R args env context) (tuple_get_fn R' args env context)"
    "agree d (list_cons R args env context) (list_cons R' args env context)"
    "agree d (special_filter h R args env context) (special_filter h R' args env context)"
    "agree d (special_fold h R args env context) (special_fold h R' args env context)"
    "agree d (special_map h R args env context) (special_map h R' args env context)"
    "agree d (special_append R args env context) (special_append R' args env context)"
    "agree d (special_concat R args env context) (special_concat R' args env context)"
    "agree d (special_as_max_len R args env context) (special_as_max_len R' args env context)"
  unfolding special_or_def special_and_def special_if_def special_asserts_def special_let_def special_as_contract_def
    tuple_cons_def tuple_get_fn_def list_cons_def special_filter_def special_fold_def special_map_def special_append_def
    special_concat_def special_as_max_len_def
  by (intro loop_intros R)+

lemma agree_print: "interp_agree d R R' \<Longrightarrow> agree d (special_print R args env context) (special_print R' args env context)"
  unfolding special_print_def register_print_event_def by (intro loop_intros)

lemma agree_match:
  assumes R: "interp_agree d R R'"
  shows "agree d (special_match R args env context) (special_match R' args env context)"
proof -
  have b: "agree d (eval_with_new_binding R body name v env context) (eval_with_new_binding R' body name v env context)" for body name v
    unfolding eval_with_new_binding_def by (intro special_intros R)
  have "agree d (special_match_opt v R as env context) (special_match_opt v R' as env context)"
    "agree d (special_match_resp c u R as env context) (special_match_resp c u R' as env context)" for v c u as
    unfolding special_match_opt_def special_match_resp_def by (intro special_intros R b)+
  then show ?thesis unfolding special_match_def by (intro special_intros R)
qed

end

section \<open>User functions and contracts\<close>

context vm_effect
begin

lemma agree_execute_apply:
  assumes R: "interp_agree d R R'"
  shows "agree d (execute_apply R f args env) (execute_apply R' f args env)"
proof -
  have "agree d (charge_type_checks ts) (charge_type_checks ts)" for ts
    by (induction ts; simp; intro special_intros; assumption)
  then show ?thesis unfolding execute_apply_def by (intro special_intros R)
qed

text \<open>A transaction around an action that agrees.\<close>

lemma agree_transaction:
  assumes m: "agree d m m'"
    and close: "\<And>s t r. K (started ro s) t \<Longrightarrow> d \<le> depth_of t \<Longrightarrow> r \<noteq> Panic \<Longrightarrow>
      \<exists>r' u. close r t = Some (r', u) \<and> (r' \<noteq> Panic \<longrightarrow> K s u)"
  defines "start \<equiv> on_global (\<lambda>g. (Ok (), if ro then global_begin_read_only g else global_begin g))"
  shows "agree d (bind start (\<lambda>_. bind (capture m) close)) (bind start (\<lambda>_. bind (capture m') close))"
proof (rule agreeI)
  fix s :: "'s vm" assume d: "d \<le> depth_of s"
  have start: "start s = Some (Ok (), started ro s)"
    by (simp add: start_def on_global_def started_def)
  have d': "d \<le> depth_of (started ro s)" using d K_begin K_depth order_trans by blast
  from m d' obtain r t where r: "m (started ro s) = Some (r, t)" "m' (started ro s) = Some (r, t)"
      "r \<noteq> Panic \<longrightarrow> K (started ro s) t" by (rule agreeE)
  show "\<exists>r t. bind start (\<lambda>_. bind (capture m) close) s = Some (r, t) \<and>
      bind start (\<lambda>_. bind (capture m') close) s = Some (r, t) \<and> (r \<noteq> Panic \<longrightarrow> K s t)"
  proof (cases "r = Panic")
    case True
    then show ?thesis using r start by (simp add: bind_def capture_def)
  next
    case False
    with r(3) have k: "K (started ro s) t" by simp
    then have "d \<le> depth_of t" using d' K_depth order_trans by blast
    from close [OF k this False] obtain r' u where "close r t = Some (r', u)" "r' \<noteq> Panic \<longrightarrow> K s u" by blast
    moreover have "bind start (\<lambda>_. bind (capture n) close) s = close r t" if "n (started ro s) = Some (r, t)" for n
      using start that False by (cases r) (simp_all add: bind_def capture_def)
    ultimately show ?thesis using r(1,2) by simp
  qed
qed

lemma close_roll_back:
  assumes "K (started ro s) t"
  shows "\<exists>r' u. bind (on_global global_roll_back) (\<lambda>_. result r) t = Some (r', u) \<and> (r' \<noteq> Panic \<longrightarrow> K s u)"
proof -
  obtain r' g where r': "global_roll_back (vm_global t) = (r', g)" by force
  with K_roll_back [OF assms r'] show ?thesis
    by (cases r') (auto simp: bind_def on_global_def result_def)
qed

lemma on_global_seq:
  assumes "f (vm_global t) = (r, g)" "r \<noteq> Panic \<longrightarrow> K s (t\<lparr>vm_global := g\<rparr>)"
  shows "\<exists>r' u. on_global (seq f (\<lambda>_. attempt x)) t = Some (r', u) \<and> (r' \<noteq> Panic \<longrightarrow> K s u)"
  using assms by (cases r) (auto simp: on_global_def seq_def attempt_def)

lemma give_attempt: "give v = attempt (Ok v)"
  by (simp add: fun_eq_iff give_def attempt_def)

lemma close_handle:
  assumes "K (started False s) t"
  shows "\<exists>r' u. on_global (handle_tx_result (backing h) r) t = Some (r', u) \<and> (r' \<noteq> Panic \<longrightarrow> K s u)"
proof -
  obtain rc gc where c: "global_commit (backing h) (vm_global t) = (rc, gc)" by force
  obtain rb gb where b: "global_roll_back (vm_global t) = (rb, gb)" by force
  have commit: "\<exists>r' u. on_global (seq (global_commit (backing h)) (\<lambda>_. attempt x)) t = Some (r', u) \<and> (r' \<noteq> Panic \<longrightarrow> K s u)" for x :: "(val, vm_error) outcome"
    using on_global_seq [of "global_commit (backing h)" t rc gc s] c K_commit [OF assms c] by blast
  have undo: "\<exists>r' u. on_global (seq global_roll_back (\<lambda>_. attempt x)) t = Some (r', u) \<and> (r' \<noteq> Panic \<longrightarrow> K s u)" for x :: "(val, vm_error) outcome"
    using on_global_seq [of global_roll_back t rb gb s] b K_roll_back [OF assms b] by blast
  have same: "\<exists>r' u. on_global (attempt x) t = Some (r', u) \<and> (r' \<noteq> Panic \<longrightarrow> K s u)" for x :: "(val, vm_error) outcome"
    using K_trans [OF K_begin assms] by (simp add: on_global_def attempt_def)
  show ?thesis
    unfolding handle_tx_result_def give_attempt using commit undo same by (auto split: outcome.splits val.splits)
qed

lemma agree_run_as_transaction:
  assumes R: "interp_agree d R R'"
  shows "agree d (run_as_transaction h R f args next env) (run_as_transaction h R' f args next env)"
  unfolding run_as_transaction_def
proof (rule agree_transaction)
  show "agree d
     (bind (environment_new (case next of None \<Rightarrow> env_contract env | Some c \<Rightarrow> c) (env_sender env) (env_caller env))
       (\<lambda>nested_env. execute_apply R f args nested_env))
     (bind (environment_new (case next of None \<Rightarrow> env_contract env | Some c \<Rightarrow> c) (env_sender env) (env_caller env))
       (\<lambda>nested_env. execute_apply R' f args nested_env))"
    by (intro special_intros agree_execute_apply R)
qed (use close_roll_back close_handle in \<open>auto split: if_splits\<close>)

lemma agree_df_apply:
  "interp_agree d R R' \<Longrightarrow> agree d (df_apply h R f args env) (df_apply h R' f args env)"
  unfolding df_apply_def
  by (cases "df_define_type f") (simp_all add: agree_execute_apply agree_run_as_transaction)

text \<open>A call: what runs between a push on the call stack and its removal.\<close>

definition closes :: "nat \<Rightarrow> function_identifier \<Rightarrow> bool \<Rightarrow> ('s, 'a) action \<Rightarrow> ('s, 'a) action \<Rightarrow> bool" where
  "closes d f track m m' \<longleftrightarrow>
     (\<forall>s s1. d \<le> depth_of s \<and> K (pushed f track s) s1 \<longrightarrow>
        (\<exists>r t. m s1 = Some (r, t) \<and> m' s1 = Some (r, t) \<and> (r \<noteq> Panic \<longrightarrow> K s t)))"

lemma depth_of_pushed: "depth_of (pushed f track s) = Suc (depth_of s)"
  by (simp add: depth_of_def pushed_def call_stack_depth_def call_stack_insert_def)

lemma closes_agree:
  assumes "agree (Suc d) m m'"
  shows "closes d f track m m'"
  unfolding closes_def
proof (intro allI impI, elim conjE)
  fix s s1 :: "'s vm" assume s: "d \<le> depth_of s" "K (pushed f track s) s1"
  then have "Suc d \<le> depth_of s1" using K_depth [OF s(2)] by (simp add: depth_of_pushed)
  with assms obtain r t where "m s1 = Some (r, t)" "m' s1 = Some (r, t)" "r \<noteq> Panic \<longrightarrow> K s1 t" by (rule agreeE)
  with K_trans [OF K_push K_trans [OF s(2)]] show "\<exists>r t. m s1 = Some (r, t) \<and> m' s1 = Some (r, t) \<and> (r \<noteq> Panic \<longrightarrow> K s t)"
    by blast
qed

lemma closes_remove: "closes d f track (on_calls (call_stack_remove f track)) (on_calls (call_stack_remove f track))"
  unfolding closes_def
proof (intro allI impI, elim conjE)
  fix s s1 :: "'s vm" assume s: "d \<le> depth_of s" "K (pushed f track s) s1"
  obtain r cs where r: "call_stack_remove f track (vm_calls s1) = (r, cs)" by force
  with K_pop [OF s(2) r] show "\<exists>r t. on_calls (call_stack_remove f track) s1 = Some (r, t) \<and>
      on_calls (call_stack_remove f track) s1 = Some (r, t) \<and> (r \<noteq> Panic \<longrightarrow> K s t)"
    by (auto simp: on_calls_def)
qed

lemma closes_bind_body:
  assumes m: "agree (Suc d) m m'" and f: "\<And>x. closes d i track (f x) (f' x)"
  shows "closes d i track (bind m f) (bind m' f')"
  unfolding closes_def
proof (intro allI impI, elim conjE)
  fix s s1 :: "'s vm" assume s: "d \<le> depth_of s" "K (pushed i track s) s1"
  then have "Suc d \<le> depth_of s1" using K_depth [OF s(2)] by (simp add: depth_of_pushed)
  with m obtain r t where r: "m s1 = Some (r, t)" "m' s1 = Some (r, t)" "r \<noteq> Panic \<longrightarrow> K s1 t" by (rule agreeE)
  show "\<exists>r t. bind m f s1 = Some (r, t) \<and> bind m' f' s1 = Some (r, t) \<and> (r \<noteq> Panic \<longrightarrow> K s t)"
  proof (cases r)
    case (Ok x)
    with r(3) have "K (pushed i track s) t" using K_trans s(2) by blast
    with f [of x] s(1) obtain r' u where "f x t = Some (r', u)" "f' x t = Some (r', u)" "r' \<noteq> Panic \<longrightarrow> K s u"
      unfolding closes_def by blast
    then show ?thesis using r Ok by (simp add: bind_def)
  next
    case (Err e)
    then show ?thesis using r K_trans [OF K_push K_trans [OF s(2)]] by (simp add: bind_def)
  qed (use r in \<open>simp add: bind_def\<close>)
qed

lemma closes_bind_rest:
  assumes m: "closes d i track m m'" and f: "\<And>x. agree d (f x) (f' x)"
  shows "closes d i track (bind m f) (bind m' f')"
  unfolding closes_def
proof (intro allI impI, elim conjE)
  fix s s1 :: "'s vm" assume s: "d \<le> depth_of s" "K (pushed i track s) s1"
  with m obtain r t where r: "m s1 = Some (r, t)" "m' s1 = Some (r, t)" "r \<noteq> Panic \<longrightarrow> K s t" unfolding closes_def by blast
  show "\<exists>r t. bind m f s1 = Some (r, t) \<and> bind m' f' s1 = Some (r, t) \<and> (r \<noteq> Panic \<longrightarrow> K s t)"
  proof (cases r)
    case (Ok x)
    with r(3) have k: "K s t" by simp
    then have "d \<le> depth_of t" using K_depth s(1) order_trans by blast
    with f [of x] obtain r' u where "f x t = Some (r', u)" "f' x t = Some (r', u)" "r' \<noteq> Panic \<longrightarrow> K t u" by (rule agreeE)
    then show ?thesis using r Ok K_trans [OF k] by (auto simp: bind_def)
  qed (use r in \<open>auto simp: bind_def\<close>)
qed

lemma closes_finally:
  assumes "agree (Suc d) m m'" "closes d i track c c'"
  shows "closes d i track (finally_do m c) (finally_do m' c')"
  unfolding finally_do_def
  by (intro closes_bind_body closes_bind_rest agree_capture agree_result assms)

lemma agree_call:
  assumes "closes d i track m m'"
  defines "push \<equiv> on_calls (\<lambda>cs. (Ok (), call_stack_insert i track cs))"
  shows "agree d (bind push (\<lambda>_. m)) (bind push (\<lambda>_. m'))"
proof (rule agreeI)
  fix s :: "'s vm" assume d: "d \<le> depth_of s"
  then have "\<exists>r t. m (pushed i track s) = Some (r, t) \<and> m' (pushed i track s) = Some (r, t) \<and> (r \<noteq> Panic \<longrightarrow> K s t)"
    using assms(1) K_refl unfolding closes_def by blast
  then show "\<exists>r t. bind push (\<lambda>_. m) s = Some (r, t) \<and> bind push (\<lambda>_. m') s = Some (r, t) \<and> (r \<noteq> Panic \<longrightarrow> K s t)"
    by (simp add: push_def bind_def on_calls_def pushed_def)
qed

lemma agree_execute_contract:
  assumes R: "interp_agree d R R'"
  shows "agree d (execute_contract h R contract tx_name args ro env) (execute_contract h R' contract tx_name args ro env)"
proof -
  have "interp_agree (Suc d) R R'" using R interp_agree_mono by simp
  note run = agree_call [OF closes_finally [OF agree_run_as_transaction [OF this] closes_remove]]
  show ?thesis unfolding execute_contract_def by (intro special_intros run)
qed

lemma agree_contract_call:
  assumes R: "interp_agree d R R'"
  shows "agree d (special_contract_call h R args env context) (special_contract_call h R' args env context)"
proof -
  have load: "agree d (load_contract_as h c) (load_contract_as h c)" for c
    unfolding load_contract_as_def by (intro special_intros)
  have dispatch: "agree d (dynamic_dispatch h name c tr env) (dynamic_dispatch h name c tr env)" for name c tr
    unfolding dynamic_dispatch_def by (intro special_intros load)
  have "agree d (call_target h name e env context) (call_target h name e env context)" for name e
    unfolding call_target_def
    by (auto intro!: special_intros dispatch split: symbolic_expression_type.splits val.splits principal_data.splits)
  then show ?thesis
    unfolding special_contract_call_def by (intro special_intros agree_loops R agree_execute_contract)
qed

lemma set_block_hash_kept: "db_set_block_hash h' bhh w = (Err e, w') \<Longrightarrow> w' = w"
  by (auto simp: db_set_block_hash_def split: outcome.splits prod.splits)

lemma on_db_eq: "db_set_block_hash h' bhh (database (vm_global s)) = (r, w) \<Longrightarrow> on_db (db_set_block_hash h' bhh) s = Some (r, with_database w s)"
  by (simp add: on_db_def on_global_def with_database_def)

definition time_shifted :: "'s interp \<Rightarrow> block_header_hash \<Rightarrow> symbolic_expression \<Rightarrow> local_context \<Rightarrow> environment \<Rightarrow> ('s, val) action" where
  "time_shifted R bhh closure local_ctx env =
     bind (on_db (db_set_block_hash h bhh)) (\<lambda>prior_bhh.
     bind (capture (r_eval R closure env local_ctx)) (\<lambda>r.
     bind (capture (on_db (db_set_block_hash h prior_bhh))) (\<lambda>restored.
     bind (result (expect restored)) (\<lambda>_. result r))))"

lemma time_shifted_eq:
  assumes "db_set_block_hash h bhh (database (vm_global s)) = (Ok prior, w1)"
    "r_eval R closure env local_ctx (with_database w1 s) = Some (r, t)" "r \<noteq> Panic"
    "db_set_block_hash h prior (database (vm_global t)) = (r2, w2)"
  shows "time_shifted R bhh closure local_ctx env s =
    Some (case r2 of Ok _ \<Rightarrow> r | _ \<Rightarrow> Panic, with_database w2 t)"
  using assms on_db_eq [OF assms(1)] on_db_eq [OF assms(4)]
  by (cases r; cases r2) (auto simp: time_shifted_def bind_def capture_def result_def)

lemma evaluate_at_block_eq:
  "evaluate_at_block h R bhh closure local_ctx env s =
     bind (capture (time_shifted R bhh closure local_ctx env)) (\<lambda>r. bind (on_global global_roll_back) (\<lambda>_. result r)) (started True s)"
  by (simp add: evaluate_at_block_def finally_do_def time_shifted_def bind_def [of "on_global (\<lambda>g. (Ok (), global_begin_read_only g))"]
      on_global_def [of "\<lambda>g. (Ok (), global_begin_read_only g)"] started_def)

lemma time_shifted_panic:
  assumes "db_set_block_hash h bhh (database (vm_global s)) = (Ok prior, w1)"
    "r_eval R closure env local_ctx (with_database w1 s) = Some (Panic, t)"
  shows "time_shifted R bhh closure local_ctx env s = Some (Panic, t)"
  using on_db_eq [OF assms(1)] assms(2) by (simp add: time_shifted_def bind_def capture_def)

text \<open>The evaluation at another block, once the block is set.\<close>

lemma at_block_effect:
  assumes set: "db_set_block_hash h bhh (database (vm_global (started True s))) = (Ok prior, w1)"
    and r: "r_eval R closure env local_ctx (with_database w1 (started True s)) = Some (r, t)"
      "r_eval R' closure env local_ctx (with_database w1 (started True s)) = Some (r, t)"
      "r \<noteq> Panic \<longrightarrow> K (with_database w1 (started True s)) t"
  shows "\<exists>r t. evaluate_at_block h R bhh closure local_ctx env s = Some (r, t) \<and>
    evaluate_at_block h R' bhh closure local_ctx env s = Some (r, t) \<and> (r \<noteq> Panic \<longrightarrow> K s t)"
proof (cases "r = Panic")
  case True
  with r time_shifted_panic [OF set] show ?thesis by (simp add: evaluate_at_block_eq bind_def capture_def)
next
  case False
  obtain r2 w2 where r2: "db_set_block_hash h prior (database (vm_global t)) = (r2, w2)" by force
  obtain r3 g where r3: "global_roll_back (vm_global (with_database w2 t)) = (r3, g)" by force
  note eq = time_shifted_eq [OF set _ False r2]
  have "K s (t\<lparr>vm_global := g\<rparr>)" if "r2 = Ok x" "r3 \<noteq> Panic" for x
    using K_at_block [OF set _ _ r3] r(3) False r2 that by simp
  moreover have "(with_database w2 t)\<lparr>vm_global := g\<rparr> = t\<lparr>vm_global := g\<rparr>" by (simp add: with_database_def)
  ultimately show ?thesis
    using eq [OF r(1)] eq [OF r(2)] r3 False
    by (cases r2; cases r3; cases r) (simp_all add: evaluate_at_block_eq bind_def capture_def on_global_def result_def)
qed

lemma agree_evaluate_at_block:
  assumes R: "interp_agree d R R'"
  shows "agree d (evaluate_at_block h R bhh closure local_ctx env) (evaluate_at_block h R' bhh closure local_ctx env)"
proof (rule agreeI)
  fix s :: "'s vm" assume d: "d \<le> depth_of s"
  let ?s = "started True s"
  obtain r1 w1 where set: "db_set_block_hash h bhh (database (vm_global ?s)) = (r1, w1)" by force
  show "\<exists>r t. evaluate_at_block h R bhh closure local_ctx env s = Some (r, t) \<and>
      evaluate_at_block h R' bhh closure local_ctx env s = Some (r, t) \<and> (r \<noteq> Panic \<longrightarrow> K s t)"
  proof (cases r1)
    case (Ok prior)
    have "d \<le> depth_of (with_database w1 ?s)" using d by (simp add: depth_of_def with_database_def started_def)
    with interp_agreeD(1) [OF R] obtain r t where "r_eval R closure env local_ctx (with_database w1 ?s) = Some (r, t)"
        "r_eval R' closure env local_ctx (with_database w1 ?s) = Some (r, t)" "r \<noteq> Panic \<longrightarrow> K (with_database w1 ?s) t"
      by (rule agreeE)
    then show ?thesis by (rule at_block_effect [OF set [unfolded Ok]])
  next
    case (Err e)
    have "time_shifted Q bhh closure local_ctx env ?s = Some (Err e, ?s)" for Q
      using on_db_eq [OF set] set_block_hash_kept [OF set [unfolded Err]] Err
      by (simp add: time_shifted_def bind_def with_database_def)
    then show ?thesis
      using close_roll_back [where ro = True and s = s and t = ?s and r = "Err e :: (val, vm_error) outcome", OF K_refl]
      by (simp add: evaluate_at_block_eq bind_def [of "capture _"] capture_def)
  next
    case Panic
    have "time_shifted Q bhh closure local_ctx env ?s = Some (Panic, with_database w1 ?s)" for Q
      using on_db_eq [OF set] Panic by (simp add: time_shifted_def bind_def)
    then show ?thesis by (simp add: evaluate_at_block_eq bind_def capture_def)
  qed
qed

lemma agree_at_block:
  assumes R: "interp_agree d R R'"
  shows "agree d (special_at_block h R args env context) (special_at_block h R' args env context)"
  unfolding special_at_block_def by (intro special_intros R agree_evaluate_at_block)

lemma agree_tuple_argument:
  assumes R: "interp_agree d R R'"
  shows "agree d (eval_tuple_argument R e env context) (eval_tuple_argument R' e env context)"
  unfolding eval_tuple_argument_def
  by (rule agree_bind [OF agree_result]) (auto intro!: agree_control interp_agreeD R split: tuple_definition_type.split)

lemma agree_writable: "agree d guard_writable guard_writable"
  unfolding guard_writable_def by (intro special_intros)

lemma agree_entry_size: "agree d (entry_size data) (entry_size data)"
  unfolding entry_size_def by (rule agree_result)

lemma agree_database:
  assumes R: "interp_agree d R R'"
  shows "agree d (special_fetch_variable h R args env context) (special_fetch_variable h R' args env context)"
    "agree d (special_set_variable h R args env context) (special_set_variable h R' args env context)"
    "agree d (special_fetch_entry h R args env context) (special_fetch_entry h R' args env context)"
    "agree d (special_set_entry h R args env context) (special_set_entry h R' args env context)"
    "agree d (special_insert_entry h R args env context) (special_insert_entry h R' args env context)"
    "agree d (special_delete_entry h R args env context) (special_delete_entry h R' args env context)"
    "agree d (special_get_block_info h R args env context) (special_get_block_info h R' args env context)"
  unfolding special_fetch_variable_def special_set_variable_def special_fetch_entry_def special_set_entry_def
    special_insert_entry_def write_entry_def special_delete_entry_def special_get_block_info_def
  by (intro special_intros R agree_tuple_argument agree_writable agree_entry_size)+

end

section \<open>Assets\<close>

context vm_effect
begin

lemma agree_asset_steps:
  "agree d (clarity_ecode n) (clarity_ecode n)"
  "agree d (add_memory_for ts) (add_memory_for ts)"
  "agree d (current_owner h name v env) (current_owner h name v env)"
  "agree d (check_asset ty v) (check_asset ty v)"
  "agree d (register (push_event ev)) (register (push_event ev))"
proof -
  show "agree d (clarity_ecode n) (clarity_ecode n)" unfolding clarity_ecode_def by (rule agree_result)
  show "agree d (add_memory_for ts) (add_memory_for ts)" by (induction ts; simp; intro special_intros; assumption)
  show "agree d (current_owner h name v env) (current_owner h name v env)"
    unfolding current_owner_def by (intro special_intros) (auto intro!: special_intros split: vm_error.splits runtime_error_type.splits outcome.splits)
  show "agree d (check_asset ty v) (check_asset ty v)" unfolding check_asset_def by (intro special_intros)
  show "agree d (register (push_event ev)) (register (push_event ev))" unfolding register_def by (rule agree_events)
qed

lemmas register_defs = register_stx_transfer_event_def register_stx_burn_event_def register_nft_transfer_event_def
  register_nft_mint_event_def register_ft_transfer_event_def register_ft_mint_event_def

lemma agree_movements:
  "agree d (stx_transfer h from to amount env) (stx_transfer h from to amount env)"
  "agree d (stx_burn h from amount env) (stx_burn h from amount env)"
  "agree d (ft_mint h name amount to env) (ft_mint h name amount to env)"
  "agree d (ft_transfer h name amount from to env) (ft_transfer h name amount from to env)"
  "agree d (nft_mint h name ty v to env) (nft_mint h name ty v to env)"
  "agree d (nft_transfer h name ty v from to env) (nft_transfer h name ty v from to env)"
  unfolding stx_transfer_def stx_burn_def ft_mint_def ft_transfer_def nft_mint_def nft_transfer_def register_defs
  by (intro special_intros agree_asset_steps)+

lemma agree_assets:
  assumes R: "interp_agree d R R'"
  shows "agree d (special_stx_transfer h R args env context) (special_stx_transfer h R' args env context)"
    "agree d (special_stx_burn h R args env context) (special_stx_burn h R' args env context)"
    "agree d (special_mint_token h R args env context) (special_mint_token h R' args env context)"
    "agree d (special_transfer_token h R args env context) (special_transfer_token h R' args env context)"
    "agree d (special_get_balance h R args env context) (special_get_balance h R' args env context)"
    "agree d (special_mint_asset h R args env context) (special_mint_asset h R' args env context)"
    "agree d (special_transfer_asset h R args env context) (special_transfer_asset h R' args env context)"
    "agree d (special_get_owner h R args env context) (special_get_owner h R' args env context)"
  unfolding special_stx_transfer_def special_stx_burn_def special_mint_token_def special_transfer_token_def
    special_get_balance_def special_mint_asset_def special_transfer_asset_def special_get_owner_def
  by (intro special_intros agree_asset_steps agree_movements R)+

end

section \<open>The interpreter\<close>

context vm_effect
begin

lemma agree_special:
  assumes R: "interp_agree d R R'"
  shows "agree d (call_special h f R args env context) (call_special h f R' args env context)"
proof -
  have "agree d (sp R args env context) (sp R' args env context)" if "(g, sp) \<in> set (special_table h)" for g sp
    using that unfolding special_table_def
    by (auto intro: R agree_control agree_print agree_match agree_contract_call agree_at_block agree_database agree_assets)
  then show ?thesis
    unfolding call_special_def by (auto intro: agree_result dest: map_of_SomeD split: option.split)
qed

text \<open>The evaluation of arguments leaves the call open when it succeeds, and closes it otherwise.\<close>

definition opens :: "nat \<Rightarrow> function_identifier \<Rightarrow> bool \<Rightarrow> ('s, 'a) action \<Rightarrow> ('s, 'a) action \<Rightarrow> bool" where
  "opens d f track m m' \<longleftrightarrow>
     (\<forall>s s1. d \<le> depth_of s \<and> K (pushed f track s) s1 \<longrightarrow>
        (\<exists>r t. m s1 = Some (r, t) \<and> m' s1 = Some (r, t) \<and>
          (case r of Ok _ \<Rightarrow> K (pushed f track s) t | Err _ \<Rightarrow> K s t | Panic \<Rightarrow> True)))"

lemma opens_ret: "opens d f track (ret x) (ret x)"
  by (simp add: opens_def result_def)

lemma opens_bind:
  assumes m: "agree (Suc d) m m'" and f: "\<And>x. opens d i track (f x) (f' x)"
  shows "opens d i track (bind m f) (bind m' f')"
  unfolding opens_def
proof (intro allI impI, elim conjE)
  fix s s1 :: "'s vm" assume s: "d \<le> depth_of s" "K (pushed i track s) s1"
  then have "Suc d \<le> depth_of s1" using K_depth [OF s(2)] by (simp add: depth_of_pushed)
  with m obtain r t where r: "m s1 = Some (r, t)" "m' s1 = Some (r, t)" "r \<noteq> Panic \<longrightarrow> K s1 t" by (rule agreeE)
  then have k: "r \<noteq> Panic \<longrightarrow> K (pushed i track s) t" using K_trans s(2) by blast
  show "\<exists>r t. bind m f s1 = Some (r, t) \<and> bind m' f' s1 = Some (r, t) \<and>
      (case r of Ok _ \<Rightarrow> K (pushed i track s) t | Err _ \<Rightarrow> K s t | Panic \<Rightarrow> True)"
  proof (cases r)
    case (Ok x)
    with k f [of x] s(1) obtain r' u where "f x t = Some (r', u)" "f' x t = Some (r', u)"
        "case r' of Ok _ \<Rightarrow> K (pushed i track s) u | Err _ \<Rightarrow> K s u | Panic \<Rightarrow> True"
      unfolding opens_def by blast
    then show ?thesis using r Ok by (simp add: bind_def)
  qed (use r k K_trans [OF K_push] in \<open>auto simp: bind_def\<close>)
qed

lemma opens_extend:
  assumes m: "opens d i track m m'"
  shows "opens d i track (bind m (\<lambda>x. ret (g x))) (bind m' (\<lambda>x. ret (g x)))"
  unfolding opens_def
proof (intro allI impI, elim conjE)
  fix s s1 :: "'s vm" assume s: "d \<le> depth_of s" "K (pushed i track s) s1"
  with m obtain r t where "m s1 = Some (r, t)" "m' s1 = Some (r, t)"
      "case r of Ok _ \<Rightarrow> K (pushed i track s) t | Err _ \<Rightarrow> K s t | Panic \<Rightarrow> True" unfolding opens_def by blast
  then show "\<exists>r t. bind m (\<lambda>x. ret (g x)) s1 = Some (r, t) \<and> bind m' (\<lambda>x. ret (g x)) s1 = Some (r, t) \<and>
      (case r of Ok _ \<Rightarrow> K (pushed i track s) t | Err _ \<Rightarrow> K s t | Panic \<Rightarrow> True)"
    by (cases r) (auto simp: bind_def result_def)
qed

lemma opens_unwind: "opens d i track (bind (unwind i track mem) (\<lambda>_. result (Err e))) (bind (unwind i track mem) (\<lambda>_. result (Err e)))"
proof -
  have "closes d i track (bind (unwind i track mem) (\<lambda>_. result (Err e))) (bind (unwind i track mem) (\<lambda>_. result (Err e)))"
    unfolding unwind_def by (intro closes_bind_rest closes_bind_body agree_memory closes_remove agree_result)
  moreover have "bind m (\<lambda>_. result (Err e)) s1 \<noteq> Some (Ok x, t)" for m :: "('s, unit) action" and s1 x t
    by (auto simp: bind_def result_def split: option.splits outcome.splits prod.splits)
  ultimately show ?thesis unfolding opens_def closes_def by (fastforce split: outcome.splits)
qed

lemma closes_opens:
  assumes m: "opens d i track m m'" and f: "\<And>x. closes d i track (f x) (f' x)"
  shows "closes d i track (bind m f) (bind m' f')"
  unfolding closes_def
proof (intro allI impI, elim conjE)
  fix s s1 :: "'s vm" assume s: "d \<le> depth_of s" "K (pushed i track s) s1"
  with m obtain r t where r: "m s1 = Some (r, t)" "m' s1 = Some (r, t)"
      "case r of Ok _ \<Rightarrow> K (pushed i track s) t | Err _ \<Rightarrow> K s t | Panic \<Rightarrow> True" unfolding opens_def by blast
  show "\<exists>r t. bind m f s1 = Some (r, t) \<and> bind m' f' s1 = Some (r, t) \<and> (r \<noteq> Panic \<longrightarrow> K s t)"
  proof (cases r)
    case (Ok x)
    with r f [of x] s(1) obtain r' u where "f x t = Some (r', u)" "f' x t = Some (r', u)" "r' \<noteq> Panic \<longrightarrow> K s u"
      unfolding closes_def by fastforce
    then show ?thesis using r Ok by (simp add: bind_def)
  qed (use r in \<open>auto simp: bind_def\<close>)
qed

lemma opens_evaluate_args:
  assumes R: "interp_agree (Suc d) R R'"
  shows "opens d i track (evaluate_args R i track env context args mem) (evaluate_args R' i track env context args mem)"
proof (induction args arbitrary: mem)
  case (Cons a as)
  have panic: "opens d i track (result Panic) (result Panic)" by (simp add: opens_def result_def)
  have outcome: "opens d i track (case_outcome f g p r) (case_outcome f' g' p' r)"
    if "\<And>x. opens d i track (f x) (f' x)" "\<And>e. opens d i track (g e) (g' e)" "opens d i track p p'"
    for f f' :: "'b \<Rightarrow> ('s, val list \<times> u64) action" and g g' :: "vm_error \<Rightarrow> ('s, val list \<times> u64) action" and p p' r
    using that by (cases r) simp_all
  have rest: "opens d i track
      (bind (evaluate_args R i track env context as m) (\<lambda>(vs, u). ret (v # vs, u)))
      (bind (evaluate_args R' i track env context as m) (\<lambda>(vs, u). ret (v # vs, u)))" for v m
    using opens_extend [OF Cons.IH, of m "\<lambda>(vs, u). (v # vs, u)"] by (simp add: case_prod_unfold)
  show ?case
    unfolding evaluate_args.simps
    by (rule opens_bind [OF agree_capture [OF interp_agreeD(1) [OF R]]], rule outcome,
        rule opens_bind [OF agree_sizes(3)], rule opens_bind [OF agree_capture [OF agree_memory(1)]], rule outcome)
      (rule rest opens_unwind panic)+
qed (simp add: opens_ret)

lemma closes_unwind: "closes d i track (unwind i track mem) (unwind i track mem)"
  unfolding unwind_def by (intro closes_bind_body agree_memory closes_remove)

lemma closes_apply_body:
  assumes R: "interp_agree (Suc d) R R'"
  shows "closes d i track (apply_body h R f args env context i track) (apply_body h R' f args env context i track)"
proof -
  have "closes d i track (case p of (vs, mem) \<Rightarrow> g vs mem) (case p of (vs, mem) \<Rightarrow> g' vs mem)"
    if "\<And>vs mem. closes d i track (g vs mem) (g' vs mem)" for g g' :: "val list \<Rightarrow> u64 \<Rightarrow> ('s, val) action" and p
    using that by (cases p) simp
  note arguments = closes_opens [OF opens_evaluate_args [OF R] this]
  show ?thesis
  proof (cases f)
    case (UserFunction uf)
    then show ?thesis
      unfolding apply_body_def callable_type.case
      by (simp, intro arguments closes_finally agree_df_apply R closes_unwind)
  next
    case (NativeFunction name handle cost)
    then show ?thesis
      unfolding apply_body_def callable_type.case
      by (simp, intro arguments closes_bind_body closes_finally agree_charge agree_result closes_unwind)
  next
    case (SpecialFunction name sf)
    then show ?thesis
      unfolding apply_body_def callable_type.case
      by (simp, intro closes_finally agree_special R closes_remove)
  qed
qed

definition tracked :: "callable_type \<Rightarrow> bool" where
  "tracked f = (case f of UserFunction _ \<Rightarrow> True | _ \<Rightarrow> False)"

lemma apply_step_eq:
  "apply_step h R f args env context s =
     (if tracked f \<and> call_stack_contains (vm_calls s) (callable_identifier f)
      then Some (Err (Unchecked (CircularReference [callable_identifier f])), s)
      else if MAX_CALL_STACK_DEPTH \<le> depth_of s then Some (Err (Runtime MaxStackDepthReached), s)
      else bind (on_calls (\<lambda>cs. (Ok (), call_stack_insert (callable_identifier f) (tracked f) cs)))
             (\<lambda>_. apply_body h R f args env context (callable_identifier f) (tracked f)) s)"
  by (simp add: apply_step_def tracked_def [symmetric] Let_def bind_def [of "from_calls _"] from_calls_def depth_of_def result_def)

lemma agree_apply_step:
  assumes R: "d < MAX_CALL_STACK_DEPTH \<Longrightarrow> interp_agree (Suc d) R R'"
  shows "agree d (apply_step h R f args env context) (apply_step h R' f args env context)"
proof (rule agreeI)
  fix s :: "'s vm" assume d: "d \<le> depth_of s"
  show "\<exists>r t. apply_step h R f args env context s = Some (r, t) \<and> apply_step h R' f args env context s = Some (r, t) \<and>
      (r \<noteq> Panic \<longrightarrow> K s t)"
  proof (cases "depth_of s < MAX_CALL_STACK_DEPTH")
    case True
    then have "interp_agree (Suc d) R R'" using R d by simp
    from agree_call [OF closes_apply_body [OF this]] d obtain r t where
      "bind (on_calls (\<lambda>cs. (Ok (), call_stack_insert (callable_identifier f) (tracked f) cs)))
         (\<lambda>_. apply_body h R f args env context (callable_identifier f) (tracked f)) s = Some (r, t)"
      "bind (on_calls (\<lambda>cs. (Ok (), call_stack_insert (callable_identifier f) (tracked f) cs)))
         (\<lambda>_. apply_body h R' f args env context (callable_identifier f) (tracked f)) s = Some (r, t)"
      "r \<noteq> Panic \<longrightarrow> K s t" by (rule agreeE)
    then show ?thesis using K_refl by (simp add: apply_step_eq)
  qed (simp add: apply_step_eq K_refl)
qed

lemma agree_eval_step:
  assumes R: "d < MAX_CALL_STACK_DEPTH \<Longrightarrow> interp_agree (Suc d) R R'"
  shows "agree d (eval_step h R e env context) (eval_step h R' e env context)"
  unfolding eval_step_def
  by (auto intro!: agree_result agree_lookup_variable agree_bind agree_lookup_function agree_apply_step R
      split: symbolic_expression_type.splits list.splits)

lemma interpreter_agree:
  assumes "1 \<le> n" "1 \<le> m" "65 \<le> n + d" "65 \<le> m + d"
  shows "interp_agree d (interpreter h n) (interpreter h m)"
  using assms
proof (induction n arbitrary: m d)
  case (Suc n)
  then obtain k where m: "m = Suc k" by (cases m) auto
  have "interp_agree (Suc d) (interpreter h n) (interpreter h k)" if "d < MAX_CALL_STACK_DEPTH"
    using Suc.prems m that by (intro Suc.IH) (simp_all add: MAX_CALL_STACK_DEPTH_def)
  then show ?case using m agree_eval_step agree_apply_step by (simp add: interp_agree_def)
qed simp

text \<open>Evaluation with enough fuel: it ends, the amount of fuel does not matter, and it has the effect.\<close>

lemma eval_effect:
  assumes "FUEL \<le> n"
  shows "\<exists>r t. r_eval (interpreter h n) e env context s = Some (r, t) \<and> vm_eval h e env context s = Some (r, t) \<and>
    (r \<noteq> Panic \<longrightarrow> K s t)"
proof -
  have "interp_agree 0 (interpreter h n) (interpreter h FUEL)"
    using assms by (intro interpreter_agree) (simp_all add: FUEL_def)
  from interp_agreeD(1) [OF this] show ?thesis unfolding vm_eval_def agree_def by simp
qed

lemma apply_effect:
  assumes "FUEL \<le> n"
  shows "\<exists>r t. r_apply (interpreter h n) f args env context s = Some (r, t) \<and> vm_apply h f args env context s = Some (r, t) \<and>
    (r \<noteq> Panic \<longrightarrow> K s t)"
proof -
  have "interp_agree 0 (interpreter h n) (interpreter h FUEL)"
    using assms by (intro interpreter_agree) (simp_all add: FUEL_def)
  from interp_agreeD(2) [OF this] show ?thesis unfolding vm_apply_def agree_def by simp
qed

end

end
