(* ===== verification/EvaluatorLaws.thy ===== *)
theory EvaluatorLaws
  imports Effects DatabaseLaws
begin

text \<open>
  What holds of every evaluation, by interpretations of the effects of \<open>Effects\<close> on the machine: the call stack, the
  costs and the nested contexts. Evaluation ends, satisfies the recursion of \<open>eval\<close> and \<open>apply\<close> in \<open>src/src/vm/mod.rs\<close>,
  never refunds a cost, and never touches the contexts below the one in which it started. So a call without an ok answer is undone by rolling back
  the contexts that it left open.
\<close>

section \<open>Runs of an action\<close>

lemma bind_Ok: "bind m f s = Some (Ok v, t) \<longleftrightarrow> (\<exists>x u. m s = Some (Ok x, u) \<and> f x u = Some (Ok v, t))"
  by (auto simp: bind_def split: option.splits outcome.splits)

lemma bind_elim:
  assumes "bind m f s = Some (r, t)"
  obtains x u where "m s = Some (Ok x, u)" "f x u = Some (r, t)" | r' where "m s = Some (r', t)"
  using assms by (auto simp: bind_def split: option.splits outcome.splits)

section \<open>The depth of the call stack\<close>

lemma depth_of_simps [simp]:
  "depth_of (with_tracker tr s) = depth_of s" "depth_of (with_database w s) = depth_of s"
  "depth_of (s\<lparr>vm_global := g\<rparr>) = depth_of s" "depth_of (started ro s) = depth_of s"
  "depth_of (pushed f track s) = Suc (depth_of s)"
  by (simp_all add: depth_of_def with_tracker_def with_database_def started_def pushed_def call_stack_depth_def call_stack_insert_def)

lemma depth_of_removed:
  assumes "call_stack_remove f track (vm_calls t) = (rc, cs)" "Suc d \<le> depth_of t"
  shows "d \<le> depth_of (t\<lparr>vm_calls := cs\<rparr>)"
  using assms by (auto simp: call_stack_remove_def depth_of_def call_stack_depth_def Let_def split: if_splits)

interpretation deepening: vm_effect h "\<lambda>s t. depth_of s \<le> depth_of t" for h
  by unfold_locales (auto intro: depth_of_removed)

section \<open>Costs\<close>

text \<open>The total cost in every dimension, with the limits fixed.\<close>

definition spends :: "'s vm \<Rightarrow> 's vm \<Rightarrow> bool" where
  "spends s t \<longleftrightarrow> depth_of s \<le> depth_of t \<and>
     cost_le (total (cost_track (vm_global s))) (total (cost_track (vm_global t))) \<and>
     limit (cost_track (vm_global t)) = limit (cost_track (vm_global s)) \<and>
     memory_limit (cost_track (vm_global t)) = memory_limit (cost_track (vm_global s))"

lemma add_cost_spends:
  "cost_le (total t) (total (snd (add_cost t c)))" "memory_limit (snd (add_cost t c)) = memory_limit t"
  by (auto simp: add_cost_def split: prod.split outcome.split dest: cost_add_mono)

lemma add_memory_spends:
  "total (snd (add_memory t n)) = total t" "limit (snd (add_memory t n)) = limit t"
  "memory_limit (snd (add_memory t n)) = memory_limit t"
  by (auto simp: add_memory_def assign_try_def split: outcome.split)

lemma drop_memory_spends:
  "drop_memory t n = Ok u \<Longrightarrow> total u = total t \<and> limit u = limit t \<and> memory_limit u = memory_limit t"
  by (auto simp: drop_memory_def split: option.splits)

lemma cost_track_begin [simp]: "cost_track (global_begin g) = cost_track g" "cost_track (global_begin_read_only g) = cost_track g"
  by (simp_all add: global_begin_def global_begin_read_only_def)

lemma cost_track_on_database: "cost_track (snd (on_database f g)) = cost_track g"
  by (simp add: on_database_def split: outcome.split)

lemma cost_track_on_asset_map: "cost_track (snd (on_asset_map f g)) = cost_track g"
  by (simp add: on_asset_map_def split: outcome.split)

lemma cost_track_log [simp]:
  "cost_track (snd (log_asset_transfer p q name v g)) = cost_track g"
  "cost_track (snd (log_token_transfer p q name amount g)) = cost_track g"
  "cost_track (snd (log_stx_transfer p amount g)) = cost_track g" "cost_track (snd (log_stx_burn p amount g)) = cost_track g"
  "cost_track (push_event ev g) = cost_track g"
  by (simp_all add: log_asset_transfer_def log_token_transfer_def log_stx_transfer_def log_stx_burn_def
      cost_track_on_asset_map push_event_def)

lemma cost_track_roll_back: "global_roll_back g = (r, g') \<Longrightarrow> cost_track g' = cost_track g"
  by (auto simp: global_roll_back_def on_database_def split: if_splits outcome.splits)

lemma cost_track_commit: "global_commit bs g = (r, g') \<Longrightarrow> cost_track g' = cost_track g"
  by (auto simp: global_commit_def on_database_def Let_def seq_def give_def split: if_splits outcome.splits prod.splits)

lemmas spends_simps = spends_def with_tracker_def with_database_def started_def pushed_def add_cost_spends add_memory_spends

lemma spends_closed:
  "spends (started ro s) t \<Longrightarrow> cost_track g = cost_track (vm_global t) \<Longrightarrow> spends s (t\<lparr>vm_global := g\<rparr>)"
  by (cases ro) (simp_all add: spends_def, simp_all add: started_def)

lemma spends_popped:
  "spends (pushed f track s) t \<Longrightarrow> call_stack_remove f track (vm_calls t) = (rc, cs) \<Longrightarrow> spends s (t\<lparr>vm_calls := cs\<rparr>)"
  by (auto simp: spends_def intro: depth_of_removed) (simp_all add: pushed_def)

lemma spends_at_block:
  assumes "spends (with_database w1 (started True s)) t" "cost_track g = cost_track (vm_global t)"
  shows "spends s (t\<lparr>vm_global := g\<rparr>)"
  using assms by (intro spends_closed [where ro = True]) (simp_all add: spends_def, simp add: with_database_def)

interpretation spending: vm_effect h spends for h
proof
  show "spends s s2" if "spends s s1" "spends s1 s2" for s s1 s2 :: "'a vm"
    using that by (auto simp: spends_def intro: cost_le_trans)
  show "spends s (t\<lparr>vm_calls := cs\<rparr>)" if "spends (pushed f track s) t" "call_stack_remove f track (vm_calls t) = (rc, cs)"
    for f track cs rc and s t :: "'a vm"
    using that by (rule spends_popped)
  show "spends s (t\<lparr>vm_global := g\<rparr>)" if "spends (started False s) t" "global_commit (backing h) (vm_global t) = (rg, g)"
    for s t :: "'a vm" and rg g
    using that cost_track_commit by (intro spends_closed) blast+
  show "spends s (t\<lparr>vm_global := g\<rparr>)" if "spends (started ro s) t" "global_roll_back (vm_global t) = (r, g)"
    for s t :: "'a vm" and ro r g
    using that cost_track_roll_back by (intro spends_closed) blast+
  show "spends s (t\<lparr>vm_global := g\<rparr>)" if "spends (with_database w1 (started True s)) t"
    "global_roll_back (vm_global (with_database w2 t)) = (r, g)" for s t :: "'a vm" and w1 w2 r g
    using that(1) cost_track_roll_back [OF that(2)] by (intro spends_at_block) (simp_all add: with_database_def)
qed (auto simp: spends_simps dest: drop_memory_spends, simp_all add: depth_of_def call_stack_depth_def call_stack_insert_def)

section \<open>Contexts\<close>

text \<open>
  A back end keeps time shifts apart when returning to the prior block gives the store it had there, as
  \<open>set_block_hash\<close> of \<open>src/src/vm/database/marf.rs\<close> does by changing its chain tip only.
\<close>

definition block_hash_restores :: "'s backing_store \<Rightarrow> bool" where
  "block_hash_restores bs \<longleftrightarrow>
     (\<forall>bhh s prior s1 x s2. bs_set_block_hash bs bhh s = Ok (prior, s1) \<longrightarrow> bs_set_block_hash bs prior s1 = Ok (x, s2) \<longrightarrow> s2 = s)"

text \<open>Every frame around the context before is a frame around the context after, with no fewer contexts in it.\<close>

definition keeps_frames :: "'s vm \<Rightarrow> 's vm \<Rightarrow> bool" where
  "keeps_frames s t \<longleftrightarrow> depth_of s \<le> depth_of t \<and>
     (\<forall>b d. framed b (Suc d) (vm_global s) \<longrightarrow> (\<exists>e\<ge>d. framed b (Suc e) (vm_global t)))"

lemma keeps_framesI:
  "depth_of s \<le> depth_of t \<Longrightarrow>
   (\<And>b d. framed b (Suc d) (vm_global s) \<Longrightarrow> \<exists>e. d \<le> e \<and> framed b (Suc e) (vm_global t)) \<Longrightarrow> keeps_frames s t"
  by (simp add: keeps_frames_def)

lemma keeps_framesE:
  assumes "keeps_frames s t" "framed b (Suc d) (vm_global s)"
  obtains e where "d \<le> e" "framed b (Suc e) (vm_global t)"
  using assms unfolding keeps_frames_def by blast

lemma keeps_frames_same:
  "(\<And>b d. framed b (Suc d) (vm_global s) \<Longrightarrow> framed b (Suc d) g) \<Longrightarrow> keeps_frames s (s\<lparr>vm_global := g\<rparr>)"
  by (rule keeps_framesI) auto

lemma framed_db_steps:
  assumes "db_steps (database g) w" "framed b (Suc d) g"
  shows "framed b (Suc d) (g\<lparr>database := w\<rparr>)"
  using assms
proof (induction "database g" w rule: db_steps.induct)
  case (db_put w1 key x w2)
  have "framed b (Suc d) (snd (on_database (put key x) (g\<lparr>database := w1\<rparr>)))"
    by (rule conjunct2 [OF framed_database [OF db_put(2) [OF db_put(4)]]])
      (drule represents_put [where k = key and v = x], blast)
  with db_put(3) show ?case by (simp add: on_database_def)
next
  case (db_metadata w1 key x w2)
  have "framed b (Suc d) (snd (on_database (insert_metadata key x) (g\<lparr>database := w1\<rparr>)))"
    by (rule conjunct2 [OF framed_database [OF db_metadata(2) [OF db_metadata(4)]]])
      (drule represents_insert_metadata [where k = key and v = x], blast)
  with db_metadata(3) show ?case by (simp add: on_database_def)
qed simp

lemma framed_store:
  "framed b k g \<Longrightarrow> framed (b\<lparr>database := (database b)\<lparr>store := x\<rparr>\<rparr>) k (g\<lparr>database := (database g)\<lparr>store := x\<rparr>\<rparr>)"
proof -
  assume "framed b k g"
  then obtain maps batches flags logs inner s where *:
    "asset_maps g = asset_maps b @ maps" "event_batches g = event_batches b @ batches" "read_only g = read_only b @ flags"
    "represents (database b) (logs, s)" "represents (database g) (logs @ inner, s)" "length maps = k" "length batches = k"
    "length flags = k" "length inner = k" "list_all asset_map_wf maps"
    unfolding framed_def by blast
  then show ?thesis
    by (intro framedI [where maps = maps and batches = batches and flags = flags and logs = logs and inner = inner and s = x])
      (simp_all add: represents_def)
qed

lemma framed_same_store: "framed b k g \<Longrightarrow> store (database g) = store (database b)"
  unfolding framed_def represents_def by auto

lemma db_set_block_hash_Ok:
  "db_set_block_hash h bhh w = (Ok prior, w') \<Longrightarrow>
   \<exists>x. bs_set_block_hash (backing h) bhh (store w) = Ok (prior, x) \<and> w' = w\<lparr>store := x\<rparr>"
  by (auto simp: db_set_block_hash_def set_block_hash_def map_ok_def split: outcome.splits prod.splits)

lemma keeps_frames_started: "keeps_frames s (started ro s)"
proof (rule keeps_framesI)
  fix b d assume "framed b (Suc d) (vm_global s)"
  from framed_begin [OF this] show "\<exists>e. d \<le> e \<and> framed b (Suc e) (vm_global (started ro s))"
    by (intro exI [of _ "Suc d"]) (simp add: started_def)
qed simp

lemma framed_started: "framed b (Suc d) (vm_global s) \<Longrightarrow> framed b (Suc (Suc d)) (vm_global (started ro s))"
  using framed_begin [of b "Suc d" "vm_global s"] by (simp add: started_def)

lemma keeps_frames_committed:
  assumes "keeps_frames (started ro s) t" "global_commit bs (vm_global t) = (r, g)"
  shows "keeps_frames s (t\<lparr>vm_global := g\<rparr>)"
proof (rule keeps_framesI)
  fix b d assume "framed b (Suc d) (vm_global s)"
  with assms(1) obtain e where e: "Suc d \<le> e" "framed b (Suc e) (vm_global t)"
    by (meson framed_started keeps_framesE)
  then obtain e' where "e = Suc e'" by (cases e) auto
  with e framed_commit [of b e' "vm_global t" bs] assms(2) show "\<exists>e. d \<le> e \<and> framed b (Suc e) (vm_global (t\<lparr>vm_global := g\<rparr>))"
    by auto
qed (use assms in \<open>simp add: keeps_frames_def\<close>)

lemma keeps_frames_rolled_back:
  assumes "keeps_frames (started ro s) t" "global_roll_back (vm_global t) = (r, g)"
  shows "keeps_frames s (t\<lparr>vm_global := g\<rparr>)"
proof (rule keeps_framesI)
  fix b d assume "framed b (Suc d) (vm_global s)"
  with assms(1) obtain e where e: "Suc d \<le> e" "framed b (Suc e) (vm_global t)"
    by (meson framed_started keeps_framesE)
  then obtain e' where "e = Suc e'" by (cases e) auto
  with e framed_roll_back [of b e "vm_global t"] assms(2) show "\<exists>e. d \<le> e \<and> framed b (Suc e) (vm_global (t\<lparr>vm_global := g\<rparr>))"
    by auto
qed (use assms in \<open>simp add: keeps_frames_def\<close>)

lemma keeps_frames_at_block:
  assumes "block_hash_restores (backing h)"
    and "db_set_block_hash h bhh (database (vm_global (started True s))) = (Ok prior, w1)"
    and "keeps_frames (with_database w1 (started True s)) t"
    and "db_set_block_hash h prior (database (vm_global t)) = (Ok x, w2)"
    and "global_roll_back (vm_global (with_database w2 t)) = (r, g)"
  shows "keeps_frames s (t\<lparr>vm_global := g\<rparr>)"
proof (rule keeps_framesI)
  fix b d assume "framed b (Suc d) (vm_global s)"
  then have fr: "framed b (Suc (Suc d)) (vm_global (started True s))" by (rule framed_started)
  obtain x1 where x1: "bs_set_block_hash (backing h) bhh (store (database (vm_global (started True s)))) = Ok (prior, x1)"
    "w1 = (database (vm_global (started True s)))\<lparr>store := x1\<rparr>"
    using db_set_block_hash_Ok [OF assms(2)] by blast
  let ?b = "b\<lparr>database := (database b)\<lparr>store := x1\<rparr>\<rparr>"
  have "framed ?b (Suc (Suc d)) (vm_global (with_database w1 (started True s)))"
    using framed_store [OF fr] x1 by (simp add: with_database_def)
  with assms(3) obtain e where e: "Suc d \<le> e" "framed ?b (Suc e) (vm_global t)" by (rule keeps_framesE)
  obtain x2 where x2: "bs_set_block_hash (backing h) prior (store (database (vm_global t))) = Ok (x, x2)"
    "w2 = (database (vm_global t))\<lparr>store := x2\<rparr>"
    using db_set_block_hash_Ok [OF assms(4)] by blast
  have "store (database (vm_global t)) = x1" using framed_same_store [OF e(2)] by simp
  with assms(1) x1 x2 have "x2 = store (database (vm_global (started True s)))" unfolding block_hash_restores_def by blast
  then have "x2 = store (database b)" using framed_same_store [OF fr] by simp
  with framed_store [OF e(2), of x2] x2(2) have "framed b (Suc e) (vm_global (with_database w2 t))"
    by (simp add: with_database_def)
  then obtain g' where "global_roll_back (vm_global (with_database w2 t)) = (Ok (), g')" "framed b e g'"
    using framed_roll_back by blast
  with assms(5) e(1) show "\<exists>e. d \<le> e \<and> framed b (Suc e) (vm_global (t\<lparr>vm_global := g\<rparr>))"
    by (intro exI [of _ "e - 1"]) auto
qed (use assms(3) in \<open>simp add: keeps_frames_def\<close>)

lemma keeps_frames_popped:
  "keeps_frames (pushed f track s) t \<Longrightarrow> call_stack_remove f track (vm_calls t) = (rc, cs) \<Longrightarrow> keeps_frames s (t\<lparr>vm_calls := cs\<rparr>)"
  by (auto simp: keeps_frames_def intro: depth_of_removed) (simp add: pushed_def)

lemma keeps_frames_trans: "keeps_frames s s1 \<Longrightarrow> keeps_frames s1 s2 \<Longrightarrow> keeps_frames s s2"
  by (meson keeps_framesE keeps_framesI keeps_frames_def order_trans)

lemma keeps_frames_local:
  "keeps_frames s s" "keeps_frames s (with_tracker tr s)" "keeps_frames s (pushed f track s)"
  by (auto simp: keeps_frames_def with_tracker_def framed_cost) (auto simp: pushed_def)

lemma keeps_frames_depth: "keeps_frames s t \<Longrightarrow> depth_of s \<le> depth_of t"
  by (simp add: keeps_frames_def)

lemma framing:
  assumes "block_hash_restores (backing h)"
  shows "vm_effect h keeps_frames"
proof
  show "keeps_frames s (with_database w s)" if "db_steps (database (vm_global s)) w" for w and s :: "'a vm"
    using framed_db_steps [OF that] unfolding with_database_def by (intro keeps_frames_same)
  show "keeps_frames s (s\<lparr>vm_global := snd (log_asset_transfer p q name v (vm_global s))\<rparr>)" for s :: "'a vm" and p q name v
    using framed_log(1) by (intro keeps_frames_same) blast
  show "keeps_frames s (s\<lparr>vm_global := snd (log_token_transfer p q name amount (vm_global s))\<rparr>)" for s :: "'a vm" and p q name amount
    using framed_log(2) by (intro keeps_frames_same) blast
  show "keeps_frames s (s\<lparr>vm_global := snd (log_stx_transfer p amount (vm_global s))\<rparr>)" for s :: "'a vm" and p amount
    using framed_log(3) by (intro keeps_frames_same) blast
  show "keeps_frames s (s\<lparr>vm_global := snd (log_stx_burn p amount (vm_global s))\<rparr>)" for s :: "'a vm" and p amount
    using framed_log(4) by (intro keeps_frames_same) blast
  show "keeps_frames s (s\<lparr>vm_global := push_event ev (vm_global s)\<rparr>)" for s :: "'a vm" and ev
    by (intro keeps_frames_same framed_event)
qed (rule keeps_frames_trans keeps_frames_depth keeps_frames_popped keeps_frames_started keeps_frames_local keeps_frames_committed
    keeps_frames_rolled_back keeps_frames_at_block [OF assms]; assumption)+

section \<open>Every evaluation\<close>

lemma interpreter_FUEL: "interpreter h FUEL = vm_interp h"
  by (simp add: vm_eval_def vm_apply_def)

lemma vm_unfold:
  "vm_eval h e env context s = eval_step h (vm_interp h) e env context s"
  "vm_apply h f args env context s = apply_step h (vm_interp h) f args env context s"
  using deepening.eval_effect [of "Suc FUEL" h e env "context" s] deepening.apply_effect [of "Suc FUEL" h f args env "context" s]
  by (auto simp: interpreter_FUEL)

section \<open>Runs of a small program\<close>

text \<open>
  A machine with a given runtime cost and memory use, under the largest limits. The lemmas run the primitive actions on
  it, so that programs evaluate by rewriting.
\<close>

definition sample_tracker :: "nat \<Rightarrow> nat \<Rightarrow> limited_cost_tracker" where
  "sample_tracker n m = \<lparr>total = cost_runtime (word_of_nat n), limit = cost_max_value, memory = word_of_nat m,
     memory_limit = CLARITY_MEMORY_LIMIT\<rparr>"

definition machine_with :: "nat \<Rightarrow> nat \<Rightarrow> 's global_context \<Rightarrow> call_stack \<Rightarrow> 's vm" where
  "machine_with n m g cs = \<lparr>vm_global = g\<lparr>cost_track := sample_tracker n m\<rparr>, vm_calls = cs\<rparr>"

definition sample_env :: environment where
  "sample_env = \<lparr>env_contract = contract_context_new contract_transient, env_sender = None, env_caller = None\<rparr>"

lemma overflow_add_of_nat: "n + unat c < 2 ^ 64 \<Longrightarrow> cost_overflow_add (word_of_nat n) c = Ok (word_of_nat (n + unat c))"
  by (simp add: cost_overflow_add_def checked_add_def unat_of_nat)


lemma charge_run:
  assumes "cost_function_compute f x = Ok c" "n + unat c < 2 ^ 64"
  shows "charge (runtime_only f) x (machine_with n m g cs) = Some (Ok (), machine_with (n + unat c) m g cs)"
proof -
  have "unat (word_of_nat n :: u64) = n" using assms(2) by (simp add: unat_of_nat)
  with assms show ?thesis
    by (simp add: charge_def on_tracker_def on_global_def runtime_cost_def compute_cost_def runtime_only_def machine_with_def
      sample_tracker_def add_cost_def cost_add_def cost_pointwise_def assign_try_def cost_runtime_def cost_zero_def
      cost_overflow_add_def checked_add_def cost_exceeds_def cost_max_value_def)
qed


lemma memory_run:
  "m + unat k \<le> 100000000 \<Longrightarrow> env_add_memory k (machine_with n m g cs) = Some (Ok (), machine_with n (m + unat k) g cs)"
  "m \<le> 100000000 \<Longrightarrow> unat k \<le> m \<Longrightarrow> env_drop_memory k (machine_with n m g cs) = Some (Ok (), machine_with n (m - unat k) g cs)"
proof -
  assume m: "m + unat k \<le> 100000000"
  then have "unat (word_of_nat m :: u64) = m" "unat (word_of_nat m + k :: u64) = m + unat k"
    by (simp_all add: unat_of_nat unat_word_ariths)
  with m show "env_add_memory k (machine_with n m g cs) = Some (Ok (), machine_with n (m + unat k) g cs)"
    by (simp add: env_add_memory_def on_tracker_def on_global_def machine_with_def sample_tracker_def add_memory_def
        assign_try_def CLARITY_MEMORY_LIMIT_def cost_overflow_add_def checked_add_def word_less_nat_alt)
next
  assume m: "m \<le> 100000000" "unat k \<le> m"
  then have "unat (word_of_nat m :: u64) = m" by (simp add: unat_of_nat)
  with m show "env_drop_memory k (machine_with n m g cs) = Some (Ok (), machine_with n (m - unat k) g cs)"
    by (simp add: env_drop_memory_def drop_memory_def on_tracker_def on_global_def machine_with_def sample_tracker_def
        checked_sub_def of_nat_diff)
qed

lemma state_run:
  "on_calls f (machine_with n m g cs) = (case f cs of (r, c) \<Rightarrow> Some (r, machine_with n m g c))"
  "from_calls f' (machine_with n m g cs) = Some (Ok (f' cs), machine_with n m g cs)"
  "on_global (\<lambda>g. (Ok x, push_event ev g)) (machine_with n m g cs) = Some (Ok x, machine_with n m (push_event ev g) cs)"
  "on_global (\<lambda>g. (Ok x, global_begin g)) (machine_with n m g cs) = Some (Ok x, machine_with n m (global_begin g) cs)"
  by (simp_all add: on_calls_def from_calls_def on_global_def machine_with_def push_event_def global_begin_def is_read_only_def split: prod.split)

definition sample_global :: "((string \<rightharpoonup> string) \<times> (metadata_key \<rightharpoonup> string)) global_context" where
  "sample_global = global_begin (global_new (wrapper_new empty_tables) tracker_new_max_limit)"

abbreviation sample_machine :: "((string \<rightharpoonup> string) \<times> (metadata_key \<rightharpoonup> string)) vm" where
  "sample_machine \<equiv> machine_with 0 0 sample_global call_stack_new"

text \<open>The program \<open>(err (print 3))\<close>, and a public function with this body.\<close>

definition sample_program :: symbolic_expression where
  "sample_program =
     SymbolicExpression (SList [SymbolicExpression (Atom ''err'') 0,
       SymbolicExpression (SList [SymbolicExpression (Atom ''print'') 0, SymbolicExpression (LiteralValue (VInt 3)) 0]) 0]) 0"

definition sample_function :: defined_function where
  "sample_function =
     \<lparr>df_identifier = ''f'', df_name = ''f'', df_arg_types = [], df_define_type = Public, df_arguments = [], df_body = sample_program\<rparr>"

definition sample_event :: stacks_transaction_event where
  "sample_event = SmartContractEvent (contract_transient, ''print'') (VInt 3)"

lemma sample_lookups:
  "lookup_reserved_functions h ''err'' = Some (NativeFunction ''native_error'' (SingleArg native_error) COST_ERR_CONS)"
  "lookup_reserved_functions h ''print'' = Some (SpecialFunction ''special_print'' PrintFn)"
  "map_of (special_table h) PrintFn = Some special_print"
  by (simp_all add: lookup_reserved_functions_def native_functions_lookup_by_name_def native_functions_names_def special_table_def)

lemma sample_values: "value_size (VInt x) = Ok 16" "native_error (VInt 3) = Ok (VResponse False (VInt 3))"
  by (simp_all add: value_size_def native_error_def value_error_def wrap_guard_def value_depth_def type_eval)

lemmas run_actions = bind_def result_def capture_def finally_do_def charge_run memory_run state_run

lemmas run_calls = vm_unfold eval_step_def apply_step_def apply_body_def evaluate_args.simps unwind_def lookup_function_def
  callable_identifier_def match_atom_def call_stack_contains_def call_stack_new_def call_stack_depth_def MAX_CALL_STACK_DEPTH_def
  call_stack_insert_def call_stack_remove_def get_memory_use_def size_of_value_def native_apply_def check_argument_count_def

lemmas run_charges = COST_LOOKUP_FUNCTION_def COST_PRINT_def COST_ERR_CONS_def COST_USER_FUNCTION_APPLICATION_def
  cost_overflow_mul_def cost_overflow_add_def checked_mul_def checked_add_def

lemma sample_run:
  "n \<le> 1000 \<Longrightarrow> vm_eval h sample_program sample_env local_new (machine_with n 0 g call_stack_new) =
     Some (Ok (VResponse False (VInt 3)), machine_with (20 + n) 0 (push_event sample_event g) call_stack_new)"
  by (simp add: run_actions run_calls run_charges sample_program_def sample_lookups sample_values call_special_def special_print_def
      register_print_event_def sample_env_def current_contract_def contract_context_new_def sample_event_def Let_def)

lemma sample_call:
  "run_as_transaction h (vm_interp h) sample_function [] None sample_env (machine_with 0 0 g call_stack_new) =
     on_global (handle_tx_result (backing h) (Ok (VResponse False (VInt 3))))
       (machine_with 21 0 (push_event sample_event (global_begin g)) call_stack_new)"
  using sample_run [of 1 h "global_begin g"]
  by (simp add: run_as_transaction_def sample_function_def df_is_read_only_def run_actions run_charges environment_new_def
      execute_apply_def short_return_value_def is_principal_def) (simp add: sample_env_def result_def)

lemma sample_restores: "block_hash_restores (backing sample_host)"
  by (simp add: block_hash_restores_def sample_host_def table_store_def)

lemma sample_wf: "context_wf (vm_global sample_machine)"
  using context_wf_step [of "global_new (wrapper_new empty_tables) tracker_new_max_limit" table_store OpBegin]
  by (simp add: context_wf_new machine_with_def sample_global_def context_wf_cost)

section \<open>Laws of evaluation\<close>

text \<open>C7: evaluation ends. The evaluation of any expression and the application of any function to any arguments, in any
  environment, local context and state of the machine, return: a value, an error or a panic. The fuel of the model is no
  restriction, since any larger amount gives the same result and the same machine: the bound of 64 on the depth of the call
  stack stops every recursion first.\<close>

theorem evaluation_ends:
  "(\<exists>r t. vm_eval h e env context s = Some (r, t) \<and> r_eval (interpreter h (FUEL + n)) e env context s = Some (r, t)) \<and>
   (\<exists>r t. vm_apply h f args env context s = Some (r, t) \<and> r_apply (interpreter h (FUEL + n)) f args env context s = Some (r, t))"
  using deepening.eval_effect [of "FUEL + n" h e env "context" s] deepening.apply_effect [of "FUEL + n" h f args env "context" s]
  by auto

text \<open>C14: the model of the interpreter satisfies the recursion of the source. \<open>eval\<close> is one step of the code in which the
  nested calls are calls of \<open>eval\<close> and \<open>apply\<close> themselves, and \<open>apply\<close> likewise, with no trace of the fuel.\<close>

theorem evaluation_unfolds:
  "vm_eval h e env context s = eval_step h (vm_interp h) e env context s \<and>
   vm_apply h f args env context s = apply_step h (vm_interp h) f args env context s"
  using vm_unfold by blast

text \<open>C16: evaluation never refunds. Whatever an expression does, including calls that are rolled back and evaluation at
  an earlier block, the total of every dimension of the cost is afterwards at least what it was, and the limits are unchanged.\<close>

theorem evaluation_never_refunds:
  assumes "vm_eval h e env context s = Some (r, t)" "r \<noteq> Panic"
  shows "cost_le (total (cost_track (vm_global s))) (total (cost_track (vm_global t))) \<and>
    limit (cost_track (vm_global t)) = limit (cost_track (vm_global s))"
  using spending.eval_effect [of FUEL h e env "context" s] assms by (auto simp: spends_def)

theorem evaluation_never_refunds_witness:
  "\<exists>t. vm_eval sample_host sample_program sample_env local_new sample_machine = Some (Ok (VResponse False (VInt 3)), t) \<and>
    cost_le (total (cost_track (vm_global sample_machine))) (total (cost_track (vm_global t)))"
  using evaluation_never_refunds [of sample_host sample_program sample_env local_new sample_machine]
    sample_run [of 0 sample_host sample_global]
  by simp

section \<open>Calls as transactions\<close>

lemma agree_self:
  fixes h :: "'s host" and s :: "'s vm"
  assumes "block_hash_restores (backing h)" "m s = Some (r, t)" "r \<noteq> Panic" "vm_effect.agree keeps_frames 0 m m"
  shows "keeps_frames s t"
proof -
  from assms(4) have "\<exists>r t. m s = Some (r, t) \<and> (r \<noteq> Panic \<longrightarrow> keeps_frames s t)"
    using vm_effect.agree_def [OF framing [OF assms(1)], of 0 m m] by blast
  with assms(2,3) show ?thesis by auto
qed

lemma execute_apply_frames:
  fixes h :: "'s host"
  assumes "block_hash_restores (backing h)"
    and "bind (environment_new c sender caller) (\<lambda>env. execute_apply (vm_interp h) f args env) s = Some (r, t)" "r \<noteq> Panic"
  shows "keeps_frames s t"
proof -
  note eff = framing [OF assms(1)]
  have "vm_effect.interp_agree keeps_frames 0 (interpreter h FUEL) (interpreter h FUEL)"
    by (rule vm_effect.interpreter_agree [OF eff]) (simp_all add: FUEL_def)
  then have "vm_effect.agree keeps_frames 0 (execute_apply (vm_interp h) f args env) (execute_apply (vm_interp h) f args env)" for env
    unfolding interpreter_FUEL by (rule vm_effect.agree_execute_apply [OF eff])
  then have "vm_effect.agree keeps_frames 0 (bind (environment_new c sender caller) (\<lambda>env. execute_apply (vm_interp h) f args env))
      (bind (environment_new c sender caller) (\<lambda>env. execute_apply (vm_interp h) f args env))"
    unfolding environment_new_def by (intro vm_effect.agree_bind [OF eff] vm_effect.agree_result [OF eff])
  with assms show ?thesis using agree_self by blast
qed

lemma context_framed_begin:
  assumes "context_wf g"
  shows "framed g (Suc 0) (global_begin g)" "framed g (Suc 0) (global_begin_read_only g)"
proof -
  from assms obtain logs x where "represents (database g) (logs, x)" unfolding context_wf_def by blast
  then have "framed g 0 g"
    by (intro framedI [where maps = "[]" and batches = "[]" and flags = "[]" and logs = logs and inner = "[]" and s = x]) auto
  then show "framed g (Suc 0) (global_begin g)" "framed g (Suc 0) (global_begin_read_only g)" by (rule framed_begin)+
qed

text \<open>What closing a transaction leaves: the contexts below it as they were.\<close>

lemma rolled_back_framed: "framed b (Suc e) g \<Longrightarrow> global_roll_back g = (r, g') \<Longrightarrow> framed b e g'"
  using framed_roll_back by fastforce

lemma commit_failed_framed:
  assumes "framed b (Suc e) g" "global_commit bs g = (Err x, g')" "context_wf b"
  shows "\<exists>k. framed b k g'"
proof (cases e)
  case 0
  with assms global_commit_one [of b g bs] global_commit_top [of b g bs] framed_self [OF assms(3)] have "framed b 0 g'"
    by (cases "is_top_level b") (auto simp: framed_cost)
  then show ?thesis ..
next
  case (Suc e')
  with assms(1,2) framed_commit [of b e' g bs] have "framed b (Suc e') g'" by simp
  then show ?thesis ..
qed

lemma handled_framed:
  assumes "framed b (Suc e) g" "handle_tx_result bs r g = (r', g')" "context_wf b" "r' \<noteq> Panic" "\<nexists>v. r' = Ok (VResponse True v)"
  shows "\<exists>k. framed b k g'"
proof (cases "\<exists>v. r = Ok (VResponse True v)")
  case True
  with assms(2,4,5) obtain x where "global_commit bs g = (Err x, g')"
    by (auto simp: handle_tx_result_def seq_def give_def split: prod.splits outcome.splits)
  with assms(1,3) show ?thesis by (intro commit_failed_framed)
next
  case False
  with assms(2) have "(\<exists>r. global_roll_back g = (r, g')) \<or> g' = g"
    by (auto simp: handle_tx_result_def seq_def give_def attempt_def split: outcome.splits val.splits prod.splits if_splits)
  with assms(1) show ?thesis using rolled_back_framed by blast
qed

text \<open>C15: calls are transactions. When a call of a public function does not answer with an ok response, and after every call of
  a read-only function, rolling back the contexts that the call left open, if it left any, gives the global context as it was
  apart from the costs: no write, no asset movement and no event of the call is anywhere else, whatever its body evaluates, nested
  calls included. A call that left no context open has therefore changed nothing but the costs. A function whose
  answer is not a response does leave one open.\<close>

theorem call_without_effects:
  assumes "block_hash_restores (backing h)" "context_wf (vm_global s)"
    and "run_as_transaction h (vm_interp h) f args c env s = Some (r, t)" "r \<noteq> Panic"
    and "df_is_read_only f \<or> (\<nexists>v. r = Ok (VResponse True v))"
  shows "\<exists>k. length (asset_maps (vm_global t)) = length (asset_maps (vm_global s)) + k \<and>
    rolled_back k (vm_global t) = (vm_global s)\<lparr>cost_track := cost_track (vm_global t)\<rparr>"
proof -
  let ?body = "bind (environment_new (case c of Some c \<Rightarrow> c | None \<Rightarrow> env_contract env) (env_sender env) (env_caller env))
    (\<lambda>nested_env. execute_apply (vm_interp h) f args nested_env)"
  let ?s = "started (df_is_read_only f) s"
  have run: "run_as_transaction h (vm_interp h) f args c env s =
      bind (capture ?body) (\<lambda>r. if df_is_read_only f then bind (on_global global_roll_back) (\<lambda>_. result r)
        else on_global (handle_tx_result (backing h) r)) ?s"
    by (simp add: run_as_transaction_def bind_def [of "on_global _"] on_global_def started_def)
  then obtain r1 t1 where body: "?body ?s = Some (r1, t1)" "r1 \<noteq> Panic"
    using assms(3,4) by (auto simp: bind_def [of "capture _"] capture_def split: option.splits outcome.splits)
  have "keeps_frames ?s t1" by (rule execute_apply_frames [OF assms(1) body])
  moreover have "framed (vm_global s) (Suc 0) (vm_global ?s)"
    using context_framed_begin [OF assms(2)] by (simp add: started_def)
  ultimately obtain e where e: "framed (vm_global s) (Suc e) (vm_global t1)" by (rule keeps_framesE)
  have end_of: "(if df_is_read_only f then bind (on_global global_roll_back) (\<lambda>_. result r1)
      else on_global (handle_tx_result (backing h) r1)) t1 = Some (r, t)"
    using run assms(3) body by (cases r1) (simp_all add: bind_def [of "capture _"] capture_def)
  have "\<exists>k. framed (vm_global s) k (vm_global t)"
  proof (cases "df_is_read_only f")
    case True
    with end_of obtain x where "global_roll_back (vm_global t1) = (x, vm_global t)"
      by (auto simp: bind_def on_global_def result_def split: prod.splits outcome.splits)
    with rolled_back_framed [OF e] show ?thesis by blast
  next
    case False
    with end_of have "handle_tx_result (backing h) r1 (vm_global t1) = (r, vm_global t)"
      by (auto simp: on_global_def split: prod.splits)
    with False assms(5) show ?thesis by (intro handled_framed [OF e _ assms(2,4)]) auto
  qed
  then show ?thesis using framed_rolled_back framed_length by blast
qed

theorem call_without_effects_witness:
  "\<exists>t. run_as_transaction sample_host (vm_interp sample_host) sample_function [] None sample_env sample_machine =
      Some (Ok (VResponse False (VInt 3)), t) \<and>
    vm_global t = (vm_global sample_machine)\<lparr>cost_track := cost_track (vm_global t)\<rparr>"
proof -
  obtain t where t: "run_as_transaction sample_host (vm_interp sample_host) sample_function [] None sample_env sample_machine =
      Some (Ok (VResponse False (VInt 3)), t)" "length (asset_maps (vm_global t)) = length (asset_maps (vm_global sample_machine))"
    unfolding sample_call
    by (simp add: on_global_def handle_tx_result_def global_roll_back_def seq_def give_def machine_with_def push_event_def
        sample_global_def global_begin_def global_new_def on_database_def rollback_def nest_def wrapper_new_def empty_context_def)
  with call_without_effects [OF sample_restores sample_wf t(1)] show ?thesis by auto
qed

section \<open>A well-typed function that leaves its context open\<close>

text \<open>
  \<open>try!\<close> on an error response returns what is in the response, not the response. A public function with the body
  \<open>(try! (err 3))\<close> therefore answers 3, which is not a response: the call fails, and the context that was opened for it stays open.
\<close>

definition try_program :: symbolic_expression where
  "try_program =
     SymbolicExpression (SList [SymbolicExpression (Atom ''try!'') 0,
       SymbolicExpression (SList [SymbolicExpression (Atom ''err'') 0, SymbolicExpression (LiteralValue (VInt 3)) 0]) 0]) 0"

definition try_function :: defined_function where
  "try_function =
     \<lparr>df_identifier = ''g'', df_name = ''g'', df_arg_types = [], df_define_type = Public, df_arguments = [], df_body = try_program\<rparr>"

lemma try_lookup: "lookup_reserved_functions h ''try!'' = Some (NativeFunction ''native_try_ret'' (SingleArg native_try_ret) COST_TRY_RET)"
  by (simp add: lookup_reserved_functions_def native_functions_lookup_by_name_def native_functions_names_def)

lemma try_values:
  "value_size (VResponse False (VInt 3)) = Ok 17" "native_try_ret (VResponse False (VInt 3)) = Err (ShortReturn (ExpectedValue (VInt 3)))"
  by (simp_all add: value_size_def native_try_ret_def type_eval)

lemma try_run:
  "n \<le> 1000 \<Longrightarrow> env_contract env = contract_context_new contract_transient \<Longrightarrow>
   vm_eval h try_program env local_new (machine_with n 0 g call_stack_new) =
     Some (Err (ShortReturn (ExpectedValue (VInt 3))), machine_with (Suc (Suc (Suc (Suc n)))) 0 g call_stack_new)"
  by (simp add: run_actions run_calls run_charges COST_TRY_RET_def try_program_def sample_lookups try_lookup sample_values try_values
      contract_context_new_def Let_def)

lemma try_on_err_leaves_context_open:
  "run_as_transaction h (vm_interp h) try_function [] None sample_env (machine_with 0 0 g call_stack_new) =
     Some (Err (Unchecked (PublicFunctionMustReturnResponse IntType)), machine_with 5 0 (global_begin g) call_stack_new)"
  using try_run [of 1 sample_env h "global_begin g"]
  by (simp add: run_as_transaction_def try_function_def df_is_read_only_def run_actions run_charges environment_new_def
      execute_apply_def short_return_value_def is_principal_def)
    (simp add: sample_env_def result_def on_global_def handle_tx_result_def attempt_def type_eval machine_with_def eval_nat_numeral)

end
