(* ===== verification/ContractLaws.thy ===== *)
theory ContractLaws
  imports Definitions EvaluatorLaws
begin

text \<open>
  What holds of the evaluation of whole contracts and of transactions: it ends, it costs, it keeps to its context, a
  failure leaves nothing behind but what is in contexts that stayed open, and the names that a contract defines are distinct. A context
  stays open when a public function answers with something other than a response.
\<close>

section \<open>Parsing only charges\<close>

definition charge_steps :: "limited_cost_tracker \<Rightarrow> limited_cost_tracker \<Rightarrow> bool" where
  "charge_steps = (\<lambda>t u. \<exists>c. u = snd (add_cost t c))\<^sup>*\<^sup>*"

definition charges_only :: "(limited_cost_tracker, 'a, 'e) routine \<Rightarrow> bool" where
  "charges_only f \<longleftrightarrow> (\<forall>t. charge_steps t (snd (f t)))"

named_theorems charges_intros

lemma charges_seq [charges_intros]: "charges_only m \<Longrightarrow> (\<And>x. charges_only (f x)) \<Longrightarrow> charges_only (seq m f)"
  unfolding charges_only_def
proof
  fix t
  assume m: "\<forall>t. charge_steps t (snd (m t))" and f: "\<And>x. \<forall>t. charge_steps t (snd (f x t))"
  obtain r u where r: "m t = (r, u)" by force
  with m have "charge_steps t u" by (metis snd_conv)
  with f show "charge_steps t (snd (seq m f t))"
    by (cases r) (auto simp: seq_def r charge_steps_def intro: rtranclp_trans)
qed

lemma charges_pure [charges_intros]: "charges_only (attempt r)" "charges_only (give x)"
  by (simp_all add: charges_only_def attempt_def give_def charge_steps_def)

lemma charges_check [charges_intros]: "charges_only (charge_check runtime_cost sp n)"
proof -
  have "\<exists>c. snd (charge_check runtime_cost sp n t) = snd (add_cost t c) \<or> snd (charge_check runtime_cost sp n t) = t" for t
    by (auto simp: charge_check_def runtime_cost_def split: outcome.splits prod.splits) (metis snd_conv)
  then show ?thesis unfolding charges_only_def charge_steps_def
    by (intro allI, elim meta_allE exE disjE) (auto intro: r_into_rtranclp)
qed

lemma charges_types:
  fixes charge :: "limited_cost_tracker charger"
  shows "\<forall>sp n. charges_only (charge_check charge sp n) \<Longrightarrow> charges_only (parse_type_repr charge e)"
    "\<forall>sp n. charges_only (charge_check charge sp n) \<Longrightarrow> charges_only (parse_list_type_repr charge es)"
    "\<forall>sp n. charges_only (charge_check charge sp n) \<Longrightarrow> charges_only (parse_tuple_type_repr charge es)"
    "\<forall>sp n. charges_only (charge_check charge sp n) \<Longrightarrow> charges_only (parse_optional_type_repr charge es)"
    "\<forall>sp n. charges_only (charge_check charge sp n) \<Longrightarrow> charges_only (parse_response_type_repr charge es)"
    "\<forall>sp n. charges_only (charge_check charge sp n) \<Longrightarrow> charges_only (parse_pair_types charge es)"
proof (induction charge e and charge es and charge es and charge es and charge es and charge es
    rule: parse_type_repr_parse_list_type_repr_parse_tuple_type_repr_parse_optional_type_repr_parse_response_type_repr_parse_pair_types.induct)
  case (1 charge x i)
  have "charges_only (case x of
         Atom atom_type_str \<Rightarrow> attempt (parse_atom_type atom_type_str)
       | SList (SymbolicExpression (Atom compound_type) _ # rest) \<Rightarrow>
           if compound_type = ''list'' then parse_list_type_repr charge rest
           else if compound_type = ''buff'' then attempt (parse_buff_type_repr rest)
           else if compound_type = ''tuple'' then parse_tuple_type_repr charge rest
           else if compound_type = ''optional'' then parse_optional_type_repr charge rest
           else if compound_type = ''response'' then parse_response_type_repr charge rest
           else attempt (Err InvalidTypeDescription)
       | TraitReference _ (Defined trait_id) \<Rightarrow> give (TraitReferenceType trait_id)
       | TraitReference _ (Imported trait_id) \<Rightarrow> give (TraitReferenceType trait_id)
       | _ \<Rightarrow> attempt (Err InvalidTypeDescription))"
  proof (cases "\<exists>a j rest. x = SList (SymbolicExpression (Atom a) j # rest)")
    case True
    then obtain a j rest where x: "x = SList (SymbolicExpression (Atom a) j # rest)" by blast
    note ih = 1(1) [OF x refl refl refl _ 1(5)] 1(2) [OF x refl refl refl _ _ _ 1(5)] 1(3) [OF x refl refl refl _ _ _ _ 1(5)]
      1(4) [OF x refl refl refl _ _ _ _ _ 1(5)]
    show ?thesis unfolding x
      by (simp only: symbolic_expression_type.case list.case symbolic_expression.case split: if_split)
        (intro conjI impI ih charges_pure; assumption)
  qed (auto intro: charges_pure split: symbolic_expression_type.split list.split symbolic_expression.split trait_definition.split)
  then show ?case unfolding parse_type_repr.simps using 1(5) by (intro charges_seq) auto
next
  case (2 charge es)
  then show ?case
    unfolding parse_list_type_repr.simps
    by (auto intro!: charges_seq charges_pure simp del: parse_type_repr.simps
        split: list.splits symbolic_expression.splits symbolic_expression_type.splits val.splits)
next
  case (3 charge es)
  then show ?case
    unfolding parse_tuple_type_repr.simps by (auto intro: charges_seq charges_pure)
next
  case (4 charge es)
  then show ?case
    unfolding parse_optional_type_repr.simps by (auto intro!: charges_seq charges_pure simp del: parse_type_repr.simps split: list.splits)
next
  case (5 charge es)
  then show ?case
    unfolding parse_response_type_repr.simps by (auto intro!: charges_seq charges_pure simp del: parse_type_repr.simps split: list.splits)
next
  case (7 charge n t i rest)
  then show ?case
    unfolding parse_pair_types.simps by (intro charges_seq charges_pure) auto
qed (auto intro: charges_pure)

lemmas charges_parse [charges_intros] = charges_types [OF allI [OF allI [OF charges_check]]]

lemma charges_parse_types [charges_intros]: "charges_only (parse_types runtime_cost es)"
  by (induction es; unfold parse_types.simps; intro charges_intros; assumption)

lemma charges_parse_return [charges_intros]: "charges_only (parse_response_return runtime_cost e)"
  unfolding charges_only_def
proof
  fix t
  have "snd (parse_response_return runtime_cost e t) = snd (parse_type_repr runtime_cost e t)"
    by (auto simp: parse_response_return_def split: prod.splits outcome.splits type_signature.splits simp del: parse_type_repr.simps)
  with charges_parse(1) [of e] show "charge_steps t (snd (parse_response_return runtime_cost e t))"
    by (simp add: charges_only_def del: parse_type_repr.simps)
qed

lemma charges_parse_traits [charges_intros]: "charges_only (parse_trait_functions runtime_cost sig es)"
proof (induction es arbitrary: sig)
  case (Cons e es)
  then show ?case
    unfolding parse_trait_functions.simps by (intro charges_seq) (auto intro!: charges_intros split: list.split)
qed (simp add: charges_pure)

lemma charges_parse_definitions [charges_intros]:
  "charges_only (parse_name_type_pairs runtime_cost es)" "charges_only (parse_name_type_pair_list runtime_cost e)"
  "charges_only (parse_trait_type_repr runtime_cost es)"
proof -
  show pairs: "charges_only (parse_name_type_pairs runtime_cost es)" for es
    unfolding parse_name_type_pairs_def by (simp add: charges_intros)
  show "charges_only (parse_name_type_pair_list runtime_cost e)"
    unfolding parse_name_type_pair_list_def by (auto intro!: charges_seq pairs charges_pure split: symbolic_expression_type.split)
  show "charges_only (parse_trait_type_repr runtime_cost es)"
    unfolding parse_trait_type_repr_def by (auto intro!: charges_intros split: list.split)
qed

section \<open>Effects of definitions\<close>

lemma writes_only_creation [writes_intros]:
  "writes_only (db_insert_metadata h c contract key x)" "writes_only (create_variable h contract name t)"
  "writes_only (create_map h contract name kt vt)" "writes_only (create_fungible_token h contract name n)"
  "writes_only (create_non_fungible_token h contract name t)" "writes_only (insert_contract h contract cc)"
  "writes_only (has_contract h contract)" "writes_only (set_contract_data_size h contract n')"
  unfolding db_insert_metadata_def create_variable_def create_map_def create_fungible_token_def create_non_fungible_token_def
    insert_contract_def has_contract_def set_contract_data_size_def
  by (intro writes_intros)+

lemma writes_only_hash [writes_intros]: "writes_only (insert_contract_hash h contract content)"
proof -
  have "writes_only (prepare_for_contract_metadata h contract x)" for x
    using writes_only_write(1) by (auto simp: writes_only_def prepare_for_contract_metadata_def)
  then show ?thesis unfolding insert_contract_hash_def by (intro writes_intros)
qed

text \<open>An effect that does not look into the call stack survives a fresh one.\<close>

locale vm_restart = vm_effect h K for h :: "'s host" and K +
  assumes K_restart: "K (s0\<lparr>vm_calls := call_stack_new\<rparr>) t0 \<Longrightarrow> K s0 (t0\<lparr>vm_calls := vm_calls s0\<rparr>)"
begin

lemma K_charges: "charge_steps (cost_track (vm_global s)) t \<Longrightarrow> K s (with_tracker t s)"
  unfolding charge_steps_def
proof (induction rule: rtranclp_induct)
  case base
  then show ?case by (simp add: with_tracker_same K_refl)
next
  case (step t u)
  then obtain c where "u = snd (add_cost t c)" by blast
  then have "K (with_tracker t s) (with_tracker u s)" using K_charge [of "with_tracker t s" c] by (simp add: with_tracker_def)
  with step.IH show ?case by (rule K_trans)
qed

lemma agree_parsing: "charges_only f \<Longrightarrow> agree d (parsing f) (parsing f)"
proof (rule agree_pure)
  fix s :: "'s vm" assume f: "charges_only f"
  obtain r t where r: "f (cost_track (vm_global s)) = (r, t)" by force
  with f have "charge_steps (cost_track (vm_global s)) t" unfolding charges_only_def by (metis snd_conv)
  with r show "\<exists>r t. parsing f s = Some (r, t) \<and> (r \<noteq> Panic \<longrightarrow> K s t)"
    using K_charges by (auto simp: parsing_def on_global_def with_tracker_def)
qed

lemma agree_restart:
  assumes "agree 0 m m'"
  shows "agree d (with_new_call_stack m) (with_new_call_stack m')"
proof (rule agreeI)
  fix s :: "'s vm"
  from assms obtain r t where "m (s\<lparr>vm_calls := call_stack_new\<rparr>) = Some (r, t)" "m' (s\<lparr>vm_calls := call_stack_new\<rparr>) = Some (r, t)"
    "r \<noteq> Panic \<longrightarrow> K (s\<lparr>vm_calls := call_stack_new\<rparr>) t" by (rule agreeE) simp
  then show "\<exists>r t. with_new_call_stack m s = Some (r, t) \<and> with_new_call_stack m' s = Some (r, t) \<and> (r \<noteq> Panic \<longrightarrow> K s t)"
    using K_restart by (auto simp: with_new_call_stack_def)
qed

lemma agree_vm_execute:
  assumes "agree d m m'"
  shows "agree d (vm_execute h m) (vm_execute h m')"
proof -
  have commit: "\<exists>r' u. bind (on_global (global_commit (backing h))) (\<lambda>_. ret x) t = Some (r', u) \<and> (r' \<noteq> Panic \<longrightarrow> K s u)"
    if "K (started False s) t" for s t and x :: 'b
  proof -
    obtain r' g where r': "global_commit (backing h) (vm_global t) = (r', g)" by force
    with K_commit [OF that r'] show ?thesis by (cases r') (auto simp: bind_def on_global_def result_def)
  qed
  have "agree d (bind (on_global (\<lambda>g. (Ok (), if False then global_begin_read_only g else global_begin g))) (\<lambda>_. bind (capture m) f))
     (bind (on_global (\<lambda>g. (Ok (), if False then global_begin_read_only g else global_begin g))) (\<lambda>_. bind (capture m') f))"
    if "f = (\<lambda>r. case r of Ok x \<Rightarrow> bind (on_global (global_commit (backing h))) (\<lambda>_. ret x)
       | _ \<Rightarrow> bind (on_global global_roll_back) (\<lambda>_. result r))" for f
    by (rule agree_transaction [OF assms]) (auto simp: that split: outcome.split intro: commit close_roll_back)
  then show ?thesis unfolding vm_execute_def by simp
qed


lemma interp_agree_vm: "interp_agree 0 (vm_interp h) (vm_interp h)"
proof -
  have "interp_agree 0 (interpreter h FUEL) (interpreter h FUEL)" by (intro interpreter_agree) (simp_all add: FUEL_def)
  then show ?thesis by (simp only: interpreter_FUEL)
qed

lemma agree_vm_eval: "agree 0 (vm_eval h e env context) (vm_eval h e env context)"
  using interp_agreeD(1) [OF interp_agree_vm] by simp

lemma agree_evaluate_define:
  assumes R: "interp_agree 0 R R"
  shows "agree 0 (evaluate_define h R e env) (evaluate_define h R e env)"
  unfolding evaluate_define_def handle_define_variable_def handle_define_function_def handle_define_persisted_variable_def
    handle_define_nonfungible_asset_def handle_define_fungible_token_def handle_define_map_def handle_define_trait_def
  by (intro special_intros, simp split: option.split define_functions_parsed.split list.split val.split)
    (intro conjI allI impI special_intros agree_parsing charges_intros R)

lemma agree_type_memory: "agree d (type_memory t) (type_memory t)"
  unfolding type_memory_def by (intro special_intros)

lemma agree_apply_define: "agree d (apply_define h r e st) (apply_define h r e st)"
proof (cases r)
  case NoDefine
  have "agree 0 (bind (environment_new c None None) (\<lambda>env. bind (vm_eval h e env local_new) (\<lambda>v. ret (st\<lparr>es_last := Some v\<rparr>))))
    (bind (environment_new c None None) (\<lambda>env. bind (vm_eval h e env local_new) (\<lambda>v. ret (st\<lparr>es_last := Some v\<rparr>))))" for c
    by (intro special_intros agree_vm_eval)
  with NoDefine show ?thesis by (simp add: apply_define_def Let_def agree_vm_execute agree_restart)
qed (simp_all add: apply_define_def Let_def, (intro special_intros agree_type_memory writes_intros)+)

lemma agree_eval_top_level: "agree d (eval_top_level h e st) (eval_top_level h e st)"
  unfolding eval_top_level_def
  by (intro agree_bind agree_vm_execute agree_restart agree_environments agree_evaluate_define interp_agree_vm agree_apply_define)

lemma agree_eval_expressions: "agree d (eval_expressions h es st) (eval_expressions h es st)"
proof (induction es arbitrary: st)
  case (Cons e es)
  then show ?case
    unfolding eval_expressions.simps
    by (intro agree_bind agree_capture agree_eval_top_level agree_outcome agree_result)
qed (simp add: agree_result)

lemma agree_eval_all: "agree d (eval_all h es c) (eval_all h es c)"
  unfolding eval_all_def by (intro agree_bind agree_eval_expressions agree_prod special_intros)

lemma agree_build_contract: "agree d (build_contract h contract es str) (build_contract h contract es str)"
  unfolding build_contract_def initialize_from_ast_def
  by (intro special_intros agree_finally agree_bind agree_eval_all agree_prod writes_intros)


text \<open>Closing the context of a deployment, and of a transaction at top level.\<close>

lemma close_commit:
  assumes "K (started False s) t" "global_commit (backing h) (vm_global t) = (rg, g)"
  shows "rg \<noteq> Panic \<longrightarrow> K s (t\<lparr>vm_global := g\<rparr>)"
  using K_commit [OF assms] by blast

lemma close_deployment:
  assumes "K (started False s) t" "d \<le> depth_of t"
    and n: "agree d n n"
  shows "\<exists>r' u. bind n (\<lambda>_. bind (on_global (global_commit (backing h))) (\<lambda>_. ret x)) t = Some (r', u) \<and> (r' \<noteq> Panic \<longrightarrow> K s u)"
proof -
  from n assms(2) obtain r u where r: "n t = Some (r, u)" "r \<noteq> Panic \<longrightarrow> K t u" by (rule agreeE) blast
  obtain rg g where g: "global_commit (backing h) (vm_global u) = (rg, g)" by force
  show ?thesis
  proof (cases r)
    case (Ok y)
    with r(2) assms(1) have "K (started False s) u" using K_trans by blast
    from close_commit [OF this g] r Ok g show ?thesis
      by (cases rg) (auto simp: bind_def on_global_def result_def)
  next
    case (Err e)
    with r(2) assms(1) have "K s u" using K_trans K_begin by blast
    with r Err show ?thesis by (simp add: bind_def)
  qed (use r in \<open>simp add: bind_def\<close>)
qed

lemma agree_deployment:
  "agree d (initialize_contract_from_ast h contract es str) (initialize_contract_from_ast h contract es str)"
proof -
  let ?close = "\<lambda>r. case r of
         Ok c \<Rightarrow>
           bind (on_db (insert_contract h contract c)) (\<lambda>_.
           bind (on_db (set_contract_data_size h contract (data_size c))) (\<lambda>_.
           bind (on_global (global_commit (backing h))) (\<lambda>_. ret ())))
       | Err e \<Rightarrow> bind (on_global global_roll_back) (\<lambda>_. result (Err e))
       | Panic \<Rightarrow> result Panic"
  have assoc: "bind (on_db (insert_contract h contract c)) (\<lambda>_. bind (on_db (set_contract_data_size h contract n)) f) =
      bind (bind (on_db (insert_contract h contract c)) (\<lambda>_. on_db (set_contract_data_size h contract n))) f" for c n f
    by (auto simp: fun_eq_iff bind_def split: option.splits outcome.splits)
  have "agree d (bind (on_global (\<lambda>g. (Ok (), if False then global_begin_read_only g else global_begin g)))
      (\<lambda>_. bind (capture (build_contract h contract es str)) ?close))
     (bind (on_global (\<lambda>g. (Ok (), if False then global_begin_read_only g else global_begin g)))
      (\<lambda>_. bind (capture (build_contract h contract es str)) ?close))"
  proof (rule agree_transaction [OF agree_build_contract])
    fix s t and r :: "(contract_context, vm_error) outcome"
    assume st: "K (started False s) t" "d \<le> depth_of t" "r \<noteq> Panic"
    have "agree d (bind (on_db (insert_contract h contract c)) (\<lambda>_. on_db (set_contract_data_size h contract (data_size c))))
        (bind (on_db (insert_contract h contract c)) (\<lambda>_. on_db (set_contract_data_size h contract (data_size c))))" for c
      by (intro special_intros writes_intros)
    from close_deployment [OF st(1,2) this] close_roll_back [OF st(1)] st(3)
    show "\<exists>r' u. ?close r t = Some (r', u) \<and> (r' \<noteq> Panic \<longrightarrow> K s u)"
      unfolding assoc by (cases r) simp_all
  qed
  then show ?thesis unfolding initialize_contract_from_ast_def by simp
qed

lemma agree_execute_in_env:
  assumes "\<And>env. agree d (f env) (f env)"
  shows "agree d (vm_execute_in_env h sender f) (vm_execute_in_env h sender f)"
proof -
  let ?m = "bind (environment_new (contract_context_new contract_transient) (Some sender) (Some sender)) f"
  let ?close = "\<lambda>r. case r of
             Ok x \<Rightarrow> bind (on_global (owned_commit (backing h))) (\<lambda>(amap, events). ret (x, amap, events))
           | Err e \<Rightarrow> bind (on_global global_roll_back) (\<lambda>_. result (Err e))
           | Panic \<Rightarrow> result Panic"
  have "agree d (bind (on_global (\<lambda>g. (Ok (), if False then global_begin_read_only g else global_begin g))) (\<lambda>_. bind (capture ?m) ?close))
     (bind (on_global (\<lambda>g. (Ok (), if False then global_begin_read_only g else global_begin g))) (\<lambda>_. bind (capture ?m) ?close))"
  proof (rule agree_transaction)
    show "agree d ?m ?m" by (intro agree_bind agree_environments assms)
    fix s t and r :: "('a, vm_error) outcome"
    assume st: "K (started False s) t" "r \<noteq> Panic"
    obtain rg g where g: "global_commit (backing h) (vm_global t) = (rg, g)" by force
    then have "\<exists>r' u. bind (on_global (owned_commit (backing h))) (\<lambda>(amap, events). ret (x, amap, events)) t = Some (r', u) \<and>
        (r' \<noteq> Panic \<longrightarrow> K s u)" for x :: 'a
      using close_commit [OF st(1) g]
      by (cases rg) (auto simp: bind_def on_global_def owned_commit_def seq_def attempt_def give_def result_def ok_or_def split: option.splits)
    with close_roll_back [OF st(1)] st(2) show "\<exists>r' u. ?close r t = Some (r', u) \<and> (r' \<noteq> Panic \<longrightarrow> K s u)"
      by (cases r) simp_all
  qed
  then show ?thesis
    unfolding vm_execute_in_env_def by (intro agree_bind [OF agree_from(1)]) (simp add: agree_result)
qed

lemma agree_entry_points:
  "agree d (owned_initialize_contract_from_ast h contract es str) (owned_initialize_contract_from_ast h contract es str)"
  "agree 0 (execute_transaction h sender contract tx_name args) (execute_transaction h sender contract tx_name args)"
  unfolding owned_initialize_contract_from_ast_def execute_transaction_def
  by (intro agree_execute_in_env agree_deployment agree_execute_contract interp_agree_vm)+

end

interpretation restart_depth: vm_restart h "\<lambda>s t. depth_of s \<le> depth_of t" for h
  by unfold_locales (simp add: depth_of_def)

interpretation restart_spends: vm_restart h spends for h
  by unfold_locales (simp add: spends_def depth_of_def)

lemma restart_framing: "block_hash_restores (backing h) \<Longrightarrow> vm_restart h keeps_frames"
  by (intro vm_restart.intro framing vm_restart_axioms.intro) (auto simp: keeps_frames_def depth_of_def)

section \<open>Deployments and transactions\<close>

lemma read_only_ends: "\<exists>r t. eval_read_only h contract parsed env s = Some (r, t)"
proof -
  have global: "vm_effect.agree (\<lambda>s t. depth_of s \<le> depth_of t) 0 (on_global f) (on_global f)"
    for f :: "('a global_context, 'b, vm_error) routine"
    by (rule deepening.agree_global) (simp add: depth_of_def)
  have "vm_effect.agree (\<lambda>s t. depth_of s \<le> depth_of t) 0 (eval_read_only h contract parsed env) (eval_read_only h contract parsed env)"
    unfolding eval_read_only_def
    by (intro deepening.agree_if deepening.agree_bind deepening.agree_capture deepening.agree_result deepening.agree_db
        deepening.agree_environments restart_depth.agree_vm_eval global writes_intros)
  then show ?thesis unfolding deepening.agree_def by blast
qed

text \<open>C21: the entry points end. Initializing a contract from any program, executing any function of any contract, and evaluating
  a program, in the context of a contract without keeping its effects or in that of the environment, return, whatever the
  database holds.\<close>

theorem entry_points_end:
  "(\<exists>r t. owned_initialize_contract_from_ast h contract es str s = Some (r, t)) \<and>
   (\<exists>r t. execute_transaction h sender contract' tx_name args s = Some (r, t)) \<and>
   (\<exists>r t. eval_read_only h contract parsed env s = Some (r, t)) \<and>
   (\<exists>r t. eval_raw h parsed env s = Some (r, t))"
proof -
  have "\<exists>r t. eval_raw h parsed env s = Some (r, t)"
    using deepening.eval_effect [of FUEL h "parsed ! 0" env local_new s] by (auto simp: eval_raw_def result_def)
  then show ?thesis
    using restart_depth.agree_entry_points(1) [of 0] restart_depth.agree_entry_points(2) read_only_ends
    unfolding deepening.agree_def by blast
qed

text \<open>What a failed closure leaves at top level.\<close>

lemma execute_in_env_failed:
  assumes "block_hash_restores (backing h)" "is_top_level (vm_global s)" "context_wf (vm_global s)"
    and "vm_execute_in_env h sender f s = Some (Err e, t)"
    and f: "\<And>env. vm_effect.agree keeps_frames 0 (f env) (f env)"
  shows "\<exists>k. framed (vm_global s) k (vm_global t)"
proof -
  note eff = framing [OF assms(1)]
  let ?m = "bind (environment_new (contract_context_new contract_transient) (Some sender) (Some sender)) f"
  obtain r u where body: "?m (started False s) = Some (r, u)" "r \<noteq> Panic"
    and rest: "(case r of
        Ok x \<Rightarrow> bind (on_global (owned_commit (backing h))) (\<lambda>(amap, events). ret (x, amap, events))
      | Err e \<Rightarrow> bind (on_global global_roll_back) (\<lambda>_. result (Err e))
      | Panic \<Rightarrow> result Panic) u = Some (Err e, t)"
    using assms(2,4)
    by (auto simp: vm_execute_in_env_def bind_def [of "from_global _"] bind_def [of "on_global (\<lambda>g. (Ok (), global_begin g))"]
        bind_def [of "capture _"] capture_def from_global_def on_global_def started_def
        split: option.splits outcome.splits if_splits)
  have "vm_effect.agree keeps_frames 0 ?m ?m"
    unfolding environment_new_def by (intro vm_effect.agree_bind [OF eff] vm_effect.agree_result [OF eff] f)
  then have "keeps_frames (started False s) u" by (rule agree_self [where m = ?m, OF assms(1) body])
  moreover have "framed (vm_global s) (Suc 0) (vm_global (started False s))"
    using context_framed_begin [OF assms(3)] by (simp add: started_def)
  ultimately obtain e' where e': "framed (vm_global s) (Suc e') (vm_global u)" by (rule keeps_framesE)
  show ?thesis
  proof (cases r)
    case (Ok x)
    obtain rg g where g: "global_commit (backing h) (vm_global u) = (rg, g)" by force
    with rest Ok have t: "vm_global t = g" "\<nexists>m batch. rg = Ok (Some m, Some batch)" "rg \<noteq> Panic"
      by (auto simp: bind_def on_global_def owned_commit_def seq_def attempt_def give_def result_def ok_or_def
          split: option.splits outcome.splits prod.splits)
    show ?thesis
    proof (cases e')
      case 0
      with global_commit_top [of "vm_global s" "vm_global u" "backing h"] e' assms(2,3) g t show ?thesis by auto
    next
      case (Suc k)
      with framed_commit [of "vm_global s" k "vm_global u" "backing h"] e' g t(1) show ?thesis by auto
    qed
  next
    case (Err e'')
    with rest obtain y where "global_roll_back (vm_global u) = (y, vm_global t)"
      by (auto simp: bind_def on_global_def result_def split: prod.splits outcome.splits)
    with rolled_back_framed [OF e'] show ?thesis by blast
  qed (use body in simp)
qed

text \<open>C2: transactions are atomic. When a deployment or a call of a contract fails at top level, rolling back the contexts that it
  left open, if it left any, gives the global context as it was apart from the costs: every write, event and asset movement of the
  whole transaction, through all nested calls and transactions, is in those contexts or undone. A failed transaction after which
  the environment is at top level again has therefore changed nothing but the costs.\<close>

theorem failed_transaction_without_effects:
  assumes "block_hash_restores (backing h)" "is_top_level (vm_global s)" "context_wf (vm_global s)"
    and "execute_transaction h sender contract tx_name args s = Some (Err e, t) \<or>
      owned_initialize_contract_from_ast h contract es str s = Some (Err e, t)"
  shows "rolled_back (length (asset_maps (vm_global t))) (vm_global t) = (vm_global s)\<lparr>cost_track := cost_track (vm_global t)\<rparr> \<and>
    (is_top_level (vm_global t) \<longrightarrow> vm_global t = (vm_global s)\<lparr>cost_track := cost_track (vm_global t)\<rparr>)"
proof -
  note eff = framing [OF assms(1)] and restart = restart_framing [OF assms(1)]
  have call: "vm_effect.agree keeps_frames 0 (execute_contract h (vm_interp h) contract tx_name args False env)
      (execute_contract h (vm_interp h) contract tx_name args False env)" for env
    by (intro vm_effect.agree_execute_contract [OF eff] vm_restart.interp_agree_vm [OF restart])
  have deploy: "vm_effect.agree keeps_frames 0 (initialize_contract_from_ast h contract es str) (initialize_contract_from_ast h contract es str)"
    by (rule vm_restart.agree_deployment [OF restart])
  from assms(4) obtain k where k: "framed (vm_global s) k (vm_global t)"
    unfolding execute_transaction_def owned_initialize_contract_from_ast_def
    using execute_in_env_failed [OF assms(1-3)] call deploy by metis
  have "length (asset_maps (vm_global t)) = k" using framed_length [OF k] assms(2) by (simp add: is_top_level_def)
  with framed_rolled_back [OF k] show ?thesis by (auto simp: is_top_level_def)
qed

text \<open>A store that knows no contract, as the back ends answer for one that was never deployed.\<close>

definition missing_host :: "((string \<rightharpoonup> string) \<times> (metadata_key \<rightharpoonup> string)) host" where
  "missing_host = sample_host\<lparr>backing := table_store\<lparr>bs_get_metadata := \<lambda>s k. Err (Unchecked (NoSuchContract ''c''))\<rparr>\<rparr>"

definition top_machine :: "((string \<rightharpoonup> string) \<times> (metadata_key \<rightharpoonup> string)) vm" where
  "top_machine = \<lparr>vm_global = global_new (wrapper_new empty_tables) tracker_new_max_limit, vm_calls = call_stack_new\<rparr>"

lemma missing_metadata:
  "stack w \<noteq> [] \<Longrightarrow> last_write (metadata_lookup_map w) (contract, key) = None \<Longrightarrow>
   fetch_metadata missing_host c contract key w = (Err (Unchecked (NoSuchContract ''c'')), w)"
  by (simp add: fetch_metadata_def db_read_def get_metadata_def missing_host_def)

lemma missing_call:
  "\<exists>t. execute_transaction missing_host (VPrincipal (Standard standard_transient)) contract_transient ''f'' [] top_machine =
     Some (Err (Unchecked (NoSuchContract ''c'')), t) \<and> is_top_level (vm_global t)"
proof -
  let ?w = "nest (wrapper_new empty_tables) :: ((string \<rightharpoonup> string) \<times> (metadata_key \<rightharpoonup> string)) rollback_wrapper"
  have "get_contract_size missing_host contract_transient ?w = (Err (Unchecked (NoSuchContract ''c'')), ?w)"
    by (simp add: get_contract_size_def missing_metadata seq_def nest_def wrapper_new_def last_write_def)
  then show ?thesis
    by (simp add: execute_transaction_def vm_execute_in_env_def execute_contract_def environment_new_def is_principal_def
        bind_def capture_def from_global_def on_db_def on_global_def result_def top_machine_def is_top_level_def
        global_begin_def global_new_def global_roll_back_def on_database_def rollback_def)
      (simp add: nest_def wrapper_new_def empty_context_def result_def)
qed

theorem failed_transaction_without_effects_witness:
  "\<exists>e t. execute_transaction missing_host (VPrincipal (Standard standard_transient)) contract_transient ''f'' [] top_machine = Some (Err e, t) \<and>
     vm_global t = (vm_global top_machine)\<lparr>cost_track := cost_track (vm_global t)\<rparr>"
proof -
  have "block_hash_restores (backing missing_host)" by (simp add: block_hash_restores_def missing_host_def table_store_def)
  moreover have "is_top_level (vm_global top_machine)" "context_wf (vm_global top_machine)"
    by (simp_all add: top_machine_def context_wf_new) (simp add: is_top_level_def global_new_def)
  ultimately show ?thesis
    using missing_call failed_transaction_without_effects [of missing_host top_machine] by blast
qed

section \<open>A context that stays open\<close>

lemma context_wf_started: "context_wf (vm_global s) \<Longrightarrow> context_wf (vm_global (started ro s))"
  using context_wf_step [of "vm_global s" bs "if ro then OpBeginReadOnly else OpBegin" for bs] by (cases ro) (auto simp: started_def)

text \<open>C34: a public function that answers with something other than a response leaves its context open. Let a transaction call a
  public function, and let the evaluation of its body, whatever it writes, charges and calls, end with a value that is not a
  response. Then the call reports the error without committing or rolling back, the rollback of the enclosing transaction closes
  only one context, and the next transaction of the environment panics.\<close>

theorem non_response_leaves_context_open:
  assumes "block_hash_restores (backing h)" "is_top_level (vm_global s)" "context_wf (vm_global s)" "\<not> df_is_read_only f"
    and "bind (environment_new c (Some sender) (Some sender)) (execute_apply (vm_interp h) f args) (started False (started False s)) =
      Some (Ok v, u)"
    and "type_of v = Ok ty" "\<And>committed d. v \<noteq> VResponse committed d"
  shows "\<exists>t. vm_execute_in_env h sender (run_as_transaction h (vm_interp h) f args (Some c)) s =
      Some (Err (Unchecked (PublicFunctionMustReturnResponse ty)), t) \<and>
    \<not> is_top_level (vm_global t) \<and> vm_execute_in_env h sender' k t = Some (Panic, t)"
proof -
  let ?b = "vm_global (started False s)" and ?e = "Unchecked (PublicFunctionMustReturnResponse ty)"
  have "keeps_frames (started False (started False s)) u"
    by (rule execute_apply_frames [OF assms(1,5)]) simp
  moreover have "framed ?b (Suc 0) (vm_global (started False (started False s)))"
    using context_framed_begin(1) [OF context_wf_started [OF assms(3)], of False] by (simp add: started_def)
  ultimately obtain e where "framed ?b (Suc e) (vm_global u)" by (rule keeps_framesE)
  from framed_roll_back [OF this] obtain g' where g': "global_roll_back (vm_global u) = (Ok (), g')" "framed ?b e g'" by blast
  have open': "asset_maps g' \<noteq> []" using framed_length [OF g'(2)] by (auto simp: started_def global_begin_def)
  have "handle_tx_result (backing h) (Ok v) (vm_global u) = (Err ?e, vm_global u)"
    using assms(6) by (cases v) (simp_all add: handle_tx_result_def attempt_def assms(7))
  moreover have "is_principal (Some sender)" using assms(5) by (auto simp: environment_new_def bind_def result_def split: if_splits)
  ultimately have "vm_execute_in_env h sender (run_as_transaction h (vm_interp h) f args (Some c)) s =
      Some (Err ?e, u\<lparr>vm_global := g'\<rparr>)"
    using assms(2,4,5) g'(1)
    by (simp add: vm_execute_in_env_def run_as_transaction_def bind_def capture_def from_global_def on_global_def started_def
        environment_new_def result_def)
  with open' show ?thesis by (simp add: vm_execute_in_env_def bind_def from_global_def is_top_level_def result_def)
qed

abbreviation transient_sender :: val where
  "transient_sender \<equiv> VPrincipal (Standard standard_transient)"

lemma try_body:
  "bind (environment_new (contract_context_new contract_transient) (Some transient_sender) (Some transient_sender))
     (execute_apply (vm_interp h) try_function []) (machine_with 0 0 g call_stack_new) =
   Some (Ok (VInt 3), machine_with 5 0 g call_stack_new)"
  using try_run [of 1 "\<lparr>env_contract = contract_context_new contract_transient, env_sender = Some transient_sender,
      env_caller = Some transient_sender\<rparr>" h g]
  by (simp add: try_function_def run_actions run_charges environment_new_def execute_apply_def short_return_value_def is_principal_def)
    (simp add: result_def eval_nat_numeral)

theorem non_response_leaves_context_open_witness:
  "\<exists>t. vm_execute_in_env sample_host transient_sender
      (run_as_transaction sample_host (vm_interp sample_host) try_function [] (Some (contract_context_new contract_transient)))
      (machine_with 0 0 (global_new (wrapper_new empty_tables) tracker_new_max_limit) call_stack_new) =
      Some (Err (Unchecked (PublicFunctionMustReturnResponse IntType)), t) \<and>
    vm_execute_in_env sample_host transient_sender (\<lambda>_. ret ()) t = Some (Panic, t)"
proof -
  let ?g = "global_new (wrapper_new empty_tables) tracker_new_max_limit :: ((string \<rightharpoonup> string) \<times> (metadata_key \<rightharpoonup> string)) global_context"
  let ?s = "machine_with 0 0 ?g call_stack_new"
  have top: "is_top_level (vm_global ?s)" "context_wf (vm_global ?s)" "\<not> df_is_read_only try_function"
    by (simp_all add: machine_with_def is_top_level_def global_new_def try_function_def df_is_read_only_def)
      (simp add: context_wf_cost context_wf_new [unfolded global_new_def])
  have "started False (started False ?s) = machine_with 0 0 (global_begin (global_begin ?g)) call_stack_new"
    by (simp add: started_def machine_with_def global_begin_def global_new_def is_read_only_def)
  from try_body [of sample_host "global_begin (global_begin ?g)", folded this]
  show ?thesis
    using non_response_leaves_context_open [OF sample_restores top, of "contract_context_new contract_transient" transient_sender "[]"
        "VInt 3" _ IntType transient_sender "\<lambda>_. ret ()"] by auto
qed

text \<open>
  Read-only evaluation opens a context, and returns early when the contract does not load. The context stays open.
\<close>

lemma read_only_evaluation_leaves_context:
  assumes "parsed \<noteq> []" "get_contract h contract (nest (database (vm_global s))) = (Err e, w)"
  shows "\<exists>t. eval_read_only h contract parsed env s = Some (Err e, t) \<and>
    length (asset_maps (vm_global t)) = Suc (length (asset_maps (vm_global s)))"
  using assms by (simp add: eval_read_only_def bind_def on_global_def on_db_def global_begin_def)

lemma read_only_evaluation_leaves_context_example:
  "\<exists>t. eval_read_only missing_host contract_transient [atom_value (VInt 1)] sample_env top_machine =
      Some (Err (Unchecked (NoSuchContract ''c'')), t) \<and> \<not> is_top_level (vm_global t)"
proof -
  let ?w = "nest (database (vm_global top_machine))"
  have "get_contract missing_host contract_transient ?w = (Err (Unchecked (NoSuchContract ''c'')), ?w)"
    by (simp add: get_contract_def missing_metadata seq_def top_machine_def global_new_def nest_def wrapper_new_def last_write_def)
  from read_only_evaluation_leaves_context [OF _ this, of "[atom_value (VInt 1)]" sample_env] show ?thesis
    by (auto simp: is_top_level_def)
qed

section \<open>Names of a contract\<close>

fun defined_name :: "define_result \<Rightarrow> clarity_name option" where
  "defined_name (DefineVariable n _) = Some n"
| "defined_name (DefineFunction n _) = Some n"
| "defined_name (DefineMap n _ _) = Some n"
| "defined_name (DefinePersistedVariable n _ _) = Some n"
| "defined_name (DefineFungibleToken n _) = Some n"
| "defined_name (DefineNonFungibleAsset n _) = Some n"
| "defined_name (DefineTrait n _) = Some n"
| "defined_name _ = None"

lemma check_legal_define_Ok: "check_legal_define n c = Ok x \<longleftrightarrow> \<not> is_name_used c n"
  by (simp add: check_legal_define_def)

lemma token_result_fresh:
  assumes "handle_define_fungible_token R n cap env s = Some (Ok d, t)"
  shows "defined_name d = Some n \<and> \<not> is_name_used (env_contract env) n"
proof (cases cap)
  case (Some x)
  with assms obtain v u where "r_eval R x env local_new s = Some (Ok v, u)"
    "(case v of VUInt m \<Rightarrow> ret (DefineFungibleToken n (Some m)) | _ \<Rightarrow> fail (TypeValueError UIntType v)) u = Some (Ok d, t)"
    "\<not> is_name_used (env_contract env) n"
    by (auto simp: handle_define_fungible_token_def bind_Ok result_def check_legal_define_Ok)
  then show ?thesis by (cases v) (auto simp: result_def)
qed (use assms in \<open>auto simp: handle_define_fungible_token_def bind_Ok result_def check_legal_define_Ok\<close>)

lemma define_result_fresh:
  assumes "evaluate_define h R e env s = Some (Ok d, t)" "defined_name d = Some n"
  shows "\<not> is_name_used (env_contract env) n"
proof -
  note handlers = handle_define_variable_def handle_define_function_def handle_define_persisted_variable_def
    handle_define_nonfungible_asset_def handle_define_map_def handle_define_trait_def
  show ?thesis
  proof (cases "try_parse e")
    case (Ok p)
    show ?thesis
    proof (cases p)
      case None
      with Ok assms show ?thesis by (auto simp: evaluate_define_def bind_Ok result_def)
    next
      case (Some q)
      with Ok assms show ?thesis
        by (cases q) (auto simp: evaluate_define_def bind_Ok result_def handlers check_legal_define_Ok
            dest: token_result_fresh split: list.splits)
    qed
  qed (use assms in \<open>auto simp: evaluate_define_def bind_Ok result_def\<close>)
qed

lemma vm_execute_Ok: "vm_execute h m s = Some (Ok x, t) \<Longrightarrow> \<exists>u v. m u = Some (Ok x, v)"
proof -
  assume "vm_execute h m s = Some (Ok x, t)"
  then obtain u r v where "capture m u = Some (Ok r, v)" and
    "(case r of Ok x \<Rightarrow> bind (on_global (global_commit (backing h))) (\<lambda>_. ret x)
       | _ \<Rightarrow> bind (on_global global_roll_back) (\<lambda>_. result r)) v = Some (Ok x, t)"
    by (auto simp: vm_execute_def bind_Ok)
  moreover from this(2) have "r = Ok x" by (cases r) (auto simp: bind_Ok result_def)
  ultimately have "m u = Some (Ok x, v)" by (auto simp: capture_def split: option.splits outcome.splits)
  then show "\<exists>u v. m u = Some (Ok x, v)" by blast
qed

lemma restart_Ok: "with_new_call_stack m s = Some (Ok x, t) \<Longrightarrow> \<exists>u v. m u = Some (Ok x, v)"
  by (auto simp: with_new_call_stack_def split: option.splits)

text \<open>The names of constants, functions, traits and stored data are distinct and none is reserved.\<close>

definition names_apart :: "contract_context \<Rightarrow> bool" where
  "names_apart c \<longleftrightarrow>
     (let constants = {n. hm_get (ctx_variables c) n \<noteq> None}; funs = {n. hm_get (ctx_functions c) n \<noteq> None};
          traits = {n. hm_get (defined_traits c) n \<noteq> None}; stored = persisted_names c
      in constants \<inter> funs = {} \<and> constants \<inter> traits = {} \<and> constants \<inter> stored = {} \<and> funs \<inter> traits = {} \<and>
         funs \<inter> stored = {} \<and> traits \<inter> stored = {} \<and> (\<forall>n. is_reserved n \<longrightarrow> n \<notin> constants \<union> funs \<union> traits \<union> stored))"

lemma names_apart_insert:
  assumes "names_apart c" "\<not> is_name_used c n"
  shows "names_apart (c\<lparr>ctx_variables := hm_insert n v (ctx_variables c)\<rparr>)" "names_apart (c\<lparr>ctx_functions := hm_insert n f (ctx_functions c)\<rparr>)"
    "names_apart (c\<lparr>defined_traits := hm_insert n tr (defined_traits c)\<rparr>)" "names_apart (c\<lparr>persisted_names := insert n (persisted_names c)\<rparr>)"
    "names_apart (c\<lparr>implemented_traits := I\<rparr>)" "names_apart (c\<lparr>data_size := k\<rparr>)"
  using assms by (auto simp: names_apart_def is_name_used_def Let_def)

lemma names_apart_other: "names_apart (c\<lparr>implemented_traits := I\<rparr>) = names_apart c" "names_apart (c\<lparr>data_size := k\<rparr>) = names_apart c"
  by (simp_all add: names_apart_def)

lemma apply_define_names:
  assumes "apply_define h d e st s = Some (Ok st', t)" "names_apart (es_contract st)"
    and "\<And>n. defined_name d = Some n \<Longrightarrow> \<not> is_name_used (es_contract st) n"
  shows "names_apart (es_contract st')"
proof (cases d)
  case NoDefine
  with assms(1) have "es_contract st' = es_contract st"
    by (auto simp: apply_define_def Let_def bind_Ok result_def dest!: vm_execute_Ok restart_Ok)
  with assms(2) show ?thesis by simp
qed (use assms in \<open>auto simp: apply_define_def bind_Ok result_def Let_def persist_def names_apart_insert names_apart_other\<close>)

lemma eval_top_level_names:
  assumes "eval_top_level h e st s = Some (Ok st', t)" "names_apart (es_contract st)"
  shows "names_apart (es_contract st')"
proof -
  from assms(1) obtain d u where d: "vm_execute h (with_new_call_stack
      (bind (environment_new (es_contract st) None None) (\<lambda>env. evaluate_define h (vm_interp h) e env))) s = Some (Ok d, u)"
    "apply_define h d e st u = Some (Ok st', t)"
    by (auto simp: eval_top_level_def bind_Ok)
  then obtain v w where "evaluate_define h (vm_interp h) e \<lparr>env_contract = es_contract st, env_sender = None, env_caller = None\<rparr> v = Some (Ok d, w)"
    by (auto simp: bind_Ok environment_new_def result_def is_principal_def dest!: vm_execute_Ok restart_Ok)
  from define_result_fresh [OF this] have "defined_name d = Some n \<Longrightarrow> \<not> is_name_used (es_contract st) n" for n by simp
  with d(2) assms(2) show ?thesis by (rule apply_define_names)
qed

lemma eval_expressions_names:
  assumes "eval_expressions h es st s = Some (Ok (Ok st', n), t)" "names_apart (es_contract st)"
  shows "names_apart (es_contract st')"
  using assms
proof (induction es arbitrary: st s)
  case (Cons e es)
  then obtain r u where "capture (eval_top_level h e st) s = Some (Ok r, u)"
    "(case r of Ok st' \<Rightarrow> eval_expressions h es st' | Err err \<Rightarrow> ret (Err err, es_memory st) | Panic \<Rightarrow> result Panic) u =
       Some (Ok (Ok st', n), t)"
    by (auto simp: bind_Ok)
  then show ?case
    using Cons.IH eval_top_level_names [of h e st s] Cons.prems(2)
    by (cases r) (auto simp: capture_def result_def split: option.splits outcome.splits)
qed (simp add: result_def)

text \<open>C17: the names of a contract are distinct. In the context of a contract that was evaluated from its program, no name stands for
  two of a constant, a function, a trait and stored data (a variable, a map or a token), and none is a name that the
  language reserves.\<close>

theorem contract_names_distinct:
  assumes "eval_all h es (contract_context_new contract) s = Some (Ok (v, c), t)"
  shows "names_apart c"
proof -
  obtain st n u where st: "eval_expressions h es \<lparr>es_last = None, es_contract = contract_context_new contract, es_memory = 0\<rparr> s =
      Some (Ok (Ok st, n), u)" "c = (es_contract st)\<lparr>data_size := n\<rparr>"
    using assms by (auto simp: eval_all_def bind_Ok result_def outcome_simps)
  have "names_apart (contract_context_new contract)" by (simp add: names_apart_def contract_context_new_def)
  with eval_expressions_names [OF st(1)] st(2) show ?thesis by (simp add: names_apart_other)
qed

text \<open>The program \<open>(define-constant a 3)\<close>.\<close>

definition constant_program :: "symbolic_expression list" where
  "constant_program = [SymbolicExpression (SList [SymbolicExpression (Atom ''define-constant'') 0, SymbolicExpression (Atom ''a'') 0,
     SymbolicExpression (LiteralValue (VInt 3)) 0]) 0]"

lemma sample_commit:
  "on_global (global_commit bs) (machine_with n m (global_begin sample_global) cs) =
     Some (Ok (None, None), machine_with n m sample_global cs)"
proof -
  have "commit_other asset_map_new asset_map_new = Ok asset_map_new"
    by (simp add: commit_other_def asset_map_new_def token_additions_def flatten_def insert_all_def put_all_inner_def extend_all_inner_def)
  then show ?thesis
    by (simp add: on_global_def machine_with_def global_commit_def Let_def sample_global_def global_begin_def global_new_def
        commit_events_def on_database_def commit_def nest_def wrapper_new_def empty_context_def seq_def give_def is_read_only_def)
qed

lemma constant_parse:
  "define_functions_lookup_by_name ''define-constant'' = Some DefConstant"
  "\<not> is_name_used (contract_context_new contract) ''a''"
  by (simp_all add: define_functions_lookup_by_name_def is_name_used_def is_reserved_def is_reserved_name_def
      native_functions_lookup_by_name_def native_functions_names_def native_variables_lookup_by_name_def contract_context_new_def)

lemma machine_with_calls:
  "(machine_with n m g cs)\<lparr>vm_calls := cs'\<rparr> = machine_with n m g cs'" "vm_calls (machine_with n m g cs) = cs"
  by (simp_all add: machine_with_def)

lemma constant_run:
  "\<exists>v c t. eval_all h constant_program (contract_context_new contract) sample_machine = Some (Ok (v, c), t) \<and>
     hm_get (ctx_variables c) ''a'' = Some (VInt 3)"
  by (simp add: eval_all_def constant_program_def eval_top_level_def vm_execute_def with_new_call_stack_def environment_new_def
      is_principal_def evaluate_define_def try_parse_def define_functions_try_parse_def match_list_def match_atom_def constant_parse
      define_parse_def with_name_def check_argument_count_def handle_define_variable_def check_legal_define_def
      vm_unfold eval_step_def run_actions machine_with_calls sample_commit apply_define_def Let_def COST_BIND_NAME_def
      get_memory_use_def size_of_value_def sample_values)

theorem contract_names_distinct_witness:
  "\<exists>v c t. eval_all sample_host constant_program (contract_context_new contract_transient) sample_machine = Some (Ok (v, c), t) \<and>
     hm_get (ctx_variables c) ''a'' = Some (VInt 3) \<and> names_apart c"
  using constant_run [of sample_host contract_transient]
    contract_names_distinct [of sample_host constant_program contract_transient sample_machine]
  by blast

end
