(* ===== verification/AssetLaws.thy ===== *)
theory AssetLaws
  imports EvaluatorLaws
begin

text \<open>
  What the asset functions of Clarity do to balances. The STX accounts and the accounts of every fungible token are balance
  sheets: a balance that is set is the one that is read, and setting one balance changes no other. For any
  balance sheet a transfer moves an amount between two accounts and conserves the total.
\<close>

section \<open>Balance sheets\<close>

definition ordinary_account :: "principal_data \<Rightarrow> bool" where
  "ordinary_account p \<longleftrightarrow> valid_principal p \<and> principal_version p < 32"

definition balance_of :: "('s, u128) db_op \<Rightarrow> 's rollback_wrapper \<Rightarrow> u128 option" where
  "balance_of f w = (case fst (f w) of Ok b \<Rightarrow> Some b | _ \<Rightarrow> None)"

text \<open>The effect of a transfer on the balances, and of a change of a single one.\<close>

definition moved :: "(principal_data \<Rightarrow> u128 option) \<Rightarrow> (principal_data \<Rightarrow> u128 option) \<Rightarrow> principal_data \<Rightarrow> principal_data \<Rightarrow> u128 \<Rightarrow> bool" where
  "moved bal bal' from to amount \<longleftrightarrow>
     (\<exists>a b. bal from = Some a \<and> bal to = Some b \<and> amount \<le> a \<and> unat b + unat amount < 2 ^ 128 \<and>
        bal' from = Some (a - amount) \<and> bal' to = Some (b + amount) \<and>
        (\<forall>p. ordinary_account p \<longrightarrow> p \<noteq> from \<longrightarrow> p \<noteq> to \<longrightarrow> bal' p = bal p))"

definition total_of :: "(principal_data \<Rightarrow> u128 option) \<Rightarrow> principal_data set \<Rightarrow> nat" where
  "total_of bal A = (\<Sum>p\<in>A. case bal p of Some b \<Rightarrow> unat b | None \<Rightarrow> 0)"

lemma moved_conserves:
  assumes "moved bal bal' from to amount" "from \<noteq> to" "finite A" "\<forall>p\<in>A. ordinary_account p" "from \<in> A" "to \<in> A"
  shows "total_of bal' A = total_of bal A"
proof -
  let ?B = "A - {from} - {to}"
  obtain a b where ab: "bal from = Some a" "bal to = Some b" "amount \<le> a" "unat b + unat amount < 2 ^ 128"
    "bal' from = Some (a - amount)" "bal' to = Some (b + amount)"
    "\<forall>p. ordinary_account p \<longrightarrow> p \<noteq> from \<longrightarrow> p \<noteq> to \<longrightarrow> bal' p = bal p"
    using assms(1) unfolding moved_def by blast
  have split: "total_of f A = (case f from of Some b \<Rightarrow> unat b | None \<Rightarrow> 0) + (case f to of Some b \<Rightarrow> unat b | None \<Rightarrow> 0) + total_of f ?B" for f
    using assms(2,3,5,6) by (simp add: total_of_def sum.remove [of A "from"] sum.remove [of "A - {from}" to])
  have "total_of bal' ?B = total_of bal ?B"
    unfolding total_of_def using ab(7) assms(4) by (intro sum.cong) auto
  moreover have "unat (a - amount) = unat a - unat amount" "unat amount \<le> unat a" "unat (b + amount) = unat b + unat amount"
    using ab(3,4) by (simp_all add: unat_sub word_le_nat_alt unat_word_ariths)
  ultimately show ?thesis using split [of bal] split [of bal'] ab by simp
qed

locale balance_sheet =
  fixes get_balance :: "principal_data \<Rightarrow> ('s, u128) db_op"
    and set_balance :: "principal_data \<Rightarrow> u128 \<Rightarrow> ('s, unit) db_op"
    and opened :: "'s rollback_wrapper \<Rightarrow> bool"
  assumes get_state: "snd (get_balance p w) = w"
    and get_opened: "fst (get_balance p w) = Ok b \<Longrightarrow> opened w"
    and set_Ok: "opened w \<Longrightarrow> ordinary_account p \<Longrightarrow>
      \<exists>w'. set_balance p b w = (Ok (), w') \<and> opened w' \<and>
        (\<forall>q. ordinary_account q \<longrightarrow> balance_of (get_balance q) w' = (if q = p then Some b else balance_of (get_balance q) w))"
begin

lemma get_result: "get_balance p w = (r, w') \<Longrightarrow> w' = w \<and> (\<forall>b. r = Ok b \<longrightarrow> balance_of (get_balance p) w = Some b \<and> opened w)"
  using get_state [of p w] get_opened [of p w] by (auto simp: balance_of_def)

lemma set_moves:
  assumes "opened w" "ordinary_account from" "ordinary_account to" "from \<noteq> to"
    and "balance_of (get_balance from) w = Some a" "balance_of (get_balance to) w = Some b"
    and "amount \<le> a" "checked_add b amount = Some c"
  obtains w1 w2 where "set_balance from (a - amount) w = (Ok (), w1)" "set_balance to c w1 = (Ok (), w2)"
    "moved (\<lambda>p. balance_of (get_balance p) w) (\<lambda>p. balance_of (get_balance p) w2) from to amount"
proof -
  obtain w1 where w1: "set_balance from (a - amount) w = (Ok (), w1)" "opened w1"
    "\<forall>q. ordinary_account q \<longrightarrow> balance_of (get_balance q) w1 = (if q = from then Some (a - amount) else balance_of (get_balance q) w)"
    using set_Ok [OF assms(1,2)] by blast
  obtain w2 where w2: "set_balance to c w1 = (Ok (), w2)"
    "\<forall>q. ordinary_account q \<longrightarrow> balance_of (get_balance q) w2 = (if q = to then Some c else balance_of (get_balance q) w1)"
    using set_Ok [OF w1(2) assms(3)] by blast
  have "c = b + amount" "unat b + unat amount < 2 ^ 128" using assms(8) by (auto simp: checked_add_def split: if_splits)
  with assms w1(3) w2(2) have "moved (\<lambda>p. balance_of (get_balance p) w) (\<lambda>p. balance_of (get_balance p) w2) from to amount"
    unfolding moved_def by (intro exI [of _ a] exI [of _ b]) simp
  with w1 w2 show thesis using that by blast
qed

end

section \<open>The accounts of the database\<close>

text \<open>What is relied on of the code outside: hashes of 32 bytes, and codecs that read what they have written.\<close>

locale faithful_host =
  fixes h :: "'s host"
  assumes hash_length: "length (sha256 h x) = 32"
    and u128_codec: "snd (json_u128 h) (fst (json_u128 h) n) = Some n"
    and principal_codec: "ordinary_account p \<Longrightarrow> snd (json_principal h) (fst (json_principal h) p) = Some p"
begin

lemma account_key_eq:
  "ordinary_account p \<Longrightarrow> ordinary_account q \<Longrightarrow> make_key_for_account_balance h p = make_key_for_account_balance h q \<longleftrightarrow> p = q"
  using key_text_inj [of h "AccountKey p STXBalance" "AccountKey q STXBalance"] hash_length
  by (auto simp: make_key_for_account_balance_def ordinary_account_def)

lemma ft_key_eq:
  "ordinary_account p \<Longrightarrow> ordinary_account q \<Longrightarrow> ft_balance_key h c n p = ft_balance_key h c n q \<longleftrightarrow> p = q"
  unfolding ft_balance_key_def make_key_for_quad_def append_same_eq same_append_eq by (metis option.inject principal_codec)

lemma put_balance:
  assumes "stack w \<noteq> []"
  shows "\<exists>w'. db_put (json_u128 h) key b w = (Ok (), w') \<and> same_metadata w w' \<and>
    (\<forall>key'. db_get h (json_u128 h) key' w' = (if key' = key then Ok (Some b) else fst (db_get h (json_u128 h) key' w), w'))"
proof -
  obtain w' where w': "db_write (put key (fst (json_u128 h) b)) w = (Ok (), w')"
      "stored h w' = (stored h w)(key \<mapsto> fst (json_u128 h) b)" "same_metadata w w'"
    by (rule db_write_put [OF assms, where h = h])
  then have "stack w' \<noteq> []" using assms same_metadata_stack by blast
  with w' assms show ?thesis
    by (intro exI [of _ w'])
      (simp add: db_put_def db_get_def db_read_def get_with_stored deserialize_with_def u128_codec)
qed

end

lemma load_ft_state: "load_ft h c n w = (r, w') \<Longrightarrow> w' = w"
  by (auto simp: load_ft_def map_no_contract_as_none_fetch seq_def attempt_def split: outcome.splits)

lemma load_ft_same: "same_metadata w w' \<Longrightarrow> load_ft h c n w' = (fst (load_ft h c n w), w')"
  by (auto simp: load_ft_def map_no_contract_as_none_fetch fetch_metadata_same seq_def attempt_def split: outcome.splits)

lemma load_ft_open: "fst (load_ft h c n w) = Ok d \<Longrightarrow> stack w \<noteq> []"
  by (auto simp: load_ft_def map_no_contract_as_none_def fetch_metadata_def db_read_def get_metadata_def seq_def attempt_def)

lemma db_get_open: "fst (db_get h c key w) = Ok r \<Longrightarrow> stack w \<noteq> []"
  by (auto simp: db_get_def db_read_def get_with_def)

lemma db_get_state: "snd (db_get h c key w) = w"
  by (simp add: db_get_def db_read_def)

lemma stx_balance_read:
  "get_account_stx_balance h p w = (map_ok (\<lambda>r. case r of None \<Rightarrow> 0 | Some b \<Rightarrow> b) (fst (db_get h (json_u128 h) (make_key_for_account_balance h p) w)), w)"
  using db_get_state [of h "json_u128 h" "make_key_for_account_balance h p" w]
  by (auto simp: get_account_stx_balance_def seq_def give_def split: prod.splits outcome.splits)

lemma ft_balance_read:
  "get_ft_balance h c n p w = (and_then (fst (load_ft h c n w)) (\<lambda>_.
     map_ok (\<lambda>r. case r of None \<Rightarrow> 0 | Some b \<Rightarrow> b) (fst (db_get h (json_u128 h) (ft_balance_key h c n p) w))), w)"
  using db_get_state [of h "json_u128 h" "ft_balance_key h c n p" w] load_ft_state [of h c n w]
  by (auto simp: get_ft_balance_def seq_def give_def split: prod.splits outcome.splits)

sublocale faithful_host \<subseteq> stx: balance_sheet "get_account_stx_balance h" "set_account_stx_balance h" "\<lambda>w. stack w \<noteq> []"
proof
  show "\<exists>w'. set_account_stx_balance h p b w = (Ok (), w') \<and> stack w' \<noteq> [] \<and>
      (\<forall>q. ordinary_account q \<longrightarrow> balance_of (get_account_stx_balance h q) w' =
        (if q = p then Some b else balance_of (get_account_stx_balance h q) w))"
    if "stack w \<noteq> []" "ordinary_account p" for w p b
  proof -
    from put_balance [OF that(1), of "make_key_for_account_balance h p" b] obtain w' where
      w': "db_put (json_u128 h) (make_key_for_account_balance h p) b w = (Ok (), w')" "same_metadata w w'"
        "\<forall>key'. db_get h (json_u128 h) key' w' =
          (if key' = make_key_for_account_balance h p then Ok (Some b) else fst (db_get h (json_u128 h) key' w), w')" by blast
    from that w' show ?thesis
      by (intro exI [of _ w'])
        (simp add: set_account_stx_balance_def stx_balance_read balance_of_def account_key_eq same_metadata_stack [OF w'(2)])
  qed
qed (auto simp: stx_balance_read map_ok_def split: outcome.splits dest: db_get_open)

sublocale faithful_host \<subseteq> ft: balance_sheet "get_ft_balance h c n" "set_ft_balance h c n" "\<lambda>w. \<exists>d. fst (load_ft h c n w) = Ok d"
  for c n
proof
  show "\<exists>w'. set_ft_balance h c n p b w = (Ok (), w') \<and> (\<exists>d. fst (load_ft h c n w') = Ok d) \<and>
      (\<forall>q. ordinary_account q \<longrightarrow> balance_of (get_ft_balance h c n q) w' =
        (if q = p then Some b else balance_of (get_ft_balance h c n q) w))"
    if "\<exists>d. fst (load_ft h c n w) = Ok d" "ordinary_account p" for w p b
  proof -
    from that(1) obtain d where d: "fst (load_ft h c n w) = Ok d" by blast
    from put_balance [OF load_ft_open [OF d], of "ft_balance_key h c n p" b] obtain w' where
      w': "db_put (json_u128 h) (ft_balance_key h c n p) b w = (Ok (), w')" "same_metadata w w'"
        "\<forall>key'. db_get h (json_u128 h) key' w' =
          (if key' = ft_balance_key h c n p then Ok (Some b) else fst (db_get h (json_u128 h) key' w), w')" by blast
    from that(2) d w' show ?thesis
      by (intro exI [of _ w'])
        (simp add: set_ft_balance_def ft_balance_read balance_of_def ft_key_eq load_ft_same [OF w'(2)])
  qed
  show "\<exists>d. fst (load_ft h c n w) = Ok d" if "fst (get_ft_balance h c n p w) = Ok b" for p w b
    using that by (cases "fst (load_ft h c n w)") (simp_all add: ft_balance_read)
qed (simp add: ft_balance_read)

context faithful_host
begin

lemma stx_sheet: "balance_sheet (get_account_stx_balance h) (set_account_stx_balance h) (\<lambda>w. stack w \<noteq> [])"
  by (rule stx.balance_sheet_axioms)

lemma ft_sheet: "balance_sheet (get_ft_balance h c n) (set_ft_balance h c n) (\<lambda>w. \<exists>d. fst (load_ft h c n w) = Ok d)"
  by (rule ft.balance_sheet_axioms)

end

section \<open>Transfers\<close>

lemma on_db_read: "f (database (vm_global s)) = (r, database (vm_global s)) \<Longrightarrow> on_db f s = Some (r, s)"
  by (simp add: on_db_def on_global_def)

lemma on_db_written: "f (database (vm_global s)) = (r, w) \<Longrightarrow> on_db f s = Some (r, with_database w s)"
  by (simp add: on_db_def on_global_def with_database_def)

lemma with_tracker_twice: "with_tracker a (with_tracker b s) = with_tracker a s" "with_tracker (cost_track (vm_global s)) s = s"
  by (simp_all add: with_tracker_def)

lemma env_add_memory_state: "env_add_memory n s = Some (r, t) \<Longrightarrow> \<exists>tr. t = with_tracker tr s"
  by (auto simp: env_add_memory_def on_tracker_def on_global_def with_tracker_def split: prod.splits)

lemma add_memory_for_state: "add_memory_for ts s = Some (r, t) \<Longrightarrow> \<exists>tr. t = with_tracker tr s"
proof (induction ts arbitrary: s)
  case Nil
  then show ?case using with_tracker_twice(2) [of s] by (auto simp: result_def dest: sym)
next
  case (Cons x ts)
  from Cons.prems have "bind (size_of_type x) (\<lambda>n. bind (env_add_memory n) (\<lambda>_. add_memory_for ts)) s = Some (r, t)" by simp
  then consider n where "bind (env_add_memory n) (\<lambda>_. add_memory_for ts) s = Some (r, t)" | "t = s"
    by (rule bind_elim) (auto simp: size_of_type_def result_def)
  then show ?case
  proof cases
    case 1
    then show ?thesis
    proof (rule bind_elim)
      fix y u assume "env_add_memory n s = Some (Ok y, u)" "add_memory_for ts u = Some (r, t)"
      then show ?thesis using env_add_memory_state Cons.IH with_tracker_twice(1) by metis
    qed (rule env_add_memory_state)
  next
    case 2
    then show ?thesis using with_tracker_twice(2) [of s] by (auto dest: sym)
  qed
qed

text \<open>The last steps of every transfer: memory, the two balances, the asset map and the event.\<close>

definition transfer_tail :: "('s, unit) db_op \<Rightarrow> ('s, unit) db_op \<Rightarrow> (asset_map \<Rightarrow> (asset_map, vm_error) outcome) \<Rightarrow> stacks_transaction_event \<Rightarrow> ('s, val) action" where
  "transfer_tail set1 set2 log ev =
     bind (add_memory_for [PrincipalType, PrincipalType, UIntType, UIntType]) (\<lambda>_.
     bind (on_db set1) (\<lambda>_.
     bind (on_db set2) (\<lambda>_.
     bind (on_global (on_asset_map log)) (\<lambda>_.
     bind (register (push_event ev)) (\<lambda>_.
       ret value_okay_true)))))"

text \<open>The asset map and the events after a transfer that is logged and registered.\<close>

definition recorded :: "(asset_map \<Rightarrow> (asset_map, vm_error) outcome) \<Rightarrow> stacks_transaction_event \<Rightarrow> 's global_context \<Rightarrow> 's global_context \<Rightarrow> bool" where
  "recorded log ev g g' \<longleftrightarrow>
     (\<exists>m. log (last (asset_maps g)) = Ok m \<and> asset_maps g' = butlast (asset_maps g) @ [m]) \<and>
     event_batches g' = event_batches (push_event ev g) \<and> read_only g' = read_only g"

lemma transfer_tail_Ok:
  assumes "transfer_tail set1 set2 log ev s = Some (Ok v, t)"
    and "set1 (database (vm_global s)) = (Ok (), w1)" "set2 w1 = (Ok (), w2)"
  shows "v = value_okay_true \<and> database (vm_global t) = w2 \<and> recorded log ev (vm_global s) (vm_global t)"
proof -
  obtain tr r where tr: "add_memory_for [PrincipalType, PrincipalType, UIntType, UIntType] s = Some (Ok r, with_tracker tr s)"
    using assms(1) add_memory_for_state unfolding transfer_tail_def bind_Ok [of "add_memory_for _"] by blast
  have db: "database (vm_global (with_tracker tr s)) = database (vm_global s)"
    "database (vm_global (with_database w1 (with_tracker tr s))) = w1" by (simp_all add: with_tracker_def with_database_def)
  have "transfer_tail set1 set2 log ev s =
      bind (on_global (on_asset_map log)) (\<lambda>_. bind (register (push_event ev)) (\<lambda>_. ret value_okay_true))
        (with_database w2 (with_database w1 (with_tracker tr s)))"
    using tr assms(2,3) db
    by (simp add: transfer_tail_def bind_def [of "add_memory_for _"] bind_def [of "on_db _"] on_db_written del: add_memory_for.simps)
  with assms(1) show ?thesis
    by (auto simp: bind_def on_global_def on_asset_map_def register_def result_def recorded_def with_tracker_def with_database_def
        push_event_def split: if_splits outcome.splits)
qed

definition stx_balance :: "'s host \<Rightarrow> 's vm \<Rightarrow> principal_data \<Rightarrow> u128 option" where
  "stx_balance h s p = balance_of (get_account_stx_balance h p) (database (vm_global s))"

definition ft_balance :: "'s host \<Rightarrow> qualified_contract_identifier \<Rightarrow> clarity_name \<Rightarrow> 's vm \<Rightarrow> principal_data \<Rightarrow> u128 option" where
  "ft_balance h c n s p = balance_of (get_ft_balance h c n p) (database (vm_global s))"

lemma stx_transfer_eq:
  "stx_transfer h from to amount env =
     (if amount \<le> 0 then clarity_ecode STX_NON_POSITIVE_AMOUNT
      else if from = to then clarity_ecode STX_SENDER_IS_RECIPIENT
      else if env_sender env \<noteq> Some (VPrincipal from) then clarity_ecode STX_SENDER_IS_NOT_TX_SENDER
      else
        bind (on_db (get_account_stx_balance h from)) (\<lambda>a.
        bind (on_db (get_account_stx_balance h to)) (\<lambda>b.
          if a < amount then clarity_ecode STX_NOT_ENOUGH_BALANCE
          else
            bind (result (ok_or (Runtime ArithmeticOverflow) (checked_add b amount))) (\<lambda>c.
              transfer_tail (set_account_stx_balance h from (a - amount)) (set_account_stx_balance h to c)
                (add_stx_transfer from amount) (STXEvent (STXTransferEvent from to amount))))))"
  by (simp only: stx_transfer_def transfer_tail_def log_stx_transfer_def register_stx_transfer_event_def)

lemma ft_transfer_eq:
  "ft_transfer h n amount from to env =
     (if amount \<le> 0 then clarity_ecode FT_NON_POSITIVE_AMOUNT
      else if from = to then clarity_ecode FT_SENDER_IS_RECIPIENT
      else
        bind (on_db (get_ft_balance h (current_contract env) n from)) (\<lambda>a.
          if a < amount then clarity_ecode FT_NOT_ENOUGH_BALANCE
          else
            bind (on_db (get_ft_balance h (current_contract env) n to)) (\<lambda>b.
            bind (result (ok_or (Runtime ArithmeticOverflow) (checked_add b amount))) (\<lambda>c.
              transfer_tail (set_ft_balance h (current_contract env) n from (a - amount))
                (set_ft_balance h (current_contract env) n to c)
                (add_token_transfer from (AssetIdentifier (current_contract env) n) amount)
                (FTEvent (FTTransferEvent (AssetIdentifier (current_contract env) n) from to amount))))))"
  by (simp only: ft_transfer_def transfer_tail_def log_token_transfer_def register_ft_transfer_event_def)

text \<open>Reading a balance in an action.\<close>

lemma read_balance:
  assumes "balance_sheet get_balance set_balance opened" "on_db (get_balance p) s = Some (Ok b, t)"
  shows "t = s \<and> balance_of (get_balance p) (database (vm_global s)) = Some b \<and> opened (database (vm_global s))"
proof -
  obtain r w where rw: "get_balance p (database (vm_global s)) = (r, w)" by force
  with balance_sheet.get_result [OF assms(1) rw] assms(2) show ?thesis by (auto simp: on_db_read)
qed

lemma transfer_moves:
  assumes "balance_sheet get_balance set_balance opened" "ordinary_account from" "ordinary_account to" "from \<noteq> to"
    and "on_db (get_balance from) s = Some (Ok a, s1)" "on_db (get_balance to) s = Some (Ok b, s2)"
    and "\<not> a < amount" "checked_add b amount = Some c"
    and "transfer_tail (set_balance from (a - amount)) (set_balance to c) log ev s = Some (Ok v, t)"
  shows "v = value_okay_true \<and> recorded log ev (vm_global s) (vm_global t) \<and>
    moved (\<lambda>p. balance_of (get_balance p) (database (vm_global s))) (\<lambda>p. balance_of (get_balance p) (database (vm_global t))) from to amount"
proof -
  note a = read_balance [OF assms(1,5)] and b = read_balance [OF assms(1,6)]
  from balance_sheet.set_moves [OF assms(1) _ assms(2-4), of "database (vm_global s)" a b amount c] a b assms(7,8)
  obtain w1 w2 where w: "set_balance from (a - amount) (database (vm_global s)) = (Ok (), w1)" "set_balance to c w1 = (Ok (), w2)"
    "moved (\<lambda>p. balance_of (get_balance p) (database (vm_global s))) (\<lambda>p. balance_of (get_balance p) w2) from to amount"
    by (auto simp: not_less)
  with transfer_tail_Ok [OF assms(9) w(1,2)] show ?thesis by simp
qed

lemma ecode_result: "clarity_ecode n s = Some (Ok v, t) \<Longrightarrow> (\<exists>code. v = value_err_uint code) \<and> t = s"
  by (auto simp: clarity_ecode_def result_def)

section \<open>Accounts of a small machine\<close>

interpretation sample: faithful_host sample_host
proof
  show "snd (json_u128 sample_host) (fst (json_u128 sample_host) n) = Some n" for n
    by (simp add: sample_host_def hex_codec_def)
  show "snd (json_principal sample_host) (fst (json_principal sample_host) p) = Some p" if "ordinary_account p" for p
    using that principal_parse_to_string [of "\<lambda>x. replicate 32 (word_of_nat (length x))" p]
    by (simp add: sample_host_def ordinary_account_def)
qed (simp add: sample_host_def)

definition sample_payer :: principal_data where
  "sample_payer = Standard standard_transient"

definition sample_payee :: principal_data where
  "sample_payee = Contract contract_transient"

definition payer_env :: environment where
  "payer_env = \<lparr>env_contract = contract_context_new contract_transient, env_sender = Some (VPrincipal sample_payer),
     env_caller = Some (VPrincipal sample_payer)\<rparr>"

lemma sample_accounts: "ordinary_account sample_payer" "ordinary_account sample_payee" "sample_payer \<noteq> sample_payee"
  by (simp_all add: ordinary_account_def sample_payer_def sample_payee_def) code_simp+

lemma with_database_run: "with_database w (machine_with n m g cs) = machine_with n m (g\<lparr>database := w\<rparr>) cs"
  by (simp add: with_database_def machine_with_def)

lemma on_db_run:
  "f (database g) = (r, w) \<Longrightarrow> on_db f (machine_with n m g cs) = Some (r, machine_with n m (g\<lparr>database := w\<rparr>) cs)"
  by (simp add: on_db_def on_global_def machine_with_def)

lemma memory_for_run:
  "m \<le> 1000 \<Longrightarrow> add_memory_for [PrincipalType, PrincipalType, UIntType, UIntType] (machine_with n m g cs) =
     Some (Ok (), machine_with n (328 + m) g cs)"
  "m \<le> 1000 \<Longrightarrow> add_memory_for [PrincipalType, UIntType] (machine_with n m g cs) = Some (Ok (), machine_with n (164 + m) g cs)"
  by (simp_all add: bind_def size_of_type_def result_def type_eval memory_run)

lemma transfer_tail_run:
  assumes "set1 (database g) = (Ok (), w1)" "set2 w1 = (Ok (), w2)" "asset_maps g \<noteq> []" "log (last (asset_maps g)) = Ok x"
  shows "\<exists>t. transfer_tail set1 set2 log ev (machine_with n 0 g cs) = Some (Ok value_okay_true, t)"
  using assms memory_for_run(1) [of 0 n g cs]
  by (simp add: transfer_tail_def bind_def [of "add_memory_for _"] bind_def [of "on_db _"] on_db_run del: add_memory_for.simps)
    (simp add: bind_def on_global_def on_asset_map_def register_def result_def machine_with_def)

lemma sample_database:
  "db_get sample_host (json_u128 sample_host) key (database sample_global) = (Ok None, database sample_global)"
  "stack (database sample_global) \<noteq> []" "asset_maps sample_global = [asset_map_new]"
  by (simp_all add: db_get_def db_read_def get_with_def sample_global_def global_begin_def global_new_def nest_def wrapper_new_def
      empty_context_def last_write_def sample_host_def table_store_def empty_tables_def)

lemma on_db_balance_run:
  assumes "balance_sheet get_balance set_balance opened" "balance_of (get_balance p) (database g) = Some b"
  shows "on_db (get_balance p) (machine_with n m g cs) = Some (Ok b, machine_with n m g cs)"
proof -
  have "get_balance p (database g) = (Ok b, database g)"
    using assms(2) balance_sheet.get_state [OF assms(1), of p "database g"]
    by (cases "get_balance p (database g)") (auto simp: balance_of_def split: outcome.splits)
  then show ?thesis by (simp add: on_db_run)
qed

lemma sample_log:
  "\<exists>m. add_stx_transfer sample_payer 30 asset_map_new = Ok m" "\<exists>m. add_token_transfer sample_payer a 30 asset_map_new = Ok m"
  by (simp_all add: add_stx_transfer_def add_token_transfer_def get_next_stx_amount_def get_next_amount_def asset_map_new_def
      checked_add_def)

lemma sample_stx_transfer:
  "\<exists>w t. stx_transfer sample_host sample_payer sample_payee 30 payer_env
     (machine_with 0 0 (sample_global\<lparr>database := w\<rparr>) call_stack_new) = Some (Ok value_okay_true, t)"
proof -
  let ?bal = "\<lambda>p. balance_of (get_account_stx_balance sample_host p)"
  have none: "?bal p (database sample_global) = Some 0" for p
    by (simp add: balance_of_def stx_balance_read sample_database)
  obtain w where w: "stack w \<noteq> []" "?bal sample_payer w = Some 100" "?bal sample_payee w = Some 0"
    using sample.stx.set_Ok [OF sample_database(2) sample_accounts(1), of 100] sample_accounts none by (metis (no_types, lifting))
  let ?g = "sample_global\<lparr>database := w\<rparr>"
  have add: "checked_add 0 30 = Some (30 :: u128)" "(30 :: u128) \<le> 100" by (simp_all add: checked_add_def)
  obtain w1 w2 where "set_account_stx_balance sample_host sample_payer (100 - 30) w = (Ok (), w1)"
      "set_account_stx_balance sample_host sample_payee 30 w1 = (Ok (), w2)"
    by (rule sample.stx.set_moves [OF w(1) sample_accounts w(2,3) add(2,1)])
  with transfer_tail_run [of "set_account_stx_balance sample_host sample_payer 70" ?g w1
      "set_account_stx_balance sample_host sample_payee 30" w2 "add_stx_transfer sample_payer 30"] sample_log(1) sample_database(3)
  obtain t where "transfer_tail (set_account_stx_balance sample_host sample_payer 70) (set_account_stx_balance sample_host sample_payee 30)
      (add_stx_transfer sample_payer 30) (STXEvent (STXTransferEvent sample_payer sample_payee 30))
      (machine_with 0 0 ?g call_stack_new) = Some (Ok value_okay_true, t)"
    by fastforce
  then have "stx_transfer sample_host sample_payer sample_payee 30 payer_env (machine_with 0 0 ?g call_stack_new) = Some (Ok value_okay_true, t)"
    using sample_accounts(3) add w(2,3) on_db_balance_run [OF sample.stx_sheet, of _ ?g]
    by (simp add: stx_transfer_eq payer_env_def bind_def result_def)
  then show ?thesis by blast
qed

text \<open>C10: an STX transfer moves the amount or does nothing. When \<open>stx-transfer?\<close> answers, either it answers ok: then the amount is
  positive and covered by the balance of the sender of the transaction, exactly the amount has moved from one
  account to the other without wrapping, every other account is as before, the sum over any accounts with
  these two is conserved, and the movement is recorded in the asset map and as an event. Or nothing has changed and it answers with
  the error code of the first condition that is not met: u3 for an amount of zero, u2 for a transfer to oneself, u4 when the
  account is not that of the sender of the transaction, u1 when the balance does not cover the amount.\<close>

theorem stx_transfer_moves:
  assumes "faithful_host h" "ordinary_account from" "ordinary_account to"
    and "stx_transfer h from to amount env s = Some (Ok v, t)"
  shows "v = value_okay_true \<and> 0 < amount \<and> from \<noteq> to \<and> env_sender env = Some (VPrincipal from) \<and>
      moved (stx_balance h s) (stx_balance h t) from to amount \<and>
      (\<forall>A. finite A \<longrightarrow> (\<forall>p\<in>A. ordinary_account p) \<longrightarrow> from \<in> A \<longrightarrow> to \<in> A \<longrightarrow>
        total_of (stx_balance h t) A = total_of (stx_balance h s) A) \<and>
      recorded (add_stx_transfer from amount) (STXEvent (STXTransferEvent from to amount)) (vm_global s) (vm_global t) \<or>
    t = s \<and>
      (if amount = 0 then v = value_err_uint 3
       else if from = to then v = value_err_uint 2
       else if env_sender env \<noteq> Some (VPrincipal from) then v = value_err_uint 4
       else v = value_err_uint 1 \<and> (\<exists>b. stx_balance h s from = Some b \<and> b < amount))"
proof (cases "0 < amount \<and> from \<noteq> to \<and> env_sender env = Some (VPrincipal from)")
  case True
  note sheet = faithful_host.stx_sheet [OF assms(1)]
  from True assms(4) obtain a s1 b s2 where ab: "on_db (get_account_stx_balance h from) s = Some (Ok a, s1)"
    "on_db (get_account_stx_balance h to) s1 = Some (Ok b, s2)"
    "(if a < amount then clarity_ecode STX_NOT_ENOUGH_BALANCE
      else bind (result (ok_or (Runtime ArithmeticOverflow) (checked_add b amount))) (\<lambda>c.
        transfer_tail (set_account_stx_balance h from (a - amount)) (set_account_stx_balance h to c)
          (add_stx_transfer from amount) (STXEvent (STXTransferEvent from to amount)))) s2 = Some (Ok v, t)"
    by (simp add: stx_transfer_eq bind_Ok word_gt_0) blast
  then have s: "s1 = s" "s2 = s" and bal: "stx_balance h s from = Some a"
    using read_balance [OF sheet] by (auto simp: stx_balance_def) blast+
  show ?thesis
  proof (cases "a < amount")
    case False
    with ab s obtain c where c: "checked_add b amount = Some c"
      "transfer_tail (set_account_stx_balance h from (a - amount)) (set_account_stx_balance h to c)
          (add_stx_transfer from amount) (STXEvent (STXTransferEvent from to amount)) s = Some (Ok v, t)"
      by (auto simp: bind_Ok result_def outcome_simps)
    from transfer_moves [OF sheet assms(2,3) _ ab(1) _ False c] True ab s moved_conserves show ?thesis
      unfolding stx_balance_def by blast
  next
    case short: True
    with ab s bal True show ?thesis by (simp add: clarity_ecode_def result_def STX_NOT_ENOUGH_BALANCE_def word_gt_0)
  qed
next
  case False
  with assms(4) show ?thesis
    by (auto simp: stx_transfer_eq word_gt_0 clarity_ecode_def result_def STX_NON_POSITIVE_AMOUNT_def STX_SENDER_IS_RECIPIENT_def
        STX_SENDER_IS_NOT_TX_SENDER_def split: if_splits)
qed

theorem stx_transfer_moves_witness:
  "\<exists>s t. stx_transfer sample_host sample_payer sample_payee 30 payer_env s = Some (Ok value_okay_true, t) \<and>
    moved (stx_balance sample_host s) (stx_balance sample_host t) sample_payer sample_payee 30"
proof -
  obtain s t where t: "stx_transfer sample_host sample_payer sample_payee 30 payer_env s = Some (Ok value_okay_true, t)"
    using sample_stx_transfer by blast
  have "value_okay_true \<noteq> value_err_uint n" for n by (simp add: value_okay_true_def value_err_uint_def)
  with stx_transfer_moves [OF sample.faithful_host_axioms sample_accounts(1,2) t] t show ?thesis
    by (auto split: if_splits)
qed

text \<open>C19: a transfer of a fungible token moves the amount or does nothing, as for STX and with the accounts of the token of the
  current contract. The sender need not be the sender of the transaction.\<close>

theorem ft_transfer_moves:
  assumes "faithful_host h" "ordinary_account from" "ordinary_account to" "c = current_contract env"
    and "ft_transfer h n amount from to env s = Some (Ok v, t)"
  shows "v = value_okay_true \<and> 0 < amount \<and>
      moved (ft_balance h c n s) (ft_balance h c n t) from to amount \<and>
      (\<forall>A. finite A \<longrightarrow> (\<forall>p\<in>A. ordinary_account p) \<longrightarrow> from \<in> A \<longrightarrow> to \<in> A \<longrightarrow>
        total_of (ft_balance h c n t) A = total_of (ft_balance h c n s) A) \<and>
      recorded (add_token_transfer from (AssetIdentifier c n) amount) (FTEvent (FTTransferEvent (AssetIdentifier c n) from to amount))
        (vm_global s) (vm_global t) \<or>
    (\<exists>code. v = value_err_uint code) \<and> t = s"
proof (cases "0 < amount \<and> from \<noteq> to")
  case True
  note sheet = faithful_host.ft_sheet [OF assms(1), of c n]
  from True assms(4,5) obtain a s1 where a: "on_db (get_ft_balance h c n from) s = Some (Ok a, s1)"
    "(if a < amount then clarity_ecode FT_NOT_ENOUGH_BALANCE
      else bind (on_db (get_ft_balance h c n to)) (\<lambda>b.
        bind (result (ok_or (Runtime ArithmeticOverflow) (checked_add b amount))) (\<lambda>x.
          transfer_tail (set_ft_balance h c n from (a - amount)) (set_ft_balance h c n to x)
            (add_token_transfer from (AssetIdentifier c n) amount) (FTEvent (FTTransferEvent (AssetIdentifier c n) from to amount)))))
      s1 = Some (Ok v, t)"
    by (simp add: ft_transfer_eq bind_Ok word_gt_0) blast
  then have s1: "s1 = s" using read_balance [OF sheet] by blast
  show ?thesis
  proof (cases "a < amount")
    case False
    with a s1 obtain b s2 x where b: "on_db (get_ft_balance h c n to) s = Some (Ok b, s2)" "checked_add b amount = Some x"
      "transfer_tail (set_ft_balance h c n from (a - amount)) (set_ft_balance h c n to x)
        (add_token_transfer from (AssetIdentifier c n) amount) (FTEvent (FTTransferEvent (AssetIdentifier c n) from to amount)) s2 =
       Some (Ok v, t)"
      by (auto simp: bind_Ok result_def outcome_simps)
    then have "s2 = s" using read_balance [OF sheet] by blast
    with transfer_moves [OF sheet assms(2,3) _ _ b(1) False b(2)] True a s1 b(3) moved_conserves show ?thesis
      unfolding ft_balance_def by blast
  qed (use a s1 ecode_result in auto)
qed (use assms(5) ecode_result in \<open>auto simp: ft_transfer_eq word_gt_0 split: if_splits\<close>)

section \<open>Minting\<close>

definition ft_supply :: "'s host \<Rightarrow> qualified_contract_identifier \<Rightarrow> clarity_name \<Rightarrow> 's rollback_wrapper \<Rightarrow> u128 option" where
  "ft_supply h c n w =
     (case fst (db_get h (json_u128 h) (make_key_for_trip h c CirculatingSupply n) w) of Ok (Some x) \<Rightarrow> Some x | _ \<Rightarrow> None)"

context faithful_host
begin

lemma supply_key_differs:
  assumes "ordinary_contract c" "valid_clarity_name n"
  shows "make_key_for_trip h c CirculatingSupply n \<noteq> ft_balance_key h c n p"
  using key_text_inj [of h "TripKey c CirculatingSupply n" "QuadKey c FungibleToken n (fst (json_principal h) p)"] hash_length assms
  by (auto simp: ft_balance_key_def)

lemma increase_supply:
  assumes "load_ft h c n w = (Ok d, w)" "ft_total_supply d = Some cap"
    and "checked_increase_token_supply h c n amount w = (Ok (), w')" "ordinary_contract c" "valid_clarity_name n"
  obtains x where "ft_supply h c n w = Some x" "unat x + unat amount \<le> unat cap" "ft_supply h c n w' = Some (x + amount)"
    "\<And>p. get_ft_balance h c n p w' = (fst (get_ft_balance h c n p w), w')"
proof -
  let ?k = "make_key_for_trip h c CirculatingSupply n"
  have "stack w \<noteq> []" using load_ft_open [of h c n w d] assms(1) by simp
  from assms(1-3) db_get_state [of h "json_u128 h" ?k w] obtain x where
    x: "fst (db_get h (json_u128 h) ?k w) = Ok (Some x)" "unat x + unat amount < 2 ^ 128" "x + amount \<le> cap"
      "db_put (json_u128 h) ?k (x + amount) w = (Ok (), w')"
    by (auto simp: checked_increase_token_supply_def seq_def attempt_def checked_add_def unwrap_opt_def Let_def
        split: prod.splits outcome.splits option.splits if_splits)
  from put_balance [OF \<open>stack w \<noteq> []\<close>, of ?k "x + amount"] x(4) have
    w': "same_metadata w w'" "\<forall>key'. db_get h (json_u128 h) key' w' =
      (if key' = ?k then Ok (Some (x + amount)) else fst (db_get h (json_u128 h) key' w), w')" by auto
  have "get_ft_balance h c n p w' = (fst (get_ft_balance h c n p w), w')" for p
    using supply_key_differs [OF assms(4,5), of p] w'(2) load_ft_same [OF w'(1), of h c n] by (simp add: ft_balance_read)
  moreover have "unat x + unat amount \<le> unat cap" using x(2,3) by (simp add: word_le_nat_alt unat_word_ariths)
  ultimately show thesis using that [of x] x(1) w'(2) by (simp add: ft_supply_def)
qed

lemma set_balance_keeps_supply:
  assumes "set_ft_balance h c n p b w = (Ok (), w')" "ordinary_contract c" "valid_clarity_name n"
  shows "ft_supply h c n w' = ft_supply h c n w"
proof (cases "stack w = []")
  case False
  from put_balance [OF this, of "ft_balance_key h c n p" b] assms(1) supply_key_differs [OF assms(2,3), of p] show ?thesis
    by (auto simp: ft_supply_def set_ft_balance_def)
qed (use assms(1) in \<open>simp add: set_ft_balance_def db_put_def db_write_def put_def\<close>)

end

text \<open>A token with a cap of 1000 in the database of the sample machine.\<close>

definition token_wrapper :: "((string \<rightharpoonup> string) \<times> (metadata_key \<rightharpoonup> string)) rollback_wrapper" where
  "token_wrapper = snd (create_fungible_token sample_host contract_transient ''tok'' (Some 1000) (database sample_global))"

lemma sample_contract: "ordinary_contract contract_transient" "valid_clarity_name ''tok''"
  by code_simp+

lemma last_write_empty: "last_write Mapping.empty key = None"
  by (simp add: last_write_def)

lemma sample_token:
  "load_ft sample_host contract_transient ''tok'' token_wrapper = (Ok \<lparr>ft_total_supply = Some 1000\<rparr>, token_wrapper)"
  "ft_supply sample_host contract_transient ''tok'' token_wrapper = Some 0"
  "balance_of (get_ft_balance sample_host contract_transient ''tok'' p) token_wrapper = Some 0"
proof -
  let ?c = contract_transient let ?n = "''tok''" let ?h = sample_host
  let ?m = "(?c, make_metadata_key FungibleTokenMeta ?n)"
  let ?k = "make_key_for_trip ?h ?c CirculatingSupply ?n"
  obtain w where w: "db_write (insert_metadata ?m (fst (json_ft ?h) \<lparr>ft_total_supply = Some 1000\<rparr>)) (database sample_global) = (Ok (), w)"
    and loads: "load_ft ?h ?c ?n w = (Ok \<lparr>ft_total_supply = Some 1000\<rparr>, w)" "stack w \<noteq> []"
      "\<And>key. db_get ?h (json_u128 ?h) key w = (Ok None, w)"
    by (simp add: load_ft_def map_no_contract_as_none_def fetch_metadata_def db_read_def get_metadata_def db_get_def get_with_def
        db_write_def insert_metadata_def attempt_def last_write_inner_put nest_def wrapper_new_def empty_context_def
        sample_global_def global_begin_def global_new_def sample_host_def constant_codec_def deserialize_with_def
        last_write_empty table_store_def empty_tables_def seq_def)
  from sample.put_balance [OF loads(2), of ?k 0] obtain w' where w': "db_put (json_u128 ?h) ?k 0 w = (Ok (), w')" "same_metadata w w'"
    "\<forall>key. db_get ?h (json_u128 ?h) key w' = (if key = ?k then Ok (Some 0) else Ok None, w')" by (auto simp: loads(3))
  have "token_wrapper = w'"
    using w w'(1) by (simp add: token_wrapper_def create_fungible_token_def db_insert_metadata_def seq_def attempt_def db_read_def
        has_metadata_entry_def sample_global_def global_begin_def global_new_def nest_def wrapper_new_def empty_context_def
        sample_host_def last_write_empty table_store_def empty_tables_def get_metadata_def)
  then show "load_ft ?h ?c ?n token_wrapper = (Ok \<lparr>ft_total_supply = Some 1000\<rparr>, token_wrapper)"
    "ft_supply ?h ?c ?n token_wrapper = Some 0" "balance_of (get_ft_balance ?h ?c ?n p) token_wrapper = Some 0"
    using w'(2,3) load_ft_same [OF w'(2), of ?h ?c ?n] loads(1) sample.supply_key_differs [OF sample_contract, of p]
    by (simp_all add: ft_supply_def ft_balance_read balance_of_def)
qed

lemma sample_ft_transfer:
  "\<exists>w t. ft_transfer sample_host ''tok'' 30 sample_payer sample_payee payer_env
     (machine_with 0 0 (sample_global\<lparr>database := w\<rparr>) call_stack_new) = Some (Ok value_okay_true, t)"
proof -
  let ?c = contract_transient
  let ?bal = "\<lambda>p. balance_of (get_ft_balance sample_host ?c ''tok'' p)"
  have "\<exists>d. fst (load_ft sample_host ?c ''tok'' token_wrapper) = Ok d" using sample_token(1) by simp
  from sample.ft.set_Ok [OF this sample_accounts(1), of 100] obtain w where
    w: "\<exists>d. fst (load_ft sample_host ?c ''tok'' w) = Ok d" "?bal sample_payer w = Some 100" "?bal sample_payee w = Some 0"
    using sample_accounts sample_token(3) by (metis (no_types, lifting))
  let ?g = "sample_global\<lparr>database := w\<rparr>"
  have add: "checked_add 0 30 = Some (30 :: u128)" "(30 :: u128) \<le> 100" by (simp_all add: checked_add_def)
  obtain w1 w2 where "set_ft_balance sample_host ?c ''tok'' sample_payer (100 - 30) w = (Ok (), w1)"
      "set_ft_balance sample_host ?c ''tok'' sample_payee 30 w1 = (Ok (), w2)"
    by (rule sample.ft.set_moves [OF w(1) sample_accounts w(2,3) add(2,1)])
  with transfer_tail_run [of "set_ft_balance sample_host ?c ''tok'' sample_payer 70" ?g w1
      "set_ft_balance sample_host ?c ''tok'' sample_payee 30" w2 "add_token_transfer sample_payer (AssetIdentifier ?c ''tok'') 30"]
    sample_log(2) [of "AssetIdentifier ?c ''tok''"] sample_database(3)
  obtain t where "transfer_tail (set_ft_balance sample_host ?c ''tok'' sample_payer 70) (set_ft_balance sample_host ?c ''tok'' sample_payee 30)
      (add_token_transfer sample_payer (AssetIdentifier ?c ''tok'') 30)
      (FTEvent (FTTransferEvent (AssetIdentifier ?c ''tok'') sample_payer sample_payee 30))
      (machine_with 0 0 ?g call_stack_new) = Some (Ok value_okay_true, t)"
    by fastforce
  then have "ft_transfer sample_host ''tok'' 30 sample_payer sample_payee payer_env (machine_with 0 0 ?g call_stack_new) = Some (Ok value_okay_true, t)"
    using sample_accounts(3) add w(2,3) on_db_balance_run [OF sample.ft_sheet, of ?c "''tok''" _ ?g]
    by (simp add: ft_transfer_eq payer_env_def current_contract_def contract_context_new_def bind_def result_def)
  then show ?thesis by blast
qed

theorem ft_transfer_moves_witness:
  "\<exists>s t. ft_transfer sample_host ''tok'' 30 sample_payer sample_payee payer_env s = Some (Ok value_okay_true, t) \<and>
    moved (ft_balance sample_host contract_transient ''tok'' s) (ft_balance sample_host contract_transient ''tok'' t)
      sample_payer sample_payee 30"
proof -
  obtain s t where t: "ft_transfer sample_host ''tok'' 30 sample_payer sample_payee payer_env s = Some (Ok value_okay_true, t)"
    using sample_ft_transfer by blast
  have c: "contract_transient = current_contract payer_env" by (simp add: current_contract_def payer_env_def contract_context_new_def)
  from ft_transfer_moves [OF sample.faithful_host_axioms sample_accounts(1,2) c t] t show ?thesis
    by (auto simp: value_okay_true_def value_err_uint_def)
qed

text \<open>C20: minting respects the cap. When \<open>ft-mint?\<close> on a token with a declared total supply answers ok, the circulating
  supply has grown by exactly the amount and is at most the cap, the balance of the recipient has grown by the
  same amount without wrapping, and every other balance is as before. When it answers with an error code, nothing has changed.\<close>

theorem ft_mint_respects_supply:
  assumes "faithful_host h" "ordinary_account to" "c = current_contract env" "ordinary_contract c" "valid_clarity_name n"
    and "load_ft h c n (database (vm_global s)) = (Ok d, database (vm_global s))" "ft_total_supply d = Some cap"
    and "ft_mint h n amount to env s = Some (Ok v, t)"
  shows "v = value_okay_true \<and> 0 < amount \<and>
      (\<exists>x. ft_supply h c n (database (vm_global s)) = Some x \<and> unat x + unat amount \<le> unat cap \<and>
        ft_supply h c n (database (vm_global t)) = Some (x + amount)) \<and>
      (\<exists>b. ft_balance h c n s to = Some b \<and> unat b + unat amount < 2 ^ 128 \<and> ft_balance h c n t to = Some (b + amount)) \<and>
      (\<forall>p. ordinary_account p \<longrightarrow> p \<noteq> to \<longrightarrow> ft_balance h c n t p = ft_balance h c n s p) \<or>
    (\<exists>code. v = value_err_uint code) \<and> t = s"
proof (cases "0 < amount")
  case True
  let ?w = "database (vm_global s)"
  from True assms(3,8) obtain s1 b s2 x s3 s4 where run:
    "on_db (checked_increase_token_supply h c n amount) s = Some (Ok (), s1)"
    "on_db (get_ft_balance h c n to) s1 = Some (Ok b, s2)" "checked_add b amount = Some x"
    "add_memory_for [PrincipalType, UIntType] s2 = Some (Ok (), s3)" "on_db (set_ft_balance h c n to x) s3 = Some (Ok (), s4)"
    "v = value_okay_true" "database (vm_global t) = database (vm_global s4)"
    by (auto simp: ft_mint_def bind_Ok word_gt_0 result_def outcome_simps register_def on_global_def register_ft_mint_event_def
        push_event_def simp del: add_memory_for.simps split: if_splits)
  obtain w1 where w1: "checked_increase_token_supply h c n amount ?w = (Ok (), w1)" "s1 = with_database w1 s"
    using run(1) by (auto simp: on_db_def on_global_def with_database_def split: prod.splits)
  obtain y where y: "ft_supply h c n ?w = Some y" "unat y + unat amount \<le> unat cap" "ft_supply h c n w1 = Some (y + amount)"
    "\<And>p. get_ft_balance h c n p w1 = (fst (get_ft_balance h c n p ?w), w1)"
    using faithful_host.increase_supply [OF assms(1,6,7) w1(1) assms(4,5)] by blast
  have s2: "s2 = s1" "balance_of (get_ft_balance h c n to) w1 = Some b" "\<exists>d. fst (load_ft h c n w1) = Ok d"
    using read_balance [OF faithful_host.ft_sheet [OF assms(1)] run(2)] w1(2) by (simp_all add: with_database_def)
  obtain tr where "s3 = with_tracker tr s2" using add_memory_for_state [OF run(4)] by blast
  then have w3: "database (vm_global s3) = w1" using s2 w1(2) by (simp add: with_tracker_def with_database_def)
  from balance_sheet.set_Ok [OF faithful_host.ft_sheet [OF assms(1)] s2(3) assms(2), of x] obtain w2 where
    w2: "set_ft_balance h c n to x w1 = (Ok (), w2)"
      "\<forall>q. ordinary_account q \<longrightarrow> balance_of (get_ft_balance h c n q) w2 = (if q = to then Some x else balance_of (get_ft_balance h c n q) w1)"
    by blast
  have t: "database (vm_global t) = w2" using run(5,7) w2(1) w3 by (auto simp: on_db_written with_database_def)
  have same: "balance_of (get_ft_balance h c n q) w1 = ft_balance h c n s q" for q
    by (simp add: y(4) balance_of_def ft_balance_def)
  have x: "x = b + amount" "unat b + unat amount < 2 ^ 128" using run(3) by (auto simp: checked_add_def split: if_splits)
  have "ft_supply h c n w2 = Some (y + amount)"
    using faithful_host.set_balance_keeps_supply [OF assms(1) w2(1) assms(4,5)] y(3) by simp
  with True run(6) y(1,2) t x s2(2) w2(2) same assms(2) show ?thesis by (simp add: ft_balance_def [of h c n t])
qed (use assms(8) ecode_result in \<open>auto simp: ft_mint_def word_gt_0 split: if_splits\<close>)

lemma sample_increase:
  "\<exists>w. checked_increase_token_supply sample_host contract_transient ''tok'' 30 token_wrapper = (Ok (), w)"
proof -
  let ?k = "make_key_for_trip sample_host contract_transient CirculatingSupply ''tok''"
  have "fst (db_get sample_host (json_u128 sample_host) ?k token_wrapper) = Ok (Some 0)"
    using sample_token(2) by (simp add: ft_supply_def split: outcome.splits option.splits)
  then have "db_get sample_host (json_u128 sample_host) ?k token_wrapper = (Ok (Some 0), token_wrapper)"
    using db_get_state [of sample_host "json_u128 sample_host" ?k token_wrapper] by (simp add: prod_eq_iff)
  moreover obtain w where "db_put (json_u128 sample_host) ?k 30 token_wrapper = (Ok (), w)"
    using sample.put_balance [OF load_ft_open] sample_token(1) by (metis fst_conv)
  ultimately show ?thesis
    using sample_token(1)
    by (simp add: checked_increase_token_supply_def seq_def attempt_def checked_add_def Let_def)
qed

lemma sample_mint:
  "\<exists>t. ft_mint sample_host ''tok'' 30 sample_payer payer_env
     (machine_with 0 0 (sample_global\<lparr>database := token_wrapper\<rparr>) call_stack_new) = Some (Ok value_okay_true, t)"
proof -
  let ?c = contract_transient
  obtain w where w: "checked_increase_token_supply sample_host ?c ''tok'' 30 token_wrapper = (Ok (), w)"
    using sample_increase by blast
  have "get_ft_balance sample_host ?c ''tok'' p w = (fst (get_ft_balance sample_host ?c ''tok'' p token_wrapper), w)" for p
    by (rule sample.increase_supply [OF sample_token(1) _ w sample_contract]) auto
  then have bal: "balance_of (get_ft_balance sample_host ?c ''tok'' sample_payer) w = Some 0"
    using sample_token(3) [of sample_payer] by (simp add: balance_of_def)
  let ?s = "machine_with 0 0 (sample_global\<lparr>database := w\<rparr>) call_stack_new"
  have get: "on_db (get_ft_balance sample_host ?c ''tok'' sample_payer) ?s = Some (Ok 0, ?s)"
    by (rule on_db_balance_run [OF sample.ft_sheet]) (simp add: bal)
  then have "\<exists>d. fst (load_ft sample_host ?c ''tok'' w) = Ok d"
    using read_balance [OF sample.ft_sheet get] by (simp add: machine_with_def)
  then obtain w' where "set_ft_balance sample_host ?c ''tok'' sample_payer 30 w = (Ok (), w')"
    using sample.ft.set_Ok [of ?c "''tok''" w sample_payer 30] sample_accounts(1) by blast
  with w get show ?thesis
    by (simp add: ft_mint_def payer_env_def current_contract_def contract_context_new_def bind_def [of "on_db _"] on_db_run
        bind_def [of "result _"] result_def checked_add_def bind_def [of "add_memory_for _"] memory_for_run del: add_memory_for.simps)
      (simp add: bind_def register_def on_global_def result_def)
qed

theorem ft_mint_respects_supply_witness:
  "\<exists>s t x. ft_mint sample_host ''tok'' 30 sample_payer payer_env s = Some (Ok value_okay_true, t) \<and>
    ft_supply sample_host contract_transient ''tok'' (database (vm_global s)) = Some x \<and>
    ft_supply sample_host contract_transient ''tok'' (database (vm_global t)) = Some (x + 30)"
proof -
  let ?s = "machine_with 0 0 (sample_global\<lparr>database := token_wrapper\<rparr>) call_stack_new"
  obtain t where t: "ft_mint sample_host ''tok'' 30 sample_payer payer_env ?s = Some (Ok value_okay_true, t)"
    using sample_mint by blast
  have c: "contract_transient = current_contract payer_env" by (simp add: current_contract_def payer_env_def contract_context_new_def)
  have loads: "load_ft sample_host contract_transient ''tok'' (database (vm_global ?s)) =
      (Ok \<lparr>ft_total_supply = Some 1000\<rparr>, database (vm_global ?s))"
    using sample_token(1) by (simp add: machine_with_def)
  have "ft_total_supply \<lparr>ft_total_supply = Some 1000\<rparr> = Some 1000" by simp
  from ft_mint_respects_supply [OF sample.faithful_host_axioms sample_accounts(1) c sample_contract loads this t] t show ?thesis
    by (auto simp: value_okay_true_def value_err_uint_def)
qed

end
