(* ===== verification/SigningLaws.thy ===== *)
theory SigningLaws
  imports TransactionAuth
begin

text \<open>
  Signing meets verification. A signing plan lists, in order, the private keys that sign a spending condition and
  the public keys that are only appended to it. A condition that awaits a plan can be signed by it, and what the
  signer produces verifies, for standard and sponsored transactions of every hash mode.
\<close>

section \<open>Plans\<close>

text \<open>
  What the code relies on of the hash and signature libraries: hashes of the sighash function have 32 bytes, a
  32-byte secret key signs every 32-byte message, the signature has 65 bytes that are not all zero, and the key
  recovered from it is the signer's public key.
\<close>

definition signature_scheme :: "crypto \<Rightarrow> bool" where
  "signature_scheme cr \<longleftrightarrow>
     (\<forall>bs. length (c_sha512_256 cr bs) = 32) \<and>
     (\<forall>k m. length k = 32 \<longrightarrow> length m = 32 \<longrightarrow>
        (\<exists>sig. c_sign cr k m = Some sig \<and> length sig = 65 \<and> sig \<noteq> signature_empty \<and> c_recover cr m sig = Some (c_public cr k)))"

datatype signing_step = SignWith stacks_private_key | AppendKey stacks_public_key

fun step_key :: "crypto \<Rightarrow> signing_step \<Rightarrow> stacks_public_key" where
  "step_key cr (SignWith privk) = public_of_private cr privk"
| "step_key cr (AppendKey pubk) = pubk"

fun step_ok :: "signing_step \<Rightarrow> bool" where
  "step_ok (SignWith privk) \<longleftrightarrow> length (sk_key privk) = 32"
| "step_ok (AppendKey pubk) \<longleftrightarrow> True"

fun is_sign :: "signing_step \<Rightarrow> bool" where
  "is_sign (SignWith privk) \<longleftrightarrow> True"
| "is_sign (AppendKey pubk) \<longleftrightarrow> False"

abbreviation signs :: "signing_step list \<Rightarrow> nat" where
  "signs steps \<equiv> length (filter is_sign steps)"

definition key_encoding_of :: "stacks_private_key \<Rightarrow> transaction_public_key_encoding" where
  "key_encoding_of privk = (if sk_compress_public privk then Compressed else Uncompressed)"

fun awaits :: "crypto \<Rightarrow> transaction_spending_condition \<Rightarrow> signing_step list \<Rightarrow> bool" where
  "awaits cr (Singlesig c) steps \<longleftrightarrow>
     ss_signature c = signature_empty \<and>
     (case steps of
        [SignWith privk] \<Rightarrow>
          ss_key_encoding c = key_encoding_of privk \<and>
          from_public_keys cr 0 (singlesig_address_hash_mode (ss_hash_mode c)) 1 [public_of_private cr privk] =
            Ok (Some (StacksAddress 0 (ss_signer c)))
      | _ \<Rightarrow> False)"
| "awaits cr (Multisig c) steps \<longleftrightarrow>
     ms_fields c = [] \<and> unat (ms_signatures_required c) = signs steps \<and>
     from_public_keys cr 0 (multisig_address_hash_mode (ms_hash_mode c)) (signs steps) (map (step_key cr) steps) =
       Ok (Some (StacksAddress 0 (ms_signer c)))"

fun origin_step :: "crypto \<Rightarrow> signing_step \<Rightarrow> stacks_transaction_signer \<Rightarrow> (stacks_transaction_signer, net_error) outcome" where
  "origin_step cr (SignWith privk) sg = sign_origin cr privk sg"
| "origin_step cr (AppendKey pubk) sg = append_origin pubk sg"

fun sponsor_step :: "crypto \<Rightarrow> signing_step \<Rightarrow> stacks_transaction_signer \<Rightarrow> (stacks_transaction_signer, net_error) outcome" where
  "sponsor_step cr (SignWith privk) sg = sign_sponsor cr privk sg"
| "sponsor_step cr (AppendKey pubk) sg = append_sponsor pubk sg"

fun run_plan :: "(signing_step \<Rightarrow> 'g \<Rightarrow> ('g, net_error) outcome) \<Rightarrow> signing_step list \<Rightarrow> 'g \<Rightarrow> ('g, net_error) outcome" where
  "run_plan f [] g = Ok g"
| "run_plan f (s # steps) g = and_then (f s g) (run_plan f steps)"

text \<open>Both runs act on one spending condition and the running hash.\<close>

fun cond_step :: "crypto \<Rightarrow> transaction_auth_flags \<Rightarrow> signing_step \<Rightarrow> transaction_spending_condition \<times> u8 list \<Rightarrow>
    (transaction_spending_condition \<times> u8 list, net_error) outcome" where
  "cond_step cr flag (SignWith privk) (c, h) =
     and_then (oversigned c) (\<lambda>over. if over then Err SigningError else sign_and_append cr c h flag privk)"
| "cond_step cr flag (AppendKey pubk) (c, h) = map_ok (\<lambda>c'. (c', h)) (append_pubkey pubk c)"

section \<open>One signature\<close>

lemma next_signature_verifies:
  assumes "signature_scheme cr" "length h = 32" "length (sk_key privk) = 32"
  shows "\<exists>sig h'. next_signature cr h flag fee nonce privk = Ok (sig, h') \<and> length h' = 32 \<and> sig \<noteq> signature_empty \<and>
           next_verification cr h flag fee nonce (key_encoding_of privk) sig = Ok (public_of_private cr privk, h')"
proof -
  define m where "m = c_sha512_256 cr (h @ [auth_flag_u8 flag] @ word_to_be fee @ word_to_be nonce)"
  have m: "make_sighash_presign cr h flag fee nonce = Ok m" and "length m = 32"
    using assms by (simp_all add: make_sighash_presign_def m_def signature_scheme_def)
  then obtain sig where sig: "c_sign cr (sk_key privk) m = Some sig" "length sig = 65" "sig \<noteq> signature_empty"
    "c_recover cr m sig = Some (c_public cr (sk_key privk))"
    using assms unfolding signature_scheme_def by blast
  show ?thesis
    using assms m sig \<open>length m = 32\<close>
    by (auto simp: next_signature_def next_verification_def make_sighash_postsign_def recover_to_pubkey_def
        set_compressed_def public_of_private_def key_encoding_of_def signature_scheme_def and_then_def ok_or_def)
qed

section \<open>Multisig conditions\<close>

lemma verify_field_fields [simp]: "verify_field cr (c\<lparr>ms_fields := fs\<rparr>) flag f st = verify_field cr c flag f st"
  by (cases f) simp_all

lemma verify_fields_fields [simp]: "verify_fields cr (c\<lparr>ms_fields := fs\<rparr>) flag gs st = verify_fields cr c flag gs st"
  by (induction gs arbitrary: st) (simp_all add: and_then_def split: outcome.splits)

lemma verify_fields_snoc:
  "verify_fields cr c flag (fs @ [f]) st = and_then (verify_fields cr c flag fs st) (verify_field cr c flag f)"
  by (induction fs arbitrary: st) (simp_all add: and_then_def split: outcome.splits)

lemma count_signatures_snoc:
  "count_signatures (fs @ [f]) n =
     and_then (count_signatures fs n) (\<lambda>m. if is_signature f then unwrap_opt (checked_add m 1) else Ok m)"
  by (induction fs arbitrary: n) (simp_all add: and_then_def split: outcome.splits)

text \<open>The signer and the verifier agree: the hash, the keys and the signature count after the fields so far.\<close>

definition in_step :: "crypto \<Rightarrow> transaction_auth_flags \<Rightarrow> u8 list \<Rightarrow> multisig_spending_condition \<Rightarrow> u8 list \<Rightarrow> stacks_public_key list \<Rightarrow> nat \<Rightarrow> bool" where
  "in_step cr flag h0 c h keys n \<longleftrightarrow> length h = 32 \<and>
     (\<exists>num. unat num = n \<and> count_signatures (ms_fields c) 0 = Ok num \<and>
        verify_fields cr c flag (ms_fields c) \<lparr>vs_pubkeys = [], vs_sighash = h0, vs_num_sigs = 0, vs_uncompressed = False\<rparr> =
          Ok \<lparr>vs_pubkeys = keys, vs_sighash = h, vs_num_sigs = num, vs_uncompressed = (\<not> list_all pk_compressed keys)\<rparr>)"

lemma in_step_sign:
  assumes cr: "signature_scheme cr" and k: "length (sk_key privk) = 32"
    and inv: "in_step cr flag h0 c h keys n" and n: "n < unat (ms_signatures_required c)"
  shows "\<exists>fs h'. cond_step cr flag (SignWith privk) (Multisig c, h) = Ok (Multisig (c\<lparr>ms_fields := fs\<rparr>), h') \<and>
           in_step cr flag h0 (c\<lparr>ms_fields := fs\<rparr>) h' (keys @ [public_of_private cr privk]) (Suc n)"
proof -
  from inv obtain num where num: "length h = 32" "unat num = n" "count_signatures (ms_fields c) 0 = Ok num"
    "verify_fields cr c flag (ms_fields c) \<lparr>vs_pubkeys = [], vs_sighash = h0, vs_num_sigs = 0, vs_uncompressed = False\<rparr> =
       Ok \<lparr>vs_pubkeys = keys, vs_sighash = h, vs_num_sigs = num, vs_uncompressed = (\<not> list_all pk_compressed keys)\<rparr>"
    by (auto simp: in_step_def)
  obtain sig h' where sg: "next_signature cr h flag (ms_fee_rate c) (ms_nonce c) privk = Ok (sig, h')" "length h' = 32"
    "next_verification cr h flag (ms_fee_rate c) (ms_nonce c) (key_encoding_of privk) sig = Ok (public_of_private cr privk, h')"
    using next_signature_verifies [OF cr num(1) k] by metis
  have lt: "num < ms_signatures_required c" using n num(2) by (simp add: word_less_nat_alt)
  have "Suc n < 2 ^ LENGTH(16)" using n unat_lt2p [of "ms_signatures_required c"] by simp
  then have add: "checked_add num 1 = Some (num + 1)" "unat (num + 1) = Suc n"
    using num(2) by (simp_all add: checked_add_def unat_word_ariths)
  have enc: "(key_encoding_of privk = Uncompressed) = (\<not> pk_compressed (public_of_private cr privk))"
    by (simp add: key_encoding_of_def public_of_private_def)
  let ?fs = "ms_fields c @ [FieldSignature (key_encoding_of privk) sig]"
  have "cond_step cr flag (SignWith privk) (Multisig c, h) = Ok (Multisig (c\<lparr>ms_fields := ?fs\<rparr>), h')"
    using num(3) sg(1) lt by (simp add: oversigned_def sign_and_append_def key_encoding_of_def and_then_def map_ok_def)
  moreover have "in_step cr flag h0 (c\<lparr>ms_fields := ?fs\<rparr>) h' (keys @ [public_of_private cr privk]) (Suc n)"
    unfolding in_step_def using num sg add enc
    by (auto simp: verify_fields_snoc count_signatures_snoc and_then_def ok_or_def unwrap_opt_def intro!: exI [of _ "num + 1"])
  ultimately show ?thesis by blast
qed

lemma in_step_append:
  assumes "in_step cr flag h0 c h keys n"
  shows "\<exists>fs. cond_step cr flag (AppendKey pubk) (Multisig c, h) = Ok (Multisig (c\<lparr>ms_fields := fs\<rparr>), h) \<and>
           in_step cr flag h0 (c\<lparr>ms_fields := fs\<rparr>) h (keys @ [pubk]) n"
  using assms by (auto simp: in_step_def map_ok_def verify_fields_snoc count_signatures_snoc and_then_def)

lemma multisig_plan:
  assumes "signature_scheme cr" "list_all step_ok steps" "in_step cr flag h0 c h keys n"
    "n + signs steps \<le> unat (ms_signatures_required c)"
  shows "\<exists>fs h'. run_plan (cond_step cr flag) steps (Multisig c, h) = Ok (Multisig (c\<lparr>ms_fields := fs\<rparr>), h') \<and>
           in_step cr flag h0 (c\<lparr>ms_fields := fs\<rparr>) h' (keys @ map (step_key cr) steps) (n + signs steps)"
  using assms(2-)
proof (induction steps arbitrary: c h keys n)
  case Nil
  then show ?case by (auto intro!: exI [of _ "ms_fields c"])
next
  case (Cons s steps)
  obtain fs h' where step: "cond_step cr flag s (Multisig c, h) = Ok (Multisig (c\<lparr>ms_fields := fs\<rparr>), h')"
    "in_step cr flag h0 (c\<lparr>ms_fields := fs\<rparr>) h' (keys @ [step_key cr s]) (n + (if is_sign s then 1 else 0))"
  proof (cases s)
    case (SignWith privk)
    then show ?thesis using in_step_sign [OF assms(1), of privk flag h0 c h keys n] Cons.prems that by auto
  next
    case (AppendKey pubk)
    then show ?thesis using in_step_append [of cr flag h0 c h keys n pubk] Cons.prems that by auto
  qed
  show ?case
    using Cons.IH [OF _ step(2)] Cons.prems step(1) by (cases "is_sign s") (auto simp: and_then_def)
qed

section \<open>Spending conditions\<close>

lemma from_public_keys_compressed:
  "from_public_keys cr v SerializeP2WSH n keys = Ok (Some a) \<Longrightarrow> list_all pk_compressed keys"
  by (auto simp: from_public_keys_def split: if_splits)

lemma multisig_plan_verifies:
  assumes cr: "signature_scheme cr" and steps: "list_all step_ok steps" and aw: "awaits cr (Multisig c) steps" and h: "length h = 32"
  shows "\<exists>c' h'. run_plan (cond_step cr flag) steps (Multisig c, h) = Ok (c', h') \<and> cond_verify cr c' h flag = Ok h' \<and>
           oversigned c' = Ok True \<and> cond_clear c' = cond_clear (Multisig c) \<and> length h' = 32"
proof -
  have "in_step cr flag h c h [] 0" using aw h by (simp add: in_step_def)
  from multisig_plan [OF cr steps this] aw obtain fs h' where
    run: "run_plan (cond_step cr flag) steps (Multisig c, h) = Ok (Multisig (c\<lparr>ms_fields := fs\<rparr>), h')" and
    inv: "in_step cr flag h (c\<lparr>ms_fields := fs\<rparr>) h' (map (step_key cr) steps) (signs steps)" by auto
  from inv aw have num: "count_signatures fs 0 = Ok (ms_signatures_required c)" and h': "length h' = 32" and
    ver: "verify_fields cr c flag fs \<lparr>vs_pubkeys = [], vs_sighash = h, vs_num_sigs = 0, vs_uncompressed = False\<rparr> =
      Ok \<lparr>vs_pubkeys = map (step_key cr) steps, vs_sighash = h', vs_num_sigs = ms_signatures_required c,
          vs_uncompressed = (\<not> list_all pk_compressed (map (step_key cr) steps))\<rparr>"
    by (auto simp: in_step_def word_unat_eq_iff)
  have "ms_hash_mode c = P2WSH \<Longrightarrow> list_all pk_compressed (map (step_key cr) steps)"
    using aw by (auto intro: from_public_keys_compressed)
  then have "cond_verify cr (Multisig (c\<lparr>ms_fields := fs\<rparr>)) h flag = Ok h'"
    using aw ver by (auto simp: multisig_verify_def and_then_def)
  then show ?thesis using run num h' by (auto simp: oversigned_def map_ok_def)
qed

lemma singlesig_plan_verifies:
  assumes cr: "signature_scheme cr" and steps: "list_all step_ok steps" and aw: "awaits cr (Singlesig c) steps" and h: "length h = 32"
  shows "\<exists>c' h'. run_plan (cond_step cr flag) steps (Singlesig c, h) = Ok (c', h') \<and> cond_verify cr c' h flag = Ok h' \<and>
           oversigned c' = Ok True \<and> cond_clear c' = cond_clear (Singlesig c) \<and> length h' = 32"
proof -
  from aw obtain privk where st: "steps = [SignWith privk]"
    by (cases steps; cases "hd steps"; cases "tl steps") auto
  obtain sig h' where sg: "next_signature cr h flag (ss_fee_rate c) (ss_nonce c) privk = Ok (sig, h')" "length h' = 32"
    "sig \<noteq> signature_empty"
    "next_verification cr h flag (ss_fee_rate c) (ss_nonce c) (key_encoding_of privk) sig = Ok (public_of_private cr privk, h')"
    using next_signature_verifies [OF cr h, of privk] steps unfolding st by (metis list.pred_inject(2) step_ok.simps(1))
  show ?thesis
    using aw sg by (auto simp: st oversigned_def sign_and_append_def singlesig_verify_def and_then_def map_ok_def)
qed

lemma plan_verifies:
  assumes "signature_scheme cr" "list_all step_ok steps" "awaits cr c steps" "length h = 32"
  shows "\<exists>c' h'. run_plan (cond_step cr flag) steps (c, h) = Ok (c', h') \<and> cond_verify cr c' h flag = Ok h' \<and>
           oversigned c' = Ok True \<and> cond_clear c' = cond_clear c \<and> length h' = 32"
  using assms singlesig_plan_verifies multisig_plan_verifies by (cases c) blast+

section \<open>The signer runs a plan\<close>

lemma origin_step_cond:
  assumes "sg_check_oversign sg" "\<not> sg_origin_done sg"
  shows "origin_step cr s sg =
     map_ok (\<lambda>(c, h). sg\<lparr>sg_tx := (sg_tx sg)\<lparr>tx_auth := set_origin c (tx_auth (sg_tx sg))\<rparr>, sg_sighash := h\<rparr>)
       (cond_step cr AuthStandard s (auth_origin (tx_auth (sg_tx sg)), sg_sighash sg))"
  using assms
  by (cases s) (auto simp: sign_origin_def append_origin_def sign_next_origin_def append_next_origin_def and_then_def map_ok_def
      split: outcome.splits)

lemma set_origin_simps [simp]:
  "auth_origin (set_origin c a) = c" "set_origin c (set_origin d a) = set_origin c a"
  "auth_sponsor (set_origin c a) = auth_sponsor a" "set_origin (auth_origin a) a = a"
  by (cases a; simp)+

lemma origin_plan_cond:
  assumes "sg_check_oversign sg" "\<not> sg_origin_done sg"
  shows "run_plan (origin_step cr) steps sg =
     map_ok (\<lambda>(c, h). sg\<lparr>sg_tx := (sg_tx sg)\<lparr>tx_auth := set_origin c (tx_auth (sg_tx sg))\<rparr>, sg_sighash := h\<rparr>)
       (run_plan (cond_step cr AuthStandard) steps (auth_origin (tx_auth (sg_tx sg)), sg_sighash sg))"
  using assms
proof (induction steps arbitrary: sg)
  case (Cons s steps)
  then show ?case
    by (cases "cond_step cr AuthStandard s (auth_origin (tx_auth (sg_tx sg)), sg_sighash sg)")
       (auto simp: origin_step_cond and_then_def map_ok_def split: outcome.splits)
qed (simp add: map_ok_def)

lemma sponsor_step_cond:
  assumes "sg_check_oversign sg" "tx_auth (sg_tx sg) = SponsoredAuth a c"
  shows "sponsor_step cr s sg =
     map_ok (\<lambda>(c, h). sg\<lparr>sg_tx := (sg_tx sg)\<lparr>tx_auth := SponsoredAuth a c\<rparr>, sg_sighash := h,
                        sg_origin_done := sg_origin_done sg \<or> is_sign s\<rparr>)
       (cond_step cr AuthSponsored s (c, sg_sighash sg))"
  using assms
  by (cases s) (auto simp: sign_sponsor_def append_sponsor_def sign_next_sponsor_def append_next_sponsor_def and_then_def map_ok_def
      split: outcome.splits)

lemma sponsor_plan_cond:
  assumes "sg_check_oversign sg" "tx_auth (sg_tx sg) = SponsoredAuth a c"
  shows "run_plan (sponsor_step cr) steps sg =
     map_ok (\<lambda>(c, h). sg\<lparr>sg_tx := (sg_tx sg)\<lparr>tx_auth := SponsoredAuth a c\<rparr>, sg_sighash := h,
                        sg_origin_done := sg_origin_done sg \<or> 0 < signs steps\<rparr>)
       (run_plan (cond_step cr AuthSponsored) steps (c, sg_sighash sg))"
  using assms
proof (induction steps arbitrary: sg c)
  case (Cons s steps)
  then show ?case
    by (cases "cond_step cr AuthSponsored s (c, sg_sighash sg)")
       (auto simp: sponsor_step_cond and_then_def map_ok_def split: outcome.splits)
qed (simp add: map_ok_def)

section \<open>Signed transactions verify\<close>

definition sign_transaction :: "crypto \<Rightarrow> signing_step list \<Rightarrow> signing_step list \<Rightarrow> stacks_transaction \<Rightarrow> (stacks_transaction_signer, net_error) outcome" where
  "sign_transaction cr origin_steps sponsor_steps tx =
     and_then (signer_new cr tx) (\<lambda>sg.
     and_then (run_plan (origin_step cr) origin_steps sg) (run_plan (sponsor_step cr) sponsor_steps))"

fun sponsor_awaits :: "crypto \<Rightarrow> transaction_auth \<Rightarrow> signing_step list \<Rightarrow> bool" where
  "sponsor_awaits cr (StandardAuth origin) steps \<longleftrightarrow> steps = []"
| "sponsor_awaits cr (SponsoredAuth origin sponsor) steps \<longleftrightarrow> awaits cr sponsor steps \<and> 0 < signs steps"

text \<open>C3: 
  A transaction that is signed in order by the keys its origin awaits, and then by those its sponsor awaits, is
  complete, and the signatures it carries verify.
\<close>

theorem signed_transaction_verifies:
  assumes cr: "signature_scheme cr"
    and keys: "list_all step_ok (origin_steps @ sponsor_steps)"
    and origin: "awaits cr (auth_origin (tx_auth tx)) origin_steps"
    and sponsor: "sponsor_awaits cr (tx_auth tx) sponsor_steps"
    and encodes: "write_transaction (tx\<lparr>tx_auth := into_initial_sighash_auth (tx_auth tx)\<rparr>) = Ok bs"
  shows "\<exists>sg. sign_transaction cr origin_steps sponsor_steps tx = Ok sg \<and> get_tx sg = Ok (Some (sg_tx sg)) \<and>
           tx_verify cr (sg_tx sg) = Ok ()"
proof -
  obtain h where h: "sign_begin cr tx = Ok h" "length h = 32"
    using encodes cr by (simp add: sign_begin_def txid_def expect_def map_ok_def signature_scheme_def)
  obtain c h1 where c: "run_plan (cond_step cr AuthStandard) origin_steps (auth_origin (tx_auth tx), h) = Ok (c, h1)"
    "cond_verify cr c h AuthStandard = Ok h1" "oversigned c = Ok True" "cond_clear c = cond_clear (auth_origin (tx_auth tx))" "length h1 = 32"
    using plan_verifies [OF cr _ origin h(2)] keys by auto blast
  show ?thesis
  proof (cases "tx_auth tx")
    case (StandardAuth d)
    then have "verify_begin cr (tx\<lparr>tx_auth := StandardAuth c\<rparr>) = Ok h"
      using c(4) h(1) by (simp add: verify_begin_def sign_begin_def)
    then show ?thesis using StandardAuth sponsor h c
      by (auto simp: sign_transaction_def signer_new_def origin_plan_cond get_tx_def tx_verify_def auth_verify_origin_def and_then_def map_ok_def)
  next
    case (SponsoredAuth d e)
    obtain f h2 where f: "run_plan (cond_step cr AuthSponsored) sponsor_steps (e, h1) = Ok (f, h2)"
      "cond_verify cr f h1 AuthSponsored = Ok h2" "oversigned f = Ok True"
      using plan_verifies [OF cr, of sponsor_steps e h1 AuthSponsored] keys sponsor c(5) SponsoredAuth by auto
    have "verify_begin cr (tx\<lparr>tx_auth := SponsoredAuth c f\<rparr>) = Ok h"
      using c(4) h(1) SponsoredAuth by (simp add: verify_begin_def sign_begin_def)
    then show ?thesis using SponsoredAuth sponsor h c f
      by (auto simp: sign_transaction_def signer_new_def origin_plan_cond sponsor_plan_cond get_tx_def tx_verify_def
          auth_verify_origin_def and_then_def map_ok_def)
  qed
qed

text \<open>A stand-in for the libraries: signatures carry the key, hashes are prefixes.\<close>

definition plain_crypto :: crypto where
  "plain_crypto = \<lparr>c_sha256 = (\<lambda>bs. take 32 (bs @ replicate 32 0)), c_sha512_256 = (\<lambda>bs. take 32 (bs @ replicate 32 0)),
     c_hash160 = (\<lambda>bs. take 20 (bs @ replicate 20 0)),
     c_recover = (\<lambda>m sig. Some (take 32 (drop 1 sig))), c_sign = (\<lambda>k m. Some (1 # k @ replicate 32 0)),
     c_public = (\<lambda>k. k), c_uncompressed = (\<lambda>k. k), c_valid_key = (\<lambda>k. True), c_valid_signature = (\<lambda>sig. True)\<rparr>"

lemma plain_crypto_scheme: "signature_scheme plain_crypto"
  by (auto simp: signature_scheme_def plain_crypto_def signature_empty_def dest: arg_cong [where f = hd])

definition sample_key :: stacks_private_key where
  "sample_key = StacksPrivateKey (replicate 32 7) True"

definition sample_cosigner :: stacks_public_key where
  "sample_cosigner = StacksPublicKey (replicate 32 9) True"

definition sample_origin :: transaction_spending_condition where
  "sample_origin = Multisig \<lparr>ms_hash_mode = P2SH,
     ms_signer = (case to_bits_p2sh plain_crypto 1 [public_of_private plain_crypto sample_key, sample_cosigner] of Ok h \<Rightarrow> h | _ \<Rightarrow> []),
     ms_nonce = 3, ms_fee_rate = 5, ms_fields = [], ms_signatures_required = 1\<rparr>"

definition sample_sponsor :: transaction_spending_condition where
  "sample_sponsor = Singlesig \<lparr>ss_hash_mode = P2PKH, ss_signer = to_bits_p2pkh plain_crypto (public_of_private plain_crypto sample_key),
     ss_nonce = 1, ss_fee_rate = 8, ss_key_encoding = Compressed, ss_signature = signature_empty\<rparr>"

definition sample_transaction :: stacks_transaction where
  "sample_transaction = transaction_new Testnet (SponsoredAuth sample_origin sample_sponsor) (Coinbase (replicate 32 0))"

lemma sample_origin_awaits: "awaits plain_crypto sample_origin [SignWith sample_key, AppendKey sample_cosigner]"
  by code_simp

lemma sample_sponsor_awaits: "awaits plain_crypto sample_sponsor [SignWith sample_key]"
  by code_simp

lemma sample_encodes:
  "\<exists>bs. write_transaction (sample_transaction\<lparr>tx_auth := into_initial_sighash_auth (tx_auth sample_transaction)\<rparr>) = Ok bs"
  by (simp add: sample_transaction_def sample_origin_def transaction_new_def write_transaction_def new_initial_sighash_def
      write_multisig_def write_singlesig_def write_vec_def map_ok_def and_then_def)

theorem signed_transaction_verifies_witness:
  "\<exists>sg. sign_transaction plain_crypto [SignWith sample_key, AppendKey sample_cosigner] [SignWith sample_key] sample_transaction = Ok sg \<and>
     get_tx sg = Ok (Some (sg_tx sg)) \<and> tx_verify plain_crypto (sg_tx sg) = Ok ()"
proof -
  obtain bs where bs: "write_transaction (sample_transaction\<lparr>tx_auth := into_initial_sighash_auth (tx_auth sample_transaction)\<rparr>) = Ok bs"
    using sample_encodes by blast
  show ?thesis
    by (rule signed_transaction_verifies [OF plain_crypto_scheme _ _ _ bs])
       (use sample_origin_awaits sample_sponsor_awaits in \<open>simp_all add: sample_key_def sample_transaction_def transaction_new_def\<close>)
qed

end
