(* ===== verification/ProcessingLaws.thy ===== *)
theory ProcessingLaws
  imports Processing ContractLaws AssetLaws SigningLaws
begin

text \<open>
  Laws of transaction processing. A connection stays at its depth over the same store through every call, so that an
  error leaves the store as it was and a success commits exactly one log; and a call of a contract that fails, or
  that its post-conditions reject, leaves nothing but its costs, while one that they accept has its writes merged.
\<close>

section \<open>One log above a database\<close>

definition above :: "'s rollback_wrapper \<Rightarrow> 's rollback_wrapper \<Rightarrow> bool" where
  "above w0 w \<longleftrightarrow> (\<exists>logs l s. represents w0 (logs, s) \<and> represents w (logs @ [l], s))"

definition tracked :: "'s rollback_wrapper \<Rightarrow> bool" where
  "tracked w \<longleftrightarrow> (\<exists>logs s. represents w (logs, s))"

lemma above_nest: "tracked w \<Longrightarrow> above w (nest w)"
  unfolding above_def tracked_def by (blast intro: represents_nest)

lemma above_rollback: "above w0 w \<Longrightarrow> rollback w = Ok w0"
  unfolding above_def by (metis represents_rollback represents_unique)

lemma above_steps: "db_steps w w' \<Longrightarrow> above w0 w \<Longrightarrow> above w0 w'"
proof (induction rule: db_steps.induct)
  case (db_put w w1 key x w2)
  then obtain logs xs ys s where "represents w0 (logs, s)" "represents w1 (logs @ [(xs, ys)], s)"
    unfolding above_def by (metis surj_pair)
  with represents_put [of w1 logs xs ys s key x] db_put(2) show ?case unfolding above_def by auto
next
  case (db_metadata w w1 key x w2)
  then obtain logs xs ys s where "represents w0 (logs, s)" "represents w1 (logs @ [(xs, ys)], s)"
    unfolding above_def by (metis surj_pair)
  with represents_insert_metadata [of w1 logs xs ys s key x] db_metadata(2) show ?case unfolding above_def by auto
qed

text \<open>A commit over an open log keeps the depth and the store.\<close>

definition same_level :: "'s rollback_wrapper \<Rightarrow> 's rollback_wrapper \<Rightarrow> bool" where
  "same_level w0 w \<longleftrightarrow> tracked w \<and> length (stack w) = length (stack w0) \<and> store w = store w0"

lemma above_commit:
  assumes "above w0 w" "stack w0 \<noteq> []"
  shows "\<exists>w'. commit bs w = Ok w' \<and> same_level w0 w'"
proof -
  obtain logs xs ys s where *: "represents w0 (logs, s)" "represents w (logs @ [(xs, ys)], s)"
    using assms(1) unfolding above_def by (metis surj_pair)
  with assms(2) obtain L xs' ys' where L: "logs = L @ [(xs', ys')]"
    by (cases logs rule: rev_cases) (auto simp: represents_def)
  with * represents_commit_nested [of w L xs' ys' xs ys s bs] obtain w' where
    w': "commit bs w = Ok w'" "represents w' (L @ [(xs' @ xs, ys' @ ys)], s)" by auto
  then have "tracked w'" unfolding tracked_def by blast
  moreover have "length (stack w') = length (stack w0)" "store w' = store w0" using * L w'(2) by (simp_all add: represents_def)
  ultimately show ?thesis using w'(1) by (auto simp: same_level_def)
qed

section \<open>Runs of the machine\<close>

lemma represents_nestD:
  assumes "represents (nest w) (logs, s)"
  shows "\<exists>L. logs = L @ [([], [])] \<and> represents w (L, s)"
proof (cases logs rule: rev_cases)
  case (snoc L l)
  with assms show ?thesis
    by (cases l) (auto simp: represents_def nest_def empty_context_def context_of_def)
qed (use assms in \<open>simp add: represents_def nest_def\<close>)

lemma framed_new: "tracked w \<Longrightarrow> framed (global_new w ct) 0 (global_new w ct)"
  by (auto simp: tracked_def framed_def global_new_def)

lemma global_commit_over_log:
  assumes "framed (global_new (nest w) ct) (Suc 0) g" "stack w \<noteq> []"
  shows "\<exists>m batch g'. global_commit bs g = (Ok (Some m, Some batch), g') \<and> above w (database g')"
  using assms(1)
proof (rule framedE, goal_cases)
  case (1 maps m batches batch flags flag logs inner xs ys s)
  then obtain L where L: "logs = L @ [([], [])]" "represents w (L, s)"
    using represents_nestD [of w logs s] by (auto simp: global_new_def)
  with 1 have "represents (database g) (L @ [([], []), (xs, ys)], s)" by simp
  from represents_commit_nested [OF this, of bs] obtain db where
    db: "commit bs (database g) = Ok db" "represents db (L @ [(xs, ys)], s)" by auto
  have "\<exists>g'. global_commit bs g = (Ok (Some m, Some batch), g') \<and> database g' = db"
    using 1 db(1) by (simp add: global_commit_def global_new_def commit_events_def on_database_def seq_def give_def)
  with db(2) L(2) show ?case unfolding above_def by blast
qed

text \<open>What the machine leaves of a database with an open log, when it closes every context it opened.\<close>

lemma run_over_log:
  assumes restores: "block_hash_restores (backing h)" and w: "tracked w" "stack w \<noteq> []"
    and run: "vm_execute_in_env h sender f \<lparr>vm_global = global_new (nest w) ct, vm_calls = cs\<rparr> = Some (r, t)"
    and r: "r \<noteq> Panic" "is_top_level (vm_global t)"
    and f: "\<And>env. vm_effect.agree keeps_frames 0 (f env) (f env)"
  shows "above w (database (vm_global t))"
proof -
  note eff = framing [OF restores]
  let ?s = "\<lparr>vm_global = global_new (nest w) ct, vm_calls = cs\<rparr>"
  let ?m = "bind (environment_new (contract_context_new contract_transient) (Some sender) (Some sender)) f"
  obtain r' u where body: "?m (started False ?s) = Some (r', u)" "r' \<noteq> Panic"
    and rest: "(case r' of
        Ok x \<Rightarrow> bind (on_global (owned_commit (backing h))) (\<lambda>(amap, events). ret (x, amap, events))
      | Err e \<Rightarrow> bind (on_global global_roll_back) (\<lambda>_. result (Err e))
      | Panic \<Rightarrow> result Panic) u = Some (r, t)"
    using run r(1)
    by (auto simp: vm_execute_in_env_def bind_def [of "from_global _"] bind_def [of "on_global (\<lambda>g. (Ok (), global_begin g))"]
        bind_def [of "capture _"] capture_def from_global_def on_global_def started_def result_def is_top_level_def global_new_def
        split: option.splits outcome.splits if_splits)
  have "vm_effect.agree keeps_frames 0 ?m ?m"
    unfolding environment_new_def by (intro vm_effect.agree_bind [OF eff] vm_effect.agree_result [OF eff] f)
  then have "keeps_frames (started False ?s) u" by (rule agree_self [where m = ?m, OF restores body])
  moreover have tn: "tracked (nest w)" using above_nest [OF w(1)] by (auto simp: above_def tracked_def)
  then have "framed (global_new (nest w) ct) (Suc 0) (vm_global (started False ?s))"
    using framed_begin(1) [OF framed_new [OF tn]] by (simp add: started_def)
  ultimately obtain k where k: "framed (global_new (nest w) ct) (Suc k) (vm_global u)" by (rule keeps_framesE)
  have top: "length (asset_maps (vm_global t)) = 0" using r(2) by (simp add: is_top_level_def)
  show ?thesis
  proof (cases r')
    case (Ok x)
    obtain rg g where g: "global_commit (backing h) (vm_global u) = (rg, g)" by force
    with rest Ok r(1) have t: "vm_global t = g"
      by (auto simp: bind_def on_global_def owned_commit_def seq_def attempt_def give_def result_def ok_or_def
          split: option.splits outcome.splits prod.splits)
    show ?thesis
    proof (cases k)
      case 0
      with global_commit_over_log [of w ct "vm_global u" "backing h"] k w(2) g t show ?thesis by auto
    next
      case (Suc j)
      with framed_commit [of "global_new (nest w) ct" j "vm_global u" "backing h"] k g t top
      show ?thesis by (auto dest!: framed_length)
    qed
  next
    case (Err e)
    with rest obtain y where y: "global_roll_back (vm_global u) = (y, vm_global t)"
      by (auto simp: bind_def on_global_def result_def split: prod.splits outcome.splits)
    from rolled_back_framed [OF k y] framed_length [of "global_new (nest w) ct" k "vm_global t"] top
    have "framed (global_new (nest w) ct) 0 (vm_global t)" by simp
    then have "vm_global t = (global_new (nest w) ct)\<lparr>cost_track := cost_track (vm_global t)\<rparr>" by (rule framed_0_eq)
    then have "database (vm_global t) = nest w" by (metis global_context.select_convs(3) global_context.update_convs(5) global_context.surjective global_new_def)
    then show ?thesis using above_nest [OF w(1)] by simp
  qed (use body in simp)
qed

section \<open>Connections\<close>

definition open_conn :: "'s connection \<Rightarrow> bool" where
  "open_conn c \<longleftrightarrow> tracked (conn_db c) \<and> stack (conn_db c) \<noteq> []"

definition keeps_level :: "'s connection \<Rightarrow> 's connection \<Rightarrow> bool" where
  "keeps_level c c' \<longleftrightarrow> same_level (conn_db c) (conn_db c')"

lemma conn_db_simps [simp]:
  "conn_db (with_db w c) = w" "with_db (conn_db c) c = c" "conn_db (c\<lparr>cn_cost := ct\<rparr>) = conn_db c"
  by (simp_all add: conn_db_def with_db_def from_persisted_log_def persisted_log_of_def)

lemma with_db_cost: "with_db (conn_db c) (c\<lparr>cn_cost := ct\<rparr>) = c\<lparr>cn_cost := ct\<rparr>"
  using conn_db_simps(2) [of "c\<lparr>cn_cost := ct\<rparr>"] by simp

lemma keeps_level_refl: "open_conn c \<Longrightarrow> keeps_level c c"
  by (simp add: keeps_level_def same_level_def open_conn_def)

lemma keeps_level_trans: "keeps_level c c1 \<Longrightarrow> keeps_level c1 c2 \<Longrightarrow> keeps_level c c2"
  by (simp add: keeps_level_def same_level_def)

lemma keeps_level_cost: "keeps_level c (c'\<lparr>cn_cost := ct\<rparr>) \<longleftrightarrow> keeps_level c c'"
  by (simp add: keeps_level_def)

lemma keeps_level_open: "keeps_level c c' \<Longrightarrow> open_conn c \<Longrightarrow> open_conn c'"
  by (auto simp: keeps_level_def same_level_def open_conn_def)

lemma open_conn_above: "open_conn c \<Longrightarrow> above (conn_db c) (nest (conn_db c))"
  by (simp add: open_conn_def above_nest)

lemma open_conn_start: "open_conn (start_transaction_processing s ct)"
  "length (stack (conn_db (start_transaction_processing s ct))) = 1" "store (conn_db (start_transaction_processing s ct)) = s"
proof -
  have "conn_db (start_transaction_processing s ct) = nest (wrapper_new s)"
    by (simp add: conn_db_def start_transaction_processing_def from_persisted_log_def persisted_log_nest_def persisted_log_new_def
        nest_def wrapper_new_def)
  moreover have "represents (nest (wrapper_new s)) ([] @ [([], [])], s)" by (rule represents_nest [OF represents_new])
  ultimately show "open_conn (start_transaction_processing s ct)"
    "length (stack (conn_db (start_transaction_processing s ct))) = 1" "store (conn_db (start_transaction_processing s ct)) = s"
    by (auto simp: open_conn_def tracked_def nest_def wrapper_new_def)
qed

text \<open>Routines on the database that only write through \<open>put\<close> and \<open>insert_metadata\<close>.\<close>

definition steps_only :: "('s rollback_wrapper, 'a, 'e) routine \<Rightarrow> bool" where
  "steps_only f \<longleftrightarrow> (\<forall>w. db_steps w (snd (f w)))"

lemma steps_only_seq: "steps_only m \<Longrightarrow> (\<And>x. steps_only (f x)) \<Longrightarrow> steps_only (seq m f)"
  unfolding steps_only_def seq_def
  by (auto split: prod.splits outcome.splits intro: db_steps_trans) (metis db_steps_trans snd_conv)+

lemma steps_only_attempt: "steps_only (attempt r)" "steps_only (give x)"
  by (simp_all add: steps_only_def attempt_def give_def db_none)

lemma steps_only_lift: "writes_only m \<Longrightarrow> steps_only (lift_db m)"
  by (simp add: steps_only_def writes_only_def lift_db_def split: prod.splits) (metis snd_conv)

lemmas steps_intros = steps_only_seq steps_only_attempt steps_only_lift

lemma steps_only_above: "steps_only f \<Longrightarrow> open_conn c \<Longrightarrow> f (nest (conn_db c)) = (r, w) \<Longrightarrow> above (conn_db c) w"
  unfolding steps_only_def using above_steps open_conn_above by (metis snd_conv)

lemma readonly_same:
  assumes "steps_only f" "open_conn c" "with_clarity_db_readonly f c = (r, c')" "r \<noteq> Panic"
  shows "c' = c"
proof -
  obtain q w where w: "f (nest (conn_db c)) = (q, w)" by force
  from above_rollback [OF steps_only_above [OF assms(1,2) w]] assms(3,4) w show ?thesis
    by (auto simp: with_clarity_db_readonly_def close_db_def split: outcome.splits)
qed

lemma with_clarity_db_level:
  assumes "steps_only f" "open_conn c" "with_clarity_db h f c = (r, c')" "r \<noteq> Panic"
  shows "keeps_level c c'" "r = Err e \<Longrightarrow> c' = c"
proof -
  obtain q w where w: "f (nest (conn_db c)) = (q, w)" by force
  note ab = steps_only_above [OF assms(1,2) w]
  obtain w' where w': "commit (backing h) w = Ok w'" "same_level (conn_db c) w'"
    using above_commit [OF ab] assms(2) by (auto simp: open_conn_def)
  from above_rollback [OF ab] w w' assms(3,4) show "keeps_level c c'" "r = Err e \<Longrightarrow> c' = c"
    using keeps_level_refl [OF assms(2)]
    by (auto simp: with_clarity_db_def close_db_def keeps_level_def split: outcome.splits)
qed

section \<open>Calls and deployments within a connection\<close>

text \<open>The actions a connection runs: those that leave one log above an open database.\<close>

definition runs_above :: "('s, 'a) action \<Rightarrow> bool" where
  "runs_above m \<longleftrightarrow> (\<forall>w ct cs r t. tracked w \<longrightarrow> stack w \<noteq> [] \<longrightarrow>
     m \<lparr>vm_global = global_new (nest w) ct, vm_calls = cs\<rparr> = Some (r, t) \<longrightarrow> r \<noteq> Panic \<longrightarrow> is_top_level (vm_global t) \<longrightarrow>
     above w (database (vm_global t)))"

lemma entry_points_run_above:
  assumes "block_hash_restores (backing h)"
  shows "runs_above (execute_transaction h sender contract tx_name args)"
    and "runs_above (owned_initialize_contract_from_ast h contract es str)"
proof -
  note eff = framing [OF assms] and restart = restart_framing [OF assms]
  have call: "vm_effect.agree keeps_frames 0 (execute_contract h (vm_interp h) contract tx_name args False env)
      (execute_contract h (vm_interp h) contract tx_name args False env)" for env
    by (intro vm_effect.agree_execute_contract [OF eff] vm_restart.interp_agree_vm [OF restart])
  have deploy: "vm_effect.agree keeps_frames 0 (initialize_contract_from_ast h contract es str) (initialize_contract_from_ast h contract es str)"
    by (rule vm_restart.agree_deployment [OF restart])
  show "runs_above (execute_transaction h sender contract tx_name args)"
    unfolding runs_above_def execute_transaction_def using run_over_log [OF assms] call by blast
  show "runs_above (owned_initialize_contract_from_ast h contract es str)"
    unfolding runs_above_def owned_initialize_contract_from_ast_def using run_over_log [OF assms] deploy by blast
qed

fun rejected :: "(asset_map \<Rightarrow> (bool, vm_error) outcome) \<Rightarrow> ('a \<times> asset_map \<times> event_batch, clarity_error) outcome \<Rightarrow> bool" where
  "rejected abort_call_back (Ok (x, amap, events)) \<longleftrightarrow> abort_call_back amap = Ok True"
| "rejected abort_call_back (Err e) \<longleftrightarrow> True"
| "rejected abort_call_back Panic \<longleftrightarrow> False"

lemma abort_callback_level:
  assumes m: "runs_above m" and c: "open_conn c" and run: "with_abort_callback h m cb c = Some (r, c')" and r: "r \<noteq> Panic"
  shows "keeps_level c c'" "rejected cb r \<Longrightarrow> c' = c\<lparr>cn_cost := cn_cost c'\<rparr>"
proof -
  let ?s = "\<lparr>vm_global = global_new (nest (conn_db c)) (cn_cost c), vm_calls = call_stack_new\<rparr>"
  from run r obtain q t db ct where q: "m ?s = Some (q, t)" "q \<noteq> Panic" "destruct (vm_global t) = Some (db, ct)"
    by (auto simp: with_abort_callback_def split: option.splits outcome.splits prod.splits)
  then have top: "is_top_level (vm_global t)" "db = database (vm_global t)" by (auto simp: destruct_def split: if_splits)
  have ab: "above (conn_db c) db"
    using m c q top unfolding runs_above_def open_conn_def by blast
  obtain w where w: "commit (backing h) db = Ok w" "same_level (conn_db c) w"
    using above_commit [OF ab] c by (auto simp: open_conn_def)
  note parts = q above_rollback [OF ab] w
  show "keeps_level c c'"
    using run r parts keeps_level_refl [OF c]
    by (auto simp: with_abort_callback_def close_db_def Let_def keeps_level_def split: outcome.splits if_splits)
  show "c' = c\<lparr>cn_cost := cn_cost c'\<rparr>" if "rejected cb r"
    using run r parts that
    by (auto simp: with_abort_callback_def close_db_def Let_def with_db_cost split: outcome.splits if_splits)
qed

definition missing_connection :: "((string \<rightharpoonup> string) \<times> (metadata_key \<rightharpoonup> string)) connection" where
  "missing_connection = start_transaction_processing empty_tables tracker_new_max_limit"

lemma missing_connection_db: "conn_db missing_connection = nest (wrapper_new empty_tables)"
  by (simp add: missing_connection_def conn_db_def start_transaction_processing_def from_persisted_log_def persisted_log_nest_def
      persisted_log_new_def nest_def wrapper_new_def)

lemma missing_connection_open: "open_conn missing_connection"
  unfolding missing_connection_def by (rule open_conn_start)

lemma missing_connection_call:
  "\<exists>t. execute_transaction missing_host (VPrincipal p) contract f args
     \<lparr>vm_global = global_new (nest (conn_db missing_connection)) (cn_cost missing_connection), vm_calls = call_stack_new\<rparr> =
       Some (Err (Unchecked (NoSuchContract ''c'')), t) \<and>
     destruct (vm_global t) = Some (nest (conn_db missing_connection), cn_cost missing_connection)"
proof -
  let ?w = "nest (conn_db missing_connection)"
  have w: "tracked ?w" using open_conn_above [OF missing_connection_open] by (auto simp: above_def tracked_def)
  have "get_contract_size missing_host contract (nest ?w) = (Err (Unchecked (NoSuchContract ''c'')), nest ?w)"
    by (simp add: get_contract_size_def missing_metadata seq_def missing_connection_db nest_def wrapper_new_def last_write_def)
  then show ?thesis using above_rollback [OF above_nest [OF w]]
    by (simp add: execute_transaction_def vm_execute_in_env_def execute_contract_def environment_new_def is_principal_def
        bind_def capture_def from_global_def on_db_def on_global_def result_def is_top_level_def
        global_begin_def global_new_def global_roll_back_def on_database_def destruct_def)
qed

text \<open>C5: 
  What a contract call of a transaction leaves in the connection. When the call ends with an error it leaves nothing but
  its costs: a runtime error is accepted with a receipt that has no events and no burns, any other error makes the transaction
  invalid. When the call succeeds, its post-conditions are checked: if they hold, the writes of the call are merged into the log of
  the transaction; if they do not, nothing but the costs is left.
\<close>

theorem contract_call_kept_or_undone:
  assumes "block_hash_restores (backing h)" "open_conn c"
    and "process_contract_call h tx cc a c = Some (r, c')" "r \<noteq> Panic"
    and "execute_transaction h (VPrincipal (ac_principal a)) (to_clarity_contract_id cc) (cc_function_name cc)
        (map atom_value (cc_function_args cc)) \<lparr>vm_global = global_new (nest (conn_db c)) (cn_cost c), vm_calls = call_stack_new\<rparr> =
      Some (q, t)"
  shows "case q of
      Err e \<Rightarrow> c' = c\<lparr>cn_cost := cn_cost c'\<rparr> \<and>
        (case clarity_error_of e of
           ClarityInterpreter (Runtime x) \<Rightarrow>
             (\<exists>rc. r = Ok rc \<and> rc_result rc = value_err_none \<and> rc_events rc = [] \<and> rc_stx_burned rc = 0)
         | y \<Rightarrow> r = Err (ClarityError y))
    | Ok (v, amap, events) \<Rightarrow>
        (\<exists>holds. check_transaction_postconditions (tx_post_conditions tx) (tx_post_condition_mode tx) (ac_principal a) amap = Ok holds \<and>
           (if holds then commit (backing h) (database (vm_global t)) = Ok (conn_db c') else c' = c\<lparr>cn_cost := cn_cost c'\<rparr>))
    | Panic \<Rightarrow> False"
proof -
  let ?run = "with_abort_callback h (execute_transaction h (VPrincipal (ac_principal a)) (to_clarity_contract_id cc) (cc_function_name cc)
        (map atom_value (cc_function_args cc))) (postconditions_abort tx a) c"
  obtain w where run: "?run = Some (w, c')"
    and r: "r = and_then (accept_runtime_error (value_err_none, asset_map_new, []) w) (\<lambda>(v, amap, events). receipt tx events v amap None)"
    using assms(3,4)
    by (auto simp: process_contract_call_def run_contract_call_def chain_bind_def chain_result_def split: option.splits outcome.splits prod.splits)
  with assms(4) have w: "?run = Some (w, c')" "w \<noteq> Panic" by auto
  note level = abort_callback_level(2) [OF entry_points_run_above(1) [OF assms(1)] assms(2) w]
  show ?thesis
  proof (cases q)
    case (Err e)
    with w assms(5) have err: "w = Err (clarity_error_of e)"
      by (auto simp: with_abort_callback_def close_db_def Let_def split: option.splits outcome.splits prod.splits)
    have "case clarity_error_of e of
        ClarityInterpreter (Runtime x) \<Rightarrow>
          (\<exists>rc. r = Ok rc \<and> rc_result rc = value_err_none \<and> rc_events rc = [] \<and> rc_stx_burned rc = 0)
      | y \<Rightarrow> r = Err (ClarityError y)"
      using r err by (simp add: receipt_def get_stx_burned_total_def asset_map_new_def split: clarity_error.split vm_error.split)
    moreover have "c' = c\<lparr>cn_cost := cn_cost c'\<rparr>" by (rule level) (simp add: err)
    ultimately show ?thesis unfolding Err outcome.case by blast
  next
    case (Ok x)
    obtain v amap events where x: "x = (v, amap, events)" by (cases x) auto
    obtain aborts where aborts: "postconditions_abort tx a amap = Ok aborts" "w = Ok (v, amap, events)"
      "\<not> aborts \<Longrightarrow> commit (backing h) (database (vm_global t)) = Ok (conn_db c')"
      using w assms(5) Ok x
      by (cases "postconditions_abort tx a amap")
        (auto simp: with_abort_callback_def destruct_def close_db_def Let_def split: option.splits outcome.splits prod.splits if_splits)
    then have "c' = c\<lparr>cn_cost := cn_cost c'\<rparr>" if aborts using that by (intro level) simp
    with aborts show ?thesis
      unfolding Ok x outcome.case prod.case postconditions_abort_def
      by (cases "check_transaction_postconditions (tx_post_conditions tx) (tx_post_condition_mode tx) (ac_principal a) amap")
        (auto simp only: outcome_simps map_ok_def outcome.case outcome.inject outcome.distinct if_True if_False not_not not_False_eq_True split: if_split)
  qed (use w assms(5) in \<open>auto simp: with_abort_callback_def\<close>)
qed

definition missing_payload :: transaction_contract_call where
  "missing_payload = \<lparr>cc_address = StacksAddress 26 (replicate 20 0), cc_contract_name = ''c'', cc_function_name = ''f'', cc_function_args = []\<rparr>"

theorem contract_call_kept_or_undone_witness:
  "\<exists>c'. process_contract_call missing_host sample_transaction
       missing_payload \<lparr>ac_principal = Standard standard_transient, ac_nonce = 0, ac_stx_balance = 0\<rparr> missing_connection =
     Some (Err (ClarityError (ClarityInterpreter (Unchecked (NoSuchContract ''c'')))) :: (unit stacks_transaction_receipt, chain_error) outcome, c') \<and>
     c' = missing_connection\<lparr>cn_cost := cn_cost c'\<rparr>"
proof -
  let ?a = "\<lparr>ac_principal = Standard standard_transient, ac_nonce = 0, ac_stx_balance = 0\<rparr>"
  let ?r = "Err (ClarityError (ClarityInterpreter (Unchecked (NoSuchContract ''c'')))) :: (unit stacks_transaction_receipt, chain_error) outcome"
  have restores: "block_hash_restores (backing missing_host)" by (simp add: block_hash_restores_def missing_host_def table_store_def)
  obtain t where t: "execute_transaction missing_host (VPrincipal (ac_principal ?a)) (to_clarity_contract_id missing_payload) (cc_function_name missing_payload)
      (map atom_value (cc_function_args missing_payload))
      \<lparr>vm_global = global_new (nest (conn_db missing_connection)) (cn_cost missing_connection), vm_calls = call_stack_new\<rparr> =
      Some (Err (Unchecked (NoSuchContract ''c'')), t)"
    "destruct (vm_global t) = Some (nest (conn_db missing_connection), cn_cost missing_connection)"
    using missing_connection_call by blast
  obtain c' where run: "process_contract_call missing_host sample_transaction missing_payload ?a missing_connection = Some (?r, c')"
    using t above_rollback [OF open_conn_above [OF missing_connection_open]]
    by (simp add: process_contract_call_def run_contract_call_def with_abort_callback_def close_db_def chain_bind_def)
  have "c' = missing_connection\<lparr>cn_cost := cn_cost c'\<rparr>"
    using contract_call_kept_or_undone [OF restores missing_connection_open run _ t(1)] by simp
  with run show ?thesis by blast
qed

section \<open>Whole transactions\<close>

definition chain_keeps :: "('s, 'a) chain_action \<Rightarrow> bool" where
  "chain_keeps m \<longleftrightarrow> (\<forall>c. open_conn c \<longrightarrow> (\<exists>r c'. m c = Some (r, c') \<and> (r \<noteq> Panic \<longrightarrow> keeps_level c c')))"

named_theorems chain_intros

lemma chain_keeps_bind [chain_intros]:
  fixes m :: "('s, 'a) chain_action"
  assumes "chain_keeps m" "\<And>x. chain_keeps (f x)"
  shows "chain_keeps (chain_bind m f)"
  unfolding chain_keeps_def
proof (intro allI impI)
  fix c :: "'s connection" assume c: "open_conn c"
  with assms(1) obtain r c1 where r: "m c = Some (r, c1)" "r \<noteq> Panic \<longrightarrow> keeps_level c c1" unfolding chain_keeps_def by blast
  show "\<exists>r c'. chain_bind m f c = Some (r, c') \<and> (r \<noteq> Panic \<longrightarrow> keeps_level c c')"
  proof (cases r)
    case (Ok x)
    with r have "keeps_level c c1" "open_conn c1" using keeps_level_open c by auto
    with assms(2) [of x] Ok r show ?thesis unfolding chain_keeps_def chain_bind_def
      by (auto intro: keeps_level_trans dest!: spec [of _ c1])
  qed (use r in \<open>auto simp: chain_bind_def\<close>)
qed

lemma chain_keeps_result [chain_intros]: "chain_keeps (chain_result r)"
  by (simp add: chain_keeps_def chain_result_def keeps_level_refl)

lemma chain_keeps_readonly [chain_intros]: "steps_only f \<Longrightarrow> chain_keeps (chain_db (with_clarity_db_readonly f))"
  unfolding chain_keeps_def chain_db_def
  by (auto simp: outcome_simps split: prod.splits dest: readonly_same intro: keeps_level_refl)

lemma chain_keeps_write: "steps_only f \<Longrightarrow> chain_keeps (chain_db (with_clarity_db h f))"
  unfolding chain_keeps_def chain_db_def
  by (auto simp: outcome_simps split: prod.splits dest: with_clarity_db_level(1))

lemma chain_keeps_expect [chain_intros]: "steps_only f \<Longrightarrow> chain_keeps (chain_db (expect_conn (with_clarity_db h f)))"
  unfolding chain_keeps_def chain_db_def expect_conn_def
  by (auto simp: outcome_simps split: prod.splits outcome.splits dest: with_clarity_db_level(1))

lemma writes_only_nonce: "writes_only (get_account_nonce h p)" "writes_only (set_account_nonce h p n)"
  unfolding get_account_nonce_def set_account_nonce_def by (intro writes_intros)+

lemma steps_only_token_transfer: "steps_only (token_transfer h recipient amount sender)"
  unfolding token_transfer_def by (intro steps_intros writes_intros)

lemma chain_keeps_accounts [chain_intros]:
  "chain_keeps (chain_db (get_account h p))" "chain_keeps (chain_db (account_debit h p amount))"
  "chain_keeps (chain_db (account_credit h p amount))" "chain_keeps (chain_db (update_account_nonce h a))"
proof -
  show "chain_keeps (chain_db (get_account h p))" unfolding get_account_def
    by (intro chain_intros steps_intros writes_intros writes_only_nonce)
  show "chain_keeps (chain_db (account_debit h p amount))" unfolding account_debit_def
    by (intro chain_intros steps_only_seq) (auto intro!: steps_intros writes_intros)
  show "chain_keeps (chain_db (account_credit h p amount))" unfolding account_credit_def
    by (intro chain_intros steps_intros writes_intros)
  show "chain_keeps (chain_db (update_account_nonce h a))" unfolding update_account_nonce_def
    by (intro chain_intros steps_intros writes_only_nonce)
qed

lemma chain_keeps_transfer [chain_intros]:
  fixes h :: "'s host"
  shows "chain_keeps (process_transaction_token_transfer h recipient amount a)"
  unfolding chain_keeps_def
proof (intro allI impI)
  fix c :: "'s connection" assume c: "open_conn c"
  obtain r c' where r: "with_clarity_db h (token_transfer h recipient amount (ac_principal a)) c = (r, c')" by force
  with with_clarity_db_level(1) [OF steps_only_token_transfer c r] keeps_level_refl [OF c]
  show "\<exists>r c'. process_transaction_token_transfer h recipient amount a c = Some (r, c') \<and> (r \<noteq> Panic \<longrightarrow> keeps_level c c')"
    by (auto simp: process_transaction_token_transfer_def split: outcome.splits clarity_error.splits)
qed

lemma chain_keeps_if [chain_intros]: "chain_keeps m \<Longrightarrow> chain_keeps m' \<Longrightarrow> chain_keeps (if b then m else m')"
  by simp

lemma chain_keeps_nonces [chain_intros]: "chain_keeps (check_transaction_nonces h cr tx)"
  unfolding check_transaction_nonces_def by (cases "sponsor_address tx") (auto intro!: chain_intros)

lemma chain_keeps_fee [chain_intros]: "chain_keeps (pay_transaction_fee h tx a)"
  unfolding pay_transaction_fee_def by (intro chain_intros)

lemma entry_points_answer:
  "\<exists>r t. execute_transaction h sender contract tx_name args s = Some (r, t)"
  "\<exists>r t. owned_initialize_contract_from_ast h contract es str s = Some (r, t)"
  using restart_depth.agree_entry_points(1) [of 0] restart_depth.agree_entry_points(2) unfolding deepening.agree_def by blast+

lemma abort_callback_answers:
  assumes "\<And>s. \<exists>r t. m s = Some (r, t)"
  shows "\<exists>r c'. with_abort_callback h m cb c = Some (r, c')"
  using assms [of "\<lparr>vm_global = global_new (nest (conn_db c)) (cn_cost c), vm_calls = call_stack_new\<rparr>"]
  by (auto simp: with_abort_callback_def Let_def split: outcome.splits option.splits prod.splits)

lemma accept_runtime_error_Panic: "accept_runtime_error x r = Panic \<longleftrightarrow> r = Panic"
  by (induction x r rule: accept_runtime_error.induct) simp_all

lemma chain_keeps_run:
  assumes "runs_above m" "\<And>s. \<exists>r t. m s = Some (r, t)" "\<And>r. k r = Panic \<longleftrightarrow> r = Panic"
  shows "chain_keeps (\<lambda>c. map_option (\<lambda>(r, c'). (k r, c')) (with_abort_callback h m cb c))"
  unfolding chain_keeps_def
proof (intro allI impI)
  fix c :: "'a connection" assume c: "open_conn c"
  obtain r c' where r: "with_abort_callback h m cb c = Some (r, c')" using abort_callback_answers [of m, OF assms(2)] by blast
  from abort_callback_level(1) [OF assms(1) c r] r assms(3)
  show "\<exists>r c'. map_option (\<lambda>(r, c'). (k r, c')) (with_abort_callback h m cb c) = Some (r, c') \<and> (r \<noteq> Panic \<longrightarrow> keeps_level c c')"
    by simp
qed

lemma chain_keeps_call [chain_intros]:
  "block_hash_restores (backing h) \<Longrightarrow> chain_keeps (process_contract_call h tx cc a)"
  unfolding process_contract_call_def run_contract_call_def
  by (intro chain_keeps_bind chain_keeps_run entry_points_run_above entry_points_answer accept_runtime_error_Panic)
     (auto intro: chain_intros)

lemma steps_only_insert_contract: "steps_only (analysis_insert_contract h contract str)"
  by (auto simp: steps_only_def analysis_insert_contract_def intro: db_none db_metadata [OF db_none] split: outcome.splits bool.splits)

lemma save_analysis_level:
  assumes "open_conn c" "save_analysis h an contract a c = (r, c')" "r \<noteq> Panic"
  shows "keeps_level c c'"
proof -
  obtain q w where w: "analysis_insert_contract h contract (an_serialize an a) (nest (conn_db c)) = (q, w)" by force
  note ab = steps_only_above [OF steps_only_insert_contract assms(1) w]
  from above_commit [OF ab, of "backing h"] above_rollback [OF ab] w assms keeps_level_refl [OF assms(1)] show ?thesis
    by (auto simp: save_analysis_def close_db_def keeps_level_def open_conn_def split: outcome.splits)
qed

lemma chain_keeps_publish [chain_intros]:
  fixes h :: "'s host"
  assumes "block_hash_restores (backing h)"
  shows "chain_keeps (publish_contract h an tx a contract str ast analysis)"
proof -
  have "chain_keeps (\<lambda>c. map_option (\<lambda>(r, c'). (accept_runtime_error (asset_map_new, []) r, c'))
      (initialize_smart_contract h contract ast str (postconditions_abort tx a) c))"
    using chain_keeps_run [OF entry_points_run_above(2) [OF assms] entry_points_answer(2),
        where k = "\<lambda>r. accept_runtime_error (asset_map_new, []) (map_ok snd r)"]
    by (simp add: initialize_smart_contract_def option.map_comp comp_def case_prod_unfold accept_runtime_error_Panic outcome_simps)
  moreover have "chain_keeps (\<lambda>c :: 's connection. case save_analysis h an contract analysis c of (Ok x, c') \<Rightarrow> Some (Ok x, c') | (_, c') \<Rightarrow> Some (Panic, c'))"
    by (auto simp: chain_keeps_def split: prod.splits outcome.splits dest: save_analysis_level)
  ultimately show ?thesis
    unfolding publish_contract_def by (intro chain_keeps_bind) (auto intro!: chain_keeps_bind chain_keeps_result)
qed

text \<open>What processing relies on of the analysis: without \<open>save_contract\<close> it only reads the database.\<close>

definition analysis_reads :: "('s, 'an) analyzer \<Rightarrow> bool" where
  "analysis_reads an \<longleftrightarrow> (\<forall>contract code w ct. fst (snd (an_analyze an contract code w ct)) = w)"

lemma analyze_level:
  assumes "analysis_reads an" "analyze_smart_contract an contract code c = (r, c')" "open_conn c"
  shows "keeps_level c c'"
proof -
  obtain q w ct where q: "an_analyze an contract code (conn_db c) (cn_cost c) = (q, w, ct)" by (metis surj_pair)
  with assms(1) have "w = conn_db c" unfolding analysis_reads_def by (metis fst_conv snd_conv)
  with q assms(2) have "c' = c\<lparr>cn_cost := ct\<rparr>" by (simp add: analyze_smart_contract_def with_db_cost)
  with keeps_level_refl [OF assms(3)] show ?thesis by (simp add: keeps_level_cost)
qed

lemma chain_keeps_get_contract [chain_intros]: "chain_keeps (chain_get_contract h contract)"
proof -
  have "snd (case get_contract h contract w of
      (Ok ct, w') \<Rightarrow> (Ok (Some ct), w')
    | (Err e, w') \<Rightarrow> (if no_such_contract e then Ok None else Err (ClarityInterpreter e), w')
    | (Panic, w') \<Rightarrow> (Panic, w')) = snd (get_contract h contract w)" for w
    by (cases "get_contract h contract w"; cases "fst (get_contract h contract w)") auto
  moreover have "writes_only (get_contract h contract)" by (intro writes_intros)
  ultimately show ?thesis unfolding chain_get_contract_def
    by (intro chain_keeps_readonly) (simp add: steps_only_def writes_only_def)
qed

lemma chain_keeps_analyze:
  fixes f :: "symbolic_expression list \<Rightarrow> 'an \<Rightarrow> ('s, 'b) chain_action" and an :: "('s, 'an) analyzer"
  assumes "analysis_reads an" and f: "\<And>ast analysis. chain_keeps (f ast analysis)"
  shows "chain_keeps (\<lambda>c. case analyze_smart_contract an contract code c of
      (Ok (ast, analysis), c') \<Rightarrow> f ast analysis c'
    | (Err e, c') \<Rightarrow> Some (Ok x, c') | (Panic, c') \<Rightarrow> Some (Panic, c'))"
  unfolding chain_keeps_def
proof (intro allI impI, goal_cases)
  case (1 c)
  obtain r c1 where r: "analyze_smart_contract an contract code c = (r, c1)" by force
  have level: "keeps_level c c1" by (rule analyze_level [OF assms(1) r 1])
  show ?case
  proof (cases r)
    case (Ok p)
    obtain q c2 where "f (fst p) (snd p) c1 = Some (q, c2)" "q \<noteq> Panic \<longrightarrow> keeps_level c1 c2"
      using f keeps_level_open [OF level 1] unfolding chain_keeps_def by blast
    with Ok r level keeps_level_trans [of c c1 c2] show ?thesis by (cases p) auto
  qed (use r level in auto)
qed

lemma chain_keeps_deploy [chain_intros]:
  assumes "block_hash_restores (backing h)" "analysis_reads an"
  shows "chain_keeps (process_smart_contract h an tx sc a)"
proof (cases "ac_principal a")
  case (Standard p)
  then show ?thesis
    unfolding process_smart_contract_def Let_def
    by (simp only: principal_data.case, intro chain_keeps_bind chain_keeps_get_contract chain_keeps_if chain_keeps_result
        chain_keeps_analyze chain_keeps_publish assms)
qed (simp_all add: process_smart_contract_def chain_keeps_result)

lemma chain_keeps_body:
  assumes "block_hash_restores (backing h)" "analysis_reads an"
  shows "chain_keeps (transaction_body h cr an tx)"
proof -
  have "chain_keeps (process_transaction_payload h cr an tx a p)" for a p
    using assms by (cases p) (auto intro!: chain_intros)
  then show ?thesis unfolding transaction_body_def by (auto intro!: chain_intros)
qed

text \<open>The effect of a bottom commit: the writes of the log and then its metadata go to the store, each in one call.\<close>

definition written :: "'s backing_store \<Rightarrow> (string \<times> string) list \<Rightarrow> (metadata_key \<times> string) list \<Rightarrow> 's \<Rightarrow> ('s, unit) outcome" where
  "written bs xs ys s =
     and_then (if xs = [] then Ok s else bs_put_all bs xs s) (\<lambda>s1. if ys = [] then Ok s1 else bs_put_all_metadata bs ys s1)"

lemma conn_commit_written:
  assumes "open_conn c" "conn_commit h c = Ok (s', ct)"
  shows "\<exists>xs ys. written (backing h) xs ys (store (conn_db c)) = Ok s'"
proof -
  from assms have "length (stack (conn_db c)) = 1" by (auto simp: conn_commit_def split: if_splits)
  moreover from assms(1) obtain logs s where rep: "represents (conn_db c) (logs, s)" by (auto simp: open_conn_def tracked_def)
  ultimately obtain xs ys where "logs = [(xs, ys)]"
    by (cases logs) (auto simp: represents_def)
  with rep represents_commit_bottom [of "conn_db c" xs ys s "backing h"] assms(2) have "written (backing h) xs ys s = Ok s'"
    by (auto simp: conn_commit_def written_def wrapper_new_def outcome_simps split: if_splits)
  with rep show ?thesis by (auto simp: represents_def)
qed

lemma cn_store_db: "cn_store c = store (conn_db c)"
  by (simp add: conn_db_def from_persisted_log_def)

lemma body_level:
  assumes "block_hash_restores (backing h)" "analysis_reads an"
  shows "\<exists>r c. transaction_body h cr an tx (start_transaction_processing s ct) = Some (r, c) \<and>
    (r \<noteq> Panic \<longrightarrow> open_conn c \<and> cn_store c = s)"
proof -
  let ?c = "start_transaction_processing s ct"
  obtain r c where r: "transaction_body h cr an tx ?c = Some (r, c)" "r \<noteq> Panic \<longrightarrow> keeps_level ?c c"
    using chain_keeps_body [OF assms, of cr tx] open_conn_start(1) [of s ct] unfolding chain_keeps_def by blast
  have "open_conn c \<and> cn_store c = s" if "keeps_level ?c c"
    using keeps_level_open [OF that open_conn_start(1)] that open_conn_start(3) [of s ct]
    by (simp add: keeps_level_def same_level_def cn_store_db)
  with r show ?thesis by blast
qed

text \<open>C1: 
  Processing a transaction always answers. When it answers with an error the store of the block is what it was: what
  the fee, the payload and the nonces wrote is gone. When it succeeds, the store has taken over the writes of exactly
  one log, in one call for the data and one for the metadata, and no memory of the transaction is left in use.
\<close>

theorem process_transaction_atomic:
  assumes "block_hash_restores (backing h)" "analysis_reads an"
  shows "\<exists>r s' ct'. process_transaction h cr an config tx (s, ct) = Some (r, s', ct') \<and>
    (case r of
       Err e \<Rightarrow> s' = s
     | Ok x \<Rightarrow> (\<exists>xs ys. written (backing h) xs ys s = Ok s') \<and> memory ct' = 0
     | Panic \<Rightarrow> True)"
proof (cases "process_transaction_precheck cr config tx")
  case pre: (Ok u)
  obtain r c where r: "transaction_body h cr an tx (start_transaction_processing s ct) = Some (r, c)"
    "r \<noteq> Panic \<longrightarrow> open_conn c \<and> cn_store c = s"
    using body_level [OF assms] by blast
  show ?thesis
  proof (cases r)
    case body: (Ok x)
    show ?thesis
    proof (cases "conn_commit h c")
      case commits: (Ok b)
      obtain s' ct' where b: "b = (s', ct')" by (cases b)
      have "memory ct' = 0" using commits b by (auto simp: conn_commit_def reset_memory_def outcome_simps split: if_splits)
      moreover have "\<exists>xs ys. written (backing h) xs ys s = Ok s'"
        using conn_commit_written [of c h s' ct'] r(2) body commits b by (simp add: cn_store_db)
      ultimately show ?thesis using pre body commits b r(1) by (simp add: process_transaction_def)
    qed (use pre body r(1) in \<open>simp_all add: process_transaction_def\<close>)
  qed (use pre r in \<open>simp_all add: process_transaction_def\<close>)
qed (simp_all add: process_transaction_def)

definition sample_analyzer :: "((string \<rightharpoonup> string) \<times> (metadata_key \<rightharpoonup> string), unit) analyzer" where
  "sample_analyzer = \<lparr>an_analyze = (\<lambda>contract code w ct. (Ok ([], ()), w, ct)), an_serialize = (\<lambda>_. ''{}'')\<rparr>"

text \<open>A coinbase that its origin has signed, without fee, on an empty store.\<close>

definition coinbase_transaction :: stacks_transaction where
  "coinbase_transaction = transaction_new Testnet
     (StandardAuth (Singlesig \<lparr>ss_hash_mode = P2PKH, ss_signer = to_bits_p2pkh plain_crypto (public_of_private plain_crypto sample_key),
       ss_nonce = 0, ss_fee_rate = 0, ss_key_encoding = Compressed, ss_signature = signature_empty\<rparr>))
     (Coinbase (replicate 32 0))"

definition signed_coinbase :: stacks_transaction where
  "signed_coinbase =
     (case sign_transaction plain_crypto [SignWith sample_key] [] coinbase_transaction of Ok sg \<Rightarrow> sg_tx sg | _ \<Rightarrow> coinbase_transaction)"

lemma signed_coinbase_fields:
  "process_transaction_precheck plain_crypto \<lparr>cfg_mainnet = False, cfg_chain_id = 0\<rparr> signed_coinbase = Ok ()"
  "sponsor_address signed_coinbase = None" "cond_nonce (get_origin signed_coinbase) = 0" "get_fee_rate signed_coinbase = 0"
  "tx_payload signed_coinbase = Coinbase (replicate 32 0)"
  by code_simp+

lemma with_clarity_db_Ok:
  assumes "steps_only f" "open_conn c" "f (nest (conn_db c)) = (Ok x, w)"
  shows "\<exists>c'. expect_conn (with_clarity_db h f) c = (Ok x, c') \<and> keeps_level c c'"
proof -
  obtain w' where "commit (backing h) w = Ok w'" "same_level (conn_db c) w'"
    using above_commit [OF steps_only_above [OF assms]] assms(2) by (auto simp: open_conn_def)
  with assms(3) show ?thesis by (simp add: expect_conn_def with_clarity_db_def close_db_def keeps_level_def)
qed

lemma missing_account:
  fixes p :: principal_data
  defines "w \<equiv> nest (conn_db missing_connection)"
  shows "get_account_stx_balance sample_host p w = (Ok 0, w)" "get_account_nonce sample_host p w = (Ok 0, w)" "stack w \<noteq> []"
    "get_account sample_host p missing_connection = (Ok \<lparr>ac_principal = p, ac_nonce = 0, ac_stx_balance = 0\<rparr>, missing_connection)"
proof -
  have none: "db_get sample_host cd key w = (Ok None, w)" for cd :: "'a codec" and key
    by (simp add: w_def db_get_def db_read_def get_with_def missing_connection_db nest_def wrapper_new_def last_write_def
        sample_host_def table_store_def empty_tables_def expect_def)
  show "stack w \<noteq> []" by (simp add: w_def nest_def)
  show bal: "get_account_stx_balance sample_host p w = (Ok 0, w)" by (simp add: get_account_stx_balance_def none seq_def give_def)
  show nonce: "get_account_nonce sample_host p w = (Ok 0, w)" by (simp add: get_account_nonce_def none seq_def give_def)
  show "get_account sample_host p missing_connection = (Ok \<lparr>ac_principal = p, ac_nonce = 0, ac_stx_balance = 0\<rparr>, missing_connection)"
    using above_rollback [OF open_conn_above [OF missing_connection_open]] bal nonce
    by (simp add: get_account_def with_clarity_db_readonly_def close_db_def seq_def lift_db_def give_def map_err_def w_def)
qed

lemma missing_debit: "\<exists>c'. account_debit sample_host p 0 missing_connection = (Ok (), c') \<and> keeps_level missing_connection c'"
  unfolding account_debit_def
proof (rule with_clarity_db_Ok [OF _ missing_connection_open])
  let ?f = "seq (lift_db (get_account_stx_balance sample_host p)) (\<lambda>cur_balance.
      if cur_balance < ucast (0 :: u64) then attempt Panic
      else lift_db (set_account_stx_balance sample_host p (cur_balance - ucast (0 :: u64))))"
  show "steps_only ?f" by (intro steps_only_seq) (auto intro!: steps_intros writes_intros)
  show "?f (nest (conn_db missing_connection)) = (Ok (), snd (?f (nest (conn_db missing_connection))))"
    using missing_account(1) [of p] missing_account(3)
    by (simp add: seq_def lift_db_def map_err_def set_account_stx_balance_def db_put_def db_write_def put_def Let_def)
qed

lemma nonce_updated:
  assumes "open_conn c" "ac_nonce a = 0"
  shows "\<exists>c'. update_account_nonce h a c = (Ok (), c') \<and> keeps_level c c'"
  unfolding update_account_nonce_def
proof (rule with_clarity_db_Ok [OF _ assms(1)])
  let ?f = "seq (attempt (unwrap_opt (checked_add (ac_nonce a) 1))) (\<lambda>next_nonce. lift_db (set_account_nonce h (ac_principal a) next_nonce))"
  show "steps_only ?f" by (intro steps_intros writes_only_nonce)
  show "?f (nest (conn_db c)) = (Ok (), snd (?f (nest (conn_db c))))"
    using assms(2)
    by (simp add: seq_def attempt_def unwrap_opt_def checked_add_def lift_db_def map_err_def set_account_nonce_def db_put_def db_write_def
        put_def Let_def nest_def)
qed

lemma coinbase_body:
  "\<exists>x c. transaction_body sample_host plain_crypto sample_analyzer signed_coinbase missing_connection = Some (Ok x, c) \<and>
     keeps_level missing_connection c"
proof -
  let ?p = "principal_of_address (origin_address signed_coinbase)"
  let ?a = "\<lparr>ac_principal = ?p, ac_nonce = 0, ac_stx_balance = 0\<rparr>"
  obtain c1 where c1: "account_debit sample_host ?p 0 missing_connection = (Ok (), c1)" "keeps_level missing_connection c1"
    using missing_debit by blast
  obtain c2 where c2: "update_account_nonce sample_host ?a c1 = (Ok (), c2)" "keeps_level c1 c2"
    using nonce_updated [OF keeps_level_open [OF c1(2) missing_connection_open], of ?a] by auto
  have "check_transaction_nonces sample_host plain_crypto signed_coinbase missing_connection = Some (Ok (?a, ?a), missing_connection)"
    using missing_account(4) [of ?p] signed_coinbase_fields
    by (simp add: check_transaction_nonces_def chain_bind_def chain_db_def chain_result_def)
  then have "transaction_body sample_host plain_crypto sample_analyzer signed_coinbase missing_connection =
      Some (Ok (0, plain_receipt signed_coinbase [] value_okay_true), c2)"
    using c1 c2 signed_coinbase_fields
    by (simp add: transaction_body_def pay_transaction_fee_def chain_bind_def chain_db_def chain_result_def)
  with keeps_level_trans [OF c1(2) c2(2)] show ?thesis by blast
qed

lemma coinbase_processed:
  "\<exists>x b. process_transaction sample_host plain_crypto sample_analyzer \<lparr>cfg_mainnet = False, cfg_chain_id = 0\<rparr> signed_coinbase
     (empty_tables, tracker_new_max_limit) = Some (Ok x, b)"
proof -
  obtain x c where c: "transaction_body sample_host plain_crypto sample_analyzer signed_coinbase missing_connection = Some (Ok x, c)"
    "keeps_level missing_connection c" using coinbase_body by blast
  have one: "length (stack (conn_db c)) = 1" "tracked (conn_db c)"
    using c(2) keeps_level_open [OF c(2) missing_connection_open]
    by (auto simp: keeps_level_def same_level_def open_conn_def missing_connection_db nest_def wrapper_new_def)
  then obtain xs ys s where "represents (conn_db c) ([(xs, ys)], s)"
    by (auto simp: tracked_def represents_def length_Suc_conv)
  from represents_commit_bottom [OF this, of table_store] have "\<exists>w. commit (backing sample_host) (conn_db c) = Ok w"
    by (auto simp: sample_host_def table_store_def split: prod.splits)
  with one(1) have "\<exists>b. conn_commit sample_host c = Ok b" by (auto simp: conn_commit_def)
  with c(1) signed_coinbase_fields(1) show ?thesis
    by (auto simp: process_transaction_def missing_connection_def)
qed

theorem process_transaction_atomic_witness:
  "\<exists>x s' ct'. process_transaction sample_host plain_crypto sample_analyzer \<lparr>cfg_mainnet = False, cfg_chain_id = 0\<rparr> signed_coinbase
      (empty_tables, tracker_new_max_limit) = Some (Ok x, s', ct') \<and>
    (\<exists>xs ys. written (backing sample_host) xs ys empty_tables = Ok s') \<and> memory ct' = 0"
proof -
  have "block_hash_restores (backing sample_host)" "analysis_reads sample_analyzer"
    by (simp_all add: block_hash_restores_def sample_host_def table_store_def analysis_reads_def sample_analyzer_def)
  from process_transaction_atomic [OF this, of plain_crypto "\<lparr>cfg_mainnet = False, cfg_chain_id = 0\<rparr>" signed_coinbase empty_tables
      tracker_new_max_limit] coinbase_processed show ?thesis by auto
qed

section \<open>Token transfers\<close>

definition conn_balance :: "'s host \<Rightarrow> 's connection \<Rightarrow> principal_data \<Rightarrow> u128 option" where
  "conn_balance h c p = balance_of (get_account_stx_balance h p) (conn_db c)"

lemma balance_same:
  assumes "stack w \<noteq> []" "stack w' \<noteq> []" "lookup_map w' = lookup_map w" "store w' = store w"
  shows "balance_of (get_account_stx_balance h p) w' = balance_of (get_account_stx_balance h p) w"
  using assms by (simp add: balance_of_def stx_balance_read db_get_def db_read_def get_with_def cong: option.case_cong)

lemma commit_nested_same:
  assumes "above w0 w" "stack w0 \<noteq> []" "commit bs w = Ok w'"
  shows "stack w' \<noteq> []" "lookup_map w' = lookup_map w" "store w' = store w"
proof -
  have "length (stack w) = Suc (length (stack w0))" using assms(1) by (auto simp: above_def represents_def)
  then have "butlast (stack w) \<noteq> []" "stack w \<noteq> []" using assms(2) by (auto simp: butlast_conv_take)
  with assms(3) show "stack w' \<noteq> []" "lookup_map w' = lookup_map w" "store w' = store w"
    by (auto simp: commit_def Let_def)
qed

lemma balance_nest: "open_conn c \<Longrightarrow> balance_of (get_account_stx_balance h p) (nest (conn_db c)) = conn_balance h c p"
  unfolding conn_balance_def open_conn_def by (intro balance_same) (auto simp: nest_def)

lemma token_transfer_result:
  assumes h: "faithful_host h" and acc: "ordinary_account sender" "ordinary_account recipient" "sender \<noteq> recipient"
    and run: "token_transfer h recipient amount sender w = (r, w')" "r \<noteq> Panic"
  shows "r = Ok () \<and> moved (\<lambda>p. balance_of (get_account_stx_balance h p) w) (\<lambda>p. balance_of (get_account_stx_balance h p) w')
      sender recipient (ucast amount) \<or> r = Err BadTransaction"
proof -
  note sheet = faithful_host.stx_sheet [OF h]
  obtain ra rb where get: "get_account_stx_balance h sender w = (ra, w)" "get_account_stx_balance h recipient w = (rb, w)"
    by (metis stx_balance_read)
  have "ra \<noteq> Err e" "rb \<noteq> Err e" for e
    using get by (auto simp: stx_balance_read db_get_def db_read_def expect_def map_ok_def split: outcome.splits)
  with run get obtain a b where ab: "ra = Ok a" "rb = Ok b"
    by (cases ra; cases rb) (auto simp: token_transfer_def seq_def lift_db_def map_err_def)
  have bal: "balance_of (get_account_stx_balance h sender) w = Some a" "balance_of (get_account_stx_balance h recipient) w = Some b" "stack w \<noteq> []"
    using balance_sheet.get_result [OF sheet] get ab by blast+
  show ?thesis
  proof (cases "unat (ucast amount :: u128) \<le> unat a \<and> (\<exists>c. checked_add b (ucast amount) = Some c)")
    case True
    then obtain c where c: "checked_add b (ucast amount) = Some c" "ucast amount \<le> a" by (auto simp: word_le_nat_alt)
    from balance_sheet.set_moves [OF sheet bal(3) acc bal(1,2) c(2,1)] obtain w1 w2 where
      "set_account_stx_balance h sender (a - ucast amount) w = (Ok (), w1)" "set_account_stx_balance h recipient c w1 = (Ok (), w2)"
      "moved (\<lambda>p. balance_of (get_account_stx_balance h p) w) (\<lambda>p. balance_of (get_account_stx_balance h p) w2) sender recipient (ucast amount)"
      by blast
    with run(1) get ab c True show ?thesis
      by (auto simp: token_transfer_def seq_def lift_db_def map_err_def attempt_def ok_or_def checked_sub_def)
  next
    case False
    with run(1) get ab show ?thesis
      by (auto simp: token_transfer_def seq_def lift_db_def map_err_def attempt_def ok_or_def checked_sub_def split: option.splits if_splits)
  qed
qed

text \<open>C11: 
  A token transfer moves exactly its amount from the origin to the recipient, without wrapping, leaves every other
  account alone and conserves the sum of the balances; or the transaction is invalid and the connection is unchanged.
\<close>

theorem token_transfer_moves:
  assumes "faithful_host h" "open_conn c" "ordinary_account (ac_principal a)" "ordinary_account recipient"
    and "process_transaction_token_transfer h recipient amount a c = Some (r, c')" "r \<noteq> Panic"
  shows "r = Ok () \<and> moved (conn_balance h c) (conn_balance h c') (ac_principal a) recipient (ucast amount) \<and>
      (\<forall>A. finite A \<longrightarrow> (\<forall>p\<in>A. ordinary_account p) \<longrightarrow> ac_principal a \<in> A \<longrightarrow> recipient \<in> A \<longrightarrow>
        total_of (conn_balance h c') A = total_of (conn_balance h c) A) \<or>
    r = Err InvalidStacksTransaction \<and> c' = c"
proof (cases "ac_principal a = recipient")
  case False
  obtain q w where q: "token_transfer h recipient amount (ac_principal a) (nest (conn_db c)) = (q, w)" by force
  note ab = steps_only_above [OF steps_only_token_transfer assms(2) q]
  have open': "stack (conn_db c) \<noteq> []" using assms(2) by (simp add: open_conn_def)
  obtain w1 where w1: "commit (backing h) w = Ok w1" using above_commit [OF ab open'] by blast
  have "balance_of (get_account_stx_balance h p) w1 = balance_of (get_account_stx_balance h p) w" for p
    using commit_nested_same [OF ab open' w1] ab by (intro balance_same) (auto simp: above_def represents_def)
  then have moved': "moved (conn_balance h c) (conn_balance h (with_db w1 c)) (ac_principal a) recipient (ucast amount)" if "q = Ok ()"
    using token_transfer_result [OF assms(1,3,4) False q] that balance_nest [OF assms(2), of h] by (simp add: conn_balance_def [abs_def])
  have "q \<noteq> Panic" using assms(5,6) q False by (auto simp: process_transaction_token_transfer_def with_clarity_db_def)
  then consider "q = Ok ()" | "q = Err BadTransaction" using token_transfer_result [OF assms(1,3,4) False q] by blast
  then show ?thesis
  proof cases
    case 1
    with assms(5) q w1 False have "r = Ok ()" "c' = with_db w1 c"
      by (auto simp: process_transaction_token_transfer_def with_clarity_db_def close_db_def)
    with moved' [OF 1] moved_conserves [OF _ False] show ?thesis by blast
  next
    case 2
    with assms(5) q above_rollback [OF ab] False show ?thesis
      by (auto simp: process_transaction_token_transfer_def with_clarity_db_def close_db_def)
  qed
qed (use assms(5) in \<open>simp add: process_transaction_token_transfer_def\<close>)

lemma balance_get:
  "balance_of (get_account_stx_balance h p) w = Some b \<Longrightarrow> get_account_stx_balance h p w = (Ok b, w)"
  by (simp add: balance_of_def stx_balance_read split: outcome.splits)

lemma sample_funded_connection:
  "\<exists>c c'. open_conn c \<and> process_transaction_token_transfer sample_host sample_payee 30
     \<lparr>ac_principal = sample_payer, ac_nonce = 0, ac_stx_balance = 100\<rparr> c = Some (Ok (), c')"
proof -
  note sheet = faithful_host.stx_sheet [OF sample.faithful_host_axioms]
  let ?c = "missing_connection"
  have st: "stack (nest (conn_db ?c)) \<noteq> []" "stack (conn_db ?c) \<noteq> []" by (simp_all add: nest_def missing_connection_db)
  obtain w where w: "set_account_stx_balance sample_host sample_payer 100 (nest (conn_db ?c)) = (Ok (), w)" "stack w \<noteq> []"
    "balance_of (get_account_stx_balance sample_host sample_payer) w = Some 100"
    "balance_of (get_account_stx_balance sample_host sample_payee) w = balance_of (get_account_stx_balance sample_host sample_payee) (nest (conn_db ?c))"
    using balance_sheet.set_Ok [OF sheet st(1) sample_accounts(1), of 100] sample_accounts by metis
  have zero: "balance_of (get_account_stx_balance sample_host sample_payee) (nest (conn_db ?c)) = Some 0"
    by (simp add: balance_of_def stx_balance_read db_get_def db_read_def get_with_def missing_connection_db nest_def wrapper_new_def
        last_write_def sample_host_def table_store_def empty_tables_def expect_def map_ok_def)
  have ab: "above (conn_db ?c) w"
    using steps_only_above [OF steps_only_lift missing_connection_open, of "set_account_stx_balance sample_host sample_payer 100" "Ok ()" w] w(1)
    by (simp add: lift_db_def map_err_def) (metis writes_intros)
  then have "tracked w" unfolding above_def tracked_def by blast
  with w(2) have op: "open_conn (with_db w ?c)" by (simp add: open_conn_def)
  let ?a = "\<lparr>ac_principal = sample_payer, ac_nonce = 0, ac_stx_balance = 100\<rparr>"
  have bal: "balance_of (get_account_stx_balance sample_host sample_payer) (nest w) = Some 100"
    "balance_of (get_account_stx_balance sample_host sample_payee) (nest w) = Some 0" "stack (nest w) \<noteq> []"
    using balance_nest [OF op, of sample_host] w(3,4) zero by (simp_all add: conn_balance_def nest_def)
  obtain w1 w2 where sets: "set_account_stx_balance sample_host sample_payer (100 - 30) (nest w) = (Ok (), w1)"
    "set_account_stx_balance sample_host sample_payee 30 w1 = (Ok (), w2)"
    by (rule balance_sheet.set_moves [OF sheet bal(3) sample_accounts bal(1,2), of 30 30]) (simp_all add: checked_add_def)
  have "token_transfer sample_host sample_payee 30 sample_payer (nest w) = (Ok (), w2)"
    using balance_get [OF bal(1)] balance_get [OF bal(2)] sets
    by (simp add: token_transfer_def seq_def lift_db_def map_err_def attempt_def ok_or_def checked_sub_def checked_add_def)
  moreover from this obtain w3 where "commit (backing sample_host) w2 = Ok w3"
    using above_commit [OF steps_only_above [OF steps_only_token_transfer op]] w(2) by fastforce
  ultimately have "process_transaction_token_transfer sample_host sample_payee 30 ?a (with_db w ?c) = Some (Ok (), with_db w3 (with_db w ?c))"
    using sample_accounts(3) by (simp add: process_transaction_token_transfer_def with_clarity_db_def close_db_def)
  with op show ?thesis by blast
qed

theorem token_transfer_moves_witness:
  "\<exists>c c'. moved (conn_balance sample_host c) (conn_balance sample_host c') sample_payer sample_payee 30"
proof -
  obtain c c' where c: "open_conn c" "process_transaction_token_transfer sample_host sample_payee 30
      \<lparr>ac_principal = sample_payer, ac_nonce = 0, ac_stx_balance = 100\<rparr> c = Some (Ok (), c')"
    using sample_funded_connection by blast
  from token_transfer_moves [OF sample.faithful_host_axioms c(1) _ sample_accounts(2) c(2)] sample_accounts(1) show ?thesis by auto
qed

section \<open>The analysis of a contract that was not published\<close>

lemma save_analysis_stored:
  assumes "open_conn c" "save_analysis h an contract a c = (Ok (), c')"
  shows "get_metadata (backing h) (conn_db c') (contract, ''analysis'') = Ok (Some (an_serialize an a))"
proof -
  obtain q w where w: "analysis_insert_contract h contract (an_serialize an a) (nest (conn_db c)) = (q, w)" by force
  note ab = steps_only_above [OF steps_only_insert_contract assms(1) w]
  from assms(2) w obtain w1 where w1: "q = Ok ()" "commit (backing h) w = Ok w1" "c' = with_db w1 c"
    by (auto simp: save_analysis_def close_db_def split: outcome.splits)
  have st: "stack (conn_db c) \<noteq> []" using assms(1) by (simp add: open_conn_def)
  have "last_write (metadata_lookup_map w) (contract, ''analysis'') = Some (an_serialize an a)"
    using w w1(1)
    by (auto simp: analysis_insert_contract_def insert_metadata_def Let_def last_write_def inner_put_def
        split: outcome.splits bool.splits if_splits)
  moreover have "butlast (stack w) \<noteq> []" "stack w \<noteq> []"
    using ab st by (auto simp: above_def represents_def butlast_conv_take)
  then have "metadata_lookup_map w1 = metadata_lookup_map w" using w1(2) by (auto simp: commit_def Let_def)
  ultimately show ?thesis
    using commit_nested_same(1) [OF ab st w1(2)] w1(3) by (simp add: get_metadata_def)
qed

text \<open>
  A deployment whose initialization fails at runtime, or whose post-conditions reject it, is accepted, and the analysis
  of the contract is stored with the transaction although nothing else of the contract is.
\<close>

lemma rejected_deployment_stores_analysis:
  assumes "block_hash_restores (backing h)" "open_conn c"
    and init: "with_abort_callback h (owned_initialize_contract_from_ast h contract ast str) (postconditions_abort tx a) c = Some (r, c1)"
    and "rejected (postconditions_abort tx a) r"
    and "publish_contract h an tx a contract str ast analysis c = Some (Ok rc, c')"
  shows "c1 = c\<lparr>cn_cost := cn_cost c1\<rparr>" and "rc_contract_analysis rc = Some analysis"
    and "get_metadata (backing h) (conn_db c') (contract, ''analysis'') = Ok (Some (an_serialize an analysis))"
proof -
  have "r \<noteq> Panic" using assms(4) by auto
  note level = abort_callback_level [OF entry_points_run_above(2) [OF assms(1)] assms(2) init this]
  show "c1 = c\<lparr>cn_cost := cn_cost c1\<rparr>" by (rule level(2) [OF assms(4)])
  have "open_conn c1" by (rule keeps_level_open [OF level(1) assms(2)])
  obtain p where p: "save_analysis h an contract analysis c1 = (Ok (), c')" "receipt tx (snd p) value_okay_true (fst p) (Some analysis) = Ok rc"
    using assms(5) init
    by (auto simp: publish_contract_def initialize_smart_contract_def chain_bind_def chain_result_def
        split: outcome.splits prod.splits option.splits)
  show "get_metadata (backing h) (conn_db c') (contract, ''analysis'') = Ok (Some (an_serialize an analysis))"
    by (rule save_analysis_stored [OF \<open>open_conn c1\<close> p(1)])
  show "rc_contract_analysis rc = Some analysis" using p(2) by (auto simp: receipt_def split: outcome.splits)
qed

end
