(* ===== verification/MinerRewards.thy ===== *)
theory MinerRewards
  imports PostConditions
begin

text \<open>
  Miner rewards: \<open>calculate_miner_reward\<close> and the computation of \<open>find_mature_miner_rewards\<close> of
  \<open>src/src/chainstate/stacks/db/accounts.rs\<close>. The rows that the SQLite query of scheduled payments returns for each
  height are an argument. Numbers keep their width; assertions, overflows of checked additions and the division by zero
  are panics.
\<close>

section \<open>Schedules and rewards\<close>

text \<open>The fields of a scheduled payment that the computation reads.\<close>

record miner_payment_schedule =
  mp_address :: stacks_address
  mp_coinbase :: u128
  mp_burnchain_commit_burn :: u64
  mp_burnchain_sortition_burn :: u64
  mp_miner :: bool
  mp_vtxindex :: u32

record miner_reward =
  mr_address :: stacks_address
  mr_coinbase :: u128
  mr_tx_fees_anchored_shared :: u128
  mr_tx_fees_anchored_exclusive :: u128
  mr_tx_fees_streamed_produced :: u128
  mr_tx_fees_streamed_confirmed :: u128
  mr_vtxindex :: u32

definition empty_user :: "stacks_address \<Rightarrow> u32 \<Rightarrow> miner_reward" where
  "empty_user address vtxindex =
     \<lparr>mr_address = address, mr_coinbase = 0, mr_tx_fees_anchored_shared = 0, mr_tx_fees_anchored_exclusive = 0,
      mr_tx_fees_streamed_produced = 0, mr_tx_fees_streamed_confirmed = 0, mr_vtxindex = vtxindex\<rparr>"

definition empty_miner :: "stacks_address \<Rightarrow> miner_reward" where
  "empty_miner address = empty_user address 0"

type_synonym reward_sample = "(miner_payment_schedule \<times> miner_payment_schedule list) list"

definition well_sampled :: "reward_sample \<Rightarrow> bool" where
  "well_sampled sample \<longleftrightarrow> list_all (\<lambda>(m, us). mp_miner m \<and> list_all (\<lambda>u. \<not> mp_miner u) us) sample"

definition took_part :: "stacks_address \<Rightarrow> miner_payment_schedule \<times> miner_payment_schedule list \<Rightarrow> bool" where
  "took_part address block =
     (case block of (block_miner, user_supports) \<Rightarrow>
        mp_address block_miner = address \<or> list_ex (\<lambda>u. mp_address u = address) user_supports)"

fun num_mined :: "stacks_address \<Rightarrow> reward_sample \<Rightarrow> u128 \<Rightarrow> u128" where
  "num_mined address [] n = n"
| "num_mined address (block # sample) n = num_mined address sample (if took_part address block then n + 1 else n)"

fun sum_burns :: "miner_payment_schedule list \<Rightarrow> u128 \<Rightarrow> (u128, unit) outcome" where
  "sum_burns [] acc = Ok acc"
| "sum_burns (u # us) acc =
     and_then (unwrap_opt (checked_add acc (ucast (mp_burnchain_commit_burn u)))) (sum_burns us)"

fun user_burns :: "stacks_address \<Rightarrow> miner_payment_schedule list \<Rightarrow> u128 \<times> u128 \<Rightarrow> (u128 \<times> u128, unit) outcome" where
  "user_burns address [] acc = Ok acc"
| "user_burns address (u # us) (this_user, total_other) =
     (if mp_address u \<noteq> address then
        and_then (unwrap_opt (checked_add total_other (ucast (mp_burnchain_commit_burn u)))) (\<lambda>t. user_burns address us (this_user, t))
      else user_burns address us (ucast (mp_burnchain_commit_burn u), total_other))"

definition burn_totals :: "stacks_address \<Rightarrow> miner_payment_schedule \<times> miner_payment_schedule list \<Rightarrow> (u128 \<times> u128, unit) outcome" where
  "burn_totals address block =
     (case block of (block_miner, user_supports) \<Rightarrow>
        if mp_address block_miner = address then
          map_ok (\<lambda>total_user. (ucast (mp_burnchain_commit_burn block_miner), total_user)) (sum_burns user_supports 0)
        else user_burns address user_supports (0, ucast (mp_burnchain_commit_burn block_miner)))"

definition calculate_miner_reward :: "miner_payment_schedule \<Rightarrow> reward_sample \<Rightarrow> (miner_reward, unit) outcome" where
  "calculate_miner_reward miner sample =
     (if \<not> mp_burnchain_sortition_burn miner > 0 \<or> \<not> well_sampled sample \<or> sample = [] then Panic
      else
        and_then (burn_totals (mp_address miner) (hd sample)) (\<lambda>(this_burn_total, other_burn_total).
        and_then
          (if num_mined (mp_address miner) sample 0 = 0 then Ok 0
           else
             and_then (unwrap_opt (checked_add other_burn_total this_burn_total)) (\<lambda>burn_total.
             and_then (unwrap_opt (checked_mul (mp_coinbase miner) this_burn_total)) (\<lambda>share.
               if burn_total = 0 then Panic else Ok (share div burn_total)))) (\<lambda>coinbase_reward.
          Ok ((empty_user (mp_address miner) (mp_vtxindex miner))\<lparr>mr_coinbase := coinbase_reward\<rparr>))))"

section \<open>Mature rewards\<close>

definition MINER_REWARD_MATURITY :: u64 where "MINER_REWARD_MATURITY = 100"
definition MINER_REWARD_WINDOW :: u64 where "MINER_REWARD_WINDOW = 1008"

definition block_payments :: "miner_payment_schedule list \<Rightarrow> (miner_payment_schedule \<times> miner_payment_schedule list, unit) outcome" where
  "block_payments scheduled_rewards =
     (if scheduled_rewards = [] then Panic
      else
        and_then (unwrap_opt (find mp_miner scheduled_rewards)) (\<lambda>miner_reward.
          let user_burns = filter (\<lambda>r. \<not> mp_miner r) scheduled_rewards in
          if length user_burns = length scheduled_rewards - 1 then Ok (miner_reward, user_burns) else Panic))"

definition find_mature_miner_rewards :: "(u64 \<Rightarrow> miner_payment_schedule list) \<Rightarrow> u64 \<Rightarrow> (miner_reward list option, unit) outcome" where
  "find_mature_miner_rewards scheduled block_height =
     (if block_height < MINER_REWARD_MATURITY + MINER_REWARD_WINDOW then Ok None
      else
        let start = block_height - MINER_REWARD_MATURITY - MINER_REWARD_WINDOW; matured_miners = scheduled start in
        if matured_miners = [] then Panic
        else
          and_then (collect (\<lambda>i. block_payments (scheduled (start + word_of_nat i))) [0..<unat MINER_REWARD_WINDOW]) (\<lambda>scheduled_payments.
            map_ok Some (collect (\<lambda>m. calculate_miner_reward m scheduled_payments) matured_miners)))"

section \<open>Rewards stay within the coinbase\<close>

abbreviation burn_of :: "miner_payment_schedule \<Rightarrow> nat" where
  "burn_of u \<equiv> unat (mp_burnchain_commit_burn u)"

lemma unat_burn: "unat (ucast (mp_burnchain_commit_burn u) :: u128) = burn_of u"
proof -
  have "burn_of u < 2 ^ 128" using unat_lt2p [of "mp_burnchain_commit_burn u"] by simp
  then show ?thesis by (simp add: unsigned_ucast_eq take_bit_nat_eq_self)
qed

lemma sum_burns_total: "sum_burns us acc = Ok r \<Longrightarrow> unat r = unat acc + sum_list (map burn_of us)"
  by (induction us arbitrary: acc) (auto simp: outcome_simps checked_simps unat_burn)

lemma user_burns_other:
  "user_burns a us (t, oth) = Ok (t', oth') \<Longrightarrow> unat oth' = unat oth + sum_list (map burn_of (filter (\<lambda>u. mp_address u \<noteq> a) us))"
  by (induction us arbitrary: t oth) (auto simp: outcome_simps checked_simps unat_burn split: if_splits)

lemma user_burns_none: "user_burns a us (t, oth) = Ok (t', oth') \<Longrightarrow> a \<notin> mp_address ` set us \<Longrightarrow> t' = t"
  by (induction us arbitrary: t oth) (auto simp: outcome_simps split: if_splits)

lemma user_burns_this:
  "user_burns a us (t, oth) = Ok (t', oth') \<Longrightarrow> distinct (map mp_address us) \<Longrightarrow> u \<in> set us \<Longrightarrow> mp_address u = a \<Longrightarrow>
   t' = ucast (mp_burnchain_commit_burn u)"
  by (induction us arbitrary: t oth) (auto simp: outcome_simps split: if_splits dest: user_burns_none)

lemma sum_without:
  "distinct (map mp_address us) \<Longrightarrow> u \<in> set us \<Longrightarrow>
   burn_of u + sum_list (map burn_of (filter (\<lambda>x. mp_address x \<noteq> mp_address u) us)) = sum_list (map burn_of us)"
proof (induction us)
  case (Cons x us)
  show ?case
  proof (cases "x = u")
    case True
    with Cons.prems have "filter (\<lambda>x. mp_address x \<noteq> mp_address u) us = us" by (auto simp: filter_id_conv image_iff)
    with True show ?thesis by simp
  qed (use Cons in auto)
qed simp

lemma burn_totals_share:
  assumes "distinct (map mp_address (m # us))" "p \<in> set (m # us)" "burn_totals (mp_address p) (m, us) = Ok (this, oth)"
  shows "unat this = burn_of p" "unat this + unat oth = sum_list (map burn_of (m # us))"
proof -
  have "unat this = burn_of p \<and> unat this + unat oth = sum_list (map burn_of (m # us))"
  proof (cases "p = m")
    case True
    with assms(3) show ?thesis by (auto simp: burn_totals_def outcome_simps unat_burn dest: sum_burns_total)
  next
    case False
    with assms have p: "p \<in> set us" "mp_address m \<noteq> mp_address p" by auto
    with assms(3) have run: "user_burns (mp_address p) us (0, ucast (mp_burnchain_commit_burn m)) = Ok (this, oth)"
      by (simp add: burn_totals_def)
    have "this = ucast (mp_burnchain_commit_burn p)" by (rule user_burns_this [OF run]) (use assms(1) p in auto)
    with user_burns_other [OF run] sum_without [of us p] assms(1) p show ?thesis by (simp add: unat_burn)
  qed
  then show "unat this = burn_of p" "unat this + unat oth = sum_list (map burn_of (m # us))" by auto
qed

lemma reward_share:
  assumes "calculate_miner_reward p ((m, us) # rest) = Ok r" "distinct (map mp_address (m # us))" "p \<in> set (m # us)"
  shows "unat (mr_coinbase r) * sum_list (map burn_of (m # us)) \<le> unat (mp_coinbase p) * burn_of p"
proof -
  from assms(1) obtain this oth where t: "burn_totals (mp_address p) (m, us) = Ok (this, oth)"
    by (auto simp: calculate_miner_reward_def outcome_simps split: if_splits)
  note share = burn_totals_share [OF assms(2,3) t]
  from assms(1) t consider "mr_coinbase r = 0"
    | total prod where "checked_add oth this = Some total" "checked_mul (mp_coinbase p) this = Some prod" "mr_coinbase r = prod div total"
    by (auto simp: calculate_miner_reward_def outcome_simps split: if_splits)
  then show ?thesis
  proof cases
    case 2
    then have "unat total = sum_list (map burn_of (m # us))" "unat prod = unat (mp_coinbase p) * burn_of p"
      using share by (auto simp: checked_simps checked_mul_def unat_word_ariths split: if_splits)
    moreover have "unat (mr_coinbase r) = unat prod div unat total" using 2(3) by (simp add: unat_div)
    ultimately show ?thesis by (metis div_times_less_eq_dividend)
  qed simp
qed

text \<open>C12: 
  The rewards of a block stay within its coinbase: when the miner and the users that supported it have different
  addresses and the same coinbase is scheduled for each of them, the rewards of all of them add up to at most the coinbase.
\<close>

theorem rewards_within_coinbase:
  assumes "distinct (map mp_address (m # us))" "list_all (\<lambda>p. mp_coinbase p = coinbase) (m # us)"
    and "collect (\<lambda>p. calculate_miner_reward p ((m, us) # rest)) (m # us) = Ok rewards"
    and "0 < sum_list (map burn_of (m # us))"
  shows "sum_list (map (\<lambda>r. unat (mr_coinbase r)) rewards) \<le> unat coinbase"
proof -
  let ?B = "sum_list (map burn_of (m # us))"
  have "sum_list (map (\<lambda>r. unat (mr_coinbase r)) rs) * ?B \<le> unat coinbase * sum_list (map burn_of ps)"
    if "collect (\<lambda>p. calculate_miner_reward p ((m, us) # rest)) ps = Ok rs" "set ps \<subseteq> set (m # us)" for ps rs
    using that
  proof (induction ps arbitrary: rs)
    case (Cons p ps)
    then obtain r rs' where r: "calculate_miner_reward p ((m, us) # rest) = Ok r" "rs = r # rs'"
      "collect (\<lambda>p. calculate_miner_reward p ((m, us) # rest)) ps = Ok rs'" by (auto simp: outcome_simps)
    have "p \<in> set (m # us)" "mp_coinbase p = coinbase" using Cons.prems(2) assms(2) by (auto simp: list_all_iff)
    with reward_share [OF r(1) assms(1)] Cons.IH [OF r(3)] Cons.prems(2) r(2) show ?case
      by (simp add: algebra_simps)
  qed simp
  from this [OF assms(3)] assms(4) show ?thesis by auto
qed

definition sample_share :: "u8 \<Rightarrow> u64 \<Rightarrow> bool \<Rightarrow> miner_payment_schedule" where
  "sample_share a burn is_miner =
     \<lparr>mp_address = StacksAddress 26 (replicate 20 a), mp_coinbase = 500, mp_burnchain_commit_burn = burn,
      mp_burnchain_sortition_burn = 1000, mp_miner = is_miner, mp_vtxindex = (if is_miner then 0 else 1)\<rparr>"

lemmas reward_eval = calculate_miner_reward_def burn_totals_def well_sampled_def took_part_def sample_share_def empty_user_def
  and_then_def map_ok_def unwrap_opt_def checked_add_def checked_mul_def

lemma sample_rewards:
  "collect (\<lambda>p. calculate_miner_reward p [(sample_share 1 30 True, [sample_share 2 20 False])]) [sample_share 1 30 True, sample_share 2 20 False] =
   Ok [(empty_user (StacksAddress 26 (replicate 20 1)) 0)\<lparr>mr_coinbase := 300\<rparr>, (empty_user (StacksAddress 26 (replicate 20 2)) 1)\<lparr>mr_coinbase := 200\<rparr>]"
  by (simp add: reward_eval)

theorem rewards_within_coinbase_witness:
  "\<exists>rewards. collect (\<lambda>p. calculate_miner_reward p [(sample_share 1 30 True, [sample_share 2 20 False])])
       [sample_share 1 30 True, sample_share 2 20 False] = Ok rewards \<and>
     sum_list (map (\<lambda>r. unat (mr_coinbase r)) rewards) \<le> 500"
  using rewards_within_coinbase [OF _ _ sample_rewards, of 500] sample_rewards
  by (simp add: sample_share_def)

text \<open>
  With one address twice among the supporters, only its last burn counts for it and none of its burns counts against it,
  and it is paid once for each of its rows: the rewards exceed the coinbase.
\<close>

lemma repeated_supporter_overpaid:
  "\<exists>rewards. collect (\<lambda>p. calculate_miner_reward p [(sample_share 1 1 True, [sample_share 2 1 False, sample_share 2 99 False])])
       [sample_share 1 1 True, sample_share 2 1 False, sample_share 2 99 False] = Ok rewards \<and>
     500 < sum_list (map (\<lambda>r. unat (mr_coinbase r)) rewards)"
proof -
  have "collect (\<lambda>p. calculate_miner_reward p [(sample_share 1 1 True, [sample_share 2 1 False, sample_share 2 99 False])])
       [sample_share 1 1 True, sample_share 2 1 False, sample_share 2 99 False] =
    Ok [(empty_user (StacksAddress 26 (replicate 20 1)) 0)\<lparr>mr_coinbase := 4\<rparr>, (empty_user (StacksAddress 26 (replicate 20 2)) 1)\<lparr>mr_coinbase := 495\<rparr>,
      (empty_user (StacksAddress 26 (replicate 20 2)) 1)\<lparr>mr_coinbase := 495\<rparr>]"
    by (simp add: reward_eval)
  then show ?thesis by simp
qed

end
