(* ===== verification/Spec2Isabelle.thy ===== *)
theory Spec2Isabelle
  imports SerializationRoundTrip Contexts CostTable Natives Crockford DatabaseLaws ProcessingLaws MinerRewards
begin

text \<open>
  \<^bold>\<open>The Clarity virtual machine of the Stacks blockchain\<close>

  The program under \<open>src/\<close> is a node of the Stacks blockchain. Its heart is the virtual machine of the smart
  contract language Clarity, under \<open>src/src/vm\<close>: contracts are evaluated against a nested key-value store, every
  operation is charged against a limit, and what a transaction moves is recorded and either kept or thrown away
  as a whole. Around it, transactions are signed, verified and processed against the accounts of the chain. The development
  models this machine, from the data up, and the processing of transactions on top of it.

  \<^bold>\<open>Conventions.\<close> A function that can fail returns an \<open>outcome\<close>: \<open>Ok\<close>, \<open>Err\<close> with the error value of the code, or
  \<open>Panic\<close> where the code unwinds (\<open>unwrap\<close>, \<open>expect\<close>, \<open>assert!\<close>, an index out of range). A method on mutable state
  is a \<open>routine\<close>: it returns its outcome and the state it leaves, also on an early return. Machine integers are
  words of their width; \<open>checked_\<close> operations return options; arithmetic that wraps in a release build wraps here.
  A \<open>BTreeMap\<close> is a list of entries in key order, a \<open>HashMap\<close> an association list with distinct keys (or a
  mapping, where nothing iterates over it). Strings are ASCII. Functions of other crates (hash functions, the
  JSON codec, SQLite and the index behind the backing store) are arguments, with what the code relies on as
  hypotheses.

  \<^bold>\<open>The theories\<close>, in the order of the imports:

  \<^item> \<open>Prelude\<close>: outcomes, routines, checked arithmetic, ordered maps, big-endian numbers, and the locale of a
    simulation between two step functions.
  \<^item> \<open>Costs\<close>, \<open>CostTable\<close> (\<open>vm/costs\<close>): cost vectors, cost functions, the limited tracker, and the table of charges.
    Charges are exact sums that stop at the first excess; no entry of the table overflows on inputs below
    57 bits.
  \<^item> \<open>ClarityData\<close> (\<open>vm/types/mod.rs\<close>, \<open>vm/representations.rs\<close>, \<open>vm/errors.rs\<close>): names, principals, types, values, errors.
  \<^item> \<open>TypeSignatures\<close>, \<open>TypeLattice\<close>, \<open>TypeBounds\<close>, \<open>Values\<close> (\<open>vm/types/signatures.rs\<close>, \<open>vm/types/mod.rs\<close>): sizes, depths,
    constructors, admission and joins of types; constructors of values. Joins are least upper bounds of the
    admission order, constructors of types and wrappers of values accept exactly what is within the limits, where those of a
    value are computed on the value itself, and every well-formed value has its type.
  \<^item> \<open>Hex\<close>, \<open>Readers\<close>, \<open>Serialization\<close>, \<open>SerializationRoundTrip\<close> (\<open>util/hash.rs\<close>, \<open>util/retry.rs\<close>, \<open>vm/types/serialization.rs\<close>):
    the consensus codec of values. What is written for a well-formed value is read back at every type that
    admits it, up to the 16 levels of the reader and never beyond, and its length is bounded.
  \<^item> \<open>RollbackStore\<close> (\<open>vm/database/key_value_wrapper.rs\<close>): the nested store, refined to a stack of write logs.
  \<^item> \<open>AssetMaps\<close>, \<open>Contexts\<close> (\<open>vm/contexts.rs\<close>, \<open>chainstate/stacks/events.rs\<close>): asset maps, events, the global
    context, the call stack, local contexts. Merging adds amounts, nested contexts stay aligned, failed executions
    leave no trace.
  \<^item> \<open>Arithmetic_Natives\<close>, \<open>Natives\<close> (\<open>vm/functions\<close>): the functions on values alone.
  \<^item> \<open>Crockford\<close>, \<open>Principals\<close> (\<open>address/c32.rs\<close>, \<open>vm/types/mod.rs\<close>): addresses and principals as text, with round trips.
  \<^item> \<open>Expressions\<close> (\<open>vm/representations.rs\<close>, \<open>vm/types/signatures.rs\<close>, \<open>vm/callables.rs\<close>): symbolic expressions, type expressions,
    user functions, contract contexts. Parsed types are well-formed.

  \<^item> \<open>ClarityDB\<close>, \<open>DatabaseLaws\<close> (\<open>vm/database/clarity_db.rs\<close>): the database of contracts, variables, maps, tokens, accounts and
    block headers over the nested store. The record \<open>host\<close> holds what lies outside: the backing store, the headers, the hash
    functions and the JSON codecs. Data maps behave as partial maps for values of at most 15 levels, and different keys never coincide for
    addresses of versions below 32.
  \<^item> \<open>Machine\<close>, \<open>Specials\<close>, \<open>Database_Functions\<close>, \<open>Asset_Functions\<close>, \<open>Evaluator\<close>, \<open>Definitions\<close> (\<open>vm/mod.rs\<close>, \<open>vm/callables.rs\<close>,
    \<open>vm/functions\<close>, \<open>vm/contexts.rs\<close>): the interpreter. An action takes the machine (global context and call stack) and answers
    with an outcome and the machine it leaves; special forms take the interpreter as an argument, and the evaluator closes the recursion.
  \<^item> \<open>Effects\<close>, \<open>EvaluatorLaws\<close>, \<open>AssetLaws\<close>, \<open>ContractLaws\<close>: the locale \<open>vm_effect\<close> carries a relation between machines through
    every construct of the language; its interpretations show that evaluation ends, never lowers the total cost and
    keeps the frames of open contexts. From these: what failed calls and transactions did is undone, or in a context that stayed
    open (as happens when a public function does not answer with a response) and undone when it is rolled back; transfers move exactly
    their amount, minting stays within the supply, the names of a contract are distinct.
  \<^item> \<open>PostConditions\<close> (\<open>chainstate/stacks/mod.rs\<close>, \<open>chainstate/stacks/db/transactions.rs\<close>): post-conditions and their check,
    which accepts exactly when every condition holds and, in deny mode, every asset moved is covered.
  \<^item> \<open>Transactions\<close>, \<open>TransactionAuth\<close>, \<open>SigningLaws\<close> (\<open>chainstate/stacks/transaction.rs\<close>, \<open>chainstate/stacks/auth.rs\<close>,
    \<open>chainstate/stacks/address.rs\<close>, \<open>address/mod.rs\<close>): transactions, their encoding, the hashes of addresses, signing and verification. The
    record \<open>crypto\<close> holds the hash functions and the operations on the curve. What is signed by the keys it awaits verifies.
  \<^item> \<open>Processing\<close>, \<open>ProcessingLaws\<close> (\<open>vm/clarity.rs\<close>, \<open>chainstate/stacks/db/accounts.rs\<close>, \<open>chainstate/stacks/db/transactions.rs\<close>): the
    connection of a transaction, accounts, fees, nonces and payloads. Errors leave the store as it was, a success commits one
    log, a contract call is kept when its post-conditions hold and leaves only its costs otherwise, token transfers conserve STX.
  \<^item> \<open>MinerRewards\<close> (\<open>chainstate/stacks/db/accounts.rs\<close>): the rewards of miners and supporters stay within the coinbase
    when their addresses differ.

  \<^bold>\<open>Bounds and fuel.\<close> The recursive reader of serialized values takes the nesting depth of the code as its
  guard. The evaluator is iterated 65 times: \<open>apply\<close> refuses a call stack of 64, every nested application pushes on
  the stack, and \<open>evaluation_ends\<close> and \<open>evaluation_unfolds\<close> show that one more level is never asked for, so the result is that of the
  recursion of the code. No other definition needs fuel.

  \<^bold>\<open>Not modelled.\<close> Network, SQLite and file I/O, the vendored libraries, the command line and the logging have no
  logic that a pure model could keep; the index (MARF) and SQLite stand behind the backing store. Stack traces and the texts of most errors
  only decorate results and are left out. The lexer, the syntax passes and the static analysis are not modelled: contracts enter as
  parsed expressions, and processing takes the analysis as an argument of which it is assumed that it only reads.
  The readers of the transaction codec, blocks and microblocks, the burn chain operations and the selection of miners are not
  modelled; they rest on SQLite and on the network.
\<close>

end
